(* ===== verification/Prelude.thy ===== *)
theory Prelude imports Complex_Main "HOL-Library.List_Lexorder" "HOL-Library.Char_ord" begin

text \<open>
  What every component of the model shares: the exceptions the code raises, as
  values; results that are either an exception or a value; and the generic facts
  about tables kept as lists of rows (an \<open>UPDATE ... WHERE\<close>, a
  \<open>SELECT ... WHERE\<close>, an \<open>INSERT OR IGNORE\<close>, an \<open>ORDER BY\<close>).

  Times are seconds since the epoch. The database stores the string that
  orchestrator/clock.py's \<open>iso()\<close> makes of such an instant (UTC, seconds
  precision, fixed width), whose lexical order is the order of the instants, and
  the code only ever compares, copies and orders these strings. Dates
  (\<open>run_date\<close>) are kept as the strings they are.
\<close>

section \<open>Names, times, exceptions and results\<close>

type_synonym time = int
type_synonym date = string

text \<open>
  The exceptions the modelled code raises or catches. \<open>Other\<close> stands for any
  exception that an injected port (broker, Slack, agent turn) may raise.
\<close>

datatype exn =
    IllegalTransition | StaleTransition | ValueError | TypeError | KeyError | LookupError
  | OverflowError | ZeroDivisionError | OperationalError | IntegrityUnique | IntegrityForeignKey
  | IntegrityCheck | ValidationError | DisallowedWork | OrphanedSpecs | BacktestError string
  | PnlUnavailable | PermanentPostError | AttributeError | IndexError | Other string

type_synonym 'a res = "exn + 'a"

definition res_bind :: "'a res \<Rightarrow> ('a \<Rightarrow> 'b res) \<Rightarrow> 'b res" where
  "res_bind r f = (case r of Inl e \<Rightarrow> Inl e | Inr x \<Rightarrow> f x)"

lemma res_bind_simps [simp]:
  "res_bind (Inl e) f = Inl e"
  "res_bind (Inr x) f = f x"
  by (simp_all add: res_bind_def)

lemma res_bind_Inr: "res_bind r f = Inr y \<longleftrightarrow> (\<exists>x. r = Inr x \<and> f x = Inr y)"
  by (auto simp: res_bind_def split: sum.splits)

named_theorems table_simps \<open>how the table operations act on look-ups, counts and row sets\<close>
named_theorems status_simps \<open>what an operation does to the status columns\<close>
named_theorems frame_simps \<open>what an operation leaves alone\<close>

section \<open>Tables as lists of rows\<close>

text \<open>\<open>UPDATE t SET f WHERE P\<close>: every matching row is rewritten, the order is kept.\<close>

definition update_where :: "('r \<Rightarrow> bool) \<Rightarrow> ('r \<Rightarrow> 'r) \<Rightarrow> 'r list \<Rightarrow> 'r list" where
  "update_where P f xs = map (\<lambda>r. if P r then f r else r) xs"

text \<open>\<open>cursor.rowcount\<close> of that statement.\<close>

definition rowcount :: "('r \<Rightarrow> bool) \<Rightarrow> 'r list \<Rightarrow> nat" where
  "rowcount P xs = length (filter P xs)"

text \<open>\<open>SELECT * FROM t WHERE P\<close> with \<open>fetchone()\<close>.\<close>

definition fetchone :: "('r \<Rightarrow> bool) \<Rightarrow> 'r list \<Rightarrow> 'r option" where
  "fetchone P xs = find P xs"

text \<open>
  \<open>INSERT OR IGNORE\<close> against a unique key: the row is appended unless one with
  its key is there. The second component is the statement's row count as a flag.
\<close>

definition insert_or_ignore :: "('r \<Rightarrow> 'k) \<Rightarrow> 'r \<Rightarrow> 'r list \<Rightarrow> 'r list \<times> bool" where
  "insert_or_ignore key r xs = (if key r \<in> key ` set xs then (xs, False) else (xs @ [r], True))"

text \<open>The next value of an \<open>INTEGER PRIMARY KEY\<close>.\<close>

definition next_id :: "('r \<Rightarrow> int) \<Rightarrow> 'r list \<Rightarrow> int" where
  "next_id key xs = fold max (map key xs) 0 + 1"

definition unique_on :: "('r \<Rightarrow> 'k) \<Rightarrow> 'r list \<Rightarrow> bool" where
  "unique_on key xs = distinct (map key xs)"

lemma update_where_Nil [simp, table_simps]: "update_where P f [] = []"
  by (simp add: update_where_def)

lemma update_where_Cons [table_simps]:
  "update_where P f (r # rs) = (if P r then f r else r) # update_where P f rs"
  by (simp add: update_where_def)

lemma length_update_where [simp, table_simps]: "length (update_where P f xs) = length xs"
  by (simp add: update_where_def)

lemma set_update_where [table_simps]:
  "set (update_where P f xs) = f ` {r \<in> set xs. P r} \<union> {r \<in> set xs. \<not> P r}"
  by (auto simp: update_where_def)

lemma update_where_none: "\<forall>r\<in>set xs. \<not> P r \<Longrightarrow> update_where P f xs = xs"
  by (auto simp: update_where_def intro: map_idI)

lemma map_update_where_key [table_simps]:
  "(\<And>r. key (f r) = key r) \<Longrightarrow> map key (update_where P f xs) = map key xs"
  by (simp add: update_where_def)

lemma unique_on_update_where [table_simps]:
  "(\<And>r. key (f r) = key r) \<Longrightarrow> unique_on key (update_where P f xs) = unique_on key xs"
  by (simp add: unique_on_def map_update_where_key)

lemma fetchone_None: "fetchone P xs = None \<longleftrightarrow> (\<forall>r\<in>set xs. \<not> P r)"
  by (auto simp: fetchone_def find_None_iff)

lemma fetchone_SomeD: "fetchone P xs = Some r \<Longrightarrow> r \<in> set xs \<and> P r"
  by (auto simp: fetchone_def find_Some_iff)

lemma fetchone_Nil [simp]: "fetchone P [] = None"
  by (simp add: fetchone_def)

lemma fetchone_Cons [simp]: "fetchone P (x # xs) = (if P x then Some x else fetchone P xs)"
  by (simp add: fetchone_def)

lemma fetchone_append: "fetchone P (xs @ ys) =
    (case fetchone P xs of None \<Rightarrow> fetchone P ys | Some r \<Rightarrow> Some r)"
  by (induction xs) auto

lemma unique_onD:
  "unique_on key xs \<Longrightarrow> r \<in> set xs \<Longrightarrow> r' \<in> set xs \<Longrightarrow> key r = key r' \<Longrightarrow> r = r'"
  by (auto simp: unique_on_def distinct_map inj_on_def)

lemma fetchone_unique:
  assumes "unique_on key xs" and "r \<in> set xs" and "key r = k"
  shows "fetchone (\<lambda>r. key r = k) xs = Some r"
proof -
  have "fetchone (\<lambda>r. key r = k) xs \<noteq> None"
    using assms(2,3) by (auto simp: fetchone_None)
  then obtain r' where "fetchone (\<lambda>r. key r = k) xs = Some r'" by auto
  moreover from fetchone_SomeD [OF this] have "r' = r"
    using unique_onD [OF assms(1)] assms(2,3) by auto
  ultimately show ?thesis by simp
qed

lemma rowcount_pos: "0 < rowcount P xs \<longleftrightarrow> (\<exists>r\<in>set xs. P r)"
  by (auto simp: rowcount_def filter_empty_conv)

lemma rowcount_unique:
  assumes "unique_on key xs" and "\<And>r. P r \<Longrightarrow> key r = k"
  shows "rowcount P xs = (if \<exists>r\<in>set xs. P r then 1 else 0)"
  using assms
proof (induction xs)
  case Nil
  then show ?case by (simp add: rowcount_def)
next
  case (Cons x xs)
  from Cons.prems(1) have u: "unique_on key xs" and x: "key x \<notin> key ` set xs"
    by (auto simp: unique_on_def)
  have "P x \<Longrightarrow> \<forall>r\<in>set xs. \<not> P r"
    using x Cons.prems(2) by (metis imageI)
  with Cons.IH [OF u Cons.prems(2)] show ?case
    by (auto simp: rowcount_def filter_empty_conv)
qed

text \<open>
  The two facts behind every compare-and-swap: an update that keeps the key acts on the
  row found under a key, and its row count says whether that row matched.
\<close>

lemma fetchone_update_where [table_simps]:
  assumes "\<And>r. key (f r) = key r"
  shows "fetchone (\<lambda>r. key r = k) (update_where P f xs)
    = map_option (\<lambda>r. if P r then f r else r) (fetchone (\<lambda>r. key r = k) xs)"
  by (induction xs) (auto simp: update_where_def assms)

lemma fetchone_update_hit:
  assumes "fetchone (\<lambda>r. key r = k) xs = Some r" and "P r" and "\<And>r. key (f r) = key r"
  shows "fetchone (\<lambda>r. key r = k) (update_where P f xs) = Some (f r)"
  using assms by (simp add: fetchone_update_where)

text \<open>The same for a status column: a hit sets it.\<close>

lemma status_update_hit:
  assumes "fetchone (\<lambda>r. key r = k) xs = Some z" and "key z = k \<Longrightarrow> P z"
    and "st (f z) = b" and "\<And>r. key (f r) = key r"
  shows "\<exists>r. fetchone (\<lambda>r. key r = k) (update_where P f xs) = Some r \<and> st r = b"
  using assms fetchone_SomeD [OF assms(1)] by (auto simp: fetchone_update_hit)

lemma rowcount_key:
  assumes "unique_on key xs"
  shows "rowcount (\<lambda>r. key r = k \<and> Q r) xs
    = (case fetchone (\<lambda>r. key r = k) xs of None \<Rightarrow> 0 | Some r \<Rightarrow> if Q r then 1 else 0)"
proof (cases "fetchone (\<lambda>r. key r = k) xs")
  case None
  then have "\<forall>r\<in>set xs. key r \<noteq> k" by (simp add: fetchone_None)
  then show ?thesis using None by (auto simp: rowcount_def filter_empty_conv)
next
  case (Some r)
  from fetchone_SomeD [OF this] have r: "r \<in> set xs" "key r = k" by auto
  have "(\<exists>r'\<in>set xs. key r' = k \<and> Q r') \<longleftrightarrow> Q r"
    using r unique_onD [OF assms] by metis
  then show ?thesis
    using rowcount_unique [OF assms, of "\<lambda>r. key r = k \<and> Q r" k] Some by simp
qed

lemma rowcount_0_update: "rowcount P xs = 0 \<Longrightarrow> update_where P f xs = xs"
  by (rule update_where_none) (auto simp: rowcount_def filter_empty_conv)

lemma insert_or_ignore_set: "set (fst (insert_or_ignore key r xs)) \<subseteq> insert r (set xs)"
  by (auto simp: insert_or_ignore_def)

lemma insert_or_ignore_keeps: "set xs \<subseteq> set (fst (insert_or_ignore key r xs))"
  by (auto simp: insert_or_ignore_def)

lemma insert_or_ignore_key: "key r \<in> key ` set (fst (insert_or_ignore key r xs))"
  by (auto simp: insert_or_ignore_def)

lemma insert_or_ignore_unique:
  "unique_on key xs \<Longrightarrow> unique_on key (fst (insert_or_ignore key r xs))"
  by (auto simp: insert_or_ignore_def unique_on_def)

lemma insert_or_ignore_twice:
  "key r' = key r \<Longrightarrow>
   insert_or_ignore key r' (fst (insert_or_ignore key r xs)) = (fst (insert_or_ignore key r xs), False)"
  by (auto simp: insert_or_ignore_def)

lemma fold_max_mono: "(a::int) \<le> b \<Longrightarrow> fold max xs a \<le> fold max xs b"
  by (induction xs arbitrary: a b) (auto intro: max.mono)

lemma fold_max_ge: "a \<le> fold max xs (a::int)"
proof (induction xs arbitrary: a)
  case (Cons x xs)
  show ?case using Cons.IH [of "max x a"] by simp
qed simp

lemma fold_max_mem: "x \<in> set xs \<Longrightarrow> x \<le> fold max xs (a::int)"
proof (induction xs arbitrary: a)
  case (Cons y ys)
  then show ?case
    using fold_max_ge [of "max y a" ys] by auto
qed simp

lemma next_id_fresh: "r \<in> set xs \<Longrightarrow> key r < next_id key xs"
  using fold_max_mem [of "key r" "map key xs" 0] by (auto simp: next_id_def)

lemma next_id_not_mem: "next_id key xs \<notin> key ` set xs"
  using next_id_fresh [of _ xs key] by fastforce

lemma unique_on_next_id:
  "unique_on key xs \<Longrightarrow> key r = next_id key xs \<Longrightarrow> unique_on key (xs @ [r])"
  using next_id_not_mem [of key xs] by (auto simp: unique_on_def)

text \<open>Two updates that write the same constant are one.\<close>

lemma update_where_fuse:
  "(\<And>r. f (f r) = f r) \<Longrightarrow> (\<And>r. Q r \<Longrightarrow> \<not> P (f r)) \<Longrightarrow>
   update_where P f (update_where Q f xs) = update_where (\<lambda>r. P r \<or> Q r) f xs"
  by (auto simp: update_where_def)

lemma mem_update_where: "x \<in> set (update_where P f xs) \<longleftrightarrow> (\<exists>y\<in>set xs. x = (if P y then f y else y))"
  by (auto simp: update_where_def)

lemma update_where_other:
  "(\<And>r. P r \<Longrightarrow> key r = k) \<Longrightarrow> (\<And>r. key (f r) = key r) \<Longrightarrow> key x \<noteq> k \<Longrightarrow>
   x \<in> set (update_where P f xs) \<longleftrightarrow> x \<in> set xs"
  by (induction xs) (auto simp: update_where_def)

lemma update_where_cong:
  "(\<And>r. r \<in> set xs \<Longrightarrow> P r = Q r) \<Longrightarrow> update_where P f xs = update_where Q f xs"
  by (simp add: update_where_def)

end
