(* ===== verification/PyFloat.thy ===== *)
theory PyFloat imports Prelude "HOL-Library.Log_Nat" begin

text \<open>
  Python's \<open>float\<close>: IEEE 754 binary64, with every operation rounded to nearest,
  ties to even, as the hardware does it. A finite value is the rational number it
  denotes; the two infinities and NaN are values of their own. The two zeros are
  one value, as they are to every comparison the modelled code makes.
\<close>

datatype pyfloat = Fin rat | PInf | NInf | NaN

section \<open>Rounding a rational to binary64\<close>

definition pow2 :: "int \<Rightarrow> rat" where
  "pow2 e = (if 0 \<le> e then 2 ^ nat e else 1 / 2 ^ nat (- e))"

text \<open>The binary exponent of a positive rational: \<open>2^e \<le> q < 2^(e+1)\<close>.\<close>

definition ilog2 :: "rat \<Rightarrow> int" where
  "ilog2 q = (let (n, d) = quotient_of q; k = bitlen n - bitlen d
              in if pow2 k \<le> q then k else k - 1)"

text \<open>Round half to even.\<close>

definition rhe :: "rat \<Rightarrow> int" where
  "rhe x = (let f = \<lfloor>x\<rfloor>; r = x - of_int f
            in if r < 1/2 then f else if 1/2 < r then f + 1
               else if even f then f else f + 1)"

text \<open>The unit in the last place of \<open>q\<close>; below \<open>2^-1022\<close> it is fixed (subnormals).\<close>

definition ulp :: "rat \<Rightarrow> rat" where
  "ulp q = pow2 (max (ilog2 \<bar>q\<bar>) (- 1022) - 52)"

definition rq :: "rat \<Rightarrow> rat" where
  "rq q = (if q = 0 then 0 else of_int (rhe (q / ulp q)) * ulp q)"

text \<open>
  Overflow: a rounded magnitude of \<open>2^1024\<close> or more is infinite. \<open>rq\<close> never
  returns a non-zero value with a larger exponent than that without being caught here.
\<close>

definition overflows :: "rat \<Rightarrow> bool" where
  "overflows r = (r \<noteq> 0 \<and> 1024 \<le> ilog2 \<bar>r\<bar>)"

definition rnd :: "rat \<Rightarrow> pyfloat" where
  "rnd q = (let r = rq q
            in if overflows r then (if 0 < r then PInf else NInf) else Fin r)"

section \<open>Facts about the rounding\<close>

lemma pow2_powi: "pow2 e = 2 powi e"
  by (simp add: pow2_def power_int_def field_simps)

lemma pow2_pos [simp]: "0 < pow2 e"
  by (simp add: pow2_powi)

lemma pow2_nonneg [simp]: "0 \<le> pow2 e"
  using pow2_pos [of e] by linarith

lemma pow2_neq0 [simp]: "pow2 e \<noteq> 0"
  using pow2_pos [of e] by linarith

lemma pow2_add: "pow2 (a + b) = pow2 a * pow2 b"
  by (simp add: pow2_powi power_int_add)

lemma pow2_mono: "a \<le> b \<Longrightarrow> pow2 a \<le> pow2 b"
  by (simp add: pow2_powi power_int_increasing)

lemma pow2_strict_mono: "a < b \<Longrightarrow> pow2 a < pow2 b"
  by (simp add: pow2_powi power_int_strict_increasing)

lemma pow2_le_iff [simp]: "pow2 a \<le> pow2 b \<longleftrightarrow> a \<le> b"
  using pow2_mono pow2_strict_mono by (meson linorder_not_le)

lemma pow2_less_iff [simp]: "pow2 a < pow2 b \<longleftrightarrow> a < b"
  using pow2_le_iff [of b a] by linarith

lemma pow2_nat: "pow2 (int n) = 2 ^ n"
  by (simp add: pow2_def)

lemma ilog2_bounds:
  assumes "0 < q"
  shows "pow2 (ilog2 q) \<le> q \<and> q < pow2 (ilog2 q + 1)"
proof -
  obtain n d where nd: "quotient_of q = (n, d)" by fastforce
  have d: "0 < d" using quotient_of_denom_pos nd by blast
  have q: "q = of_int n / of_int d" using quotient_of_div nd by blast
  have n: "0 < n" using assms d q by (simp add: zero_less_divide_iff)
  define k where "k = bitlen n - bitlen d"
  have up: "of_int n < pow2 (bitlen n)" and lo: "pow2 (bitlen n - 1) \<le> of_int n"
    if "0 < n" for n
  proof -
    have b: "0 < bitlen n" using that bitlen_bounds [of n]
      by (smt (verit) bitlen_eq_zero_iff bitlen_nonneg)
    from bitlen_bounds [OF that]
    have "2 ^ nat (bitlen n - 1) \<le> n" "n < 2 ^ nat (bitlen n)" by auto
    then have "(of_int (2 ^ nat (bitlen n - 1)) :: rat) \<le> of_int n"
      and "(of_int n :: rat) < of_int (2 ^ nat (bitlen n))"
      unfolding of_int_le_iff of_int_less_iff by auto
    then show "of_int n < pow2 (bitlen n)" "pow2 (bitlen n - 1) \<le> of_int n"
      using b by (auto simp: pow2_def)
  qed
  have dpos: "(0::rat) < of_int d" using d by simp
  have "q < pow2 (k + 1)"
  proof -
    have "of_int n < pow2 (k + 1) * pow2 (bitlen d - 1)"
      using up [OF n] by (simp add: k_def flip: pow2_add)
    also have "\<dots> \<le> pow2 (k + 1) * of_int d"
      using lo [OF d] by (simp add: mult_left_mono)
    finally show ?thesis using dpos by (simp add: q pos_divide_less_eq)
  qed
  moreover have "pow2 (k - 1) \<le> q"
  proof -
    have "pow2 (k - 1) * of_int d \<le> pow2 (k - 1) * pow2 (bitlen d)"
      using up [OF d] by (simp add: mult_left_mono)
    also have "\<dots> \<le> of_int n"
      using lo [OF n] by (simp add: k_def flip: pow2_add)
    finally show ?thesis using dpos by (simp add: q pos_le_divide_eq)
  qed
  ultimately show ?thesis
    by (auto simp: ilog2_def nd Let_def k_def)
qed

lemma ilog2_unique:
  assumes "pow2 e \<le> q" and "q < pow2 (e + 1)"
  shows "ilog2 q = e"
proof -
  have "0 < q" using assms(1) pow2_pos [of e] by linarith
  from ilog2_bounds [OF this] assms have "pow2 e < pow2 (ilog2 q + 1)" "pow2 (ilog2 q) < pow2 (e + 1)"
    by linarith+
  then show ?thesis by simp
qed

lemma ilog2_mono: "0 < p \<Longrightarrow> p \<le> q \<Longrightarrow> ilog2 p \<le> ilog2 q"
  using ilog2_bounds [of p] ilog2_bounds [of q]
  by (smt (verit) order_less_le_trans order_le_less_trans pow2_less_iff)

lemma ilog2_ge_iff: "0 < q \<Longrightarrow> e \<le> ilog2 q \<longleftrightarrow> pow2 e \<le> q"
  using ilog2_bounds [of q] pow2_le_iff
  by (smt (verit) order_le_less_trans order_trans pow2_less_iff)

lemma rhe_cases: "rhe x = \<lfloor>x\<rfloor> \<and> x - of_int \<lfloor>x\<rfloor> \<le> 1/2 \<or>
    rhe x = \<lfloor>x\<rfloor> + 1 \<and> 1/2 \<le> x - of_int \<lfloor>x\<rfloor>"
  by (auto simp: rhe_def Let_def)

lemma rhe_err: "\<bar>of_int (rhe x) - x\<bar> \<le> 1/2"
  using rhe_cases [of x] of_int_floor_le [of x] floor_correct [of x] by auto

lemma rhe_of_int [simp]: "rhe (of_int n) = n"
  by (simp add: rhe_def)

lemma rhe_mono:
  assumes "x \<le> y"
  shows "rhe x \<le> rhe y"
proof (cases "\<lfloor>x\<rfloor> = \<lfloor>y\<rfloor>")
  case True
  with assms show ?thesis by (auto simp: rhe_def Let_def)
next
  case False
  with floor_mono [OF assms] have "\<lfloor>x\<rfloor> + 1 \<le> \<lfloor>y\<rfloor>" by simp
  then show ?thesis using rhe_cases [of x] rhe_cases [of y] by linarith
qed

lemma rhe_minus: "rhe (- x) = - rhe x"
proof (cases "x = of_int \<lfloor>x\<rfloor>")
  case True
  then show ?thesis using rhe_of_int [of "\<lfloor>x\<rfloor>"] rhe_of_int [of "- \<lfloor>x\<rfloor>"] by simp
next
  case False
  then have fl: "\<lfloor>- x\<rfloor> = - \<lfloor>x\<rfloor> - 1"
    using of_int_floor_le [of x] floor_correct [of x]
    by (intro floor_unique) (auto simp: less_le)
  then show ?thesis by (simp add: rhe_def Let_def)
qed

lemma rhe_ge_of_int: "of_int n \<le> x \<Longrightarrow> n \<le> rhe x"
  using rhe_mono [of "of_int n" x] by simp

lemma rhe_le_of_int: "x \<le> of_int n \<Longrightarrow> rhe x \<le> n"
  using rhe_mono [of x "of_int n"] by simp

lemma ulp_minus [simp]: "ulp (- q) = ulp q"
  by (simp add: ulp_def)

lemma ulp_pos [simp]: "0 < ulp q"
  by (simp add: ulp_def)

lemma ulp_neq0 [simp]: "ulp q \<noteq> 0"
  using ulp_pos [of q] by linarith

lemma rq_0 [simp]: "rq 0 = 0"
  by (simp add: rq_def)

lemma rq_minus: "rq (- q) = - rq q"
  by (simp add: rq_def rhe_minus)

lemma rq_err: "\<bar>rq q - q\<bar> \<le> ulp q / 2"
proof (cases "q = 0")
  case False
  have "\<bar>of_int (rhe (q / ulp q)) - q / ulp q\<bar> * ulp q \<le> 1/2 * ulp q"
    by (intro mult_right_mono rhe_err) (simp add: less_imp_le)
  moreover have "rq q - q = (of_int (rhe (q / ulp q)) - q / ulp q) * ulp q"
    using False ulp_pos [of q] by (simp add: rq_def left_diff_distrib)
  then have "\<bar>of_int (rhe (q / ulp q)) - q / ulp q\<bar> * ulp q = \<bar>rq q - q\<bar>"
    by (simp add: abs_mult abs_of_pos)
  ultimately show ?thesis by simp
qed (simp add: less_imp_le)

lemma rq_nonneg: "0 \<le> q \<Longrightarrow> 0 \<le> rq q"
  using rhe_ge_of_int [of 0 "q / ulp q"] by (auto simp: rq_def less_imp_le)

lemma rq_nonpos: "q \<le> 0 \<Longrightarrow> rq q \<le> 0"
  using rq_nonneg [of "- q"] by (simp add: rq_minus)

lemma rq_le_pow2:
  assumes "0 < q" and "q \<le> pow2 (e + 1)" and "max (ilog2 q) (- 1022) = e"
  shows "rq q \<le> pow2 (e + 1)"
proof -
  have u: "ulp q = pow2 (e - 52)" using assms by (simp add: ulp_def)
  have "pow2 (e + 1) = 2 ^ 53 * pow2 (e - 52)"
    using pow2_add [of 53 "e - 52"] pow2_nat [of 53] by (simp add: add.commute)
  then have "q / ulp q \<le> of_int (2 ^ 53)" and eq: "of_int (2 ^ 53) * ulp q = pow2 (e + 1)"
    using assms(2) by (simp_all add: u pos_divide_le_eq)
  then have "rhe (q / ulp q) \<le> 2 ^ 53" by (intro rhe_le_of_int)
  then have "(of_int (rhe (q / ulp q)) :: rat) \<le> of_int (2 ^ 53)" by (simp only: of_int_le_iff)
  then have "of_int (rhe (q / ulp q)) * ulp q \<le> of_int (2 ^ 53) * ulp q"
    by (intro mult_right_mono) (simp_all add: less_imp_le)
  with eq assms(1) show ?thesis by (simp add: rq_def)
qed

lemma rq_ge_pow2:
  assumes "0 < q" and "pow2 e \<le> q" and "max (ilog2 q) (- 1022) = e"
  shows "pow2 e \<le> rq q"
proof -
  have u: "ulp q = pow2 (e - 52)" using assms by (simp add: ulp_def)
  have "pow2 e = 2 ^ 52 * pow2 (e - 52)"
    using pow2_add [of 52 "e - 52"] pow2_nat [of 52] by simp
  then have "of_int (2 ^ 52) \<le> q / ulp q" and eq: "of_int (2 ^ 52) * ulp q = pow2 e"
    using assms(2) by (simp_all add: u pos_le_divide_eq)
  then have "2 ^ 52 \<le> rhe (q / ulp q)" by (intro rhe_ge_of_int)
  then have "(of_int (2 ^ 52) :: rat) \<le> of_int (rhe (q / ulp q))" by (simp only: of_int_le_iff)
  then have "of_int (2 ^ 52) * ulp q \<le> of_int (rhe (q / ulp q)) * ulp q"
    by (intro mult_right_mono) (simp_all add: less_imp_le)
  with eq assms(1) show ?thesis by (simp add: rq_def)
qed

lemma rq_mono_pos:
  assumes "0 < p" and "p \<le> q"
  shows "rq p \<le> rq q"
proof -
  define e where "e = max (ilog2 p) (- 1022)"
  define e' where "e' = max (ilog2 q) (- 1022)"
  have "0 < q" using assms by simp
  have "e \<le> e'" using ilog2_mono [OF assms] by (simp add: e_def e'_def)
  show ?thesis
  proof (cases "e = e'")
    case True
    then have "ulp p = ulp q" using assms by (simp add: ulp_def e_def e'_def)
    with assms show ?thesis
      by (simp add: rq_def rhe_mono divide_right_mono mult_right_mono less_imp_le)
  next
    case False
    with \<open>e \<le> e'\<close> have lt: "e + 1 \<le> e'" by simp
    then have e': "e' = ilog2 q" by (simp add: e_def e'_def)
    have "p \<le> pow2 (e + 1)"
      using ilog2_bounds [OF assms(1)] pow2_le_iff [of "ilog2 p + 1" "e + 1"] unfolding e_def by linarith
    then have "rq p \<le> pow2 (e + 1)" by (rule rq_le_pow2 [OF assms(1)]) (simp add: e_def)
    also have "\<dots> \<le> pow2 e'" using lt by simp
    also have "\<dots> \<le> rq q"
      by (rule rq_ge_pow2 [OF \<open>0 < q\<close>]) (use ilog2_bounds [OF \<open>0 < q\<close>] e' e'_def in auto)
    finally show ?thesis .
  qed
qed

lemma rq_mono: "p \<le> q \<Longrightarrow> rq p \<le> rq q"
proof -
  assume pq: "p \<le> q"
  consider "0 < p" | "p \<le> 0" "0 \<le> q" | "q < 0" using pq by linarith
  then show "rq p \<le> rq q"
  proof cases
    case 1
    then show ?thesis using pq by (rule rq_mono_pos)
  next
    case 2
    then show ?thesis using rq_nonpos rq_nonneg order_trans by blast
  next
    case 3
    then show ?thesis using rq_mono_pos [of "- q" "- p"] pq by (simp add: rq_minus)
  qed
qed

text \<open>The relative error of one rounding: half a unit in the last of 53 bits.\<close>

definition eps :: rat where
  "eps = 1 / 2 ^ 53"

lemma eps_pos [simp]: "0 < eps" "0 \<le> eps" "eps \<noteq> 0"
  by (simp_all add: eps_def)

lemma rq_err_rel:
  assumes "pow2 (- 1022) \<le> \<bar>q\<bar>"
  shows "\<bar>rq q - q\<bar> \<le> eps * \<bar>q\<bar>"
proof -
  have pos: "0 < \<bar>q\<bar>" using assms pow2_pos [of "- 1022"] by linarith
  then have "- 1022 \<le> ilog2 \<bar>q\<bar>" using assms by (simp add: ilog2_ge_iff)
  then have "ulp q / 2 = eps * pow2 (ilog2 \<bar>q\<bar>)"
    by (simp add: ulp_def eps_def max_def pow2_powi power_int_diff)
  also have "\<dots> \<le> eps * \<bar>q\<bar>"
    using ilog2_bounds [OF pos] by (intro mult_left_mono) auto
  finally show ?thesis using rq_err [of q] by linarith
qed

lemma rq_err_abs: "\<bar>rq q - q\<bar> \<le> eps * \<bar>q\<bar> + pow2 (- 1075)"
proof (cases "pow2 (- 1022) \<le> \<bar>q\<bar>")
  case True
  with rq_err_rel [OF this] show ?thesis using pow2_nonneg [of "- 1075"] by linarith
next
  case False
  show ?thesis
  proof (cases "q = 0")
    case False
    with \<open>\<not> pow2 (- 1022) \<le> \<bar>q\<bar>\<close> have "ilog2 \<bar>q\<bar> < - 1022"
      using ilog2_ge_iff [of "\<bar>q\<bar>" "- 1022"] by simp
    then have "ulp q / 2 = pow2 (- 1075)"
      using pow2_add [of "- 1075" 1] by (simp add: ulp_def pow2_def [of 1])
    moreover have "0 \<le> eps * \<bar>q\<bar>" by simp
    ultimately show ?thesis using rq_err [of q] by linarith
  qed simp
qed

lemma rq_exact: "q = of_int m * ulp q \<Longrightarrow> rq q = q"
  using ulp_pos [of q] by (metis rq_def rhe_of_int nonzero_mult_div_cancel_right less_irrefl)

lemma rq_of_int:
  assumes "\<bar>n\<bar> \<le> 2 ^ 53"
  shows "rq (of_int n) = of_int n"
proof (cases "n = 0")
  case False
  define e where "e = ilog2 \<bar>of_int n\<bar>"
  have n1: "1 \<le> \<bar>n\<bar>" using False by linarith
  have pos: "0 < \<bar>of_int n :: rat\<bar>" using False by simp
  have "pow2 0 \<le> \<bar>of_int n\<bar>" using n1 by (simp add: pow2_def flip: of_int_abs)
  then have e0: "0 \<le> e" using pos by (simp add: e_def ilog2_ge_iff)
  have n53: "\<bar>of_int n :: rat\<bar> \<le> 2 ^ 53"
    using assms by (metis of_int_abs of_int_le_iff of_int_numeral of_int_power)
  show ?thesis
  proof (cases "e \<le> 52")
    case True
    have "(of_int n :: rat) = of_int (n * 2 ^ nat (52 - e)) * ulp (of_int n)"
      using e0 True by (simp add: ulp_def flip: e_def) (simp add: pow2_def max_def)
    then show ?thesis by (rule rq_exact)
  next
    case False
    have "pow2 53 \<le> pow2 e" using False by simp
    also have "pow2 e \<le> \<bar>of_int n\<bar>" using ilog2_bounds [OF pos] by (simp add: e_def)
    finally have eq: "\<bar>of_int n :: rat\<bar> = 2 ^ 53" using n53 pow2_nat [of 53] by simp
    have "e = 53"
      unfolding e_def eq using pow2_nat [of 53] pow2_nat [of 54] by (intro ilog2_unique) simp_all
    have ulp: "ulp (of_int n) = 2"
      using \<open>e = 53\<close> by (simp add: ulp_def pow2_def flip: e_def)
    have "(of_int n :: rat) = of_int (sgn n * 2 ^ 52) * ulp (of_int n)"
      using eq False by (auto simp: ulp abs_if sgn_if split: if_splits)
    then show ?thesis by (rule rq_exact)
  qed
qed simp

section \<open>Operations on floats\<close>

text \<open>The comparisons; every comparison with NaN is false.\<close>

fun flt :: "pyfloat \<Rightarrow> pyfloat \<Rightarrow> bool" where
  "flt (Fin a) (Fin b) = (a < b)"
| "flt NaN _ = False"
| "flt _ NaN = False"
| "flt NInf y = (y \<noteq> NInf)"
| "flt x PInf = (x \<noteq> PInf)"
| "flt _ _ = False"

definition feq :: "pyfloat \<Rightarrow> pyfloat \<Rightarrow> bool" where
  "feq x y = (x \<noteq> NaN \<and> x = y)"

definition fle :: "pyfloat \<Rightarrow> pyfloat \<Rightarrow> bool" where
  "fle x y = (flt x y \<or> feq x y)"

fun isfinite :: "pyfloat \<Rightarrow> bool" where
  "isfinite (Fin _) = True"
| "isfinite _ = False"

fun fneg :: "pyfloat \<Rightarrow> pyfloat" where
  "fneg (Fin a) = Fin (- a)"
| "fneg PInf = NInf"
| "fneg NInf = PInf"
| "fneg NaN = NaN"

fun fadd :: "pyfloat \<Rightarrow> pyfloat \<Rightarrow> pyfloat" where
  "fadd (Fin a) (Fin b) = rnd (a + b)"
| "fadd NaN _ = NaN"
| "fadd _ NaN = NaN"
| "fadd PInf NInf = NaN"
| "fadd NInf PInf = NaN"
| "fadd PInf _ = PInf"
| "fadd NInf _ = NInf"
| "fadd (Fin _) y = y"

definition fsub :: "pyfloat \<Rightarrow> pyfloat \<Rightarrow> pyfloat" where
  "fsub x y = fadd x (fneg y)"

text \<open>The sign of a non-NaN value, as an integer.\<close>

fun fsgn :: "pyfloat \<Rightarrow> int" where
  "fsgn (Fin a) = (if a < 0 then - 1 else if a = 0 then 0 else 1)"
| "fsgn PInf = 1"
| "fsgn NInf = - 1"
| "fsgn NaN = 0"

definition finf :: "int \<Rightarrow> pyfloat" where
  "finf s = (if s < 0 then NInf else if s = 0 then NaN else PInf)"

fun fmul :: "pyfloat \<Rightarrow> pyfloat \<Rightarrow> pyfloat" where
  "fmul (Fin a) (Fin b) = rnd (a * b)"
| "fmul NaN _ = NaN"
| "fmul _ NaN = NaN"
| "fmul x y = finf (fsgn x * fsgn y)"

text \<open>Python's \<open>/\<close> raises on a zero divisor, whatever the dividend is.\<close>

fun fdiv :: "pyfloat \<Rightarrow> pyfloat \<Rightarrow> pyfloat res" where
  "fdiv x (Fin b) = (if b = 0 then Inl ZeroDivisionError else
     (case x of Fin a \<Rightarrow> Inr (rnd (a / b)) | NaN \<Rightarrow> Inr NaN
      | _ \<Rightarrow> Inr (finf (fsgn x * fsgn (Fin b)))))"
| "fdiv x NaN = Inr NaN"
| "fdiv x y = (case x of Fin _ \<Rightarrow> Inr (Fin 0) | _ \<Rightarrow> Inr NaN)"

text \<open>The builtins \<open>min(x, y)\<close> and \<open>max(x, y)\<close> keep \<open>x\<close> unless \<open>y\<close> is strictly better.\<close>

definition fmin :: "pyfloat \<Rightarrow> pyfloat \<Rightarrow> pyfloat" where
  "fmin x y = (if flt y x then y else x)"

definition fmax :: "pyfloat \<Rightarrow> pyfloat \<Rightarrow> pyfloat" where
  "fmax x y = (if flt x y then y else x)"

text \<open>\<open>math.floor\<close>\<close>

fun ffloor :: "pyfloat \<Rightarrow> int res" where
  "ffloor (Fin a) = Inr \<lfloor>a\<rfloor>"
| "ffloor NaN = Inl ValueError"
| "ffloor _ = Inl OverflowError"

text \<open>\<open>float(n)\<close> for an \<open>int\<close>: too large an integer raises.\<close>

definition float_of_int :: "int \<Rightarrow> pyfloat res" where
  "float_of_int n = (case rnd (of_int n) of Fin q \<Rightarrow> Inr (Fin q) | _ \<Rightarrow> Inl OverflowError)"

section \<open>Facts about the operations\<close>

lemma flt_irrefl [simp]: "\<not> flt x x"
  by (cases x) auto

lemma feq_Fin [simp]: "feq (Fin a) (Fin b) \<longleftrightarrow> a = b"
  by (simp add: feq_def)

lemma feq_NaN [simp]: "\<not> feq NaN x" "\<not> feq x NaN"
  by (auto simp: feq_def)

lemma fle_Fin [simp]: "fle (Fin a) (Fin b) \<longleftrightarrow> a \<le> b"
  by (auto simp: fle_def)

lemma fle_NaN [simp]: "\<not> fle NaN x" "\<not> fle x NaN"
  by (cases x; simp add: fle_def feq_def)+

lemma isfinite_iff: "isfinite x \<longleftrightarrow> (\<exists>a. x = Fin a)"
  by (cases x) auto

lemma rnd_FinD: "rnd q = Fin r \<Longrightarrow> r = rq q"
  by (auto simp: rnd_def Let_def split: if_splits)

lemma rnd_not_NaN [simp]: "rnd q \<noteq> NaN" "NaN \<noteq> rnd q"
  by (auto simp: rnd_def Let_def)

lemma rnd_0 [simp]: "rnd 0 = Fin 0"
  by (simp add: rnd_def overflows_def)

lemma overflows_iff: "overflows r \<longleftrightarrow> pow2 1024 \<le> \<bar>r\<bar>"
  using pow2_pos [of 1024] ilog2_ge_iff [of "\<bar>r\<bar>" 1024]
  by (cases "r = 0") (auto simp: overflows_def simp del: pow2_pos)

lemma rnd_mono: "p \<le> q \<Longrightarrow> fle (rnd p) (rnd q)"
proof -
  assume "p \<le> q"
  from rq_mono [OF this] show ?thesis
    using pow2_pos [of 1024]
    by (auto simp: rnd_def Let_def overflows_iff fle_def feq_def simp del: pow2_pos)
qed

lemma rnd_of_int:
  assumes "\<bar>n\<bar> \<le> 2 ^ 53"
  shows "rnd (of_int n) = Fin (of_int n)"
proof -
  have "\<bar>of_int n :: rat\<bar> \<le> 2 ^ 53"
    using assms by (metis of_int_abs of_int_le_iff of_int_numeral of_int_power)
  also have "(2 :: rat) ^ 53 = pow2 53"
    using pow2_nat [of 53] by simp
  also have "\<dots> < pow2 1024"
    by (simp only: pow2_less_iff)
  finally show ?thesis
    by (simp add: rnd_def rq_of_int [OF assms] overflows_iff)
qed

lemma rnd_nonneg: "0 \<le> q \<Longrightarrow> rnd q = PInf \<or> (\<exists>r. rnd q = Fin r \<and> 0 \<le> r)"
  using rq_nonneg [of q] by (auto simp: rnd_def Let_def overflows_def)

lemma rnd_err_rel:
  "rnd q = Fin r \<Longrightarrow> pow2 (- 1022) \<le> \<bar>q\<bar> \<Longrightarrow> \<bar>r - q\<bar> \<le> eps * \<bar>q\<bar>"
  using rq_err_rel rnd_FinD by blast

lemma rnd_err_abs: "rnd q = Fin r \<Longrightarrow> \<bar>r - q\<bar> \<le> eps * \<bar>q\<bar> + pow2 (- 1075)"
  using rq_err_abs rnd_FinD by blast

text \<open>A rounded quotient of at least 1 comes from one that is at most a relative error smaller.\<close>

lemma rnd_ge_1:
  assumes "rnd q = Fin r" and "1 \<le> r"
  shows "r \<le> q * (1 + eps) \<and> 0 < q"
proof -
  have r: "r = rq q" using assms(1) by (rule rnd_FinD)
  have q: "pow2 (- 1022) \<le> q"
  proof (rule ccontr)
    assume "\<not> pow2 (- 1022) \<le> q"
    then have "rq q \<le> rq (pow2 (- 1022))" by (intro rq_mono) simp
    also have "\<dots> \<le> pow2 (- 1021)"
      using rq_le_pow2 [of "pow2 (- 1022)" "- 1022"] ilog2_unique [of "- 1022" "pow2 (- 1022)"] by simp
    also have "pow2 (- 1021) < pow2 0" by (simp only: pow2_less_iff)
    finally show False using assms(2) r by (simp add: pow2_def [of 0])
  qed
  then have pos: "0 < q" using pow2_pos [of "- 1022"] by linarith
  with q have "\<bar>rq q - q\<bar> \<le> eps * q" using rq_err_rel [of q] by simp
  with pos r show ?thesis by (simp add: distrib_left mult.commute)
qed

lemma rnd_pow2:
  assumes "- 1022 \<le> k" and "k < 1024"
  shows "rnd (pow2 k) = Fin (pow2 k)"
proof -
  have i: "ilog2 (pow2 k) = k" by (rule ilog2_unique) simp_all
  have u: "ulp (pow2 k) = pow2 (k - 52)"
    using assms(1) by (simp add: ulp_def i abs_of_pos)
  have "pow2 k = of_int (2 ^ 52) * ulp (pow2 k)"
    unfolding u using pow2_add [of 52 "k - 52"] pow2_nat [of 52] by simp
  then have "rq (pow2 k) = pow2 k" by (rule rq_exact)
  then show ?thesis using assms(2) by (simp add: rnd_def overflows_def i abs_of_pos)
qed

lemma rnd_finite:
  assumes "0 \<le> q" and "q \<le> pow2 1023"
  obtains r where "rnd q = Fin r" "0 \<le> r" "r \<le> pow2 1023"
proof -
  have "fle (rnd 0) (rnd q)" and "fle (rnd q) (rnd (pow2 1023))"
    using assms by (intro rnd_mono; simp)+
  with that show ?thesis
    using rnd_pow2 [of 1023] by (cases "rnd q") (auto simp: fle_def feq_def)
qed

lemma fmin_le:
  "fmin x y = Fin c \<Longrightarrow> (x = Fin a \<longrightarrow> c \<le> a) \<and> (y = Fin b \<longrightarrow> c \<le> b)"
  by (cases x; cases y) (auto simp: fmin_def split: if_splits)

text \<open>Half integers are exact.\<close>

lemma rq_half:
  assumes "0 < n" and "n \<le> 2 ^ 50"
  shows "rq (of_int n / 2) = of_int n / 2"
proof -
  define q :: rat where "q = of_int n / 2"
  define e where "e = ilog2 \<bar>q\<bar>"
  have "1 \<le> n" using assms(1) by simp
  then have "(1::rat) \<le> of_int n" by (simp only: of_int_1_le_iff)
  then have pos: "0 < q" and lo: "pow2 (- 1) \<le> q" by (simp_all add: q_def pow2_def [of "- 1"])
  have "of_int n \<le> (of_int (2 ^ 50) :: rat)" using assms(2) by (simp only: of_int_le_iff)
  then have hi: "q < pow2 50" using pow2_nat [of 50] by (simp add: q_def)
  have e1: "- 1 \<le> e" using lo pos by (simp add: e_def ilog2_ge_iff)
  have "pow2 e \<le> q" using ilog2_bounds [OF pos] pos by (simp add: e_def)
  with hi have e2: "e < 50" by (meson order_le_less_trans pow2_less_iff)
  have u: "ulp q = pow2 (e - 52)" using e1 by (simp add: ulp_def flip: e_def)
  have "pow2 (51 - e) * pow2 (e - 52) = pow2 (- 1)" by (simp flip: pow2_add)
  moreover have "pow2 (51 - e) = 2 ^ nat (51 - e)" using e2 by (simp add: pow2_def)
  ultimately have "q = of_int (n * 2 ^ nat (51 - e)) * ulp q"
    unfolding u by (simp add: q_def pow2_def [of "- 1"])
  then have "rq q = q" by (rule rq_exact)
  then show ?thesis by (simp add: q_def)
qed

lemma rnd_half:
  assumes "0 < n" and "n \<le> 2 ^ 50"
  shows "rnd (of_int n / 2) = Fin (of_int n / 2)"
proof -
  have "of_int n \<le> (of_int (2 ^ 50) :: rat)" using assms(2) by (simp only: of_int_le_iff)
  also have "of_int (2 ^ 50) = pow2 50" using pow2_nat [of 50] by simp
  also have "\<dots> < pow2 1024" by (simp only: pow2_less_iff)
  finally have "of_int n < pow2 1024" .
  then have "\<not> overflows (of_int n / 2)" using assms(1) by (simp add: overflows_iff)
  then show ?thesis by (simp add: rnd_def rq_half [OF assms])
qed

end
