(* ===== verification/PyVal.thy ===== *)
theory PyVal imports PyFloat begin

text \<open>
  Python's dynamic values, as far as the code inspects them: what a tool call, a
  broker payload, a JSON column or a configuration dictionary can hold. A string is a
  list of \<open>char\<close>, each one a code point below 256; the predicates and conversions of
  \<open>str\<close> below are those of Python on such strings.
\<close>

datatype pyval =
    PNone | PBool bool | PInt int | PFloat pyfloat | PStr string
  | PList "pyval list" | PDict "(string \<times> pyval) list"

type_synonym pydict = "(string \<times> pyval) list"

text \<open>\<open>d.get(k)\<close>\<close>

definition dget :: "pydict \<Rightarrow> string \<Rightarrow> pyval" where
  "dget d k = (case map_of d k of None \<Rightarrow> PNone | Some v \<Rightarrow> v)"

text \<open>\<open>bool(v)\<close>\<close>

fun truthy :: "pyval \<Rightarrow> bool" where
  "truthy PNone = False"
| "truthy (PBool b) = b"
| "truthy (PInt n) = (n \<noteq> 0)"
| "truthy (PFloat x) = (x \<noteq> Fin 0)"
| "truthy (PStr s) = (s \<noteq> [])"
| "truthy (PList xs) = (xs \<noteq> [])"
| "truthy (PDict d) = (d \<noteq> [])"

text \<open>\<open>==\<close>: numbers compare by value whatever their type, dictionaries as maps.\<close>

fun num_val :: "pyval \<Rightarrow> pyfloat option" where
  "num_val (PBool b) = Some (Fin (of_bool b))"
| "num_val (PInt n) = Some (Fin (of_int n))"
| "num_val (PFloat x) = Some x"
| "num_val _ = None"

function py_eq :: "pyval \<Rightarrow> pyval \<Rightarrow> bool" where
  "py_eq x y = (case (num_val x, num_val y) of
      (Some a, Some b) \<Rightarrow> feq a b
    | (None, None) \<Rightarrow> (case (x, y) of
          (PNone, PNone) \<Rightarrow> True
        | (PStr s, PStr t) \<Rightarrow> s = t
        | (PList xs, PList ys) \<Rightarrow>
            length xs = length ys \<and> list_all (\<lambda>(a, b). py_eq a b) (zip xs ys)
        | (PDict d, PDict d') \<Rightarrow>
            set (map fst d) = set (map fst d') \<and>
            list_all (\<lambda>(k, v). case map_of d' k of None \<Rightarrow> False | Some v' \<Rightarrow> py_eq v v') d
        | _ \<Rightarrow> False)
    | _ \<Rightarrow> False)"
  by pat_completeness auto

lemma size_zip_list: "(a, b) \<in> set (zip xs ys) \<Longrightarrow> size a < Suc (size_list size xs)"
  using set_zip_leftD size_list_estimation' by (metis le_imp_less_Suc order_refl)

lemma size_dict_list:
  assumes "(k, v) \<in> set d"
  shows "size v < Suc (size_list (size_prod (\<lambda>_. 0) size) d)"
proof -
  have "size v \<le> size_list (size_prod (\<lambda>_. 0) size) d"
    using assms by (rule size_list_estimation') simp
  then show ?thesis by simp
qed

termination py_eq
  by (relation "measure (\<lambda>(x, y). size x)") (auto simp: size_zip_list size_dict_list)

declare py_eq.simps [simp del]

lemma py_eq_PStr [simp]: "py_eq (PStr s) v \<longleftrightarrow> v = PStr s"
  by (cases v) (auto simp: py_eq.simps [of "PStr s"])

lemma py_eq_PNone [simp]: "py_eq PNone v \<longleftrightarrow> v = PNone"
  by (cases v) (auto simp: py_eq.simps [of PNone])

lemma py_eq_PInt [simp]: "py_eq (PInt m) (PInt n) \<longleftrightarrow> m = n"
  by (simp add: py_eq.simps [of "PInt m"])

section \<open>Strings\<close>

definition ord_of :: "char \<Rightarrow> nat" where
  "ord_of c = of_char c"

text \<open>\<open>[0-9]\<close>, and the characters \<open>str.isdigit\<close> accepts: the ASCII digits and the
  superscripts two, three and one (code points 178, 179 and 185).\<close>

definition is_dec :: "char \<Rightarrow> bool" where
  "is_dec c = (48 \<le> ord_of c \<and> ord_of c \<le> 57)"

definition is_digit_char :: "char \<Rightarrow> bool" where
  "is_digit_char c = (is_dec c \<or> ord_of c \<in> {178, 179, 185})"

definition isdigit :: "string \<Rightarrow> bool" where
  "isdigit s = (s \<noteq> [] \<and> list_all is_digit_char s)"

definition is_space :: "char \<Rightarrow> bool" where
  "is_space c = (9 \<le> ord_of c \<and> ord_of c \<le> 13 \<or> 28 \<le> ord_of c \<and> ord_of c \<le> 32
                 \<or> ord_of c = 133 \<or> ord_of c = 160)"

definition strip :: "string \<Rightarrow> string" where
  "strip s = rev (dropWhile is_space (rev (dropWhile is_space s)))"

definition lower_char :: "char \<Rightarrow> char" where
  "lower_char c = (if 65 \<le> ord_of c \<and> ord_of c \<le> 90 \<or>
                      192 \<le> ord_of c \<and> ord_of c \<le> 222 \<and> ord_of c \<noteq> 215
                   then char_of (ord_of c + 32) else c)"

definition lower :: "string \<Rightarrow> string" where
  "lower s = map lower_char s"

text \<open>\<open>t.startswith(p)\<close>\<close>

definition starts_with :: "string \<Rightarrow> string \<Rightarrow> bool" where
  "starts_with p t \<longleftrightarrow> take (length p) t = p"

section \<open>Numbers from strings\<close>

definition dec_val :: "char \<Rightarrow> int" where
  "dec_val c = int (ord_of c) - 48"

text \<open>
  A run of decimal digits, single underscores allowed between digits: the number read
  (on top of \<open>acc\<close>), how many digits, and what is left.
\<close>

fun dec_run :: "int \<Rightarrow> nat \<Rightarrow> string \<Rightarrow> int \<times> nat \<times> string" where
  "dec_run acc n [] = (acc, n, [])"
| "dec_run acc n (c # cs) =
     (if is_dec c then dec_run (acc * 10 + dec_val c) (Suc n) cs
      else if c = CHR ''_'' \<and> 0 < n then
        (case cs of d # ds \<Rightarrow> if is_dec d then dec_run (acc * 10 + dec_val d) (Suc n) ds
                              else (acc, n, c # cs)
         | [] \<Rightarrow> (acc, n, c # cs))
      else (acc, n, c # cs))"

text \<open>An optional sign.\<close>

definition take_sign :: "string \<Rightarrow> int \<times> string" where
  "take_sign s = (case s of c # cs \<Rightarrow> if c = CHR ''-'' then (- 1, cs)
                                       else if c = CHR ''+'' then (1, cs) else (1, s)
                  | [] \<Rightarrow> (1, s))"

text \<open>\<open>int(s)\<close>\<close>

definition int_of_str :: "string \<Rightarrow> int res" where
  "int_of_str s = (let (sg, body) = take_sign (strip s); (v, n, rest) = dec_run 0 0 body
                   in if 0 < n \<and> rest = [] then Inr (sg * v) else Inl ValueError)"

text \<open>\<open>float(s)\<close>: the literal is converted with one correct rounding.\<close>

definition pow10 :: "int \<Rightarrow> rat" where
  "pow10 e = (if 0 \<le> e then 10 ^ nat e else 1 / 10 ^ nat (- e))"

definition exponent_of :: "string \<Rightarrow> int option" where
  "exponent_of s = (case s of [] \<Rightarrow> Some 0
     | c # cs \<Rightarrow> if lower_char c = CHR ''e'' then
         (let (sg, body) = take_sign cs; (v, n, rest) = dec_run 0 0 body
          in if 0 < n \<and> rest = [] then Some (sg * v) else None) else None)"

definition float_of_str :: "string \<Rightarrow> pyfloat res" where
  "float_of_str s =
     (let (sg, body) = take_sign (strip s); word = lower body
      in if word = ''inf'' \<or> word = ''infinity'' then Inr (finf sg)
         else if word = ''nan'' then Inr NaN
         else (let (ip, ni, r) = dec_run 0 0 body;
                   (m, nf, r') = (case r of c # cs \<Rightarrow>
                        if c = CHR ''.'' then
                          (let (fp, k, r'') = dec_run 0 0 cs in (ip * 10 ^ k + fp, k, r''))
                        else (ip, 0, r) | [] \<Rightarrow> (ip, 0, r))
               in if ni + nf = 0 then Inl ValueError
                  else case exponent_of r' of None \<Rightarrow> Inl ValueError
                     | Some e \<Rightarrow> Inr (rnd (of_int (sg * m) * pow10 (e - int nf)))))"

text \<open>\<open>float(v)\<close>\<close>

fun float_of :: "pyval \<Rightarrow> pyfloat res" where
  "float_of (PBool b) = Inr (Fin (of_bool b))"
| "float_of (PInt n) = float_of_int n"
| "float_of (PFloat x) = Inr x"
| "float_of (PStr s) = float_of_str s"
| "float_of _ = Inl TypeError"

text \<open>\<open>str(n)\<close> for a natural number.\<close>

fun str_of_nat :: "nat \<Rightarrow> string" where
  "str_of_nat n = (if n < 10 then [char_of (n + 48)]
                   else str_of_nat (n div 10) @ [char_of (n mod 10 + 48)])"

declare str_of_nat.simps [simp del]

definition str_of_int :: "int \<Rightarrow> string" where
  "str_of_int n = (if n < 0 then CHR ''-'' # str_of_nat (nat (- n)) else str_of_nat (nat n))"


section \<open>Printing and reading a count\<close>

lemma ord_of_digit [simp]: "(n::nat) < 10 \<Longrightarrow> ord_of (char_of (n + 48)) = n + 48"
  by (simp add: ord_of_def)

lemma is_dec_digit: "(n::nat) < 10 \<Longrightarrow> is_dec (char_of (n + 48))"
  by (simp add: is_dec_def)

lemma dec_val_digit: "(n::nat) < 10 \<Longrightarrow> dec_val (char_of (n + 48)) = int n"
  by (simp add: dec_val_def)

lemma str_of_nat_all_dec: "list_all is_dec (str_of_nat n)"
proof (induction n rule: str_of_nat.induct)
  case (1 n)
  show ?case
  proof (cases "n < 10")
    case True
    then show ?thesis by (simp add: str_of_nat.simps [of n] is_dec_digit)
  next
    case False
    with 1 show ?thesis by (subst str_of_nat.simps) (simp add: is_dec_digit)
  qed
qed

lemma str_of_nat_not_Nil: "str_of_nat n \<noteq> []"
  by (subst str_of_nat.simps) simp

lemma dec_run_append:
  "list_all is_dec ds \<Longrightarrow> dec_run acc n (ds @ cs) =
     dec_run (fold (\<lambda>c a. a * 10 + dec_val c) ds acc) (n + length ds) cs"
  by (induction ds arbitrary: acc n) simp_all

lemma fold_str_of_nat:
  "fold (\<lambda>c a. a * 10 + dec_val c) (str_of_nat n) 0 = int n"
proof (induction n rule: str_of_nat.induct)
  case (1 n)
  show ?case
  proof (cases "n < 10")
    case True
    then show ?thesis by (simp add: str_of_nat.simps [of n] dec_val_digit)
  next
    case False
    with 1 show ?thesis
      by (subst str_of_nat.simps) (simp add: dec_val_digit zdiv_int zmod_int)
  qed
qed

lemma dec_run_str_of_nat: "dec_run 0 0 (str_of_nat n) = (int n, length (str_of_nat n), [])"
  using dec_run_append [OF str_of_nat_all_dec, of 0 0 n "[]"] by (simp add: fold_str_of_nat)

lemma is_dec_not_space: "is_dec c \<Longrightarrow> \<not> is_space c"
  by (auto simp: is_dec_def is_space_def)

lemma dropWhile_none: "list_all (\<lambda>c. \<not> P c) cs \<Longrightarrow> dropWhile P cs = cs"
  by (cases cs) simp_all

lemma strip_digits: "list_all is_dec ds \<Longrightarrow> strip ds = ds"
proof -
  assume "list_all is_dec ds"
  then have "list_all (\<lambda>c. \<not> is_space c) ds" by (simp add: list_all_iff is_dec_not_space)
  then show ?thesis by (simp add: strip_def dropWhile_none list_all_iff)
qed

lemma take_sign_digits: "list_all is_dec ds \<Longrightarrow> take_sign ds = (1, ds)"
  by (cases ds) (auto simp: take_sign_def is_dec_def ord_of_def)

lemma int_of_str_of_int: "0 \<le> n \<Longrightarrow> int_of_str (str_of_int n) = Inr n"
  using str_of_nat_all_dec [of "nat n"] str_of_nat_not_Nil [of "nat n"]
  by (simp add: int_of_str_def str_of_int_def strip_digits take_sign_digits dec_run_str_of_nat)

lemma isdigit_str_of_int: "0 \<le> n \<Longrightarrow> isdigit (str_of_int n)"
  using str_of_nat_all_dec [of "nat n"] str_of_nat_not_Nil [of "nat n"]
  by (auto simp: isdigit_def str_of_int_def is_digit_char_def list_all_iff)

end
