(* ===== verification/Schema.thy ===== *)
theory Schema imports PyVal begin

text \<open>
  The fund database (state/schema.sql): one record per table row, one list per table, in
  insertion order. Statuses are one datatype with a constructor per literal; the row
  types carry the columns the modelled code reads or writes. A table's key constraints
  (PRIMARY KEY, UNIQUE, foreign keys) are the predicate \<open>db_wf\<close>.
\<close>

section \<open>Column types\<close>

datatype status =
    Submitted | Approved_st | Rejected_st | Held | Executed | Failed | Expired
  | Open | Consumed | Filled | Partially_filled | Canceled
  | Pending | Running | Done | Claimed
  | SPEC | BACKTEST | VALIDATED | INCUBATING | ALLOCATED | SCALED | PROBATION | RETIRED | REJECTED

datatype action = Buy | Sell | Hold
datatype direction = Bullish | Bearish | Neutral

text \<open>
  A double bound to a REAL column: SQLite has no NaN and stores a null. The bounds of a \<open>float\<close> field
  of a pydantic model: \<open>Field(gt=0)\<close> refuses what is at most zero and \<open>Field(ge=0)\<close> what is less,
  and NaN is neither.
\<close>

definition sql_real :: "pyfloat \<Rightarrow> pyfloat option" where
  "sql_real x = (if x = NaN then None else Some x)"

definition field_gt0 :: "pyfloat \<Rightarrow> bool" where "field_gt0 x \<longleftrightarrow> \<not> fle x (Fin 0)"
definition field_ge0 :: "pyfloat \<Rightarrow> bool" where "field_ge0 x \<longleftrightarrow> \<not> flt x (Fin 0)"

text \<open>The literals of the \<open>action\<close> and \<open>side\<close> columns.\<close>

fun action_str :: "action \<Rightarrow> string" where
  "action_str Buy = ''buy''"
| "action_str Sell = ''sell''"
| "action_str Hold = ''hold''"

text \<open>The literals of the status columns.\<close>

fun status_str :: "status \<Rightarrow> string" where
  "status_str Submitted = ''submitted''" | "status_str Approved_st = ''approved''"
| "status_str Rejected_st = ''rejected''" | "status_str Held = ''held''"
| "status_str Executed = ''executed''" | "status_str Failed = ''failed''"
| "status_str Expired = ''expired''" | "status_str Open = ''open''"
| "status_str Consumed = ''consumed''" | "status_str Filled = ''filled''"
| "status_str Partially_filled = ''partially_filled''" | "status_str Canceled = ''canceled''"
| "status_str Pending = ''pending''" | "status_str Running = ''running''"
| "status_str Done = ''done''" | "status_str Claimed = ''claimed''"
| "status_str SPEC = ''SPEC''" | "status_str BACKTEST = ''BACKTEST''"
| "status_str VALIDATED = ''VALIDATED''" | "status_str INCUBATING = ''INCUBATING''"
| "status_str ALLOCATED = ''ALLOCATED''" | "status_str SCALED = ''SCALED''"
| "status_str PROBATION = ''PROBATION''" | "status_str RETIRED = ''RETIRED''"
| "status_str REJECTED = ''REJECTED''"

section \<open>Rows\<close>

record signal =
  sg_run_date :: date
  sg_agent :: string
  sg_ticker :: string
  sg_direction :: direction
  sg_confidence :: int
  sg_summary :: string
  sg_charter :: string
  sg_model :: string
  sg_created_at :: time

record critique =
  cq_run_date :: date
  cq_ticker :: string
  cq_verdict :: string
  cq_objections :: "string list"
  cq_note :: string
  cq_charter :: string
  cq_model :: string
  cq_created_at :: time

record decision =
  d_id :: int
  d_run_date :: date
  d_ticker :: string
  d_action :: action
  d_qty :: int
  d_thesis :: string
  d_invalidation :: string
  d_stop_price :: "pyfloat option"
  d_charter :: string
  d_model :: string
  d_status :: status
  d_created_at :: time

record ticket =
  t_id :: string
  t_decision_id :: int
  t_ticker :: string
  t_side :: action
  t_max_qty :: int
  t_stop_price :: "pyfloat option"
  t_expires_at :: time
  t_status :: status
  t_created_at :: time

record order =
  o_client_order_id :: string
  o_alpaca_order_id :: "string option"
  o_symbol :: string
  o_side :: string
  o_qty :: int
  o_status :: status
  o_filled_qty :: int
  o_filled_avg_price :: "pyfloat option"
  o_submitted_at :: time
  o_closed_at :: "time option"

record resolution =
  r_decision_id :: int
  r_horizon_days :: int
  r_realized_return :: pyfloat
  r_alpha_vs_spy :: pyfloat
  r_invalidated :: int
  r_reflection :: "string option"
  r_resolved_at :: time

record checkpoint =
  c_run_date :: date
  c_stage :: string
  c_ticker :: string
  c_status :: status
  c_updated_at :: time

record event =
  e_id :: int
  e_kind :: string
  e_payload :: pydict
  e_created_at :: time
  e_posted_at :: "time option"

record cost =
  k_run_date :: date
  k_agent :: string
  k_usd :: pyfloat

record spec =
  sp_spec_id :: string
  sp_fields :: pydict
  sp_created_at :: time

record spec_critique =
  sc_spec_id :: string
  sc_verdict :: string
  sc_objections :: "string list"
  sc_seat :: string
  sc_charter :: string
  sc_model :: string
  sc_created_at :: time

record strategy =
  st_strategy_id :: string
  st_state :: status
  st_state_version :: int
  st_updated_at :: time

record trial =
  tr_run_key :: string
  tr_spec_id :: string
  tr_family :: string
  tr_config_hash :: string
  tr_snapshot_hash :: string
  tr_engine_version :: string
  tr_seed :: int
  tr_seat :: string
  tr_stats :: pydict
  tr_is_holdout :: bool
  tr_created_at :: time

record holdout =
  h_spec_id :: string
  h_run_key :: string
  h_passed :: bool
  h_detail :: pydict
  h_created_at :: time

record protection_row =
  p_id :: "string \<times> time"
  p_symbol :: string
  p_qty :: int
  p_stop_price :: "pyfloat option"
  p_alpaca_order_id :: string
  p_client_order_id :: "string option"
  p_broker_expires_at :: "string option"
  p_observed_at :: time

record offered_row =
  f_run_date :: date
  f_ticker :: string
  f_created_at :: time

record weight_row =
  wt_as_of_date :: date
  wt_agent :: string
  wt_inputs_hash :: string
  wt_cols :: pydict

record work =
  w_work_id :: string
  w_kind :: string
  w_producer :: string
  w_seat :: string
  w_subject :: string
  w_payload :: pydict
  w_status :: status
  w_attempts :: int
  w_not_before :: "time option"
  w_expires_at :: time
  w_claim_expires_at :: "time option"
  w_created_at :: time
  w_claimed_at :: "time option"
  w_finished_at :: "time option"

section \<open>The database\<close>

record db =
  signals :: "signal list"
  critiques :: "critique list"
  decisions :: "decision list"
  tickets :: "ticket list"
  orders :: "order list"
  resolutions :: "resolution list"
  checkpoints :: "checkpoint list"
  events :: "event list"
  costs :: "cost list"
  strategy_specs :: "spec list"
  strategy_critiques :: "spec_critique list"
  strategies :: "strategy list"
  trial_registry :: "trial list"
  holdout_evaluations :: "holdout list"
  protection :: "protection_row list"
  offered :: "offered_row list"
  weights :: "weight_row list"
  worklist :: "work list"

definition empty_db :: db where
  "empty_db = \<lparr> signals = [], critiques = [], decisions = [], tickets = [], orders = [],
     resolutions = [], checkpoints = [], events = [], costs = [], strategy_specs = [],
     strategy_critiques = [], strategies = [], trial_registry = [], holdout_evaluations = [],
     protection = [], offered = [], weights = [], worklist = [] \<rparr>"

definition checkpoint_key :: "checkpoint \<Rightarrow> date \<times> string \<times> string" where
  "checkpoint_key c = (c_run_date c, c_stage c, c_ticker c)"

lemma checkpoint_key_update [simp]:
  "checkpoint_key (c\<lparr>c_status := x, c_updated_at := y\<rparr>) = checkpoint_key c"
  by (simp add: checkpoint_key_def)

text \<open>The key constraints of the tables that hold workflow state.\<close>

definition db_wf :: "db \<Rightarrow> bool" where
  "db_wf s \<longleftrightarrow>
     unique_on d_id (decisions s) \<and>
     unique_on (\<lambda>d. (d_run_date d, d_ticker d)) (decisions s) \<and>
     unique_on t_id (tickets s) \<and> unique_on t_decision_id (tickets s) \<and>
     unique_on o_client_order_id (orders s) \<and>
     unique_on checkpoint_key (checkpoints s) \<and>
     unique_on e_id (events s) \<and>
     unique_on w_work_id (worklist s) \<and>
     unique_on sp_spec_id (strategy_specs s) \<and>
     unique_on st_strategy_id (strategies s)"

end
