(* ===== verification/Transition.thy ===== *)
theory Transition imports Schema begin

text \<open>
  state/transition.py: the compare-and-swap through which every workflow row changes
  status. \<open>EDGES\<close> is the dictionary of legal edges; \<open>try_transition\<close> returns the
  exception or the boolean the code returns, and the database after the call.
\<close>

section \<open>Tables, keys, edges\<close>

text \<open>
  The tables a caller may name. \<open>T_other\<close> stands for every table with no state machine.
\<close>

datatype table = T_decisions | T_tickets | T_orders | T_checkpoints | T_worklist | T_strategies
  | T_other string

text \<open>The row key a caller passes, one constructor per set of key columns.\<close>

datatype row_key =
    K_id_int int \<comment> \<open>\<open>{"id": n}\<close>, decisions\<close>
  | K_id_str string \<comment> \<open>\<open>{"id": s}\<close>, tickets\<close>
  | K_client_order_id string
  | K_checkpoint date string string \<comment> \<open>\<open>run_date, stage, ticker\<close>\<close>
  | K_work_id string
  | K_strategy_id string

definition EDGES :: "table \<Rightarrow> (status \<times> status) list option" where
  "EDGES t = (case t of
     T_decisions \<Rightarrow> Some [(Submitted, Approved_st), (Submitted, Rejected_st), (Submitted, Held),
                          (Approved_st, Executed), (Approved_st, Failed), (Approved_st, Expired)]
   | T_tickets \<Rightarrow> Some [(Open, Consumed), (Open, Expired)]
   | T_orders \<Rightarrow> Some [(Submitted, Filled), (Submitted, Partially_filled),
                       (Submitted, Canceled), (Submitted, Rejected_st),
                       (Partially_filled, Filled), (Partially_filled, Canceled)]
   | T_checkpoints \<Rightarrow> Some [(Pending, Running), (Running, Done), (Running, Failed)]
   | T_worklist \<Rightarrow> Some [(Open, Claimed), (Open, Expired), (Claimed, Done), (Claimed, Failed)]
   | T_strategies \<Rightarrow> Some [(SPEC, BACKTEST), (SPEC, REJECTED), (BACKTEST, REJECTED),
                           (BACKTEST, VALIDATED), (VALIDATED, INCUBATING),
                           (INCUBATING, ALLOCATED), (INCUBATING, REJECTED),
                           (ALLOCATED, SCALED), (ALLOCATED, PROBATION), (SCALED, PROBATION),
                           (PROBATION, ALLOCATED), (PROBATION, SCALED), (PROBATION, RETIRED)]
   | T_other _ \<Rightarrow> None)"

text \<open>\<open>set(key) = set(KEYS[table])\<close>\<close>

fun KEYS :: "table \<Rightarrow> row_key \<Rightarrow> bool" where
  "KEYS T_decisions (K_id_int _) = True"
| "KEYS T_tickets (K_id_str _) = True"
| "KEYS T_orders (K_client_order_id _) = True"
| "KEYS T_checkpoints (K_checkpoint _ _ _) = True"
| "KEYS T_worklist (K_work_id _) = True"
| "KEYS T_strategies (K_strategy_id _) = True"
| "KEYS _ _ = False"

definition VERSIONED :: "table \<Rightarrow> bool" where
  "VERSIONED t = (t = T_strategies)"

text \<open>
  The \<open>extra\<close> columns: the three lease columns of a worklist row, and a column name
  that is no identifier. A lease column of a table that has none is an SQL error.
\<close>

datatype extra_col = Claimed_at time | Claim_expires_at time | Finished_at time | Bad_column string

fun set_extra :: "extra_col \<Rightarrow> work \<Rightarrow> work" where
  "set_extra (Claimed_at x) w = w\<lparr>w_claimed_at := Some x\<rparr>"
| "set_extra (Claim_expires_at x) w = w\<lparr>w_claim_expires_at := Some x\<rparr>"
| "set_extra (Finished_at x) w = w\<lparr>w_finished_at := Some x\<rparr>"
| "set_extra (Bad_column _) w = w"

fun is_bad :: "extra_col \<Rightarrow> bool" where
  "is_bad (Bad_column _) = True"
| "is_bad _ = False"

section \<open>The compare-and-swap\<close>

text \<open>
  The \<open>UPDATE\<close>: the rows whose key, status (and version, on a versioned table) match,
  and the assignments. One equation per table, with the number of rows it matched.
\<close>

fun cas_update :: "table \<Rightarrow> row_key \<Rightarrow> status \<Rightarrow> status \<Rightarrow> time \<Rightarrow> extra_col list \<Rightarrow> int option
    \<Rightarrow> db \<Rightarrow> nat \<times> db" where
  "cas_update T_decisions (K_id_int k) src dst now extra v s =
     (let P = (\<lambda>d. d_id d = k \<and> d_status d = src)
      in (rowcount P (decisions s),
          s\<lparr>decisions := update_where P (\<lambda>d. d\<lparr>d_status := dst\<rparr>) (decisions s)\<rparr>))"
| "cas_update T_tickets (K_id_str k) src dst now extra v s =
     (let P = (\<lambda>t. t_id t = k \<and> t_status t = src)
      in (rowcount P (tickets s),
          s\<lparr>tickets := update_where P (\<lambda>t. t\<lparr>t_status := dst\<rparr>) (tickets s)\<rparr>))"
| "cas_update T_orders (K_client_order_id k) src dst now extra v s =
     (let P = (\<lambda>q. o_client_order_id q = k \<and> o_status q = src)
      in (rowcount P (orders s),
          s\<lparr>orders := update_where P (\<lambda>q. q\<lparr>o_status := dst\<rparr>) (orders s)\<rparr>))"
| "cas_update T_checkpoints (K_checkpoint rd st tk) src dst now extra v s =
     (let P = (\<lambda>c. checkpoint_key c = (rd, st, tk) \<and> c_status c = src)
      in (rowcount P (checkpoints s),
          s\<lparr>checkpoints := update_where P (\<lambda>c. c\<lparr>c_status := dst, c_updated_at := now\<rparr>)
                            (checkpoints s)\<rparr>))"
| "cas_update T_worklist (K_work_id k) src dst now extra v s =
     (let P = (\<lambda>w. w_work_id w = k \<and> w_status w = src)
      in (rowcount P (worklist s),
          s\<lparr>worklist := update_where P (\<lambda>w. fold set_extra extra (w\<lparr>w_status := dst\<rparr>)) (worklist s)\<rparr>))"
| "cas_update T_strategies (K_strategy_id k) src dst now extra v s =
     (let P = (\<lambda>r. st_strategy_id r = k \<and> st_state r = src \<and> Some (st_state_version r) = v)
      in (rowcount P (strategies s),
          s\<lparr>strategies := update_where P
              (\<lambda>r. r\<lparr>st_state := dst, st_state_version := st_state_version r + 1, st_updated_at := now\<rparr>)
              (strategies s)\<rparr>))"
| "cas_update _ _ _ _ _ _ _ s = (0, s)"

definition try_transition :: "table \<Rightarrow> row_key \<Rightarrow> status \<Rightarrow> status \<Rightarrow> time \<Rightarrow> extra_col list
    \<Rightarrow> int option \<Rightarrow> db \<Rightarrow> bool res \<times> db" where
  "try_transition tbl key src dst now extra version s =
     (case EDGES tbl of
        None \<Rightarrow> (Inl IllegalTransition, s)
      | Some es \<Rightarrow>
          if (src, dst) \<notin> set es then (Inl IllegalTransition, s)
          else if \<not> KEYS tbl key then (Inl ValueError, s)
          else if VERSIONED tbl \<and> version = None then (Inl ValueError, s)
          else if \<not> VERSIONED tbl \<and> version \<noteq> None then (Inl ValueError, s)
          else if list_ex is_bad extra then (Inl ValueError, s)
          else if extra \<noteq> [] \<and> tbl \<noteq> T_worklist then (Inl OperationalError, s)
          else (let (n, s') = cas_update tbl key src dst now extra version s
                in (Inr (n = 1), s')))"

definition transition :: "table \<Rightarrow> row_key \<Rightarrow> status \<Rightarrow> status \<Rightarrow> time \<Rightarrow> extra_col list
    \<Rightarrow> int option \<Rightarrow> db \<Rightarrow> unit res \<times> db" where
  "transition tbl key src dst now extra version s =
     (case try_transition tbl key src dst now extra version s of
        (Inl e, s') \<Rightarrow> (Inl e, s')
      | (Inr True, s') \<Rightarrow> (Inr (), s')
      | (Inr False, s') \<Rightarrow> (Inl StaleTransition, s'))"

section \<open>What a row's status is\<close>

fun status_of :: "table \<Rightarrow> row_key \<Rightarrow> db \<Rightarrow> status option" where
  "status_of T_decisions (K_id_int k) s =
     map_option d_status (fetchone (\<lambda>d. d_id d = k) (decisions s))"
| "status_of T_tickets (K_id_str k) s =
     map_option t_status (fetchone (\<lambda>t. t_id t = k) (tickets s))"
| "status_of T_orders (K_client_order_id k) s =
     map_option o_status (fetchone (\<lambda>q. o_client_order_id q = k) (orders s))"
| "status_of T_checkpoints (K_checkpoint rd st tk) s =
     map_option c_status (fetchone (\<lambda>c. checkpoint_key c = (rd, st, tk)) (checkpoints s))"
| "status_of T_worklist (K_work_id k) s =
     map_option w_status (fetchone (\<lambda>w. w_work_id w = k) (worklist s))"
| "status_of T_strategies (K_strategy_id k) s =
     map_option st_state (fetchone (\<lambda>r. st_strategy_id r = k) (strategies s))"
| "status_of _ _ _ = None"

fun version_of :: "table \<Rightarrow> row_key \<Rightarrow> db \<Rightarrow> int option" where
  "version_of T_strategies (K_strategy_id k) s =
     map_option st_state_version (fetchone (\<lambda>r. st_strategy_id r = k) (strategies s))"
| "version_of _ _ _ = None"

text \<open>A call that passes every check before the \<open>UPDATE\<close>.\<close>

definition legal_call :: "table \<Rightarrow> row_key \<Rightarrow> status \<Rightarrow> status \<Rightarrow> extra_col list \<Rightarrow> int option \<Rightarrow> bool" where
  "legal_call tbl key src dst extra version \<longleftrightarrow>
     (\<exists>es. EDGES tbl = Some es \<and> (src, dst) \<in> set es) \<and> KEYS tbl key \<and>
     (VERSIONED tbl \<longleftrightarrow> version \<noteq> None) \<and> \<not> list_ex is_bad extra \<and>
     (extra = [] \<or> tbl = T_worklist)"

lemma try_transition_legal:
  "legal_call tbl key src dst extra version \<Longrightarrow>
   try_transition tbl key src dst now extra version s =
     (Inr (fst (cas_update tbl key src dst now extra version s) = 1),
      snd (cas_update tbl key src dst now extra version s))"
  by (auto simp: try_transition_def legal_call_def split_def Let_def)

lemma try_transition_illegal:
  "\<not> legal_call tbl key src dst extra version \<Longrightarrow>
   \<exists>e. try_transition tbl key src dst now extra version s = (Inl e, s)"
  by (auto simp: try_transition_def legal_call_def split: option.splits)

lemma try_transition_Inr_legal:
  "fst (try_transition tbl key src dst now extra version s) = Inr b \<Longrightarrow>
   legal_call tbl key src dst extra version"
  using try_transition_illegal [of tbl key src dst extra version now s] by fastforce

lemma set_extra_keeps [simp]:
  "w_work_id (set_extra x w) = w_work_id w" "w_status (set_extra x w) = w_status w"
  "w_kind (set_extra x w) = w_kind w" "w_producer (set_extra x w) = w_producer w"
  "w_seat (set_extra x w) = w_seat w" "w_created_at (set_extra x w) = w_created_at w"
  "w_expires_at (set_extra x w) = w_expires_at w" "w_not_before (set_extra x w) = w_not_before w"
  by (cases x; simp)+

lemma fold_set_extra_keeps [simp]:
  "w_work_id (fold set_extra xs w) = w_work_id w" "w_status (fold set_extra xs w) = w_status w"
  "w_kind (fold set_extra xs w) = w_kind w" "w_producer (fold set_extra xs w) = w_producer w"
  "w_seat (fold set_extra xs w) = w_seat w" "w_created_at (fold set_extra xs w) = w_created_at w"
  "w_expires_at (fold set_extra xs w) = w_expires_at w" "w_not_before (fold set_extra xs w) = w_not_before w"
  by (induction xs arbitrary: w) auto

text \<open>The edge relation: no edge is a loop, and the statuses it leaves and enters.\<close>

definition edge :: "table \<Rightarrow> status \<Rightarrow> status \<Rightarrow> bool" where
  "edge t a b \<longleftrightarrow> (\<exists>es. EDGES t = Some es \<and> (a, b) \<in> set es)"

lemma legal_call_edge: "legal_call t k a b x v \<Longrightarrow> edge t a b"
  by (auto simp: legal_call_def edge_def)

lemma edge_irrefl: "\<not> edge t a a"
  by (cases t) (auto simp: edge_def EDGES_def)

section \<open>The compare-and-swap is one\<close>

lemma cas_update_keys:
  assumes "db_wf s" and "KEYS t k"
  shows "fst (cas_update t k a b now x v s) =
      (if status_of t k s = Some a \<and> (VERSIONED t \<longrightarrow> version_of t k s = v) then 1 else 0)"
  using assms
  by (cases t; cases k)
    (auto simp: db_wf_def rowcount_key VERSIONED_def split: option.splits)

lemma cas_update_hit:
  assumes "KEYS t k" and "status_of t k s = Some a"
    and "VERSIONED t \<longrightarrow> version_of t k s = v \<and> v \<noteq> None"
  shows "status_of t k (snd (cas_update t k a b now x v s)) = Some b"
  using assms
  by (cases t; cases k)
    (auto simp: Let_def VERSIONED_def intro!: status_update_hit)

lemma fetchone_update_other:
  assumes "\<And>r. key (f r) = key r" and "\<And>r. P r \<Longrightarrow> key r \<noteq> k"
  shows "fetchone (\<lambda>r. key r = k) (update_where P f xs) = fetchone (\<lambda>r. key r = k) xs"
  using assms by (induction xs) (auto simp: update_where_def)

lemma cas_update_frame:
  assumes "KEYS t k" and "(t', k') \<noteq> (t, k)"
  shows "status_of t' k' (snd (cas_update t k a b now x v s)) = status_of t' k' s"
  using assms
  by (cases t; cases k; cases t'; cases k')
    (auto simp: Let_def checkpoint_key_def [symmetric] intro!: arg_cong [where f = "map_option _"]
       fetchone_update_other)

lemma cas_update_miss: "fst (cas_update t k a b now x v s) = 0 \<Longrightarrow> snd (cas_update t k a b now x v s) = s"
  by (cases t; cases k) (auto simp: Let_def rowcount_0_update)

lemma cas_update_wf: "db_wf s \<Longrightarrow> db_wf (snd (cas_update t k a b now x v s))"
  by (cases t; cases k) (auto simp: db_wf_def Let_def unique_on_update_where)

lemma try_transition_wf: "db_wf s \<Longrightarrow> db_wf (snd (try_transition t k a b now x v s))"
  by (cases "legal_call t k a b x v")
    (use try_transition_illegal [of t k a b x v now s] cas_update_wf [of s t k a b now x v] in
      \<open>auto simp: try_transition_legal\<close>)

lemma try_transition_iff:
  assumes "db_wf s"
  shows "fst (try_transition t k a b now x v s) = Inr True \<longleftrightarrow>
    legal_call t k a b x v \<and> status_of t k s = Some a \<and> (VERSIONED t \<longrightarrow> version_of t k s = v)"
proof (cases "legal_call t k a b x v")
  case True
  then have "KEYS t k" by (simp add: legal_call_def)
  from cas_update_keys [OF assms this, of a b now x v] True show ?thesis
    by (simp add: try_transition_legal)
next
  case False
  with try_transition_illegal [OF False, of now s] show ?thesis by auto
qed

lemma try_transition_miss:
  assumes "db_wf s" and "fst (try_transition t k a b now x v s) \<noteq> Inr True"
  shows "snd (try_transition t k a b now x v s) = s"
proof (cases "legal_call t k a b x v")
  case True
  then have "KEYS t k" by (simp add: legal_call_def)
  from cas_update_keys [OF assms(1) this, of a b now x v] True assms(2) show ?thesis
    using cas_update_miss [of t k a b now x v s]
    by (simp add: try_transition_legal split: if_splits)
next
  case False
  with try_transition_illegal [OF False, of now s] show ?thesis by auto
qed

lemma try_transition_hit:
  assumes "db_wf s" and "fst (try_transition t k a b now x v s) = Inr True"
  shows "status_of t k (snd (try_transition t k a b now x v s)) = Some b"
proof -
  from assms have L: "legal_call t k a b x v" and *: "status_of t k s = Some a"
    "VERSIONED t \<longrightarrow> version_of t k s = v" by (auto simp: try_transition_iff)
  then have "KEYS t k" "VERSIONED t \<longleftrightarrow> v \<noteq> None" by (auto simp: legal_call_def)
  with cas_update_hit [of t k s a v b now x] * L show ?thesis
    by (simp add: try_transition_legal)
qed

lemma try_transition_frame:
  assumes "(t', k') \<noteq> (t, k)"
  shows "status_of t' k' (snd (try_transition t k a b now x v s)) = status_of t' k' s"
proof (cases "legal_call t k a b x v")
  case True
  then have "KEYS t k" by (simp add: legal_call_def)
  from cas_update_frame [OF this assms] True show ?thesis
    by (simp add: try_transition_legal)
next
  case False
  with try_transition_illegal [OF False, of now s] show ?thesis by auto
qed

text \<open>One call's effect on the status of any row, as an equation.\<close>

lemma status_of_try_transition:
  assumes "db_wf s"
  shows "status_of t' k' (snd (try_transition t k a b now x v s)) =
    (if fst (try_transition t k a b now x v s) = Inr True \<and> (t', k') = (t, k) then Some b
     else status_of t' k' s)"
  using try_transition_hit [OF assms] try_transition_miss [OF assms] try_transition_frame by auto

text \<open>
  A compare-and-swap wins exactly when the call is legal (the edge exists, the key has
  the table's key columns, the version token is given exactly on a versioned table) and
  the row is in the expected status (at the expected version). A win puts the row in the
  target status; anything else, exceptions included, leaves the database as it was; and
  no other row of any table ever changes status.
\<close>

theorem try_transition_cas:
  assumes "db_wf s" and "try_transition t k a b now x v s = (r, s')"
  shows "(r = Inr True \<longleftrightarrow> legal_call t k a b x v \<and> status_of t k s = Some a \<and>
            (VERSIONED t \<longrightarrow> version_of t k s = v)) \<and>
    (r = Inr True \<longrightarrow> status_of t k s' = Some b) \<and> (r \<noteq> Inr True \<longrightarrow> s' = s) \<and>
    (\<forall>t' k'. (t', k') \<noteq> (t, k) \<longrightarrow> status_of t' k' s' = status_of t' k' s)"
  using assms try_transition_iff [OF assms(1), of t k a b now x v]
    try_transition_hit [OF assms(1), of t k a b now x v]
    try_transition_miss [OF assms(1), of t k a b now x v]
    try_transition_frame [of _ _ t k a b now x v s]
  by (metis fst_conv snd_conv)

text \<open>The fixture of the witnesses: one submitted decision.\<close>

definition one_decision :: db where
  "one_decision = empty_db\<lparr>decisions := [\<lparr>d_id = 1, d_run_date = ''2026-08-17'', d_ticker = ''NVDA'',
     d_action = Buy, d_qty = 80, d_thesis = ''t'', d_invalidation = ''i'', d_stop_price = Some (Fin 215),
     d_charter = ''v6'', d_model = ''m'', d_status = Submitted, d_created_at = 0\<rparr>]\<rparr>"

lemma one_decision_wf: "db_wf one_decision"
  by (simp add: db_wf_def one_decision_def empty_db_def unique_on_def)

lemma legal_approve: "legal_call T_decisions (K_id_int n) Submitted Approved_st [] None"
  by (simp add: legal_call_def EDGES_def VERSIONED_def)

lemma one_decision_submitted: "status_of T_decisions (K_id_int 1) one_decision = Some Submitted"
  by (simp add: one_decision_def)

theorem try_transition_cas_witness:
  "\<exists>s'. try_transition T_decisions (K_id_int 1) Submitted Approved_st 5 [] None one_decision = (Inr True, s')
     \<and> status_of T_decisions (K_id_int 1) s' = Some Approved_st"
proof -
  obtain r s' where rs: "try_transition T_decisions (K_id_int 1) Submitted Approved_st 5 [] None one_decision = (r, s')"
    by fastforce
  show ?thesis
    using try_transition_cas [OF one_decision_wf rs] rs legal_approve [of 1] one_decision_submitted
    by (simp add: VERSIONED_def)
qed

section \<open>Runs of compare-and-swaps\<close>

text \<open>
  Everything the system does to statuses is a sequence of such calls, by any callers in
  any order: a list of argument tuples, run left to right.
\<close>

record cas_call =
  cc_table :: table
  cc_key :: row_key
  cc_from :: status
  cc_to :: status
  cc_now :: time
  cc_extra :: "extra_col list"
  cc_version :: "int option"

definition do_call :: "cas_call \<Rightarrow> db \<Rightarrow> bool res \<times> db" where
  "do_call c s = try_transition (cc_table c) (cc_key c) (cc_from c) (cc_to c) (cc_now c)
     (cc_extra c) (cc_version c) s"

fun run_calls :: "cas_call list \<Rightarrow> db \<Rightarrow> bool res list \<times> db" where
  "run_calls [] s = ([], s)"
| "run_calls (c # cs) s = (let (r, s') = do_call c s; (rs, s'') = run_calls cs s' in (r # rs, s''))"

lemma snd_run_calls_Cons [simp]:
  "snd (run_calls (c # cs) s) = snd (run_calls cs (snd (do_call c s)))"
  by (simp add: Let_def split_def)

declare run_calls.simps(2) [simp del]

lemma do_call_wf: "db_wf s \<Longrightarrow> db_wf (snd (do_call c s))"
  by (simp add: do_call_def try_transition_wf)

lemma run_calls_wf: "db_wf s \<Longrightarrow> db_wf (snd (run_calls cs s))"
  by (induction cs arbitrary: s) (auto simp: do_call_wf)

definition terminal :: "table \<Rightarrow> status \<Rightarrow> bool" where
  "terminal t a \<longleftrightarrow> (\<forall>b. \<not> edge t a b)"

lemma do_call_status:
  "db_wf s \<Longrightarrow> status_of t k (snd (do_call c s)) =
    (if fst (do_call c s) = Inr True \<and> (t, k) = (cc_table c, cc_key c) then Some (cc_to c)
     else status_of t k s)"
  by (simp add: do_call_def status_of_try_transition)

lemma do_call_won_edge:
  "db_wf s \<Longrightarrow> fst (do_call c s) = Inr True \<Longrightarrow>
   edge (cc_table c) (cc_from c) (cc_to c) \<and> status_of (cc_table c) (cc_key c) s = Some (cc_from c)"
  by (auto simp: do_call_def try_transition_iff legal_call_edge)

text \<open>
  C24: a terminal status is final. Once a decision is rejected, held, executed, failed or
  expired, a ticket consumed or expired, an order filled, canceled or rejected, a
  checkpoint or work row done or failed, or a strategy retired or rejected, no sequence of
  transitions whatsoever moves the row again.
\<close>

theorem terminal_is_final:
  assumes "db_wf s" and "status_of t k s = Some a" and "terminal t a"
  shows "status_of t k (snd (run_calls cs s)) = Some a"
  using assms
proof (induction cs arbitrary: s)
  case (Cons c cs)
  from do_call_won_edge [OF Cons.prems(1), of c] Cons.prems(2,3)
  have "\<not> (fst (do_call c s) = Inr True \<and> (t, k) = (cc_table c, cc_key c))"
    by (auto simp: terminal_def)
  with Cons.prems have "status_of t k (snd (do_call c s)) = Some a"
    by (simp only: do_call_status if_False)
  from Cons.IH [OF do_call_wf [OF Cons.prems(1)] this Cons.prems(3)] show ?case
    by simp
qed simp

text \<open>The rank of a status in its machine; every edge of an acyclic machine raises it.\<close>

definition rank :: "table \<Rightarrow> status \<Rightarrow> nat" where
  "rank t a = (if a \<in> {Submitted, Open, Pending} then 0
               else if a \<in> {Approved_st, Partially_filled, Running, Claimed} then 1 else 2)"

lemma edge_rank: "edge t a b \<Longrightarrow> t \<noteq> T_strategies \<Longrightarrow> rank t a < rank t b"
  by (cases t) (auto simp: edge_def EDGES_def rank_def)

lemma rank_le: "rank t a \<le> 2"
  by (simp add: rank_def)

text \<open>How many calls of a run won on one row.\<close>

fun wins :: "table \<Rightarrow> row_key \<Rightarrow> cas_call list \<Rightarrow> db \<Rightarrow> nat" where
  "wins t k [] s = 0"
| "wins t k (c # cs) s =
     (if fst (do_call c s) = Inr True \<and> (t, k) = (cc_table c, cc_key c) then 1 else 0)
     + wins t k cs (snd (do_call c s))"

lemma wins_rank:
  assumes "db_wf s" and "t \<noteq> T_strategies" and "status_of t k s = Some a"
  shows "wins t k cs s + rank t a \<le> 2"
  using assms
proof (induction cs arbitrary: s a)
  case Nil
  then show ?case by (simp add: rank_le)
next
  case (Cons c cs)
  let ?won = "fst (do_call c s) = Inr True \<and> (t, k) = (cc_table c, cc_key c)"
  note wf = do_call_wf [OF Cons.prems(1), of c]
  show ?case
  proof (cases ?won)
    case True
    with do_call_won_edge [OF Cons.prems(1), of c] Cons.prems(3)
    have "rank t a < rank t (cc_to c)" by (auto intro: edge_rank simp: Cons.prems(2))
    moreover have "status_of t k (snd (do_call c s)) = Some (cc_to c)"
      using True by (simp add: do_call_status [OF Cons.prems(1)])
    from Cons.IH [OF wf Cons.prems(2) this]
    have "wins t k cs (snd (do_call c s)) + rank t (cc_to c) \<le> 2" .
    moreover have "wins t k (c # cs) s = 1 + wins t k cs (snd (do_call c s))"
      using True by simp
    ultimately show ?thesis by linarith
  next
    case False
    then have "status_of t k (snd (do_call c s)) = Some a"
      using Cons.prems by (simp only: do_call_status if_False)
    from Cons.IH [OF wf Cons.prems(2) this] False show ?thesis by (simp only: wins.simps if_False)
  qed
qed

text \<open>
  Outside the strategy lifecycle (whose PROBATION loop is guarded by the version
  token) a row changes status at most twice, however many callers race on it; from a
  status of the middle rank, at most once.
\<close>

theorem at_most_two_moves:
  assumes "db_wf s" and "t \<noteq> T_strategies" and "status_of t k s = Some a"
  shows "wins t k cs s \<le> 2 - rank t a"
  using wins_rank [OF assms, of cs] by simp

text \<open>
  Of two callers that both saw the same status (and version), only the first wins: the
  same call, repeated at any later time with any lease columns, finds nothing to move.
\<close>

theorem only_one_claimant_wins:
  assumes "db_wf s" and "try_transition t k a b now x v s = (Inr True, s1)"
  shows "fst (try_transition t k a b' now' x' v s1) \<noteq> Inr True"
proof -
  have wf: "db_wf s1" using try_transition_wf [OF assms(1), of t k a b now x v] assms(2) by simp
  have "status_of t k s1 = Some b"
    using try_transition_hit [OF assms(1), of t k a b now x v] assms(2) by simp
  moreover have "edge t a b"
    using try_transition_iff [OF assms(1), of t k a b now x v] assms(2) by (auto dest: legal_call_edge)
  then have "a \<noteq> b" using edge_irrefl by auto
  ultimately show ?thesis by (simp add: try_transition_iff [OF wf])
qed

theorem terminal_is_final_witness:
  "status_of T_decisions (K_id_int 1)
     (snd (run_calls [\<lparr>cc_table = T_decisions, cc_key = K_id_int 1, cc_from = Submitted,
        cc_to = Approved_st, cc_now = 9, cc_extra = [], cc_version = None\<rparr>]
        (one_decision\<lparr>decisions := map (\<lambda>d. d\<lparr>d_status := Held\<rparr>) (decisions one_decision)\<rparr>)))
   = Some Held"
  by (rule terminal_is_final)
    (simp_all add: one_decision_def empty_db_def db_wf_def unique_on_def terminal_def edge_def EDGES_def)

theorem at_most_two_moves_witness:
  "wins T_decisions (K_id_int 1) [\<lparr>cc_table = T_decisions, cc_key = K_id_int 1, cc_from = Submitted,
        cc_to = Approved_st, cc_now = 9, cc_extra = [], cc_version = None\<rparr>] one_decision
   \<le> 2 - rank T_decisions Submitted"
  by (rule at_most_two_moves [OF one_decision_wf _ one_decision_submitted]) simp

theorem only_one_claimant_wins_witness:
  "\<exists>s1. try_transition T_decisions (K_id_int 1) Submitted Approved_st 5 [] None one_decision = (Inr True, s1)
     \<and> fst (try_transition T_decisions (K_id_int 1) Submitted Rejected_st 6 [] None s1) \<noteq> Inr True"
proof -
  have "fst (try_transition T_decisions (K_id_int 1) Submitted Approved_st 5 [] None one_decision) = Inr True"
    using legal_approve [of 1] one_decision_submitted
    by (simp add: try_transition_iff [OF one_decision_wf] VERSIONED_def)
  then obtain s1 where
    "try_transition T_decisions (K_id_int 1) Submitted Approved_st 5 [] None one_decision = (Inr True, s1)"
    by (metis prod.collapse)
  with only_one_claimant_wins [OF one_decision_wf this] show ?thesis by blast
qed

end
