(* ===== verification/Outbox.thy ===== *)
theory Outbox imports Transition begin

text \<open>
  slackkit/outbox.py: events are appended to the database and projected to Slack by
  \<open>drain\<close>. The Slack port is the parameter \<open>post\<close>, a function of the port's own state
  that may raise; the renderer is the parameter \<open>render\<close>. An alert's payload carries
  its machine identity (\<open>code\<close>, \<open>ticker\<close>, \<open>clears\<close> and the structured extras); the
  prose of its \<open>text\<close> field, which only people read, is left out of the model.
\<close>

section \<open>Appending\<close>

definition append_event :: "string \<Rightarrow> pydict \<Rightarrow> time \<Rightarrow> db \<Rightarrow> db" where
  "append_event kind payload now s =
     s\<lparr>events := events s @ [\<lparr>e_id = next_id e_id (events s), e_kind = kind, e_payload = payload,
                              e_created_at = now, e_posted_at = None\<rparr>]\<rparr>"

definition alert_body :: "string \<Rightarrow> pydict \<Rightarrow> string option \<Rightarrow> bool \<Rightarrow> pydict" where
  "alert_body code payload ticker clears =
     (''code'', PStr code) # payload
     @ (case ticker of None \<Rightarrow> [] | Some t \<Rightarrow> [(''ticker'', PStr t)])
     @ (if clears then [(''clears'', PBool True)] else [])"

definition append_alert :: "string \<Rightarrow> pydict \<Rightarrow> string option \<Rightarrow> bool \<Rightarrow> time \<Rightarrow> db \<Rightarrow> db" where
  "append_alert code payload ticker clears now s =
     append_event ''alert'' (alert_body code payload ticker clears) now s"

text \<open>The alert most call sites raise: a code and, at some, the ticker.\<close>

abbreviation alert :: "string \<Rightarrow> time \<Rightarrow> db \<Rightarrow> db" where
  "alert code now s \<equiv> append_alert code [] None False now s"

abbreviation alert_for :: "string \<Rightarrow> string \<Rightarrow> time \<Rightarrow> db \<Rightarrow> db" where
  "alert_for code ticker now s \<equiv> append_alert code [] (Some ticker) False now s"

text \<open>The alerts of a database, as their codes, in the order they were raised.\<close>

definition event_code :: "event \<Rightarrow> pyval" where
  "event_code e = dget (e_payload e) ''code''"

definition alert_codes :: "db \<Rightarrow> pyval list" where
  "alert_codes s = map event_code (filter (\<lambda>e. e_kind e = ''alert'') (events s))"

section \<open>Draining\<close>

definition mark_posted :: "int \<Rightarrow> time \<Rightarrow> db \<Rightarrow> db" where
  "mark_posted i now s =
     s\<lparr>events := update_where (\<lambda>e. e_id e = i) (\<lambda>e. e\<lparr>e_posted_at := Some now\<rparr>) (events s)\<rparr>"

definition dead_letter :: "event \<Rightarrow> time \<Rightarrow> db \<Rightarrow> db" where
  "dead_letter row now s =
     (let s1 = mark_posted (e_id row) now s
      in if e_kind row \<noteq> ''projection_error''
         then append_event ''projection_error''
                [(''event_id'', PInt (e_id row)), (''kind'', PStr (e_kind row))] now s1
         else s1)"

definition unposted :: "db \<Rightarrow> event list" where
  "unposted s = sort_key e_id (filter (\<lambda>e. e_posted_at e = None) (events s))"

text \<open>
  One pass over the fetched rows. The result says how many were posted and whether the
  pass ran to its end (\<open>True\<close>) or a transient failure returned from inside it.
\<close>

fun drain_rows :: "(string \<Rightarrow> pydict \<Rightarrow> 'p res) \<Rightarrow> ('p \<Rightarrow> 'sl \<Rightarrow> unit res \<times> 'sl) \<Rightarrow> time
    \<Rightarrow> event list \<Rightarrow> nat \<Rightarrow> db \<times> 'sl \<Rightarrow> bool \<times> nat \<times> db \<times> 'sl" where
  "drain_rows render post now [] posted (s, sl) = (True, posted, s, sl)"
| "drain_rows render post now (row # rows) posted (s, sl) =
     (case render (e_kind row) (e_payload row) of
        Inl _ \<Rightarrow> drain_rows render post now rows posted (dead_letter row now s, sl)
      | Inr p \<Rightarrow>
          (case post p sl of
             (Inl e, sl') \<Rightarrow>
               if e = PermanentPostError
               then drain_rows render post now rows posted (dead_letter row now s, sl')
               else (False, posted, s, sl')
           | (Inr _, sl') \<Rightarrow>
               drain_rows render post now rows (Suc posted) (mark_posted (e_id row) now s, sl')))"

text \<open>The \<open>while True\<close>; \<open>None\<close> when the fuel does not suffice.\<close>

fun drain_loop :: "nat \<Rightarrow> (string \<Rightarrow> pydict \<Rightarrow> 'p res) \<Rightarrow> ('p \<Rightarrow> 'sl \<Rightarrow> unit res \<times> 'sl) \<Rightarrow> time
    \<Rightarrow> nat \<Rightarrow> db \<times> 'sl \<Rightarrow> (nat \<times> db \<times> 'sl) option" where
  "drain_loop 0 render post now posted st = None"
| "drain_loop (Suc fuel) render post now posted st =
     (case unposted (fst st) of
        [] \<Rightarrow> Some (posted, st)
      | rows \<Rightarrow>
          (case drain_rows render post now rows posted st of
             (False, posted', st') \<Rightarrow> Some (posted', st')
           | (True, posted', st') \<Rightarrow> drain_loop fuel render post now posted' st'))"

text \<open>
  Three iterations are always enough (\<open>drain_terminates\<close>): the first pass marks everything it fetched and
  can only add \<open>projection_error\<close> rows, the second marks those and adds nothing, the
  third finds the queue empty.
\<close>

definition drain :: "(string \<Rightarrow> pydict \<Rightarrow> 'p res) \<Rightarrow> ('p \<Rightarrow> 'sl \<Rightarrow> unit res \<times> 'sl) \<Rightarrow> time
    \<Rightarrow> db \<times> 'sl \<Rightarrow> (nat \<times> db \<times> 'sl) option" where
  "drain render post now st = drain_loop 3 render post now 0 st"

section \<open>What appending and marking do to the queue\<close>

lemma append_event_events [simp]:
  "events (append_event k p now s) = events s @ [\<lparr>e_id = next_id e_id (events s), e_kind = k,
     e_payload = p, e_created_at = now, e_posted_at = None\<rparr>]"
  by (simp add: append_event_def)

lemma append_event_frame [simp]:
  "decisions (append_event k p now s) = decisions s" "tickets (append_event k p now s) = tickets s"
  "orders (append_event k p now s) = orders s" "checkpoints (append_event k p now s) = checkpoints s"
  "worklist (append_event k p now s) = worklist s" "signals (append_event k p now s) = signals s"
  "critiques (append_event k p now s) = critiques s" "offered (append_event k p now s) = offered s"
  "strategies (append_event k p now s) = strategies s" "costs (append_event k p now s) = costs s"
  "strategy_specs (append_event k p now s) = strategy_specs s"
  "protection (append_event k p now s) = protection s"
  "resolutions (append_event k p now s) = resolutions s"
  by (simp_all add: append_event_def)

lemma append_alert_frame [simp]:
  "decisions (append_alert c p t b now s) = decisions s" "tickets (append_alert c p t b now s) = tickets s"
  "orders (append_alert c p t b now s) = orders s" "checkpoints (append_alert c p t b now s) = checkpoints s"
  "worklist (append_alert c p t b now s) = worklist s" "signals (append_alert c p t b now s) = signals s"
  "critiques (append_alert c p t b now s) = critiques s" "offered (append_alert c p t b now s) = offered s"
  "strategies (append_alert c p t b now s) = strategies s" "costs (append_alert c p t b now s) = costs s"
  "strategy_specs (append_alert c p t b now s) = strategy_specs s"
  "protection (append_alert c p t b now s) = protection s"
  "resolutions (append_alert c p t b now s) = resolutions s"
  by (simp_all add: append_alert_def)

lemma append_event_wf: "db_wf s \<Longrightarrow> db_wf (append_event k p now s)"
  using unique_on_next_id [of e_id "events s"] by (simp add: db_wf_def)

lemma append_alert_wf: "db_wf s \<Longrightarrow> db_wf (append_alert c p t b now s)"
  by (simp add: append_alert_def append_event_wf)

lemma alert_codes_append_event [simp]:
  "alert_codes (append_event k p now s) =
     alert_codes s @ (if k = ''alert'' then [dget p ''code''] else [])"
  by (simp add: alert_codes_def event_code_def)

lemma alert_codes_append_alert [simp]:
  "alert_codes (append_alert c p t b now s) = alert_codes s @ [PStr c]"
  by (simp add: append_alert_def alert_body_def dget_def)

lemma status_of_append_event [simp]: "status_of t k (append_event kd p now s) = status_of t k s"
  by (cases t; cases k) simp_all

lemma status_of_append_alert [simp]: "status_of t k (append_alert c p tk b now s) = status_of t k s"
  by (simp add: append_alert_def)

lemma set_unposted: "set (unposted s) = {e \<in> set (events s). e_posted_at e = None}"
  by (auto simp: unposted_def)

lemma unposted_Nil: "unposted s = [] \<longleftrightarrow> (\<forall>e\<in>set (events s). e_posted_at e \<noteq> None)"
  using set_unposted [of s] by (cases "unposted s") auto

text \<open>
  The set of unposted rows after marking one, and after dead-lettering one: only rows of
  kind \<open>projection_error\<close> can be new.
\<close>

lemma mark_posted_unposted:
  "set (unposted (mark_posted i now s)) = {e \<in> set (unposted s). e_id e \<noteq> i}"
  by (auto simp: set_unposted mark_posted_def set_update_where)

lemma dead_letter_unposted:
  "e \<in> set (unposted (dead_letter row now s)) \<Longrightarrow>
   e \<in> set (unposted s) \<and> e_id e \<noteq> e_id row \<or> e_kind e = ''projection_error'' \<and> e_kind row \<noteq> ''projection_error''"
proof -
  assume e: "e \<in> set (unposted (dead_letter row now s))"
  have "e \<in> set (unposted (mark_posted (e_id row) now s)) \<or>
    e_kind e = ''projection_error'' \<and> e_kind row \<noteq> ''projection_error''"
    using e by (auto simp: set_unposted dead_letter_def Let_def split: if_splits)
  then show ?thesis by (auto simp: mark_posted_unposted)
qed

text \<open>
  After a pass that ran to its end, what is still unposted is either new and a
  \<open>projection_error\<close>, or was not among the rows fetched.
\<close>

lemma drain_rows_left:
  assumes "drain_rows render post now rows n (s, sl) = (True, n', s', sl')"
    and "e \<in> set (unposted s')"
  shows "e \<in> set (unposted s) \<and> e_id e \<notin> e_id ` set rows
    \<or> e_kind e = ''projection_error'' \<and> (\<exists>r\<in>set rows. e_kind r \<noteq> ''projection_error'')"
  using assms
proof (induction rows arbitrary: n s sl)
  case (Cons row rows)
  show ?case
  proof (cases "render (e_kind row) (e_payload row)")
    case (Inl x)
    with Cons.prems(1) have "drain_rows render post now rows n (dead_letter row now s, sl) = (True, n', s', sl')"
      by simp
    from Cons.IH [OF this Cons.prems(2)] show ?thesis by (auto dest: dead_letter_unposted)
  next
    case (Inr p)
    obtain q sl1 where q: "post p sl = (q, sl1)" by fastforce
    show ?thesis
    proof (cases q)
      case (Inl x)
      with Inr q Cons.prems(1)
      have "drain_rows render post now rows n (dead_letter row now s, sl1) = (True, n', s', sl')"
        by (simp split: if_splits)
      from Cons.IH [OF this Cons.prems(2)] show ?thesis by (auto dest: dead_letter_unposted)
    next
      case (Inr u)
      with \<open>render _ _ = Inr p\<close> q Cons.prems(1)
      have "drain_rows render post now rows (Suc n) (mark_posted (e_id row) now s, sl1) = (True, n', s', sl')"
        by simp
      from Cons.IH [OF this Cons.prems(2)] show ?thesis by (auto simp: mark_posted_unposted)
    qed
  qed
qed simp

lemma drain_rows_all_left:
  assumes "drain_rows render post now (unposted s) n (s, sl) = (True, n', s', sl')"
    and "e \<in> set (unposted s')"
  shows "e_kind e = ''projection_error'' \<and> (\<exists>r\<in>set (unposted s). e_kind r \<noteq> ''projection_error'')"
  using drain_rows_left [OF assms] by blast

text \<open>
  C34: \<open>drain\<close> returns, whatever the renderer and Slack do and whatever is queued: no
  poisoned event and no dead channel can make it spin, because a dead-lettered
  \<open>projection_error\<close> appends nothing.
\<close>

theorem drain_terminates: "\<exists>r. drain render post now st = Some r"
proof -
  have final: "\<exists>r. drain_loop (Suc f) render post now n (s, sl) = Some r"
    if "\<forall>e\<in>set (unposted s). False" for f n s sl
    using that by (cases "unposted s") auto
  have second: "\<exists>r. drain_loop (Suc (Suc f)) render post now n (s, sl) = Some r"
    if pe: "\<forall>e\<in>set (unposted s). e_kind e = ''projection_error''" for f n s sl
  proof (cases "unposted s")
    case (Cons r rs)
    obtain ok n' s' sl' where d: "drain_rows render post now (unposted s) n (s, sl) = (ok, n', s', sl')"
      by (metis prod_cases4)
    show ?thesis
    proof (cases ok)
      case True
      with d have "\<forall>e\<in>set (unposted s'). False"
        using drain_rows_all_left [of render post now s n sl n' s' sl'] pe by fastforce
      from final [OF this] d True Cons show ?thesis by simp
    qed (use d Cons in simp)
  qed simp
  obtain s sl where st: "st = (s, sl)" by fastforce
  show ?thesis
  proof (cases "unposted s")
    case Nil
    then show ?thesis by (simp add: drain_def st numeral_3_eq_3)
  next
    case (Cons r rs)
    obtain ok n' s' sl' where d: "drain_rows render post now (unposted s) 0 (s, sl) = (ok, n', s', sl')"
      by (metis prod_cases4)
    show ?thesis
    proof (cases ok)
      case True
      with d have "\<forall>e\<in>set (unposted s'). e_kind e = ''projection_error''"
        using drain_rows_all_left [of render post now s 0 sl n' s' sl'] by fastforce
      from second [OF this] d True Cons show ?thesis by (simp add: drain_def st numeral_3_eq_3)
    qed (use d Cons in \<open>simp add: drain_def st numeral_3_eq_3\<close>)
  qed
qed

section \<open>Order\<close>

text \<open>The event with this id waits in the queue.\<close>

definition queued :: "int \<Rightarrow> db \<Rightarrow> bool" where
  "queued i s \<longleftrightarrow> (\<exists>e\<in>set (events s). e_id e = i \<and> e_posted_at e = None)"

definition old_id :: "int \<Rightarrow> db \<Rightarrow> bool" where
  "old_id i s \<longleftrightarrow> i < next_id e_id (events s)"

lemma queued_old: "queued i s \<Longrightarrow> old_id i s"
  using next_id_fresh [of _ "events s" e_id] by (auto simp: queued_def old_id_def)

lemma next_id_append: "next_id key xs \<le> next_id key (xs @ ys)"
  by (simp add: next_id_def fold_max_ge)

lemma mark_posted_ids [simp]: "map e_id (events (mark_posted j now s)) = map e_id (events s)"
  by (simp add: mark_posted_def map_update_where_key)

lemma old_id_mark [simp]: "old_id i (mark_posted j now s) = old_id i s"
  by (simp add: old_id_def next_id_def)

lemma old_id_append: "old_id i s \<Longrightarrow> old_id i (append_event k p now s)"
  using next_id_append [of e_id "events s"] by (simp add: old_id_def order_less_le_trans)

lemma queued_mark [simp]: "queued i (mark_posted j now s) \<longleftrightarrow> queued i s \<and> i \<noteq> j"
  by (auto simp: queued_def mark_posted_def set_update_where)

lemma queued_append: "old_id i s \<Longrightarrow> queued i (append_event k p now s) = queued i s"
  by (auto simp: queued_def old_id_def)

lemma old_id_dead_letter: "old_id i s \<Longrightarrow> old_id i (dead_letter row now s)"
  by (simp add: dead_letter_def Let_def old_id_append)

lemma queued_dead_letter:
  "old_id i s \<Longrightarrow> queued i (dead_letter row now s) \<longleftrightarrow> queued i s \<and> i \<noteq> e_id row"
  by (simp add: dead_letter_def Let_def queued_append)

lemma drain_rows_prefix:
  assumes "drain_rows render post now rows n (s, sl) = (ok, n', s', sl')"
  shows "\<exists>k\<le>length rows. (ok \<longrightarrow> k = length rows) \<and>
    (\<forall>i. old_id i s \<longrightarrow> old_id i s' \<and> (queued i s' \<longleftrightarrow> queued i s \<and> i \<notin> e_id ` set (take k rows)))"
  using assms
proof (induction rows arbitrary: n s sl)
  case (Cons row rows)
  have step: ?case if step: "drain_rows render post now rows m (s1, sl1) = (ok, n', s', sl')"
    and q: "\<And>i. old_id i s \<Longrightarrow> old_id i s1 \<and> (queued i s1 \<longleftrightarrow> queued i s \<and> i \<noteq> e_id row)"
  for m s1 sl1
  proof -
    from Cons.IH [OF step] obtain k where "k \<le> length rows" "ok \<longrightarrow> k = length rows"
      and "\<forall>i. old_id i s1 \<longrightarrow> old_id i s' \<and> (queued i s' \<longleftrightarrow> queued i s1 \<and> i \<notin> e_id ` set (take k rows))"
      by blast
    then show ?case using q by (intro exI [of _ "Suc k"]) auto
  qed
  note dl = old_id_dead_letter queued_dead_letter
  show ?case
  proof (cases "render (e_kind row) (e_payload row)")
    case (Inl x)
    with Cons.prems show ?thesis by (intro step [of n "dead_letter row now s" sl]) (auto simp: dl)
  next
    case (Inr p)
    obtain q sl1 where q: "post p sl = (q, sl1)" by fastforce
    show ?thesis
    proof (cases q)
      case (Inl e)
      show ?thesis
      proof (cases "e = PermanentPostError")
        case True
        with Cons.prems Inr Inl q show ?thesis
          by (intro step [of n "dead_letter row now s" sl1]) (auto simp: dl)
      next
        case False
        with Cons.prems \<open>render _ _ = Inr p\<close> Inl q show ?thesis by (intro exI [of _ 0]) auto
      qed
    next
      case (Inr u)
      with Cons.prems \<open>render _ _ = Inr p\<close> q show ?thesis
        by (intro step [of "Suc n" "mark_posted (e_id row) now s" sl1]) auto
    qed
  qed
qed simp

lemma sorted_take_ids:
  assumes "sorted (map key rows)" and "distinct (map key rows)" and "r \<in> set rows" and "r' \<in> set (take k rows)"
    and "key r < (key r' :: int)"
  shows "r \<in> set (take k rows)"
proof (rule ccontr)
  assume "r \<notin> set (take k rows)"
  then have "r \<in> set (drop k rows)" using assms(3) by (metis append_take_drop_id Un_iff set_append)
  moreover have "sorted (map key (take k rows) @ map key (drop k rows))"
    using assms(1) by (simp flip: map_append)
  ultimately have "key r' \<le> key r" using assms(4) by (auto simp: sorted_append)
  with assms(5) show False by simp
qed

lemma unposted_sorted: "sorted (map e_id (unposted s))"
  by (simp add: unposted_def)

lemma unposted_distinct: "unique_on e_id (events s) \<Longrightarrow> distinct (map e_id (unposted s))"
  by (simp add: unposted_def unique_on_def distinct_map inj_on_def distinct_filter)

lemma queued_unposted: "queued i s \<longleftrightarrow> i \<in> e_id ` set (unposted s)"
  by (auto simp: queued_def set_unposted)

lemma drain_loop_no_revive:
  assumes "drain_loop fuel render post now n (s, sl) = Some (n', s', sl')"
    and "old_id i s" and "\<not> queued i s"
  shows "\<not> queued i s'"
  using assms
proof (induction fuel arbitrary: n s sl)
  case (Suc fuel)
  show ?case
  proof (cases "unposted s")
    case Nil
    with Suc.prems show ?thesis by simp
  next
    case (Cons r rs)
    obtain ok n1 s1 sl1 where d: "drain_rows render post now (unposted s) n (s, sl) = (ok, n1, s1, sl1)"
      by (metis prod_cases4)
    from drain_rows_prefix [OF d] Suc.prems(2,3) have "old_id i s1" "\<not> queued i s1" by auto
    with Suc.IH [of n1 s1 sl1] Suc.prems(1) d Cons show ?thesis by (cases ok) auto
  qed
qed simp

text \<open>
  C33: Slack never sees events out of order. If an event is still queued after a drain,
  so is every later event that was queued with it: a transient failure stops the pass
  before anything behind the failed event is touched.
\<close>

theorem drain_never_overtakes:
  assumes "unique_on e_id (events s)" and "queued i s" and "queued j s" and "i < j"
    and "drain render post now (s, sl) = Some (n, s', sl')" and "queued i s'"
  shows "queued j s'"
proof -
  obtain ok n1 s1 sl1 where d: "drain_rows render post now (unposted s) 0 (s, sl) = (ok, n1, s1, sl1)"
    by (metis prod_cases4)
  from assms(2,3) obtain r r' where r: "r \<in> set (unposted s)" "e_id r = i"
    and r': "r' \<in> set (unposted s)" "e_id r' = j" by (auto simp: queued_unposted)
  from drain_rows_prefix [OF d] obtain k where k: "ok \<longrightarrow> k = length (unposted s)"
    and st: "\<And>x. old_id x s \<Longrightarrow> old_id x s1 \<and> (queued x s1 \<longleftrightarrow> queued x s \<and> x \<notin> e_id ` set (take k (unposted s)))"
    by blast
  have loop: "(if ok then drain_loop 2 render post now n1 (s1, sl1) else Some (n1, s1, sl1)) = Some (n, s', sl')"
    using assms(5) d r by (cases "unposted s") (auto simp: drain_def numeral_3_eq_3 numeral_2_eq_2)
  have "\<not> ok"
  proof
    assume ok
    with k r st [OF queued_old [OF assms(2)]] have "old_id i s1" "\<not> queued i s1" by auto
    with loop \<open>ok\<close> assms(6) show False using drain_loop_no_revive by fastforce
  qed
  with loop have s': "s' = s1" by simp
  show ?thesis
  proof (rule ccontr)
    assume "\<not> queued j s'"
    with s' st [OF queued_old [OF assms(3)]] assms(3) obtain e
      where "e \<in> set (take k (unposted s))" "e_id e = j" by auto
    then have "r \<in> set (take k (unposted s))"
      using sorted_take_ids [OF unposted_sorted unposted_distinct [OF assms(1)] r(1)] assms(4) r(2) by simp
    then have "\<not> queued i s1" using st [OF queued_old [OF assms(2)]] r by auto
    with assms(6) s' show False by simp
  qed
qed

text \<open>A Slack that accepts everything and remembers what it was handed, in order.\<close>

definition log_post :: "'p \<Rightarrow> 'p list \<Rightarrow> unit res \<times> 'p list" where
  "log_post p sl = (Inr (), sl @ [p])"

lemma drain_rows_healthy:
  assumes "\<And>k p. render k p = Inr (f k p)"
  shows "\<exists>s'. drain_rows render log_post now rows n (s, sl) =
    (True, n + length rows, s', sl @ map (\<lambda>e. f (e_kind e) (e_payload e)) rows)
    \<and> set (unposted s') = {e \<in> set (unposted s). e_id e \<notin> e_id ` set rows}"
proof (induction rows arbitrary: n s sl)
  case (Cons row rows)
  obtain s' where "drain_rows render log_post now rows (Suc n)
      (mark_posted (e_id row) now s, sl @ [f (e_kind row) (e_payload row)]) =
    (True, Suc n + length rows, s', (sl @ [f (e_kind row) (e_payload row)]) @
       map (\<lambda>e. f (e_kind e) (e_payload e)) rows)"
    and "set (unposted s') = {e \<in> set (unposted (mark_posted (e_id row) now s)). e_id e \<notin> e_id ` set rows}"
    using Cons.IH by blast
  then show ?case
    using assms [of "e_kind row" "e_payload row"] log_post_def [of "f (e_kind row) (e_payload row)" sl]
    by (auto simp: mark_posted_unposted)
qed simp

text \<open>
  On a healthy Slack every queued event is posted exactly once, oldest first, the
  count returned is the number posted, and the queue is empty afterwards.
\<close>

theorem drain_healthy:
  assumes "\<And>k p. render k p = Inr (f k p)"
  shows "\<exists>s'. drain render log_post now (s, sl) =
      Some (length (unposted s), s', sl @ map (\<lambda>e. f (e_kind e) (e_payload e)) (unposted s))
    \<and> unposted s' = []"
proof -
  obtain s' where d: "drain_rows render log_post now (unposted s) 0 (s, sl) =
      (True, length (unposted s), s', sl @ map (\<lambda>e. f (e_kind e) (e_payload e)) (unposted s))"
    and q: "set (unposted s') = {e \<in> set (unposted s). e_id e \<notin> e_id ` set (unposted s)}"
    using drain_rows_healthy [where render = render and f = f, OF assms, of now "unposted s" 0 s sl] by auto
  from q have "set (unposted s') = {}" by auto
  then have "unposted s' = []" by simp
  with d show ?thesis
    by (cases "unposted s") (auto simp: drain_def numeral_3_eq_3)
qed

text \<open>Two queued events; Slack is down for the first one.\<close>

definition two_events :: db where
  "two_events = append_event ''fill'' [] 2 (append_event ''digest'' [] 1 empty_db)"

definition down_post :: "unit \<Rightarrow> nat \<Rightarrow> unit res \<times> nat" where
  "down_post p n = (Inl (Other ''ConnectionError''), Suc n)"

theorem drain_never_overtakes_witness:
  "\<exists>n s' sl'. drain (\<lambda>_ _. Inr ()) down_post 9 (two_events, 0) = Some (n, s', sl') \<and> queued 2 s'"
proof -
  have "drain (\<lambda>_ _. Inr ()) down_post 9 (two_events, 0) = Some (0, two_events, 1)"
    by (simp add: drain_def numeral_3_eq_3 two_events_def empty_db_def unposted_def next_id_def
        down_post_def)
  moreover have "queued 1 two_events" "queued 2 two_events" "unique_on e_id (events two_events)"
    by (simp_all add: two_events_def queued_def empty_db_def next_id_def unique_on_def)
  ultimately show ?thesis
    using drain_never_overtakes [of two_events 1 2 "\<lambda>_ _. Inr ()" down_post 9 0 0 two_events 1] by auto
qed

theorem drain_healthy_witness:
  "\<exists>s'. drain (\<lambda>k _. Inr k) log_post 9 (two_events, []) = Some (2, s', [''digest'', ''fill''])"
proof -
  have "unposted two_events = events two_events"
    by (simp add: two_events_def empty_db_def unposted_def next_id_def)
  then show ?thesis
    using drain_healthy [of "\<lambda>k _. Inr k" "\<lambda>k _. k" 9 two_events "[]"]
    by (auto simp: two_events_def empty_db_def)
qed

end
