(* ===== verification/Prog.thy ===== *)
theory Prog imports Outbox begin

text \<open>
  Effects. An operation of the program takes the world it runs in (the database, or the
  database with the state of an outside port) and returns a result, an exception or a
  value, with the world after it. What is written before an exception stays written, as
  it does on the connection the code uses. The combinators are sequencing, \<open>try/except\<close>
  and the \<open>for\<close> loop.

  The locale \<open>evolution\<close> is the interface between the operations and the safety
  properties of the whole: a reflexive and transitive relation on worlds that the
  primitive writes respect is respected by everything built from them. Its
  interpretation on the database is the relation \<open>evolves\<close>.
\<close>

section \<open>Combinators\<close>

type_synonym ('w, 'a) prog = "'w \<Rightarrow> 'a res \<times> 'w"

definition ret :: "'a \<Rightarrow> ('w, 'a) prog" where
  "ret x w = (Inr x, w)"

definition raise :: "exn \<Rightarrow> ('w, 'a) prog" where
  "raise e w = (Inl e, w)"

definition andthen :: "('w, 'a) prog \<Rightarrow> ('a \<Rightarrow> ('w, 'b) prog) \<Rightarrow> ('w, 'b) prog" where
  "andthen m f w = (case m w of (Inl e, w') \<Rightarrow> (Inl e, w') | (Inr x, w') \<Rightarrow> f x w')"

text \<open>\<open>try: m except Exception as e: h e\<close>\<close>

definition catch :: "('w, 'a) prog \<Rightarrow> (exn \<Rightarrow> ('w, 'a) prog) \<Rightarrow> ('w, 'a) prog" where
  "catch m h w = (case m w of (Inl e, w') \<Rightarrow> h e w' | (Inr x, w') \<Rightarrow> (Inr x, w'))"

definition gets :: "('w \<Rightarrow> 'a) \<Rightarrow> ('w, 'a) prog" where
  "gets f w = (Inr (f w), w)"

definition modify :: "('w \<Rightarrow> 'w) \<Rightarrow> ('w, unit) prog" where
  "modify f w = (Inr (), f w)"

definition lift_res :: "'a res \<Rightarrow> ('w, 'a) prog" where
  "lift_res r w = (r, w)"

definition whenever :: "bool \<Rightarrow> ('w, unit) prog \<Rightarrow> ('w, unit) prog" where
  "whenever b m = (if b then m else ret ())"

text \<open>\<open>for x in xs: acc = f x acc\<close>\<close>

fun fold_each :: "('a \<Rightarrow> 'c \<Rightarrow> ('w, 'c) prog) \<Rightarrow> 'a list \<Rightarrow> 'c \<Rightarrow> ('w, 'c) prog" where
  "fold_each f [] acc = ret acc"
| "fold_each f (x # xs) acc = andthen (f x acc) (fold_each f xs)"

definition for_each :: "('a \<Rightarrow> ('w, unit) prog) \<Rightarrow> 'a list \<Rightarrow> ('w, unit) prog" where
  "for_each f xs = fold_each (\<lambda>x _. f x) xs ()"

text \<open>An operation on the database, in a world that also has a port.\<close>

definition on_db :: "(db, 'a) prog \<Rightarrow> (db \<times> 'x, 'a) prog" where
  "on_db m w = (case m (fst w) of (r, s') \<Rightarrow> (r, (s', snd w)))"

definition on_port :: "('x \<Rightarrow> 'a res \<times> 'x) \<Rightarrow> (db \<times> 'x, 'a) prog" where
  "on_port m w = (case m (snd w) of (r, x') \<Rightarrow> (r, (fst w, x')))"

named_theorems prog_simps \<open>running the combinators\<close>

lemma ret_run [simp, prog_simps]: "ret x w = (Inr x, w)" by (simp add: ret_def)
lemma raise_run [simp, prog_simps]: "raise e w = (Inl e, w)" by (simp add: raise_def)
lemma gets_run [simp, prog_simps]: "gets f w = (Inr (f w), w)" by (simp add: gets_def)
lemma modify_run [simp, prog_simps]: "modify f w = (Inr (), f w)" by (simp add: modify_def)
lemma lift_res_run [simp, prog_simps]: "lift_res r w = (r, w)" by (simp add: lift_res_def)

lemma andthen_run [prog_simps]:
  "m w = (Inl e, w') \<Longrightarrow> andthen m f w = (Inl e, w')"
  "m w = (Inr x, w') \<Longrightarrow> andthen m f w = f x w'"
  by (simp_all add: andthen_def)

lemma catch_run [prog_simps]:
  "m w = (Inl e, w') \<Longrightarrow> catch m h w = h e w'"
  "m w = (Inr x, w') \<Longrightarrow> catch m h w = (Inr x, w')"
  by (simp_all add: catch_def)

lemma andthen_ret [simp]: "andthen (ret x) f = f x"
  by (simp add: andthen_def fun_eq_iff)

lemma andthen_Pair [simp]:
  "andthen (Pair (Inr x)) f = f x" "andthen (Pair (Inl e)) f = Pair (Inl e)"
  by (simp_all add: andthen_def fun_eq_iff)

lemma andthen_gets [simp]: "andthen (gets g) f w = f (g w) w"
  by (simp add: andthen_def)

lemma andthen_modify [simp]: "andthen (modify g) f w = f () (g w)"
  by (simp add: andthen_def)

lemma andthen_lift [simp]:
  "andthen (lift_res (Inr x)) f = f x" "andthen (lift_res (Inl e)) f = raise e"
  by (simp_all add: andthen_def fun_eq_iff)

lemma andthen_raise [simp]: "andthen (raise e) f = raise e"
  by (simp add: andthen_def fun_eq_iff)

lemma andthen_assoc: "andthen (andthen m f) g = andthen m (\<lambda>x. andthen (f x) g)"
  by (rule ext) (simp add: andthen_def split: prod.split sum.split)

lemma andthen_Inr:
  "andthen m f w = (Inr y, w'') \<longleftrightarrow> (\<exists>x w'. m w = (Inr x, w') \<and> f x w' = (Inr y, w''))"
  by (auto simp: andthen_def split: prod.splits sum.splits)

lemma catch_never_raises:
  "(\<And>e w. \<exists>y w'. h e w = (Inr y, w')) \<Longrightarrow> \<exists>y w'. catch m h w = (Inr y, w')"
  by (cases "m w"; cases "fst (m w)") (auto simp: catch_def)

text \<open>Reading a run backwards, one combinator at a time.\<close>

lemma lift_stepE:
  assumes "andthen (lift_res x) f w = (q, w')"
  obtains e where "x = Inl e" and "q = Inl e" and "w' = w" | y where "x = Inr y" and "f y w = (q, w')"
  using assms by (cases x) auto

lemma gets_stepE: "andthen (gets g) f w = (q, w') \<Longrightarrow> (f (g w) w = (q, w') \<Longrightarrow> P) \<Longrightarrow> P"
  by simp

lemma if_stepE:
  "(if b then m else m') w = (q, w') \<Longrightarrow> (b \<Longrightarrow> m w = (q, w') \<Longrightarrow> P) \<Longrightarrow> (\<not> b \<Longrightarrow> m' w = (q, w') \<Longrightarrow> P) \<Longrightarrow> P"
  by (cases b) auto

lemma option_stepE:
  "(case c of None \<Rightarrow> m | Some x \<Rightarrow> f x) w = (q, w') \<Longrightarrow> (c = None \<Longrightarrow> m w = (q, w') \<Longrightarrow> P) \<Longrightarrow>
    (\<And>x. c = Some x \<Longrightarrow> f x w = (q, w') \<Longrightarrow> P) \<Longrightarrow> P"
  by (cases c) auto

lemma ret_stepE: "ret x w = (q, w') \<Longrightarrow> (q = Inr x \<Longrightarrow> w' = w \<Longrightarrow> P) \<Longrightarrow> P"
  by (auto simp: ret_def)

lemma raise_stepE: "raise e w = (q, w') \<Longrightarrow> (q = Inl e \<Longrightarrow> w' = w \<Longrightarrow> P) \<Longrightarrow> P"
  by (auto simp: raise_def)

lemmas step_elims = lift_stepE gets_stepE if_stepE option_stepE ret_stepE raise_stepE

lemma on_db_run [prog_simps]: "m s = (r, s') \<Longrightarrow> on_db m (s, x) = (r, (s', x))"
  by (simp add: on_db_def)

lemma on_db_pair: "on_db m (s, x) = (case m s of (r, s') \<Rightarrow> (r, (s', x)))"
  by (simp add: on_db_def)

lemma whenever_simps [simp]: "whenever True m = m" "whenever False m = ret ()"
  by (simp_all add: whenever_def)

text \<open>A step that runs only when the one before it won.\<close>

lemma andthen_won:
  assumes "andthen m (\<lambda>won. andthen (whenever won f) (\<lambda>_. ret (g won))) w = (r, w'')" and "m w = (q, w')"
  shows "w'' = (if q = Inr True then snd (f w') else w')"
proof (cases q)
  case (Inr won)
  then show ?thesis using assms by (cases won) (auto simp: andthen_def split: prod.splits sum.splits)
qed (use assms in \<open>simp add: andthen_def\<close>)

text \<open>A loop whose body never raises never raises.\<close>

lemma fold_each_returns:
  "(\<And>x acc w. x \<in> set xs \<Longrightarrow> \<exists>y w'. f x acc w = (Inr y, w')) \<Longrightarrow> \<exists>y w'. fold_each f xs acc w = (Inr y, w')"
proof (induction xs arbitrary: acc w)
  case (Cons x xs)
  obtain y w' where "f x acc w = (Inr y, w')" using Cons.prems [of x acc w] by auto
  moreover obtain z w'' where "fold_each f xs y w' = (Inr z, w'')"
    using Cons.IH [of y w'] Cons.prems by (metis list.set_intros(2))
  ultimately show ?case by (simp add: andthen_def)
qed simp

lemma for_each_simps [simp]:
  "for_each f [] = ret ()"
  "for_each f (x # xs) = andthen (f x) (\<lambda>_. for_each f xs)"
  by (simp_all add: for_each_def)

text \<open>Operations that never raise, whatever world they run in.\<close>

definition returns :: "('w, 'a) prog \<Rightarrow> bool" where
  "returns m \<longleftrightarrow> (\<forall>w. \<exists>y w'. m w = (Inr y, w'))"

lemma returnsI: "(\<And>w. \<exists>y w'. m w = (Inr y, w')) \<Longrightarrow> returns m"
  by (simp add: returns_def)

lemma returnsD: "returns m \<Longrightarrow> \<exists>y w'. m w = (Inr y, w')"
  by (simp add: returns_def)

lemma returns_ret: "returns (ret x)"
  and returns_gets: "returns (gets f)"
  and returns_modify: "returns (modify g)"
  by (simp_all add: returns_def)

lemma returns_andthen: "returns m \<Longrightarrow> (\<And>x. returns (f x)) \<Longrightarrow> returns (andthen m f)"
  unfolding returns_def andthen_def by (metis (no_types, lifting) old.sum.simps(6) case_prod_conv)

lemma returns_catch: "(\<And>e. returns (h e)) \<Longrightarrow> returns (catch m h)"
  by (rule returnsI) (rule catch_never_raises, simp add: returns_def)

lemma returns_whenever: "returns m \<Longrightarrow> returns (whenever b m)"
  by (simp add: whenever_def returns_ret)

lemma returns_option:
  "returns m \<Longrightarrow> (\<And>x. returns (f x)) \<Longrightarrow> returns (case v of None \<Rightarrow> m | Some x \<Rightarrow> f x)"
  by (cases v) simp_all

lemma returns_if: "returns m \<Longrightarrow> returns m' \<Longrightarrow> returns (if b then m else m')"
  by simp

lemma returns_on_db: "returns m \<Longrightarrow> returns (on_db m)"
  by (rule returnsI, drule_tac w = "fst w" in returnsD) (auto simp: on_db_def)

lemma returns_fold_each: "(\<And>x acc. returns (f x acc)) \<Longrightarrow> returns (fold_each f xs acc)"
  by (induction xs arbitrary: acc) (simp_all add: returns_ret returns_andthen)

lemma returns_for_each: "(\<And>x. returns (f x)) \<Longrightarrow> returns (for_each f xs)"
  by (simp add: for_each_def returns_fold_each)

lemmas returns_intros = returns_ret returns_gets returns_modify returns_andthen returns_catch
  returns_whenever returns_option returns_if returns_on_db returns_fold_each returns_for_each

section \<open>Relations that every operation obeys\<close>

locale evolution =
  fixes R :: "'w \<Rightarrow> 'w \<Rightarrow> bool"
  assumes R_refl: "R w w" and R_trans: "R w w' \<Longrightarrow> R w' w'' \<Longrightarrow> R w w''"
begin

definition obeys :: "('w, 'a) prog \<Rightarrow> bool" where
  "obeys m \<longleftrightarrow> (\<forall>w. R w (snd (m w)))"

lemma obeysI: "(\<And>w. R w (snd (m w))) \<Longrightarrow> obeys m"
  by (simp add: obeys_def)

lemma obeysD: "obeys m \<Longrightarrow> R w (snd (m w))"
  by (simp add: obeys_def)

lemma obeys_ret: "obeys (ret x)"
  and obeys_raise: "obeys (raise e)"
  and obeys_gets: "obeys (gets f)"
  and obeys_lift: "obeys (lift_res r)"
  by (simp_all add: obeys_def R_refl)

lemma obeys_Pair: "obeys (Pair r)"
  by (simp add: obeys_def R_refl)

lemma obeys_andthen:
  assumes "obeys m" and "\<And>x. obeys (f x)"
  shows "obeys (andthen m f)"
proof (rule obeysI)
  fix w
  obtain r w' where m: "m w = (r, w')" by fastforce
  with obeysD [OF assms(1), of w] have "R w w'" by simp
  then show "R w (snd (andthen m f w))"
    using obeysD [OF assms(2)] R_trans m by (cases r) (auto simp: andthen_def)
qed

lemma obeys_catch:
  assumes "obeys m" and "\<And>e. obeys (h e)"
  shows "obeys (catch m h)"
proof (rule obeysI)
  fix w
  obtain r w' where m: "m w = (r, w')" by fastforce
  with obeysD [OF assms(1), of w] have "R w w'" by simp
  then show "R w (snd (catch m h w))"
    using obeysD [OF assms(2)] R_trans m by (cases r) (auto simp: catch_def)
qed

lemma obeys_whenever: "obeys m \<Longrightarrow> obeys (whenever b m)"
  by (simp add: whenever_def obeys_ret)

lemma obeys_fold_each:
  "(\<And>x acc. obeys (f x acc)) \<Longrightarrow> obeys (fold_each f xs acc)"
  by (induction xs arbitrary: acc) (simp_all add: obeys_ret obeys_andthen)

lemma obeys_fold_each_in:
  "(\<And>x acc. x \<in> set xs \<Longrightarrow> obeys (f x acc)) \<Longrightarrow> obeys (fold_each f xs acc)"
  by (induction xs arbitrary: acc) (simp_all add: obeys_ret obeys_andthen)

lemma obeys_for_each_in:
  "(\<And>x. x \<in> set xs \<Longrightarrow> obeys (f x)) \<Longrightarrow> obeys (for_each f xs)"
  by (simp add: for_each_def obeys_fold_each_in)

lemma obeys_andthen_gets: "(\<And>w. R w (snd (f (g w) w))) \<Longrightarrow> obeys (andthen (gets g) f)"
  by (simp add: obeys_def)

lemma obeys_for_each: "(\<And>x. obeys (f x)) \<Longrightarrow> obeys (for_each f xs)"
  by (simp add: for_each_def obeys_fold_each)

lemma obeys_if: "obeys m \<Longrightarrow> obeys m' \<Longrightarrow> obeys (if b then m else m')"
  by simp

lemma obeys_modify: "(\<And>w. R w (f w)) \<Longrightarrow> obeys (modify f)"
  by (simp add: obeys_def)

lemma obeys_option:
  "obeys m \<Longrightarrow> (\<And>x. obeys (f x)) \<Longrightarrow> obeys (case v of None \<Rightarrow> m | Some x \<Rightarrow> f x)"
  by (cases v) simp_all

lemma obeys_sum:
  "(\<And>x. obeys (g x)) \<Longrightarrow> (\<And>x. obeys (f x)) \<Longrightarrow> obeys (case v of Inl x \<Rightarrow> g x | Inr x \<Rightarrow> f x)"
  by (cases v) simp_all

lemma obeys_prod: "(\<And>x y. obeys (f x y)) \<Longrightarrow> obeys (case p of (x, y) \<Rightarrow> f x y)"
  by (cases p) simp

lemma obeys_prod_app: "(\<And>x y. obeys (f x y z)) \<Longrightarrow> obeys ((case p of (x, y) \<Rightarrow> f x y) z)"
  by (cases p) simp

lemma obeys_list:
  "obeys m \<Longrightarrow> (\<And>x xs. obeys (f x xs)) \<Longrightarrow> obeys (case v of [] \<Rightarrow> m | x # xs \<Rightarrow> f x xs)"
  by (cases v) simp_all

lemma obeys_Let: "(\<And>x. obeys (f x)) \<Longrightarrow> obeys (let x = v in f x)"
  by simp

lemmas obeys_intros = obeys_Pair obeys_ret obeys_raise obeys_gets obeys_lift
  obeys_andthen obeys_catch obeys_whenever obeys_fold_each obeys_for_each
  obeys_if obeys_option obeys_sum obeys_prod obeys_list obeys_Let

end

section \<open>How the database evolves\<close>

text \<open>
  The edges a row may have taken, from one status to another: the reflexive and
  transitive closure of the table's edges. The version only grows.
\<close>

definition moved :: "table \<Rightarrow> status \<Rightarrow> status \<Rightarrow> bool" where
  "moved t = (edge t)\<^sup>*\<^sup>*"

text \<open>
  What can happen to a database of well-keyed rows: its keys stay unique, every row that
  was there still is, and each row's status has moved along edges of its machine only.
\<close>

definition evolves :: "db \<Rightarrow> db \<Rightarrow> bool" where
  "evolves s s' \<longleftrightarrow> (db_wf s \<longrightarrow> db_wf s' \<and>
     (\<forall>t k a. status_of t k s = Some a \<longrightarrow> (\<exists>b. status_of t k s' = Some b \<and> moved t a b)))"

lemma moved_refl: "moved t a a"
  by (simp add: moved_def)

lemma moved_trans: "moved t a b \<Longrightarrow> moved t b c \<Longrightarrow> moved t a c"
  by (simp add: moved_def)

lemma moved_edge: "edge t a b \<Longrightarrow> moved t a b"
  by (simp add: moved_def r_into_rtranclp)

lemma moved_terminal: "moved t a b \<Longrightarrow> terminal t a \<Longrightarrow> b = a"
  by (auto simp: moved_def terminal_def elim: converse_rtranclpE)

lemma evolves_refl: "evolves s s"
  by (auto simp: evolves_def moved_refl)

lemma evolves_trans: "evolves s s' \<Longrightarrow> evolves s' s'' \<Longrightarrow> evolves s s''"
  unfolding evolves_def by (metis moved_trans)

text \<open>What the database part of a world does.\<close>

definition evolves_fst :: "db \<times> 'x \<Rightarrow> db \<times> 'x \<Rightarrow> bool" where
  "evolves_fst w w' \<longleftrightarrow> evolves (fst w) (fst w')"

interpretation ev: evolution evolves
  by unfold_locales (auto intro: evolves_refl evolves_trans)

interpretation evw: evolution evolves_fst
  by unfold_locales (auto simp: evolves_fst_def intro: evolves_refl evolves_trans)

lemma evw_on_db: "ev.obeys m \<Longrightarrow> evw.obeys (on_db m)"
  unfolding ev.obeys_def evw.obeys_def evolves_fst_def on_db_def
  by (metis (no_types, lifting) case_prod_beta fst_conv snd_conv)

lemma evw_on_port: "evw.obeys (on_port m)"
  by (auto simp: evw.obeys_def evolves_fst_def on_port_def evolves_refl split: prod.splits)

lemma evolves_try_transition: "evolves s (snd (try_transition t k a b now x v s))"
proof -
  have "\<exists>c'. status_of t' k' (snd (try_transition t k a b now x v s)) = Some c' \<and> moved t' c c'"
    if wf: "db_wf s" and c: "status_of t' k' s = Some c" for t' k' c
  proof (cases "fst (try_transition t k a b now x v s) = Inr True \<and> (t', k') = (t, k)")
    case True
    with try_transition_iff [OF wf, of t k a b now x v] c
    have "a = c" "edge t a b" by (auto dest: legal_call_edge)
    with True show ?thesis
      by (auto simp: status_of_try_transition [OF wf] intro: moved_edge)
  next
    case False
    then show ?thesis using c by (auto simp: status_of_try_transition [OF wf] moved_refl)
  qed
  then show ?thesis by (auto simp: evolves_def try_transition_wf)
qed

lemma ev_try_transition [intro]: "ev.obeys (try_transition t k a b now x v)"
  by (simp add: ev.obeys_def evolves_try_transition)

lemma transition_snd: "snd (transition t k a b now x v s) = snd (try_transition t k a b now x v s)"
  by (auto simp: transition_def split: prod.splits sum.splits bool.splits)

lemma ev_transition [intro]: "ev.obeys (transition t k a b now x v)"
  by (simp add: ev.obeys_def transition_snd evolves_try_transition)

text \<open>A write that keeps every status and the keys evolves the database.\<close>

lemma evolves_same_status:
  "(db_wf s \<Longrightarrow> db_wf s') \<Longrightarrow> (\<And>t k. status_of t k s' = status_of t k s) \<Longrightarrow> evolves s s'"
  by (auto simp: evolves_def moved_refl)

lemma evolves_append_event: "evolves s (append_event k p now s)"
  by (rule evolves_same_status) (simp_all add: append_event_wf)

lemma evolves_append_alert: "evolves s (append_alert c p t b now s)"
  by (simp add: append_alert_def evolves_append_event)

text \<open>Appending a row that finds its keys free.\<close>

lemma fetchone_append_keep:
  "map_option f (fetchone P xs) = Some a \<Longrightarrow> map_option f (fetchone P (xs @ ys)) = Some a"
  by (cases "fetchone P xs") (simp_all add: fetchone_append)

lemma status_of_more_rows:
  assumes "status_of t k s = Some a"
    and "\<exists>ys. decisions s' = decisions s @ ys" and "\<exists>ys. tickets s' = tickets s @ ys"
    and "\<exists>ys. orders s' = orders s @ ys" and "\<exists>ys. checkpoints s' = checkpoints s @ ys"
    and "\<exists>ys. worklist s' = worklist s @ ys" and "\<exists>ys. strategies s' = strategies s @ ys"
  shows "status_of t k s' = Some a"
proof -
  from assms(2-7) obtain y1 y2 y3 y4 y5 y6 where
    "decisions s' = decisions s @ y1" "tickets s' = tickets s @ y2" "orders s' = orders s @ y3"
    "checkpoints s' = checkpoints s @ y4" "worklist s' = worklist s @ y5"
    "strategies s' = strategies s @ y6" by blast
  with assms(1) show ?thesis
    by (cases t; cases k) (simp_all add: fetchone_append_keep del: map_option_eq_Some)
qed

lemma evolves_more_rows:
  assumes "db_wf s \<Longrightarrow> db_wf s'"
    and "\<exists>ys. decisions s' = decisions s @ ys" and "\<exists>ys. tickets s' = tickets s @ ys"
    and "\<exists>ys. orders s' = orders s @ ys" and "\<exists>ys. checkpoints s' = checkpoints s @ ys"
    and "\<exists>ys. worklist s' = worklist s @ ys" and "\<exists>ys. strategies s' = strategies s @ ys"
  shows "evolves s s'"
  unfolding evolves_def using assms(1) status_of_more_rows [OF _ assms(2-7)] moved_refl by blast

end
