(* ===== verification/Worklist.thy ===== *)
theory Worklist imports Prog "HOL-Library.Product_Lexorder" begin

text \<open>
  state/worklist.py: the rows of deferred work, their producers' allow-list, and the
  claim with its lease. The content hash of fundbt/hashing.py is the parameter \<open>hash_id\<close>.
  The locale \<open>lease_queue\<close> is what the dispatcher relies on; it is interpreted on the
  operations of this file.
\<close>

section \<open>Rows\<close>

definition PRODUCER_KINDS :: "(string \<times> string list) list" where
  "PRODUCER_KINDS = [(''orchestrator'', [''spec_review'']), (''alert_filer'', [''alert_triage''])]"

definition allowed :: "string \<Rightarrow> string \<Rightarrow> bool" where
  "allowed producer kind =
     (case map_of PRODUCER_KINDS producer of None \<Rightarrow> False | Some ks \<Rightarrow> kind \<in> set ks)"

definition enqueue :: "(string \<Rightarrow> string \<Rightarrow> string \<Rightarrow> string) \<Rightarrow> string \<Rightarrow> string \<Rightarrow> string \<Rightarrow> string
    \<Rightarrow> time \<Rightarrow> time \<Rightarrow> pydict \<Rightarrow> time option \<Rightarrow> int \<Rightarrow> (db, string) prog" where
  "enqueue hash_id kind producer seat subject expires_at now payload not_before attempts s =
     (if \<not> allowed producer kind then (Inl DisallowedWork, s)
      else (let wid = hash_id kind subject (str_of_int attempts)
            in (Inr wid, s\<lparr>worklist := fst (insert_or_ignore w_work_id
              \<lparr>w_work_id = wid, w_kind = kind, w_producer = producer, w_seat = seat,
               w_subject = subject, w_payload = payload, w_status = Open, w_attempts = attempts,
               w_not_before = not_before, w_expires_at = expires_at, w_claim_expires_at = None,
               w_created_at = now, w_claimed_at = None, w_finished_at = None\<rparr> (worklist s))\<rparr>)))"

definition age :: "work \<Rightarrow> time \<times> string" where
  "age w = (w_created_at w, w_work_id w)"

definition claimable :: "time \<Rightarrow> string option \<Rightarrow> work \<Rightarrow> bool" where
  "claimable now seat w \<longleftrightarrow>
     w_status w = Open \<and> (case w_not_before w of None \<Rightarrow> True | Some t \<Rightarrow> t \<le> now)
     \<and> w_expires_at w > now \<and> (case seat of None \<Rightarrow> True | Some x \<Rightarrow> w_seat w = x)"

fun claim_loop :: "time \<Rightarrow> time \<Rightarrow> work list \<Rightarrow> (db, work option) prog" where
  "claim_loop now lease_until [] = ret None"
| "claim_loop now lease_until (c # cs) =
     andthen (try_transition T_worklist (K_work_id (w_work_id c)) Open Claimed now
                [Claimed_at now, Claim_expires_at lease_until] None)
       (\<lambda>won. if won then gets (\<lambda>s. fetchone (\<lambda>w. w_work_id w = w_work_id c) (worklist s))
              else claim_loop now lease_until cs)"

definition claim_next :: "time \<Rightarrow> time \<Rightarrow> string option \<Rightarrow> (db, work option) prog" where
  "claim_next now lease_until seat =
     andthen (gets (\<lambda>s. sort_key age (filter (claimable now seat) (worklist s))))
       (claim_loop now lease_until)"

definition finish :: "string \<Rightarrow> time \<Rightarrow> (db, unit) prog" where
  "finish wid now = transition T_worklist (K_work_id wid) Claimed Done now [Finished_at now] None"

definition fail :: "string \<Rightarrow> time \<Rightarrow> (db, unit) prog" where
  "fail wid now = transition T_worklist (K_work_id wid) Claimed Failed now [Finished_at now] None"

section \<open>Enqueueing\<close>

text \<open>Writing the worklist column only.\<close>

lemma db_wf_worklist:
  "db_wf s \<Longrightarrow> unique_on w_work_id ws \<Longrightarrow> db_wf (s\<lparr>worklist := ws\<rparr>)"
  by (simp add: db_wf_def)

lemma insert_or_ignore_append: "\<exists>ys. fst (insert_or_ignore key r xs) = xs @ ys"
  by (auto simp: insert_or_ignore_def)

lemma ev_enqueue: "ev.obeys (enqueue hash_id kind producer seat subject ex now payload nb n)"
  by (rule ev.obeysI)
    (auto simp: enqueue_def Let_def evolves_refl insert_or_ignore_append db_wf_worklist
       insert_or_ignore_unique db_wf_def intro!: evolves_more_rows)

text \<open>
  Enqueueing is idempotent and respects the allow-list: a producer that may not enqueue
  the kind gets an error and nothing is written; otherwise a row with the returned id is
  there afterwards, and a second call for the same kind, subject and attempt returns the
  same id and changes nothing, whatever its payload, seat, expiry and time.
\<close>

theorem enqueue_idempotent:
  assumes "enqueue hash_id kind producer seat subject ex now payload nb n s = (r, s1)"
  shows "(r = Inl DisallowedWork \<and> s1 = s \<and> \<not> allowed producer kind) \<or>
    (allowed producer kind \<and> r = Inr (hash_id kind subject (str_of_int n)) \<and>
     hash_id kind subject (str_of_int n) \<in> w_work_id ` set (worklist s1) \<and>
     enqueue hash_id kind producer seat' subject ex' now' payload' nb' n s1 = (r, s1))"
  using assms by (auto simp: enqueue_def Let_def insert_or_ignore_def split: if_splits)

theorem enqueue_idempotent_witness:
  "\<exists>s1. enqueue (\<lambda>k x n. k @ x @ n) ''spec_review'' ''orchestrator'' ''critic'' ''sp'' 99 1 [] None 0 empty_db
      = (Inr ''spec_reviewsp0'', s1) \<and>
    enqueue (\<lambda>k x n. k @ x @ n) ''spec_review'' ''orchestrator'' ''pm'' ''sp'' 7 2 [] None 0 s1
      = (Inr ''spec_reviewsp0'', s1)"
proof -
  have z: "str_of_int 0 = ''0''" by code_simp
  obtain r s1 where e: "enqueue (\<lambda>k x n. k @ x @ n) ''spec_review'' ''orchestrator'' ''critic'' ''sp'' 99 1 [] None 0 empty_db
      = (r, s1)" by fastforce
  from enqueue_idempotent [OF e, where seat' = "''pm''" and ex' = 7 and now' = 2 and payload' = "[]" and nb' = None] e show ?thesis
    by (auto simp: allowed_def PRODUCER_KINDS_def z)
qed

section \<open>Claiming\<close>

lemma legal_claim: "legal_call T_worklist (K_work_id k) Open Claimed [Claimed_at a, Claim_expires_at b] None"
  and legal_finish: "legal_call T_worklist (K_work_id k) Claimed Done [Finished_at a] None"
  and legal_fail: "legal_call T_worklist (K_work_id k) Claimed Failed [Finished_at a] None"
  and legal_expire_work: "legal_call T_worklist (K_work_id k) Open Expired [Finished_at a] None"
  by (simp_all add: legal_call_def EDGES_def VERSIONED_def)

lemma work_status: "db_wf s \<Longrightarrow> w \<in> set (worklist s) \<Longrightarrow> status_of T_worklist (K_work_id (w_work_id w)) s = Some (w_status w)"
  using fetchone_unique [of w_work_id "worklist s" w] by (simp add: db_wf_def)

lemma try_claim_row:
  assumes "db_wf s" and "w \<in> set (worklist s)" and "w_status w = Open"
  shows "try_transition T_worklist (K_work_id (w_work_id w)) Open Claimed now
      [Claimed_at now, Claim_expires_at lu] None s =
    (Inr True, s\<lparr>worklist := update_where (\<lambda>v. w_work_id v = w_work_id w \<and> w_status v = Open)
       (\<lambda>v. v\<lparr>w_status := Claimed, w_claimed_at := Some now, w_claim_expires_at := Some lu\<rparr>) (worklist s)\<rparr>)"
proof -
  have "rowcount (\<lambda>v. w_work_id v = w_work_id w \<and> w_status v = Open) (worklist s) = 1"
    using assms by (simp add: rowcount_key fetchone_unique db_wf_def)
  then show ?thesis by (simp add: try_transition_legal [OF legal_claim] Let_def)
qed

text \<open>The claim on a database with a candidate, and without one.\<close>

definition claimed_row :: "time \<Rightarrow> time \<Rightarrow> work \<Rightarrow> work" where
  "claimed_row now lu w = w\<lparr>w_status := Claimed, w_claimed_at := Some now, w_claim_expires_at := Some lu\<rparr>"

lemma claim_next_run:
  assumes "db_wf s"
  shows "claim_next now lu seat s =
    (case sort_key age (filter (claimable now seat) (worklist s)) of
       [] \<Rightarrow> (Inr None, s)
     | w # _ \<Rightarrow> (Inr (Some (claimed_row now lu w)),
         s\<lparr>worklist := update_where (\<lambda>v. w_work_id v = w_work_id w \<and> w_status v = Open)
             (claimed_row now lu) (worklist s)\<rparr>))"
proof (cases "sort_key age (filter (claimable now seat) (worklist s))")
  case Nil
  then show ?thesis by (simp add: claim_next_def)
next
  case (Cons w ws)
  then have "w \<in> set (filter (claimable now seat) (worklist s))"
    by (metis list.set_intros(1) set_sort)
  then have w: "w \<in> set (worklist s)" "w_status w = Open" by (auto simp: claimable_def)
  have f: "fetchone (\<lambda>v. w_work_id v = w_work_id w) (worklist s) = Some w"
    using assms w(1) by (simp add: db_wf_def fetchone_unique)
  have "fetchone (\<lambda>v. w_work_id v = w_work_id w)
      (update_where (\<lambda>v. w_work_id v = w_work_id w \<and> w_status v = Open) (claimed_row now lu) (worklist s))
    = Some (claimed_row now lu w)"
    by (rule fetchone_update_hit [OF f]) (simp_all add: w claimed_row_def)
  then show ?thesis
    using Cons try_claim_row [OF assms w, of now lu]
    by (simp add: claim_next_def andthen_def claimed_row_def [abs_def])
qed

lemma hd_sort_key_least:
  "sort_key f xs = y # ys \<Longrightarrow> y \<in> set xs \<and> (\<forall>x\<in>set xs. f y \<le> f x)"
proof -
  assume s: "sort_key f xs = y # ys"
  then have "set (y # ys) = set xs" by (metis set_sort)
  moreover have "sorted (map f (y # ys))" by (metis s sorted_sort_key)
  ultimately show ?thesis by auto
qed

text \<open>
  The claim takes the oldest claimable row (open, past its debounce, not past its
  expiry, of the seat asked for), leases it until the given time and returns it as it now
  is; no other row changes; and it returns nothing exactly when nothing is claimable.
\<close>

theorem claim_next_takes_the_oldest:
  assumes "db_wf s" and "claim_next now lu seat s = (r, s')"
  shows "(r = Inr None \<longleftrightarrow> (\<forall>w\<in>set (worklist s). \<not> claimable now seat w)) \<and>
    (r \<noteq> Inr None \<longrightarrow> (\<exists>w\<in>set (worklist s). claimable now seat w \<and>
        (\<forall>v\<in>set (worklist s). claimable now seat v \<longrightarrow> age w \<le> age v) \<and>
        r = Inr (Some (claimed_row now lu w)) \<and>
        set (worklist s') = insert (claimed_row now lu w) (set (worklist s) - {w}))) \<and>
    (r = Inr None \<longrightarrow> s' = s)"
proof (cases "sort_key age (filter (claimable now seat) (worklist s))")
  case Nil
  then have "\<forall>w\<in>set (worklist s). \<not> claimable now seat w"
    by (metis empty_filter_conv list.set(1) set_empty set_sort)
  with Nil assms show ?thesis by (simp add: claim_next_run)
next
  case (Cons w ws)
  from hd_sort_key_least [OF this] have w: "w \<in> set (worklist s)" "claimable now seat w"
    and least: "\<forall>v\<in>set (worklist s). claimable now seat v \<longrightarrow> age w \<le> age v" by auto
  have u: "v = w" if "v \<in> set (worklist s)" "w_work_id v = w_work_id w" for v
    using unique_onD [of w_work_id "worklist s"] assms(1) that w(1) by (simp add: db_wf_def)
  have rs: "r = Inr (Some (claimed_row now lu w))"
    "worklist s' = update_where (\<lambda>v. w_work_id v = w_work_id w \<and> w_status v = Open)
       (claimed_row now lu) (worklist s)"
    using assms Cons by (auto simp: claim_next_run)
  have "{v \<in> set (worklist s). w_work_id v = w_work_id w \<and> w_status v = Open} = {w}"
    using u w by (auto simp: claimable_def)
  moreover have "{v \<in> set (worklist s). \<not> (w_work_id v = w_work_id w \<and> w_status v = Open)} = set (worklist s) - {w}"
    using u w by (auto simp: claimable_def)
  ultimately have "set (worklist s') = insert (claimed_row now lu w) (set (worklist s) - {w})"
    unfolding rs(2) set_update_where by simp
  then show ?thesis using rs w least by blast
qed

definition two_works :: db where
  "two_works = snd (enqueue (\<lambda>k x n. x) ''spec_review'' ''orchestrator'' ''critic'' ''a'' 100 5 [] None 0
     (snd (enqueue (\<lambda>k x n. x) ''spec_review'' ''orchestrator'' ''critic'' ''b'' 100 3 [] None 0 empty_db)))"

lemma two_works_wf: "db_wf two_works"
  by (simp add: two_works_def enqueue_def allowed_def PRODUCER_KINDS_def Let_def insert_or_ignore_def
      empty_db_def db_wf_def unique_on_def)

theorem claim_next_takes_the_oldest_witness:
  "\<exists>w s'. claim_next 10 310 None two_works = (Inr (Some w), s') \<and> w_work_id w = ''b'' \<and> w_status w = Claimed"
proof -
  obtain r s' where c: "claim_next 10 310 None two_works = (r, s')" by fastforce
  have ws: "map w_work_id (worklist two_works) = [''b'', ''a'']" "map w_created_at (worklist two_works) = [3, 5]"
    "list_all (claimable 10 None) (worklist two_works)"
    by (simp_all add: two_works_def enqueue_def allowed_def PRODUCER_KINDS_def Let_def insert_or_ignore_def
        empty_db_def claimable_def)
  then have "\<exists>w\<in>set (worklist two_works). claimable 10 None w" by (auto simp: two_works_def Cons_eq_map_conv)
  with claim_next_takes_the_oldest [OF two_works_wf c] obtain w where
    w: "w \<in> set (worklist two_works)" "\<forall>v\<in>set (worklist two_works). claimable 10 None v \<longrightarrow> age w \<le> age v"
    "r = Inr (Some (claimed_row 10 310 w))" by blast
  from w(1,2) ws have "w_work_id w = ''b''"
    by (auto simp: Cons_eq_map_conv age_def)
  with c w(3) show ?thesis by (simp add: claimed_row_def)
qed

section \<open>The interface the dispatcher relies on\<close>

locale lease_queue =
  fixes inv :: "'s \<Rightarrow> bool"
    and status :: "string \<Rightarrow> 's \<Rightarrow> status option"
    and claim :: "time \<Rightarrow> time \<Rightarrow> string option \<Rightarrow> ('s, work option) prog"
    and done_op :: "string \<Rightarrow> time \<Rightarrow> ('s, unit) prog"
    and fail_op :: "string \<Rightarrow> time \<Rightarrow> ('s, unit) prog"
  assumes claim_total: "inv s \<Longrightarrow> \<exists>c s'. claim now lu seat s = (Inr c, s') \<and> inv s'"
    and claim_some: "inv s \<Longrightarrow> claim now lu seat s = (Inr (Some w), s') \<Longrightarrow> status (w_work_id w) s' = Some Claimed"
    and claim_none: "inv s \<Longrightarrow> claim now lu seat s = (Inr None, s') \<Longrightarrow> s' = s"
    and done_claimed: "inv s \<Longrightarrow> status k s = Some Claimed \<Longrightarrow>
      \<exists>s'. done_op k now s = (Inr (), s') \<and> inv s' \<and> status k s' = Some Done"
    and fail_claimed: "inv s \<Longrightarrow> status k s = Some Claimed \<Longrightarrow>
      \<exists>s'. fail_op k now s = (Inr (), s') \<and> inv s' \<and> status k s' = Some Failed"
    and done_unclaimed: "inv s \<Longrightarrow> status k s \<noteq> Some Claimed \<Longrightarrow> done_op k now s = (Inl StaleTransition, s)"
    and fail_unclaimed: "inv s \<Longrightarrow> status k s \<noteq> Some Claimed \<Longrightarrow> fail_op k now s = (Inl StaleTransition, s)"
begin

text \<open>Whatever the wake did short of moving its own row, the row is settled after it.\<close>

lemma settle:
  assumes "inv s" and "status k s = Some Claimed"
  shows "\<exists>s'. (case r of Inl e \<Rightarrow> fail_op k now s | Inr u \<Rightarrow> done_op k now s) = (Inr (), s') \<and> inv s' \<and>
    status k s' = Some (case r of Inl e \<Rightarrow> Failed | Inr u \<Rightarrow> Done)"
  using done_claimed [OF assms] fail_claimed [OF assms] by (cases r) simp_all

text \<open>A row is settled once: a second verdict is refused and changes nothing.\<close>

lemma settled_once:
  assumes "inv s" and "done_op k now s = (Inr (), s')"
  shows "fail_op k now' s' = (Inl StaleTransition, s')"
proof (cases "status k s = Some Claimed")
  case True
  with done_claimed [OF assms(1), of k now] assms(2) have "inv s'" "status k s' = Some Done" by auto
  then show ?thesis by (simp add: fail_unclaimed)
next
  case False
  with assms show ?thesis by (simp add: done_unclaimed)
qed

end

lemma settle_row:
  assumes "db_wf s" and "legal_call T_worklist (K_work_id k) Claimed b x None"
  shows "status_of T_worklist (K_work_id k) s = Some Claimed \<Longrightarrow>
      \<exists>s'. transition T_worklist (K_work_id k) Claimed b now x None s = (Inr (), s') \<and> db_wf s' \<and>
        status_of T_worklist (K_work_id k) s' = Some b"
    and "status_of T_worklist (K_work_id k) s \<noteq> Some Claimed \<Longrightarrow>
      transition T_worklist (K_work_id k) Claimed b now x None s = (Inl StaleTransition, s)"
proof -
  obtain r s' where t: "try_transition T_worklist (K_work_id k) Claimed b now x None s = (r, s')" by fastforce
  have iff: "r = Inr True \<longleftrightarrow> status_of T_worklist (K_work_id k) s = Some Claimed"
    using try_transition_iff [OF assms(1), of T_worklist "K_work_id k" Claimed b now x None] assms(2)
    by (simp add: t VERSIONED_def del: status_of.simps)
  have wf: "db_wf s'" using try_transition_wf [OF assms(1), of T_worklist "K_work_id k" Claimed b now x None] t by simp
  have hit: "r = Inr True \<Longrightarrow> status_of T_worklist (K_work_id k) s' = Some b"
    using try_transition_hit [OF assms(1), of T_worklist "K_work_id k" Claimed b now x None] t
    by (simp del: status_of.simps)
  have miss: "r \<noteq> Inr True \<Longrightarrow> s' = s"
    using try_transition_miss [OF assms(1), of T_worklist "K_work_id k" Claimed b now x None] t by simp
  have "\<exists>b. r = Inr b"
    using try_transition_legal [OF assms(2), of now s] t by auto
  then obtain won where "r = Inr won" by blast
  with t iff wf hit miss
  show "status_of T_worklist (K_work_id k) s = Some Claimed \<Longrightarrow>
      \<exists>s'. transition T_worklist (K_work_id k) Claimed b now x None s = (Inr (), s') \<and> db_wf s' \<and>
        status_of T_worklist (K_work_id k) s' = Some b"
    and "status_of T_worklist (K_work_id k) s \<noteq> Some Claimed \<Longrightarrow>
      transition T_worklist (K_work_id k) Claimed b now x None s = (Inl StaleTransition, s)"
    by (auto simp: transition_def simp del: status_of.simps)
qed

lemma claim_next_wf: "db_wf s \<Longrightarrow> db_wf (snd (claim_next now lu seat s))"
  by (auto simp: claim_next_run claimed_row_def db_wf_worklist db_wf_def unique_on_update_where split: list.splits)

lemma claim_next_claimed:
  assumes "db_wf s" and "claim_next now lu seat s = (Inr (Some w), s')"
  shows "status_of T_worklist (K_work_id (w_work_id w)) s' = Some Claimed"
proof -
  from assms obtain v vs where v: "sort_key age (filter (claimable now seat) (worklist s)) = v # vs"
    and w: "w = claimed_row now lu v"
    and s': "s' = s\<lparr>worklist := update_where (\<lambda>x. w_work_id x = w_work_id v \<and> w_status x = Open)
             (claimed_row now lu) (worklist s)\<rparr>"
    by (auto simp: claim_next_run split: list.splits)
  from hd_sort_key_least [OF v] have "v \<in> set (worklist s)" "w_status v = Open"
    by (auto simp: claimable_def)
  moreover have "w_work_id w = w_work_id v" "w_status w = Claimed" using w by (simp_all add: claimed_row_def)
  ultimately have "w \<in> set (worklist s')" unfolding s' by (auto simp: set_update_where w)
  moreover have "db_wf s'" using claim_next_wf [OF assms(1), of now lu seat] assms(2) by simp
  ultimately show ?thesis using work_status [of s' w] \<open>w_status w = Claimed\<close> by simp
qed

interpretation wq: lease_queue db_wf "\<lambda>k s. status_of T_worklist (K_work_id k) s" claim_next finish fail
proof (unfold_locales, goal_cases)
  case (1 s now lu seat)
  then show ?case
    using claim_next_wf [OF 1, of now lu seat] by (auto simp: claim_next_run split: list.splits)
next
  case (2 s now lu seat w s')
  then show ?case by (rule claim_next_claimed)
next
  case (3 s now lu seat s')
  then show ?case by (auto simp: claim_next_run split: list.splits)
qed (simp_all add: finish_def fail_def settle_row legal_finish legal_fail del: status_of.simps)

lemma ev_claim_next: "ev.obeys (claim_next now lu seat)"
proof -
  have "ev.obeys (claim_loop now lu cs)" for cs
    by (induction cs) (auto intro!: ev.obeys_intros ev_try_transition)
  then show ?thesis by (simp add: claim_next_def ev.obeys_andthen ev.obeys_gets)
qed

lemma ev_finish: "ev.obeys (finish wid now)" and ev_fail: "ev.obeys (fail wid now)"
  by (auto simp: finish_def fail_def)

end
