(* ===== verification/Ports.thy ===== *)
theory Ports imports Prog begin

text \<open>
  The outside as the orchestrator sees it: a clock, the Slack renderer and the Slack
  post. Their state has the type \<open>'x\<close>; every reading of the clock may move it. A world
  is the database with that state.
\<close>

record 'x ports =
  now_port :: "'x \<Rightarrow> time \<times> 'x"
  render_port :: "string \<Rightarrow> pydict \<Rightarrow> pyval res"
  post_port :: "pyval \<Rightarrow> 'x \<Rightarrow> unit res \<times> 'x"

type_synonym 'x world = "db \<times> 'x"

text \<open>\<open>iso(clock.now())\<close>\<close>

definition clock_now :: "('x, 'z) ports_scheme \<Rightarrow> ('x world, time) prog" where
  "clock_now P = on_port (\<lambda>x. case now_port P x of (t, x') \<Rightarrow> (Inr t, x'))"

text \<open>\<open>drain(conn, slack, now)\<close>; it always returns (\<open>drain_terminates\<close>), so the last case is never taken.\<close>

definition drain_outbox :: "('x, 'z) ports_scheme \<Rightarrow> time \<Rightarrow> ('x world, nat) prog" where
  "drain_outbox P now w = (case drain (render_port P) (post_port P) now w of
     Some (n, w') \<Rightarrow> (Inr n, w') | None \<Rightarrow> (Inr 0, w))"

lemma clock_now_run: "\<exists>t x'. clock_now P (s, x) = (Inr t, (s, x'))"
  by (auto simp: clock_now_def on_port_def split: prod.splits)

lemma returns_clock_now: "returns (clock_now P)"
  by (rule returnsI) (auto simp: clock_now_def on_port_def split: prod.splits)

lemma clock_now_db: "clock_now P (s, x) = (r, (s', x')) \<Longrightarrow> s' = s \<and> (\<exists>t. r = Inr t)"
  by (auto simp: clock_now_def on_port_def split: prod.splits)

lemma evw_clock_now: "evw.obeys (clock_now P)"
  by (simp add: clock_now_def evw_on_port)

section \<open>Draining changes no workflow row\<close>

definition same_rows :: "db \<Rightarrow> db \<Rightarrow> bool" where
  "same_rows s s' \<longleftrightarrow> (db_wf s \<longrightarrow> db_wf s') \<and> decisions s' = decisions s \<and> tickets s' = tickets s
     \<and> orders s' = orders s \<and> checkpoints s' = checkpoints s \<and> worklist s' = worklist s
     \<and> strategies s' = strategies s \<and> signals s' = signals s \<and> critiques s' = critiques s
     \<and> offered s' = offered s \<and> costs s' = costs s \<and> protection s' = protection s"

lemma same_rows_refl: "same_rows s s"
  by (simp add: same_rows_def)

lemma same_rows_trans: "same_rows s s' \<Longrightarrow> same_rows s' s'' \<Longrightarrow> same_rows s s''"
  by (simp add: same_rows_def)

lemma same_rows_status: "same_rows s s' \<Longrightarrow> status_of t k s' = status_of t k s"
  by (cases t; cases k) (simp_all add: same_rows_def)

lemma same_rows_evolves: "same_rows s s' \<Longrightarrow> evolves s s'"
  by (rule evolves_same_status) (simp_all add: same_rows_status del: status_of.simps, simp add: same_rows_def)

lemma same_rows_event: "same_rows s (append_event k p now s)"
  by (simp add: same_rows_def append_event_wf)

lemma same_rows_alert: "same_rows s (append_alert c p t b now s)"
  by (simp add: same_rows_def append_alert_wf)

lemma same_rows_mark: "same_rows s (mark_posted i now s)"
  by (simp add: same_rows_def mark_posted_def db_wf_def unique_on_update_where)

lemma same_rows_dead_letter: "same_rows s (dead_letter r now s)"
  using same_rows_trans [OF same_rows_mark same_rows_event] same_rows_mark
  by (simp add: dead_letter_def Let_def)

text \<open>What both ways of dealing with a row respect, a whole drain respects.\<close>

lemma drain_rows_rel:
  assumes refl: "\<And>s. R s s" and trans: "\<And>s s' s''. R s s' \<Longrightarrow> R s' s'' \<Longrightarrow> R s s''"
    and dead: "\<And>row s. R s (dead_letter row now s)" and mark: "\<And>i s. R s (mark_posted i now s)"
  shows "drain_rows render post now rows n (s, sl) = (ok, n', s', sl') \<Longrightarrow> R s s'"
proof (induction rows arbitrary: n s sl)
  case (Cons row rows)
  show ?case
  proof (cases "render (e_kind row) (e_payload row)")
    case (Inl x)
    with Cons.prems Cons.IH [of n "dead_letter row now s" sl] show ?thesis using trans [OF dead] by simp
  next
    case (Inr p)
    obtain q sl1 where q: "post p sl = (q, sl1)" by fastforce
    show ?thesis
    proof (cases q)
      case (Inl e)
      with Cons.prems \<open>render _ _ = Inr p\<close> q Cons.IH [of n "dead_letter row now s" sl1] show ?thesis
        using trans [OF dead] refl by (auto split: if_splits)
    next
      case (Inr u)
      with Cons.prems \<open>render _ _ = Inr p\<close> q Cons.IH [of "Suc n" "mark_posted (e_id row) now s" sl1]
      show ?thesis using trans [OF mark] by simp
    qed
  qed
qed (simp add: refl)

lemma drain_outbox_rel:
  assumes refl: "\<And>s. R s s" and trans: "\<And>s s' s''. R s s' \<Longrightarrow> R s' s'' \<Longrightarrow> R s s''"
    and dead: "\<And>row s. R s (dead_letter row now s)" and mark: "\<And>i s. R s (mark_posted i now s)"
  shows "R (fst w) (fst (snd (drain_outbox P now w)))"
proof -
  have loop: "drain_loop fuel render post now n (s, sl) = Some (n', s', sl') \<Longrightarrow> R s s'" for fuel render post n s sl n' s' sl'
  proof (induction fuel arbitrary: n s sl)
    case (Suc fuel)
    show ?case
    proof (cases "unposted s")
      case (Cons r rs)
      obtain ok n1 s1 sl1 where d: "drain_rows render post now (unposted s) n (s, sl) = (ok, n1, s1, sl1)"
        by (metis prod_cases4)
      from drain_rows_rel [of R, OF refl trans dead mark this] have "R s s1" .
      with Suc.prems Suc.IH [of n1 s1 sl1] d Cons show ?thesis
        by (cases ok) (auto intro: trans)
    qed (use Suc.prems in \<open>simp add: refl\<close>)
  qed simp
  show ?thesis
  proof (cases "drain (render_port P) (post_port P) now w")
    case (Some r)
    obtain n s' sl' where r: "r = (n, s', sl')" by (metis prod_cases3)
    obtain s sl where w: "w = (s, sl)" by fastforce
    from Some loop show ?thesis unfolding drain_def drain_outbox_def w r by fastforce
  qed (simp add: drain_outbox_def refl)
qed

lemma drain_outbox_same: "same_rows (fst w) (fst (snd (drain_outbox P now w)))"
  by (rule drain_outbox_rel [of same_rows])
    (auto intro: same_rows_refl same_rows_trans same_rows_dead_letter same_rows_mark)

lemma mark_posted_codes: "alert_codes (mark_posted i now s) = alert_codes s"
proof -
  have "map event_code (filter (\<lambda>e. e_kind e = ''alert'') (update_where P (\<lambda>e. e\<lparr>e_posted_at := Some now\<rparr>) es))
      = map event_code (filter (\<lambda>e. e_kind e = ''alert'') es)" for P es
    by (induction es) (auto simp: update_where_def event_code_def)
  then show ?thesis by (simp add: alert_codes_def mark_posted_def)
qed

lemma drain_outbox_codes: "alert_codes (fst (snd (drain_outbox P now w))) = alert_codes (fst w)"
proof -
  have "alert_codes (dead_letter row now s) = alert_codes s" for row s
    by (simp add: dead_letter_def Let_def mark_posted_codes)
  then show ?thesis
    using drain_outbox_rel [of "\<lambda>s s'. alert_codes s' = alert_codes s" now w P] by (simp add: mark_posted_codes)
qed

lemma drain_outbox_Inr: "\<exists>n w'. drain_outbox P now w = (Inr n, w')"
  by (auto simp: drain_outbox_def split: option.splits)

lemma evw_drain_outbox: "evw.obeys (drain_outbox P now)"
  by (simp add: evw.obeys_def evolves_fst_def same_rows_evolves drain_outbox_same)

end
