(* ===== verification/Dispatch.thy ===== *)
theory Dispatch imports Worklist Ports "HOL-Library.Multiset" begin

text \<open>
  orchestrator/dispatch.py: the sweep of overdue work, one dispatch cycle, and the
  resident loop. The wake is a parameter: any operation on the world.
\<close>

section \<open>The sweep\<close>

record sweep_result =
  swept_reaped :: "string list"
  swept_expired :: "string list"

record dispatch_result =
  disp_handled :: "string option"
  disp_swept :: sweep_result

definition DEFAULT_LEASE_S :: int where "DEFAULT_LEASE_S = 300"

text \<open>One iteration of either loop of \<open>sweep\<close>.\<close>

definition move_row :: "status \<Rightarrow> status \<Rightarrow> string \<Rightarrow> time \<Rightarrow> work \<Rightarrow> string list \<Rightarrow> (db, string list) prog" where
  "move_row src dst alert_code now r moved_ids =
     andthen (try_transition T_worklist (K_work_id (w_work_id r)) src dst now [Finished_at now] None)
       (\<lambda>won. if won then andthen (modify (alert alert_code now)) (\<lambda>_. ret (moved_ids @ [w_work_id r]))
              else ret moved_ids)"

definition over_lease :: "time \<Rightarrow> work \<Rightarrow> bool" where
  "over_lease now w \<longleftrightarrow> w_status w = Claimed \<and>
     (case w_claim_expires_at w of None \<Rightarrow> True | Some t \<Rightarrow> t \<le> now)"

definition past_due :: "time \<Rightarrow> work \<Rightarrow> bool" where
  "past_due now w \<longleftrightarrow> w_status w = Open \<and> w_expires_at w \<le> now"

definition sweep :: "time \<Rightarrow> (db, sweep_result) prog" where
  "sweep now =
     andthen (gets (\<lambda>s. sort_key age (filter (over_lease now) (worklist s)))) (\<lambda>late.
     andthen (fold_each (move_row Claimed Failed ''work_lease_expired'' now) late []) (\<lambda>reaped.
     andthen (gets (\<lambda>s. sort_key age (filter (past_due now) (worklist s)))) (\<lambda>due.
     andthen (fold_each (move_row Open Expired ''work_expired'' now) due []) (\<lambda>gone.
     ret \<lparr>swept_reaped = reaped, swept_expired = gone\<rparr>))))"

section \<open>One cycle, and the loop\<close>

definition dispatch_once :: "('x, 'z) ports_scheme \<Rightarrow> (work \<Rightarrow> ('x world, unit) prog) \<Rightarrow> int
    \<Rightarrow> ('x world, dispatch_result) prog" where
  "dispatch_once P run_wake lease_s =
     andthen (clock_now P) (\<lambda>now.
     andthen (on_db (sweep now)) (\<lambda>swept.
     andthen (on_db (claim_next now (now + lease_s) None)) (\<lambda>row.
     case row of None \<Rightarrow> ret \<lparr>disp_handled = None, disp_swept = swept\<rparr>
     | Some w \<Rightarrow>
         (let wid = w_work_id w; res = ret \<lparr>disp_handled = Some wid, disp_swept = swept\<rparr>
          in if \<not> allowed (w_producer w) (w_kind w) then
               andthen (clock_now P) (\<lambda>done_at.
               andthen (on_db (fail wid done_at)) (\<lambda>_.
               andthen (on_db (modify (alert ''work_disallowed'' done_at))) (\<lambda>_. res)))
             else (\<lambda>w0. case run_wake w w0 of
                 (Inl e, w1) \<Rightarrow>
                   (andthen (clock_now P) (\<lambda>done_at.
                    andthen (on_db (fail wid done_at)) (\<lambda>_.
                    andthen (on_db (modify (alert ''work_failed'' done_at))) (\<lambda>_. res)))) w1
               | (Inr _, w1) \<Rightarrow>
                   (andthen (clock_now P) (\<lambda>done_at.
                    andthen (on_db (finish wid done_at)) (\<lambda>_. res))) w1)))))"

definition unposted_count :: "db \<Rightarrow> nat" where
  "unposted_count s = rowcount (\<lambda>e. e_posted_at e = None) (events s)"

text \<open>\<open>max_cycles\<close> cycles; the flag is \<open>pending\<close>. A run without a bound is every prefix of it.\<close>

fun dispatch_cycles :: "('x, 'z) ports_scheme \<Rightarrow> (work \<Rightarrow> ('x world, unit) prog) \<Rightarrow> int
    \<Rightarrow> ('x \<Rightarrow> unit res \<times> 'x) \<Rightarrow> nat \<Rightarrow> bool \<Rightarrow> ('x world, unit) prog" where
  "dispatch_cycles P run_wake lease_s sleep 0 pending = ret ()"
| "dispatch_cycles P run_wake lease_s sleep (Suc n) pending =
     andthen (dispatch_once P run_wake lease_s) (\<lambda>res.
     (let pending1 = (pending \<or> disp_handled res \<noteq> None \<or> swept_reaped (disp_swept res) \<noteq> []
                       \<or> swept_expired (disp_swept res) \<noteq> [])
      in andthen (if pending1 then
             andthen (clock_now P) (\<lambda>now. andthen (drain_outbox P now) (\<lambda>_.
               on_db (gets (\<lambda>s. unposted_count s > 0))))
           else ret False) (\<lambda>pending2.
         andthen (whenever (disp_handled res = None) (on_port sleep)) (\<lambda>_.
         dispatch_cycles P run_wake lease_s sleep n pending2))))"

definition run_dispatcher :: "('x, 'z) ports_scheme \<Rightarrow> (work \<Rightarrow> ('x world, unit) prog) \<Rightarrow> int
    \<Rightarrow> ('x \<Rightarrow> unit res \<times> 'x) \<Rightarrow> nat \<Rightarrow> ('x world, nat) prog" where
  "run_dispatcher P run_wake lease_s sleep max_cycles =
     andthen (dispatch_cycles P run_wake lease_s sleep max_cycles False) (\<lambda>_. ret max_cycles)"

section \<open>What the sweep does\<close>

definition swept_row :: "status \<Rightarrow> time \<Rightarrow> work \<Rightarrow> work" where
  "swept_row dst now w = w\<lparr>w_status := dst, w_finished_at := Some now\<rparr>"

lemma swept_row_simps [simp]:
  "w_work_id (swept_row b now w) = w_work_id w" "w_status (swept_row b now w) = b"
  "swept_row b now (swept_row b now w) = swept_row b now w"
  by (simp_all add: swept_row_def)

lemma move_row_hit:
  assumes "db_wf s" and "r \<in> set (worklist s)" and "w_status r = a" and "edge T_worklist a b"
  shows "move_row a b c now r acc s =
    (Inr (acc @ [w_work_id r]), alert c now (s\<lparr>worklist :=
       update_where (\<lambda>v. w_work_id v = w_work_id r \<and> w_status v = a) (swept_row b now) (worklist s)\<rparr>))"
proof -
  have L: "legal_call T_worklist (K_work_id (w_work_id r)) a b [Finished_at now] None"
    using assms(4) by (simp add: legal_call_def edge_def VERSIONED_def)
  have "rowcount (\<lambda>v. w_work_id v = w_work_id r \<and> w_status v = a) (worklist s) = 1"
    using assms by (simp add: rowcount_key fetchone_unique db_wf_def)
  then show ?thesis
    by (simp add: move_row_def andthen_def try_transition_legal [OF L] Let_def swept_row_def [abs_def])
qed

lemma alert_codes_worklist: "alert_codes (s\<lparr>worklist := x\<rparr>) = alert_codes s"
  by (simp add: alert_codes_def)

text \<open>The rows whose ids are in \<open>ids\<close> moved, and one alert for each of \<open>n\<close>.\<close>

definition moved_db :: "status \<Rightarrow> status \<Rightarrow> time \<Rightarrow> string set \<Rightarrow> db \<Rightarrow> work list" where
  "moved_db a b now ids s =
     update_where (\<lambda>v. w_work_id v \<in> ids \<and> w_status v = a) (swept_row b now) (worklist s)"

lemma moved_db_insert:
  assumes "a \<noteq> b"
  shows "update_where (\<lambda>v. w_work_id v = k \<and> w_status v = a) (swept_row b now) (moved_db a b now ids s)
    = moved_db a b now (insert k ids) s"
  using assms unfolding moved_db_def
  by (subst update_where_fuse) (auto intro!: update_where_cong)

lemma move_rows:
  assumes "edge T_worklist a b" and "db_wf s" and "worklist s = moved_db a b now ids s0"
    and "distinct (map w_work_id rows)"
    and "\<forall>r\<in>set rows. r \<in> set (worklist s0) \<and> w_status r = a \<and> w_work_id r \<notin> ids"
  shows "\<exists>s'. fold_each (move_row a b c now) rows acc s = (Inr (acc @ map w_work_id rows), s') \<and> db_wf s' \<and>
    worklist s' = moved_db a b now (ids \<union> w_work_id ` set rows) s0 \<and>
    alert_codes s' = alert_codes s @ replicate (length rows) (PStr c) \<and>
    (\<forall>t k. t \<noteq> T_worklist \<longrightarrow> status_of t k s' = status_of t k s)"
  using assms(2-)
proof (induction rows arbitrary: ids acc s)
  case (Cons r rows)
  let ?s1 = "alert c now (s\<lparr>worklist :=
       update_where (\<lambda>v. w_work_id v = w_work_id r \<and> w_status v = a) (swept_row b now) (worklist s)\<rparr>)"
  have "r \<in> set (worklist s)" using Cons.prems(2,4) by (auto simp: moved_db_def set_update_where)
  from move_row_hit [OF Cons.prems(1) this _ assms(1), of c now acc] Cons.prems(4)
  have m: "move_row a b c now r acc s = (Inr (acc @ [w_work_id r]), ?s1)" by simp
  have "a \<noteq> b" using assms(1) edge_irrefl by auto
  have w1: "worklist ?s1 = moved_db a b now (insert (w_work_id r) ids) s0"
    by (simp add: Cons.prems(2) moved_db_insert [OF \<open>a \<noteq> b\<close>])
  have wf: "db_wf ?s1"
    using Cons.prems(1) by (intro append_alert_wf db_wf_worklist) (simp_all add: db_wf_def unique_on_update_where)
  have fr: "t \<noteq> T_worklist \<Longrightarrow> status_of t k ?s1 = status_of t k s" for t k
    by (cases t; cases k) simp_all
  have al: "alert_codes ?s1 = alert_codes s @ [PStr c]" by (simp add: alert_codes_worklist)
  have "\<forall>x\<in>set rows. x \<in> set (worklist s0) \<and> w_status x = a \<and> w_work_id x \<notin> insert (w_work_id r) ids"
  proof
    fix x assume "x \<in> set rows"
    with Cons.prems(3,4) show "x \<in> set (worklist s0) \<and> w_status x = a \<and> w_work_id x \<notin> insert (w_work_id r) ids"
      by (metis distinct.simps(2) image_eqI insert_iff list.set_intros(2) list.set_map list.simps(9))
  qed
  from Cons.IH [OF wf w1 _ this, of "acc @ [w_work_id r]"] Cons.prems(3) obtain s' where
    s': "fold_each (move_row a b c now) rows (acc @ [w_work_id r]) ?s1
           = (Inr ((acc @ [w_work_id r]) @ map w_work_id rows), s')" "db_wf s'"
      "worklist s' = moved_db a b now (insert (w_work_id r) ids \<union> w_work_id ` set rows) s0"
      "alert_codes s' = alert_codes ?s1 @ replicate (length rows) (PStr c)"
      "\<forall>t k. t \<noteq> T_worklist \<longrightarrow> status_of t k s' = status_of t k ?s1" by auto
  have f: "fold_each (move_row a b c now) (r # rows) acc s = (Inr (acc @ map w_work_id (r # rows)), s')"
    using s'(1) by (simp add: andthen_def m)
  have al': "alert_codes s' = alert_codes s @ replicate (length (r # rows)) (PStr c)"
    unfolding s'(4) al by simp
  have ids: "insert (w_work_id r) ids \<union> w_work_id ` set rows = ids \<union> w_work_id ` set (r # rows)" by auto
  have fr': "\<forall>t k. t \<noteq> T_worklist \<longrightarrow> status_of t k s' = status_of t k s" using s'(5) fr by metis
  show ?case
    by (rule exI [of _ s'], intro conjI) (rule f, rule s'(2), rule s'(3) [unfolded ids], rule al', rule fr')
qed (simp add: moved_db_def)

text \<open>The sweep as one pass over the table.\<close>

definition swept_work :: "time \<Rightarrow> work \<Rightarrow> work" where
  "swept_work now w = (if over_lease now w then swept_row Failed now w
     else if past_due now w then swept_row Expired now w else w)"

lemma moved_db_empty: "moved_db a b now {} s = worklist s"
  by (simp add: moved_db_def update_where_def)

lemma moved_db_filter:
  assumes "unique_on w_work_id (worklist s)" and "\<And>w. P w \<Longrightarrow> w_status w = a"
  shows "moved_db a b now (w_work_id ` set (filter P (worklist s))) s
    = update_where P (swept_row b now) (worklist s)"
  unfolding moved_db_def
  using assms unique_onD [OF assms(1)] by (intro update_where_cong) (auto simp: image_iff)

lemma filter_past_due:
  "filter (past_due now) (update_where (over_lease now) (swept_row Failed now) ws) = filter (past_due now) ws"
  by (induction ws) (auto simp: update_where_def past_due_def over_lease_def)

lemma move_filtered:
  assumes "edge T_worklist a b" and "db_wf s" and "\<And>w. P w \<Longrightarrow> w_status w = a"
  shows "\<exists>s'. fold_each (move_row a b c now) (sort_key age (filter P (worklist s))) [] s
      = (Inr (map w_work_id (sort_key age (filter P (worklist s)))), s') \<and> db_wf s' \<and>
    worklist s' = update_where P (swept_row b now) (worklist s) \<and>
    alert_codes s' = alert_codes s @ replicate (length (filter P (worklist s))) (PStr c) \<and>
    (\<forall>t k. t \<noteq> T_worklist \<longrightarrow> status_of t k s' = status_of t k s)"
proof -
  let ?rows = "sort_key age (filter P (worklist s))"
  have u: "unique_on w_work_id (worklist s)" using assms(2) by (simp add: db_wf_def)
  have "mset ?rows = mset (filter P (worklist s))" by simp
  then have "mset (map w_work_id ?rows) = mset (map w_work_id (filter P (worklist s)))"
    by (simp only: mset_map)
  then have "distinct (map w_work_id ?rows)"
    using u mset_eq_imp_distinct_iff by (metis distinct_map_filter unique_on_def)
  moreover have "\<forall>r\<in>set ?rows. r \<in> set (worklist s) \<and> w_status r = a \<and> w_work_id r \<notin> {}"
    using assms(3) by auto
  moreover have "w_work_id ` set ?rows = w_work_id ` set (filter P (worklist s))" by simp
  ultimately show ?thesis
    using move_rows [OF assms(1,2) moved_db_empty [symmetric], where rows = ?rows and c = c and acc = "[]"]
    by (simp only: moved_db_filter [OF u assms(3)] Un_empty_left append_Nil length_sort)
qed

lemma sweep_run:
  assumes "db_wf s"
  shows "\<exists>s'. sweep now s = (Inr \<lparr>
        swept_reaped = map w_work_id (sort_key age (filter (over_lease now) (worklist s))),
        swept_expired = map w_work_id (sort_key age (filter (past_due now) (worklist s)))\<rparr>, s') \<and>
    worklist s' = map (swept_work now) (worklist s) \<and>
    (\<forall>t k. t \<noteq> T_worklist \<longrightarrow> status_of t k s' = status_of t k s) \<and>
    alert_codes s' = alert_codes s
      @ replicate (length (filter (over_lease now) (worklist s))) (PStr ''work_lease_expired'')
      @ replicate (length (filter (past_due now) (worklist s))) (PStr ''work_expired'') \<and> db_wf s'"
proof -
  have e: "edge T_worklist Claimed Failed" "edge T_worklist Open Expired"
    by (simp_all add: edge_def EDGES_def)
  obtain s1 where m1: "fold_each (move_row Claimed Failed ''work_lease_expired'' now)
      (sort_key age (filter (over_lease now) (worklist s))) [] s
      = (Inr (map w_work_id (sort_key age (filter (over_lease now) (worklist s)))), s1)"
    and s1: "db_wf s1" "worklist s1 = update_where (over_lease now) (swept_row Failed now) (worklist s)"
      "alert_codes s1 = alert_codes s @ replicate (length (filter (over_lease now) (worklist s))) (PStr ''work_lease_expired'')"
      "\<forall>t k. t \<noteq> T_worklist \<longrightarrow> status_of t k s1 = status_of t k s"
    using move_filtered [OF e(1) assms, where P = "over_lease now" and c = "''work_lease_expired''" and now = now]
    by (auto simp: over_lease_def)
  have due: "filter (past_due now) (worklist s1) = filter (past_due now) (worklist s)"
    by (simp only: s1(2) filter_past_due)
  obtain s2 where m2: "fold_each (move_row Open Expired ''work_expired'' now)
      (sort_key age (filter (past_due now) (worklist s))) [] s1
      = (Inr (map w_work_id (sort_key age (filter (past_due now) (worklist s)))), s2)"
    and s2: "db_wf s2" "worklist s2 = update_where (past_due now) (swept_row Expired now) (worklist s1)"
      "alert_codes s2 = alert_codes s1 @ replicate (length (filter (past_due now) (worklist s))) (PStr ''work_expired'')"
      "\<forall>t k. t \<noteq> T_worklist \<longrightarrow> status_of t k s2 = status_of t k s1"
    using move_filtered [OF e(2) s1(1), where P = "past_due now" and c = "''work_expired''" and now = now]
    by (auto simp: past_due_def due)
  have "worklist s2 = map (swept_work now) (worklist s)"
    by (auto simp: s2(2) s1(2) update_where_def swept_work_def past_due_def over_lease_def)
  moreover have "sweep now s = (Inr \<lparr>
        swept_reaped = map w_work_id (sort_key age (filter (over_lease now) (worklist s))),
        swept_expired = map w_work_id (sort_key age (filter (past_due now) (worklist s)))\<rparr>, s2)"
    by (simp add: sweep_def andthen_def [of "fold_each _ _ _"] m1 m2 due)
  ultimately show ?thesis using s2 s1 by auto
qed

text \<open>
  No overdue work is left behind. The sweep fails exactly the claimed rows whose lease
  is over (or missing), expires exactly the open rows past their time, changes no other
  row of any table, returns the ids it moved, oldest first, and raises one alert for each.
\<close>

theorem sweep_moves_exactly_the_overdue:
  assumes "db_wf s"
  shows "\<exists>s'. sweep now s = (Inr \<lparr>
        swept_reaped = map w_work_id (sort_key age (filter (over_lease now) (worklist s))),
        swept_expired = map w_work_id (sort_key age (filter (past_due now) (worklist s)))\<rparr>, s') \<and>
    worklist s' = map (swept_work now) (worklist s) \<and>
    (\<forall>t k. t \<noteq> T_worklist \<longrightarrow> status_of t k s' = status_of t k s) \<and>
    alert_codes s' = alert_codes s
      @ replicate (length (filter (over_lease now) (worklist s))) (PStr ''work_lease_expired'')
      @ replicate (length (filter (past_due now) (worklist s))) (PStr ''work_expired'')"
  using sweep_run [OF assms] by blast

section \<open>What a cycle does\<close>

abbreviation work_status_of :: "string \<Rightarrow> db \<Rightarrow> status option" where
  "work_status_of k s \<equiv> status_of T_worklist (K_work_id k) s"

text \<open>The wake's contract: it may write anything but it claims and settles no row itself.\<close>

definition wake_keeps :: "(work \<Rightarrow> ('x world, unit) prog) \<Rightarrow> bool" where
  "wake_keeps run_wake \<longleftrightarrow> (\<forall>w s x r s' x'. run_wake w (s, x) = (r, (s', x')) \<longrightarrow> db_wf s \<longrightarrow>
     db_wf s' \<and> (\<forall>k. work_status_of k s' = Some Claimed \<longleftrightarrow> work_status_of k s = Some Claimed))"

text \<open>No row is claimed that was not claimed before.\<close>

definition no_new_claims :: "db \<Rightarrow> db \<Rightarrow> bool" where
  "no_new_claims s s' \<longleftrightarrow> db_wf s' \<and>
     (\<forall>k. work_status_of k s' = Some Claimed \<longrightarrow> work_status_of k s = Some Claimed)"

lemma no_new_claims_trans: "no_new_claims s s' \<Longrightarrow> no_new_claims s' s'' \<Longrightarrow> no_new_claims s s''"
  by (simp add: no_new_claims_def del: status_of.simps)

lemma no_new_claims_same: "db_wf s \<Longrightarrow> same_rows s s' \<Longrightarrow> no_new_claims s s'"
  using same_rows_status [of s s' T_worklist]
  by (simp add: no_new_claims_def del: status_of.simps) (simp add: same_rows_def)

lemma fetchone_map_key:
  "(\<And>r. key (f r) = key r) \<Longrightarrow> fetchone (\<lambda>r. key r = k) (map f xs) = map_option f (fetchone (\<lambda>r. key r = k) xs)"
  by (induction xs) auto

lemma swept_work_id [simp]: "w_work_id (swept_work now w) = w_work_id w"
  by (simp add: swept_work_def)

lemma swept_work_claimed: "w_status (swept_work now w) = Claimed \<Longrightarrow> w_status w = Claimed"
  by (auto simp: swept_work_def split: if_splits)

lemma sweep_no_new_claims:
  assumes "db_wf s'" and "worklist s' = map (swept_work now) (worklist s)"
  shows "no_new_claims s s'"
  using assms swept_work_claimed
  by (auto simp: no_new_claims_def fetchone_map_key split: option.splits)

lemma claim_next_frame:
  assumes "db_wf s" and "claim_next now lu seat s = (Inr (Some w), s')" and "k \<noteq> w_work_id w"
  shows "work_status_of k s' = work_status_of k s"
proof -
  from assms(1,2) obtain v vs where "sort_key age (filter (claimable now seat) (worklist s)) = v # vs"
    and w: "w = claimed_row now lu v" and s': "worklist s' = update_where
      (\<lambda>x. w_work_id x = w_work_id v \<and> w_status x = Open) (claimed_row now lu) (worklist s)"
    by (auto simp: claim_next_run split: list.splits)
  have "fetchone (\<lambda>w. w_work_id w = k) (worklist s') = fetchone (\<lambda>w. w_work_id w = k) (worklist s)"
    unfolding s' using assms(3) by (intro fetchone_update_other) (auto simp: w claimed_row_def)
  then show ?thesis by simp
qed

lemma settle_frame:
  "k \<noteq> wid \<Longrightarrow> work_status_of k (snd (fail wid now s)) = work_status_of k s"
  "k \<noteq> wid \<Longrightarrow> work_status_of k (snd (finish wid now s)) = work_status_of k s"
  by (simp_all add: fail_def finish_def transition_snd try_transition_frame del: status_of.simps)

text \<open>After the claim: whichever way the row is settled, the cycle ends well.\<close>

definition settled_ok :: "string \<Rightarrow> db \<Rightarrow> db \<Rightarrow> bool" where
  "settled_ok wid s s' \<longleftrightarrow> db_wf s' \<and> work_status_of wid s' \<in> {Some Done, Some Failed} \<and>
     (\<forall>k. k \<noteq> wid \<longrightarrow> work_status_of k s' = work_status_of k s)"

lemma settled_ok_alert: "settled_ok wid s s' \<Longrightarrow> settled_ok wid s (alert c now s')"
  by (simp add: settled_ok_def append_alert_wf del: status_of.simps)

lemma fail_settles:
  assumes "db_wf s" and "work_status_of wid s = Some Claimed"
  shows "\<exists>s'. fail wid now s = (Inr (), s') \<and> settled_ok wid s s'"
proof -
  obtain s' where "fail wid now s = (Inr (), s')" "db_wf s'" "work_status_of wid s' = Some Failed"
    using wq.fail_claimed [OF assms] by blast
  then show ?thesis using settle_frame(1) [of _ wid now s] by (auto simp: settled_ok_def simp del: status_of.simps)
qed

lemma finish_settles:
  assumes "db_wf s" and "work_status_of wid s = Some Claimed"
  shows "\<exists>s'. finish wid now s = (Inr (), s') \<and> settled_ok wid s s'"
proof -
  obtain s' where "finish wid now s = (Inr (), s')" "db_wf s'" "work_status_of wid s' = Some Done"
    using wq.done_claimed [OF assms] by blast
  then show ?thesis using settle_frame(2) [of _ wid now s] by (auto simp: settled_ok_def simp del: status_of.simps)
qed

text \<open>The whole cycle, one step after the other.\<close>

lemma dispatch_once_settles:
  assumes "db_wf s" and "wake_keeps run_wake"
  shows "\<exists>res s' x'. dispatch_once P run_wake lease_s (s, x) = (Inr res, (s', x')) \<and> no_new_claims s s' \<and>
    (\<forall>wid. disp_handled res = Some wid \<longrightarrow> work_status_of wid s' \<in> {Some Done, Some Failed})"
proof -
  obtain now x1 where c1: "clock_now P (s, x) = (Inr now, (s, x1))" using clock_now_run [of P s x] by blast
  obtain sr s1 where sw: "sweep now s = (Inr sr, s1)" and wl: "worklist s1 = map (swept_work now) (worklist s)"
    and wf1: "db_wf s1" using sweep_run [OF assms(1)] by blast
  note n1 = sweep_no_new_claims [OF wf1 wl]
  obtain c s2 where cl: "claim_next now (now + lease_s) None s1 = (Inr c, s2)" and wf2: "db_wf s2"
    using wq.claim_total [OF wf1] by blast
  note start = dispatch_once_def andthen_def on_db_def c1 sw cl
  show ?thesis
  proof (cases c)
    case None
    with wq.claim_none [OF wf1] cl have "s2 = s1" by blast
    with None n1 show ?thesis by (simp add: start)
  next
    case (Some w)
    define wid where "wid = w_work_id w"
    have cld: "work_status_of wid s2 = Some Claimed"
      using wq.claim_some [OF wf1] cl Some unfolding wid_def by blast
    have fr2: "k \<noteq> wid \<Longrightarrow> work_status_of k s2 = work_status_of k s1" for k
      using claim_next_frame [OF wf1] cl Some unfolding wid_def by blast
    have final: "no_new_claims s s'"
      if A: "settled_ok wid s3 s'"
        and B: "\<forall>k. work_status_of k s3 = Some Claimed \<longrightarrow> work_status_of k s2 = Some Claimed" for s3 s'
    proof -
      have "work_status_of k s = Some Claimed" if k: "work_status_of k s' = Some Claimed" for k
      proof -
        have ne: "k \<noteq> wid" using k A by (auto simp: settled_ok_def simp del: status_of.simps)
        then have "work_status_of k s3 = Some Claimed" using k A by (simp add: settled_ok_def del: status_of.simps)
        with B fr2 [OF ne] have "work_status_of k s1 = Some Claimed" by metis
        with n1 show ?thesis by (simp add: no_new_claims_def del: status_of.simps)
      qed
      with A show ?thesis by (simp add: settled_ok_def no_new_claims_def del: status_of.simps)
    qed
    show ?thesis
    proof (cases "allowed (w_producer w) (w_kind w)")
      case False
      obtain dt x3 where c3: "clock_now P (s2, x1) = (Inr dt, (s2, x3))" using clock_now_run [of P s2 x1] by blast
      obtain s3 where f: "fail wid dt s2 = (Inr (), s3)" and ok: "settled_ok wid s2 s3"
        using fail_settles [OF wf2 cld] by blast
      have "dispatch_once P run_wake lease_s (s, x) =
          (Inr \<lparr>disp_handled = Some wid, disp_swept = sr\<rparr>, (alert ''work_disallowed'' dt s3, x3))"
        using Some False
        by (simp add: start Let_def wid_def [symmetric] c3 f)
      with final [OF settled_ok_alert [OF ok]] settled_ok_alert [OF ok] show ?thesis
        by (auto simp: settled_ok_def simp del: status_of.simps)
    next
      case True
      obtain r s3 x3 where wk: "run_wake w (s2, x1) = (r, (s3, x3))" by (metis prod_cases3)
      with assms(2) wf2 have wf3: "db_wf s3"
        and eq: "\<forall>k. work_status_of k s3 = Some Claimed \<longleftrightarrow> work_status_of k s2 = Some Claimed"
        unfolding wake_keeps_def by blast+
      from eq cld have cld3: "work_status_of wid s3 = Some Claimed" by blast
      obtain dt x4 where c4: "clock_now P (s3, x3) = (Inr dt, (s3, x4))" using clock_now_run [of P s3 x3] by blast
      show ?thesis
      proof (cases r)
        case (Inl e)
        obtain s4 where f: "fail wid dt s3 = (Inr (), s4)" and ok: "settled_ok wid s3 s4"
          using fail_settles [OF wf3 cld3] by blast
        have "dispatch_once P run_wake lease_s (s, x) =
            (Inr \<lparr>disp_handled = Some wid, disp_swept = sr\<rparr>, (alert ''work_failed'' dt s4, x4))"
          using Some True wk Inl
          by (simp add: start Let_def wid_def [symmetric] c4 f)
        with final [OF settled_ok_alert [OF ok]] settled_ok_alert [OF ok] eq show ?thesis
          by (auto simp: settled_ok_def simp del: status_of.simps)
      next
        case (Inr u)
        obtain s4 where f: "finish wid dt s3 = (Inr (), s4)" and ok: "settled_ok wid s3 s4"
          using finish_settles [OF wf3 cld3] by blast
        have "dispatch_once P run_wake lease_s (s, x) =
            (Inr \<lparr>disp_handled = Some wid, disp_swept = sr\<rparr>, (s4, x4))"
          using Some True wk Inr
          by (simp add: start Let_def wid_def [symmetric] c4 f)
        with final [OF ok] ok eq show ?thesis
          by (auto simp: settled_ok_def simp del: status_of.simps)
      qed
    qed
  qed
qed

text \<open>
  A dispatch cycle always returns, and strands nothing: whether the wake returns,
  raises or may not run at all, the row it claimed ends done or failed; and the cycle
  leaves no row claimed that was not claimed before it. The wake may do anything but
  claim or settle rows itself, which is its stated precondition.
\<close>

theorem dispatch_strands_nothing:
  assumes "db_wf s" and "wake_keeps run_wake"
  shows "\<exists>res s' x'. dispatch_once P run_wake lease_s (s, x) = (Inr res, (s', x')) \<and>
    (\<forall>wid. disp_handled res = Some wid \<longrightarrow> work_status_of wid s' \<in> {Some Done, Some Failed}) \<and>
    (\<forall>k. work_status_of k s' = Some Claimed \<longrightarrow> work_status_of k s = Some Claimed)"
proof -
  obtain res s' x' where "dispatch_once P run_wake lease_s (s, x) = (Inr res, (s', x'))"
    "no_new_claims s s'" "\<forall>wid. disp_handled res = Some wid \<longrightarrow> work_status_of wid s' \<in> {Some Done, Some Failed}"
    using dispatch_once_settles [OF assms] by blast
  then show ?thesis unfolding no_new_claims_def by blast
qed

lemma dispatch_cycles_run:
  assumes "wake_keeps run_wake" and sl: "\<And>x. \<exists>x'. sleep x = (Inr (), x')" and "db_wf s"
  shows "\<exists>s' x'. dispatch_cycles P run_wake lease_s sleep n pending (s, x) = (Inr (), (s', x')) \<and> no_new_claims s s'"
  using assms(3)
proof (induction n arbitrary: pending s x)
  case 0
  then show ?case by (simp add: no_new_claims_def)
next
  case (Suc n)
  obtain res s1 x1 where d: "dispatch_once P run_wake lease_s (s, x) = (Inr res, (s1, x1))"
    and n1: "no_new_claims s s1" using dispatch_once_settles [OF Suc.prems assms(1)] by blast
  then have wf1: "db_wf s1" by (simp add: no_new_claims_def)
  let ?p = "pending \<or> disp_handled res \<noteq> None \<or> swept_reaped (disp_swept res) \<noteq> []
      \<or> swept_expired (disp_swept res) \<noteq> []"
  let ?m = "if ?p then andthen (clock_now P) (\<lambda>now. andthen (drain_outbox P now) (\<lambda>_.
      on_db (gets (\<lambda>s. unposted_count s > 0)))) else ret False"
  have "\<exists>b s2 x2. ?m (s1, x1) = (Inr b, (s2, x2)) \<and> no_new_claims s1 s2"
  proof (cases ?p)
    case True
    obtain now x2 where c: "clock_now P (s1, x1) = (Inr now, (s1, x2))" using clock_now_run [of P s1 x1] by blast
    obtain k s2 x3 where dr: "drain_outbox P now (s1, x2) = (Inr k, (s2, x3))"
      using drain_outbox_Inr [of P now "(s1, x2)"] by auto
    have "no_new_claims s1 s2"
      using no_new_claims_same [OF wf1] drain_outbox_same [of "(s1, x2)" P now] dr by simp
    with True c dr show ?thesis by (simp add: andthen_def on_db_def)
  qed (use wf1 in \<open>auto simp: no_new_claims_def\<close>)
  then obtain b s2 x2 where m: "?m (s1, x1) = (Inr b, (s2, x2))" and n2: "no_new_claims s1 s2" by blast
  obtain x3 where s3: "whenever (disp_handled res = None) (on_port sleep) (s2, x2) = (Inr (), (s2, x3))"
    using sl [of x2] by (cases "disp_handled res = None") (auto simp: on_port_def)
  have "db_wf s2" using n2 by (simp add: no_new_claims_def)
  from Suc.IH [OF this, of b x3] obtain s' x' where
    rest: "dispatch_cycles P run_wake lease_s sleep n b (s2, x3) = (Inr (), (s', x'))"
    and n3: "no_new_claims s2 s'" by blast
  have "dispatch_cycles P run_wake lease_s sleep (Suc n) pending (s, x) = (Inr (), (s', x'))"
    using m by (simp add: andthen_def d s3 rest Let_def)
  with no_new_claims_trans [OF n1 no_new_claims_trans [OF n2 n3]] show ?case by blast
qed

text \<open>
  The resident loop outlives its wakes: whatever they raise, \<open>run_dispatcher\<close> runs the
  number of cycles asked for and returns that number, and a worklist that had no claimed
  row when it started has none when it stops.
\<close>

theorem dispatcher_outlives_bad_wakes:
  assumes "db_wf s" and "wake_keeps run_wake" and "\<And>x. \<exists>x'. sleep x = (Inr (), x')"
    and "\<forall>w\<in>set (worklist s). w_status w \<noteq> Claimed"
  shows "\<exists>s' x'. run_dispatcher P run_wake lease_s sleep n (s, x) = (Inr n, (s', x')) \<and>
    (\<forall>w\<in>set (worklist s'). w_status w \<noteq> Claimed)"
proof -
  obtain s' x' where r: "dispatch_cycles P run_wake lease_s sleep n False (s, x) = (Inr (), (s', x'))"
    and nc: "no_new_claims s s'"
    using dispatch_cycles_run [where sleep = sleep and P = P and lease_s = lease_s and n = n and pending = False,
        OF assms(2,3,1)] by blast
  have "w_status w \<noteq> Claimed" if "w \<in> set (worklist s')" for w
  proof
    assume "w_status w = Claimed"
    with nc work_status [OF _ that] have "work_status_of (w_work_id w) s = Some Claimed"
      by (metis no_new_claims_def)
    then show False using assms(4) by (auto dest: fetchone_SomeD)
  qed
  then show ?thesis using r by (auto simp: run_dispatcher_def andthen_def)
qed

text \<open>A wake that always raises, a clock that stands still, a Slack that accepts everything.\<close>

definition bad_wake :: "work \<Rightarrow> (unit world, unit) prog" where
  "bad_wake w = raise (Other ''RuntimeError'')"

definition still_ports :: "unit ports" where
  "still_ports = \<lparr>now_port = (\<lambda>x. (10, x)), render_port = (\<lambda>_ _. Inr PNone), post_port = (\<lambda>_ x. (Inr (), x))\<rparr>"

lemma bad_wake_keeps: "wake_keeps bad_wake"
  by (auto simp: wake_keeps_def bad_wake_def)

theorem dispatch_strands_nothing_witness:
  "\<exists>res s' x'. dispatch_once still_ports bad_wake 300 (two_works, ()) = (Inr res, (s', x')) \<and>
    (\<forall>k. work_status_of k s' = Some Claimed \<longrightarrow> work_status_of k two_works = Some Claimed)"
  using dispatch_strands_nothing [OF two_works_wf bad_wake_keeps, of still_ports 300 "()"] by blast

theorem dispatcher_outlives_bad_wakes_witness:
  "\<exists>s' x'. run_dispatcher still_ports bad_wake 300 (\<lambda>x. (Inr (), x)) 5 (two_works, ()) = (Inr 5, (s', x'))"
  using dispatcher_outlives_bad_wakes [OF two_works_wf bad_wake_keeps, of "\<lambda>x. (Inr (), x)" still_ports 300 5 "()"]
  by (auto simp: two_works_def enqueue_def allowed_def PRODUCER_KINDS_def Let_def insert_or_ignore_def empty_db_def)

theorem sweep_moves_exactly_the_overdue_witness:
  "fst (sweep 100 two_works) = Inr \<lparr>swept_reaped = [], swept_expired = [''b'', ''a'']\<rparr>"
proof -
  have z: "''b'' < (''a''::string) \<longleftrightarrow> False" by code_simp
  have "filter (over_lease 100) (worklist two_works) = []"
    "map w_work_id (sort_key age (filter (past_due 100) (worklist two_works))) = [''b'', ''a'']"
    by (simp_all add: two_works_def enqueue_def allowed_def PRODUCER_KINDS_def Let_def insert_or_ignore_def
        empty_db_def over_lease_def past_due_def age_def)
  with sweep_moves_exactly_the_overdue [OF two_works_wf, of 100] show ?thesis by auto
qed

end
