(* ===== verification/Risk.thy ===== *)
theory Risk imports PyVal begin

text \<open>
  gate/risk.py: the deterministic sizing gate. \<open>GateInputs\<close> is the record of its
  validated inputs; \<open>size\<close> is the whole of \<open>size()\<close>, every exception inside its
  \<open>try\<close> ending in \<open>Rejected "gate_error"\<close>. Pydantic's \<open>model_validate\<close>
  is not under src/: it is the parameter \<open>validate\<close>, and nothing below depends on
  what it accepts, because \<open>size\<close> repeats the checks on whatever it is handed.
\<close>

record gate_inputs =
  gi_ticker :: string
  gi_side :: string
  equity :: pyfloat
  cash :: pyfloat
  price :: pyfloat
  vol_60d :: pyfloat
  avg_corr :: pyfloat
  held_qty :: int
  position_count :: int
  sector :: string
  sector_value :: pyfloat
  daily_pnl_pct :: pyfloat

text \<open>What \<open>size\<close> is called with: a \<open>GateInputs\<close>, or a plain dictionary.\<close>

datatype size_arg = Validated gate_inputs | Raw pydict

datatype verdict =
    Approved (max_qty: int) (pre_sector_qty: int) (v_side: string)
  | Rejected (reason: string)

definition SECTOR_CAP :: pyfloat where "SECTOR_CAP = rnd (3/5)"
definition MAX_POSITIONS :: int where "MAX_POSITIONS = 8"
definition CIRCUIT_BREAKER :: pyfloat where "CIRCUIT_BREAKER = rnd (- 3/100)"

definition vol_tier :: "pyfloat \<Rightarrow> pyfloat" where
  "vol_tier vol = (if flt vol (rnd (3/20)) then rnd (1/4)
                   else if fle vol (rnd (1/2)) then rnd (1/5) else rnd (1/10))"

definition corr_mult :: "pyfloat \<Rightarrow> pyfloat" where
  "corr_mult corr = (if fle (rnd (4/5)) corr then rnd (7/10)
                     else if fle (rnd (3/5)) corr then rnd (17/20)
                     else if fle (rnd (2/5)) corr then rnd (19/20)
                     else if fle (rnd (1/5)) corr then rnd 1 else rnd (11/10))"

text \<open>\<open>isinstance(inputs, GateInputs)\<close> or \<open>model_validate\<close>.\<close>

fun gate_arg :: "(pydict \<Rightarrow> gate_inputs res) \<Rightarrow> size_arg \<Rightarrow> gate_inputs res" where
  "gate_arg validate (Validated i) = Inr i"
| "gate_arg validate (Raw d) = validate d"

text \<open>
  The first guard. \<open>math.isfinite\<close> of an \<open>int\<close> goes through \<open>float\<close> and raises
  on one that is too large, which the enclosing \<open>except\<close> turns into the same rejection.
\<close>

definition int_ok :: "int \<Rightarrow> bool" where
  "int_ok n = (case float_of_int n of Inl _ \<Rightarrow> False | Inr _ \<Rightarrow> True)"

definition inputs_bad :: "gate_inputs \<Rightarrow> bool" where
  "inputs_bad i =
     (fle (price i) (Fin 0) \<or> fle (equity i) (Fin 0) \<or> flt (cash i) (Fin 0) \<or> held_qty i < 0
      \<or> flt (vol_60d i) (Fin 0) \<or> flt (sector_value i) (Fin 0) \<or> position_count i < 0
      \<or> flt (avg_corr i) (Fin (- 1)) \<or> flt (Fin 1) (avg_corr i)
      \<or> \<not> (isfinite (equity i) \<and> isfinite (cash i) \<and> isfinite (price i) \<and> isfinite (vol_60d i)
           \<and> isfinite (avg_corr i) \<and> isfinite (sector_value i) \<and> isfinite (daily_pnl_pct i)
           \<and> int_ok (held_qty i) \<and> int_ok (position_count i)))"

definition dollar_of :: "gate_inputs \<Rightarrow> pyfloat" where
  "dollar_of i = fmul (fmul (equity i) (vol_tier (vol_60d i))) (corr_mult (avg_corr i))"

definition headroom_of :: "gate_inputs \<Rightarrow> pyfloat" where
  "headroom_of i = fsub (fmul SECTOR_CAP (equity i)) (sector_value i)"

text \<open>\<open>math.floor(x / price)\<close>\<close>

definition shares :: "pyfloat \<Rightarrow> pyfloat \<Rightarrow> int res" where
  "shares x p = res_bind (fdiv x p) ffloor"

definition size_buy :: "gate_inputs \<Rightarrow> verdict res" where
  "size_buy i =
     res_bind (shares (fmin (dollar_of i) (cash i)) (price i)) (\<lambda>pre_sector.
     res_bind (shares (fmax (headroom_of i) (Fin 0)) (price i)) (\<lambda>cap.
       (let qty = min pre_sector cap
        in if qty < 1 then Inr (Rejected ''no_headroom'')
           else Inr (Approved qty pre_sector ''buy''))))"

definition size_checked :: "gate_inputs \<Rightarrow> verdict res" where
  "size_checked i =
     (if inputs_bad i then Inr (Rejected ''gate_error'')
      else if gi_side i = ''sell'' then
        (if 0 < held_qty i then Inr (Approved (held_qty i) (held_qty i) ''sell'')
         else Inr (Rejected ''nothing_held''))
      else if fle (daily_pnl_pct i) CIRCUIT_BREAKER then Inr (Rejected ''circuit_breaker'')
      else if held_qty i = 0 \<and> MAX_POSITIONS \<le> position_count i
        then Inr (Rejected ''position_count'')
      else size_buy i)"

definition size :: "(pydict \<Rightarrow> gate_inputs res) \<Rightarrow> size_arg \<Rightarrow> verdict" where
  "size validate inputs =
     (case res_bind (gate_arg validate inputs) size_checked of
        Inl _ \<Rightarrow> Rejected ''gate_error'' | Inr v \<Rightarrow> v)"

section \<open>Inversion of an approval\<close>

lemma size_ApprovedD:
  assumes "size validate inp = Approved q pre sd"
  obtains i where "gate_arg validate inp = Inr i" and "size_checked i = Inr (Approved q pre sd)"
  using assms by (auto simp: size_def res_bind_def split: sum.splits)

lemma size_Validated [simp]:
  "size validate (Validated i) =
     (case size_checked i of Inl _ \<Rightarrow> Rejected ''gate_error'' | Inr v \<Rightarrow> v)"
  by (simp add: size_def)

lemma inputs_goodD:
  assumes "\<not> inputs_bad i"
  obtains e c p v r s d where
    "equity i = Fin e" "cash i = Fin c" "price i = Fin p" "vol_60d i = Fin v"
    "avg_corr i = Fin r" "sector_value i = Fin s" "daily_pnl_pct i = Fin d"
    "0 < e" "0 \<le> c" "0 < p" "0 \<le> v" "- 1 \<le> r" "r \<le> 1" "0 \<le> s"
    "0 \<le> held_qty i" "0 \<le> position_count i"
  using assms unfolding inputs_bad_def isfinite_iff by (auto simp: not_le not_less)

lemma shares_Fin:
  "shares (Fin x) (Fin p) = Inr n \<longleftrightarrow> p \<noteq> 0 \<and> (\<exists>y. rnd (x / p) = Fin y \<and> n = \<lfloor>y\<rfloor>)"
  by (cases "rnd (x / p)") (auto simp: shares_def)

lemma sharesD:
  assumes "shares x (Fin p) = Inr n" and "0 < p" and "1 \<le> n"
  obtains a where "x = Fin a" "of_int n * p \<le> a * (1 + eps)" "0 < a"
proof -
  from assms(1,2) obtain a where a: "x = Fin a"
    by (cases x) (auto simp: shares_def finf_def)
  with assms obtain y where y: "rnd (a / p) = Fin y" "n = \<lfloor>y\<rfloor>" by (auto simp: shares_Fin)
  then have "of_int n \<le> y" by simp
  then have "1 \<le> y" using assms(3) by (meson of_int_1_le_iff order_trans)
  from rnd_ge_1 [OF y(1) this] \<open>of_int n \<le> y\<close>
  have "of_int n \<le> a / p * (1 + eps)" "0 < a / p" by auto
  then have "of_int n * p \<le> a * (1 + eps)" "0 < a"
    using assms(2) by (simp_all add: pos_le_divide_eq zero_less_divide_iff)
  with a show ?thesis by (rule that)
qed

lemma size_buyD:
  assumes "size_buy i = Inr (Approved q pre sd)"
  shows "sd = ''buy'' \<and> 1 \<le> q \<and> q \<le> pre
    \<and> shares (fmin (dollar_of i) (cash i)) (price i) = Inr pre
    \<and> (\<exists>cap. shares (fmax (headroom_of i) (Fin 0)) (price i) = Inr cap \<and> q \<le> cap)"
  using assms
  by (auto simp: size_buy_def res_bind_Inr Let_def min_def split: if_splits)

lemma size_checked_buyD:
  assumes "size_checked i = Inr (Approved q pre ''buy'')"
  shows "\<not> inputs_bad i \<and> gi_side i \<noteq> ''sell'' \<and> \<not> fle (daily_pnl_pct i) CIRCUIT_BREAKER
    \<and> (held_qty i = 0 \<longrightarrow> position_count i < MAX_POSITIONS) \<and> size_buy i = Inr (Approved q pre ''buy'')"
  using assms by (auto simp: size_checked_def split: if_splits)

section \<open>Bounds on the constants\<close>

lemma rnd_quotient_le:
  assumes "rnd q = Fin r" and "pow2 (- 1022) \<le> q"
  shows "r \<le> q * (1 + eps) \<and> q * (1 - eps) \<le> r"
proof -
  have "0 < q" using assms(2) pow2_pos [of "- 1022"] by linarith
  then show ?thesis
    using rnd_err_rel [OF assms(1)] assms(2) by (simp add: abs_le_iff algebra_simps)
qed

lemma pow2_small: "1 / 100 \<le> q \<Longrightarrow> pow2 (- 1022) \<le> q"
proof -
  assume "1 / 100 \<le> q"
  have "pow2 (- 1022) \<le> pow2 (- 7)" by (simp only: pow2_le_iff)
  also have "\<dots> \<le> 1 / 100" by (simp add: pow2_def)
  finally show ?thesis using \<open>1 / 100 \<le> q\<close> by linarith
qed

lemma rnd_small_Fin:
  assumes "1 / 100 \<le> q" and "q \<le> 2"
  obtains r where "rnd q = Fin r" "q * (1 - eps) \<le> r" "r \<le> q * (1 + eps)"
proof -
  have "fle (rnd 0) (rnd q)" and "fle (rnd q) (rnd (of_int 2))"
    using assms by (intro rnd_mono; simp)+
  then obtain r where "rnd q = Fin r"
    using rnd_of_int [of 2] by (cases "rnd q") (auto simp: fle_def feq_def)
  with rnd_quotient_le [OF this pow2_small [OF assms(1)]] that show ?thesis by blast
qed

lemma vol_tier_bounds:
  obtains t where "vol_tier v = Fin t" "1 / 20 \<le> t" "t \<le> 1 / 4 * (1 + eps)"
proof -
  have "\<exists>t. rnd q = Fin t \<and> 1 / 20 \<le> t \<and> t \<le> 1 / 4 * (1 + eps)"
    if "1 / 10 \<le> q" "q \<le> 1 / 4" for q
  proof -
    from that obtain r where r: "rnd q = Fin r" "q * (1 - eps) \<le> r" "r \<le> q * (1 + eps)"
      using rnd_small_Fin [of q] by auto
    have "q * (1 + eps) \<le> 1 / 4 * (1 + eps)" using that by (intro mult_right_mono) (simp_all add: eps_def)
    moreover have "1 / 10 * (1 - eps) \<le> q * (1 - eps)" using that
      by (intro mult_right_mono) (simp_all add: eps_def)
    ultimately show ?thesis using r by (auto simp: eps_def)
  qed
  moreover obtain q where "vol_tier v = rnd q" "1 / 10 \<le> q" "q \<le> 1 / 4"
  proof -
    have "\<exists>q\<in>{1/4, 1/5, 1/10}. vol_tier v = rnd q" by (simp add: vol_tier_def)
    then show ?thesis by (auto intro: that)
  qed
  ultimately show ?thesis using that by metis
qed

lemma corr_mult_bounds:
  obtains m where "corr_mult r = Fin m" "1 / 2 \<le> m" "m \<le> 11 / 10 * (1 + eps)"
proof -
  have "\<exists>t. rnd q = Fin t \<and> 1 / 2 \<le> t \<and> t \<le> 11 / 10 * (1 + eps)"
    if "7 / 10 \<le> q" "q \<le> 11 / 10" for q
  proof -
    from that obtain r where r: "rnd q = Fin r" "q * (1 - eps) \<le> r" "r \<le> q * (1 + eps)"
      using rnd_small_Fin [of q] by auto
    have "q * (1 + eps) \<le> 11 / 10 * (1 + eps)" using that by (intro mult_right_mono) (simp_all add: eps_def)
    moreover have "7 / 10 * (1 - eps) \<le> q * (1 - eps)" using that
      by (intro mult_right_mono) (simp_all add: eps_def)
    ultimately show ?thesis using r by (auto simp: eps_def)
  qed
  moreover obtain q where "corr_mult r = rnd q" "7 / 10 \<le> q" "q \<le> 11 / 10"
  proof -
    have "\<exists>q\<in>{7/10, 17/20, 19/20, 1, 11/10}. corr_mult r = rnd q"
      by (simp add: corr_mult_def)
    then show ?thesis by (auto intro: that)
  qed
  ultimately show ?thesis using that by metis
qed

section \<open>The envelope of an approved buy\<close>

lemma fmax_0: "fmax x (Fin 0) = Fin a \<Longrightarrow> 0 < a \<Longrightarrow> x = Fin a"
  by (cases x) (auto simp: fmax_def split: if_splits)

lemma fmul_FinD: "fmul (Fin a) (Fin b) = Fin c \<Longrightarrow> rnd (a * b) = Fin c"
  by simp

text \<open>The tier product, for an equity of a dollar or more.\<close>

lemma dollar_bound:
  assumes "equity i = Fin e" and "1 \<le> e" and "dollar_of i = Fin d"
  shows "d \<le> 2751 / 10000 * e * (1 - eps)"
proof -
  obtain t where t: "vol_tier (vol_60d i) = Fin t" "1 / 20 \<le> t" "t \<le> 1 / 4 * (1 + eps)"
    by (rule vol_tier_bounds)
  obtain m where m: "corr_mult (avg_corr i) = Fin m" "1 / 2 \<le> m" "m \<le> 11 / 10 * (1 + eps)"
    by (rule corr_mult_bounds)
  from assms t m obtain w where w: "rnd (e * t) = Fin w" and d: "rnd (w * m) = Fin d"
    by (cases "rnd (e * t)") (auto simp: dollar_of_def finf_def split: if_splits)
  have "1 * (1 / 20) \<le> e * t" using assms(2) t(2) by (intro mult_mono) auto
  then have et: "1 / 20 \<le> e * t" by simp
  note wb = rnd_quotient_le [OF w pow2_small]
  have "1 / 20 * (1 - eps) \<le> e * t * (1 - eps)"
    using et by (intro mult_right_mono) (simp_all add: eps_def)
  then have w1: "1 / 25 \<le> w" using wb et by (simp add: eps_def)
  have "1 / 25 * (1 / 2) \<le> w * m" using w1 m(2) by (intro mult_mono) auto
  then have wm: "1 / 50 \<le> w * m" by simp
  note db = rnd_quotient_le [OF d pow2_small]
  have e0: "0 \<le> e" using assms(2) by simp
  have "d \<le> w * m * (1 + eps)" using db wm by simp
  also have "\<dots> \<le> (e * t * (1 + eps)) * m * (1 + eps)"
    using wb et m(2) by (intro mult_right_mono) (simp_all add: eps_def)
  also have "\<dots> \<le> (e * (1 / 4 * (1 + eps)) * (1 + eps)) * (11 / 10 * (1 + eps)) * (1 + eps)"
    using t m e0 by (intro mult_right_mono mult_mono mult_left_mono) (simp_all add: eps_def)
  also have "\<dots> = 11 / 40 * (1 + eps) ^ 4 * e" by (simp add: power4_eq_xxxx)
  also have "\<dots> \<le> (2751 / 10000 * (1 - eps)) * e"
    using e0 by (intro mult_right_mono) (simp_all add: eps_def power_divide)
  finally show ?thesis by (simp add: mult.commute mult.left_commute)
qed

lemma headroom_bound:
  assumes "equity i = Fin e" and "1 \<le> e" and "sector_value i = Fin s"
    and "headroom_of i = Fin h" and "0 < h" and "0 \<le> s"
  shows "s + h * (1 + eps) \<le> 60001 / 100000 * e"
proof -
  obtain c where c: "SECTOR_CAP = Fin c" "3 / 5 * (1 - eps) \<le> c" "c \<le> 3 / 5 * (1 + eps)"
    unfolding SECTOR_CAP_def by (rule rnd_small_Fin [of "3/5"]) simp_all
  have "fadd (rnd (c * e)) (Fin (- s)) = Fin h"
    using assms(4) by (simp add: headroom_of_def fsub_def assms(1,3) c(1))
  then obtain a where a: "rnd (c * e) = Fin a" and h: "rnd (a - s) = Fin h"
    by (cases "rnd (c * e)") auto
  have e0: "0 \<le> e" using assms(2) by simp
  have "1 / 2 * 1 \<le> c * e" using c assms(2) by (intro mult_mono) (auto simp: eps_def)
  then have "a \<le> c * e * (1 + eps)" using rnd_quotient_le [OF a pow2_small] by simp
  also have "\<dots> \<le> (3 / 5 * (1 + eps)) * e * (1 + eps)"
    using c e0 by (intro mult_right_mono) (simp_all add: eps_def)
  finally have a_le: "a \<le> 3 / 5 * (1 + eps) ^ 2 * e" by (simp add: power2_eq_square mult.commute mult.left_commute)
  have pos: "0 < a - s"
  proof (rule ccontr)
    assume "\<not> 0 < a - s"
    then have "rq (a - s) \<le> 0" by (intro rq_nonpos) simp
    then show False using rnd_FinD [OF h] assms(5) by simp
  qed
  have "h \<le> (a - s) * (1 + eps) + pow2 (- 1075)"
    using rnd_err_abs [OF h] pos by (simp add: abs_le_iff algebra_simps)
  moreover have "pow2 (- 1075) \<le> pow2 (- 30)" by (simp only: pow2_le_iff)
  then have "pow2 (- 1075) \<le> 1 / 1000000000 * e" using assms(2) by (simp add: pow2_def)
  ultimately have "h \<le> (a - s) * (1 + eps) + 1 / 1000000000 * e" by linarith
  then have "h * (1 + eps) \<le> ((a - s) * (1 + eps) + 1 / 1000000000 * e) * (1 + eps)"
    by (intro mult_right_mono) (simp_all add: eps_def)
  moreover have "s \<le> s * (1 + eps) * (1 + eps)"
    using mult_nonneg_nonneg [OF assms(6), of eps] assms(6) by (simp add: eps_def)
  ultimately have "s + h * (1 + eps) \<le> a * (1 + eps) ^ 2 + 1 / 1000000000 * e * (1 + eps)"
    by (simp add: algebra_simps power2_eq_square)
  also have "\<dots> \<le> 3 / 5 * (1 + eps) ^ 2 * e * (1 + eps) ^ 2 + 1 / 1000000000 * e * (1 + eps)"
    using a_le by (intro add_right_mono mult_right_mono) simp_all
  also have "\<dots> = (3 / 5 * (1 + eps) ^ 4 + 1 / 1000000000 * (1 + eps)) * e"
    by (simp add: field_simps power4_eq_xxxx power2_eq_square)
  also have "\<dots> \<le> 60001 / 100000 * e"
    using e0 by (intro mult_right_mono) (simp_all add: eps_def power_divide)
  finally show ?thesis .
qed

lemma dollar_finite:
  assumes "equity i = Fin e" and "0 \<le> e" and "e \<le> pow2 1000"
  obtains d where "dollar_of i = Fin d"
proof -
  obtain t where t: "vol_tier (vol_60d i) = Fin t" "1 / 20 \<le> t" "t \<le> 1 / 4 * (1 + eps)"
    by (rule vol_tier_bounds)
  obtain m where m: "corr_mult (avg_corr i) = Fin m" "1 / 2 \<le> m" "m \<le> 11 / 10 * (1 + eps)"
    by (rule corr_mult_bounds)
  have "e * t \<le> pow2 1000 * 1" using assms t by (intro mult_mono) (auto simp: eps_def)
  also have "pow2 1000 * 1 \<le> pow2 1001" by simp
  finally have "fle (rnd (e * t)) (rnd (pow2 1001))" by (intro rnd_mono)
  moreover have "0 \<le> e * t" using assms t by simp
  ultimately obtain w where w: "rnd (e * t) = Fin w" "0 \<le> w" "w \<le> pow2 1001"
    using rnd_pow2 [of 1001] rnd_nonneg [of "e * t"] by (auto simp: fle_def feq_def)
  have "w * m \<le> pow2 1001 * 2" using w m by (intro mult_mono) (auto simp: eps_def)
  also have "\<dots> = pow2 1002" using pow2_add [of 1001 1] by (simp add: pow2_def [of 1])
  also have "\<dots> \<le> pow2 1023" by simp
  finally obtain d where "rnd (w * m) = Fin d"
    using w m by (auto intro: rnd_finite [of "w * m"])
  with assms t m w that show ?thesis by (simp add: dollar_of_def)
qed

text \<open>
  C3: whatever \<open>size\<close> is called with (a \<open>GateInputs\<close> built in any way, or a
  dictionary that any validator accepted), an approved buy is for at least one share
  and stays inside the envelope of specs/design.md: its cost is at most the cash (up
  to the one rounding of the division), at most 27.51 percent of equity, and takes the
  sector to at most 60.001 percent of equity; the daily loss is above the circuit
  breaker and a new position is only opened below eight. The numbers are the floats'
  exact values, so the bound accounts for every rounding the code does.
\<close>

theorem approved_buy_envelope:
  assumes "size validate inp = Approved q pre ''buy''"
    and "gate_arg validate inp = Inr i"
    and "equity i = Fin e" and "1 \<le> e" and "e \<le> pow2 1000"
    and "price i = Fin p" and "cash i = Fin c" and "sector_value i = Fin s"
  shows "1 \<le> q \<and> q \<le> pre \<and> of_int q * p \<le> c * (1 + eps)
    \<and> of_int q * p \<le> 2751 / 10000 * e \<and> s + of_int q * p \<le> 60001 / 100000 * e
    \<and> \<not> fle (daily_pnl_pct i) CIRCUIT_BREAKER
    \<and> (held_qty i = 0 \<longrightarrow> position_count i < MAX_POSITIONS)"
proof -
  from assms(1,2) have sz: "size_checked i = Inr (Approved q pre ''buy'')"
    by (auto elim: size_ApprovedD)
  note chk = size_checked_buyD [OF sz]
  with assms have p: "0 < p" and s: "0 \<le> s" by (auto elim!: inputs_goodD)
  from chk have "size_buy i = Inr (Approved q pre ''buy'')" by simp
  note buy = size_buyD [OF this]
  then obtain cap where pre: "shares (fmin (dollar_of i) (cash i)) (Fin p) = Inr pre" "1 \<le> pre"
    and cap: "shares (fmax (headroom_of i) (Fin 0)) (Fin p) = Inr cap" "q \<le> cap" "1 \<le> cap"
    by (auto simp: assms(6))
  obtain d where d: "dollar_of i = Fin d"
    using dollar_finite [OF assms(3) _ assms(5)] assms(4) by auto
  from sharesD [OF pre(1) p pre(2)] obtain a where
    a: "fmin (dollar_of i) (cash i) = Fin a" "of_int pre * p \<le> a * (1 + eps)" .
  have "a = min d c"
    using a(1) by (simp add: d assms(7) fmin_def min_def split: if_splits)
  with a(2) have pre_p: "of_int pre * p \<le> min d c * (1 + eps)" by simp
  from sharesD [OF cap(1) p cap(3)] obtain h where
    "fmax (headroom_of i) (Fin 0) = Fin h" and h0: "0 < h" and cap_p: "of_int cap * p \<le> h * (1 + eps)" .
  then have h: "headroom_of i = Fin h" by (blast intro: fmax_0)
  have mono: "of_int q * p \<le> of_int n * p" if "q \<le> n" for n
    using that p by (intro mult_right_mono) auto
  have "of_int q * p \<le> min d c * (1 + eps)" using mono [of pre] pre_p buy by linarith
  moreover have "min d c * (1 + eps) \<le> d * (1 + eps)" "min d c * (1 + eps) \<le> c * (1 + eps)"
    by (intro mult_right_mono; simp add: eps_def)+
  moreover have "d * (1 + eps) \<le> 2751 / 10000 * e"
  proof -
    have "d * (1 + eps) \<le> (2751 / 10000 * e * (1 - eps)) * (1 + eps)"
      using dollar_bound [OF assms(3,4) d] by (intro mult_right_mono) (simp_all add: eps_def)
    also have "\<dots> = 2751 / 10000 * e * (1 - eps * eps)" by (simp add: algebra_simps)
    also have "\<dots> \<le> 2751 / 10000 * e * 1"
      using assms(4) by (intro mult_left_mono) (simp_all add: eps_def)
    finally show ?thesis by simp
  qed
  moreover have "s + of_int q * p \<le> 60001 / 100000 * e"
    using headroom_bound [OF assms(3,4,8) h h0 s] mono [OF cap(2)] cap_p by linarith
  ultimately show ?thesis using chk buy by auto
qed


text \<open>The golden-day sizing as a concrete \<open>GateInputs\<close>: 20 percent tier, full multiplier.\<close>

definition golden_inputs :: gate_inputs where
  "golden_inputs = \<lparr> gi_ticker = ''NVDA'', gi_side = ''buy'', equity = Fin 100000, cash = Fin 15000,
     price = Fin 225, vol_60d = Fin (1/4), avg_corr = Fin (1/2), held_qty = 0, position_count = 2,
     sector = ''tech'', sector_value = Fin 20000, daily_pnl_pct = Fin 0 \<rparr>"

lemma golden_size: "size validate (Validated golden_inputs) = Approved 66 66 ''buy''"
proof -
  have "size (\<lambda>_. Inl ValidationError) (Validated golden_inputs) = Approved 66 66 ''buy''"
    by code_simp
  then show ?thesis by simp
qed

theorem approved_buy_envelope_witness:
  "of_int 66 * 225 \<le> 15000 * (1 + eps) \<and> (20000 :: rat) + of_int 66 * 225 \<le> 60001 / 100000 * 100000"
proof -
  have "pow2 17 \<le> pow2 1000" by (simp only: pow2_le_iff)
  then have "(100000 :: rat) \<le> pow2 1000" by (simp add: pow2_def [of 17])
  then show ?thesis
    using approved_buy_envelope [of "\<lambda>_. Inl ValidationError" "Validated golden_inputs" 66 66
        golden_inputs 100000 225 15000 20000] golden_size
    by (simp add: golden_inputs_def)
qed

section \<open>Fail-closed\<close>

text \<open>
  a NaN or an infinity in any numeric input rejects with \<open>gate_error\<close>, on the
  buy and on the sell side alike, even when the \<open>GateInputs\<close> was built past its
  validators.
\<close>

theorem non_finite_is_gate_error:
  assumes "gate_arg validate inp = Inr i"
    and "x \<in> {equity i, cash i, price i, vol_60d i, avg_corr i, sector_value i, daily_pnl_pct i}"
    and "\<not> isfinite x"
  shows "size validate inp = Rejected ''gate_error''"
  using assms by (auto simp: size_def size_checked_def inputs_bad_def)

theorem non_finite_is_gate_error_witness:
  "size (\<lambda>_. Inl ValidationError) (Validated (golden_inputs\<lparr>vol_60d := NaN\<rparr>)) = Rejected ''gate_error''"
  by (rule non_finite_is_gate_error [where x = NaN and i = "golden_inputs\<lparr>vol_60d := NaN\<rparr>"]) simp_all

text \<open>
  A sell is approved exactly when the inputs are sane and something is held, and
  then for exactly the quantity held: the gate can neither open a short nor cap an exit
  below the position, and neither the circuit breaker nor the caps stand in the way of one.
\<close>

theorem sell_approves_exactly_the_position:
  assumes "gi_side i = ''sell''"
  shows "size validate (Validated i) =
    (if inputs_bad i then Rejected ''gate_error''
     else if 0 < held_qty i then Approved (held_qty i) (held_qty i) ''sell''
     else Rejected ''nothing_held'')"
  using assms by (simp add: size_checked_def)

theorem sell_approves_exactly_the_position_witness:
  "size (\<lambda>_. Inl ValidationError) (Validated (golden_inputs\<lparr>gi_side := ''sell'', held_qty := 80,
      daily_pnl_pct := Fin (- 1/10)\<rparr>)) = Approved 80 80 ''sell''"
proof -
  have "\<not> inputs_bad (golden_inputs\<lparr>gi_side := ''sell'', held_qty := 80, daily_pnl_pct := Fin (- 1/10)\<rparr>)"
    by code_simp
  then show ?thesis
    using sell_approves_exactly_the_position
      [of "golden_inputs\<lparr>gi_side := ''sell'', held_qty := 80, daily_pnl_pct := Fin (- 1/10)\<rparr>"
          "\<lambda>_. Inl ValidationError"] by simp
qed

text \<open>
  At or below the circuit breaker no buy is approved, and with eight positions open
  no buy of a name that is not held is.
\<close>

theorem breaker_and_position_limit_block_buys:
  assumes "gi_side i \<noteq> ''sell''"
    and "fle (daily_pnl_pct i) CIRCUIT_BREAKER \<or> held_qty i = 0 \<and> 8 \<le> position_count i"
  shows "size validate (Validated i) \<in>
    {Rejected ''gate_error'', Rejected ''circuit_breaker'', Rejected ''position_count''}"
  using assms by (auto simp: size_checked_def MAX_POSITIONS_def)

theorem breaker_and_position_limit_block_buys_witness:
  "size (\<lambda>_. Inl ValidationError) (Validated (golden_inputs\<lparr>position_count := 8\<rparr>)) \<in>
    {Rejected ''gate_error'', Rejected ''circuit_breaker'', Rejected ''position_count''}"
  by (rule breaker_and_position_limit_block_buys) (simp_all add: golden_inputs_def)

end
