(* ===== verification/Tickets.thy ===== *)
theory Tickets imports Prog Risk begin

text \<open>
  gate/tickets.py: the ticket store, its expiry sweep, and \<open>validate_order\<close>, the check
  every order the trader places has to pass. The tool input is a dynamic Python value;
  the denial's prose is a constructor of \<open>deny\<close> per return statement.
\<close>

section \<open>Storage\<close>

text \<open>
  \<open>Ticket(...)\<close> refuses a side that is no side, a \<open>max_qty\<close> below one and a stop price
  at or below zero; the table refuses a second row of the same id or decision, and a
  decision that does not exist.
\<close>

definition create_ticket :: "string \<Rightarrow> int \<Rightarrow> string \<Rightarrow> action \<Rightarrow> int \<Rightarrow> pyfloat option
    \<Rightarrow> time \<Rightarrow> time \<Rightarrow> (db, unit) prog" where
  "create_ticket ident decision_id symb side qty_cap stop expires_at now s =
     (if side = Hold \<or> \<not> 0 < qty_cap
         \<or> (case stop of None \<Rightarrow> False | Some p \<Rightarrow> \<not> field_gt0 p)
      then (Inl ValidationError, s)
      else if ident \<in> t_id ` set (tickets s) \<or> decision_id \<in> t_decision_id ` set (tickets s)
      then (Inl IntegrityUnique, s)
      else if decision_id \<notin> d_id ` set (decisions s) then (Inl IntegrityForeignKey, s)
      else (Inr (), s\<lparr>tickets := tickets s @ [\<lparr>t_id = ident, t_decision_id = decision_id,
        t_ticker = symb, t_side = side, t_max_qty = qty_cap, t_stop_price = Option.bind stop sql_real,
        t_expires_at = expires_at, t_status = Open, t_created_at = now\<rparr>]\<rparr>))"

definition get_ticket :: "db \<Rightarrow> string \<Rightarrow> ticket option" where
  "get_ticket s ticket_id = fetchone (\<lambda>t. t_id t = ticket_id) (tickets s)"

definition expired :: "time \<Rightarrow> time \<Rightarrow> bool" where
  "expired expires_at now \<longleftrightarrow> now \<ge> expires_at"

definition open_tickets :: "time \<Rightarrow> db \<Rightarrow> ticket list" where
  "open_tickets now s =
     filter (\<lambda>t. \<not> expired (t_expires_at t) now)
       (sort_key t_created_at (filter (\<lambda>t. t_status t = Open) (tickets s)))"

definition open_tickets_without_orders :: "db \<Rightarrow> ticket list" where
  "open_tickets_without_orders s =
     sort_key t_created_at (filter (\<lambda>t. t_status t = Open \<and>
        \<not> list_ex (\<lambda>q. o_client_order_id q = t_id t) (orders s)) (tickets s))"

definition sweep_row :: "time \<Rightarrow> ticket \<Rightarrow> string list \<Rightarrow> (db, string list) prog" where
  "sweep_row now r done_ids =
     (if \<not> expired (t_expires_at r) now then ret done_ids
      else andthen (try_transition T_tickets (K_id_str (t_id r)) Open Expired now [] None)
        (\<lambda>won. if won
           then andthen (try_transition T_decisions (K_id_int (t_decision_id r)) Approved_st Expired now [] None)
                  (\<lambda>_. ret (done_ids @ [t_id r]))
           else ret done_ids))"

definition expire_open_tickets :: "time \<Rightarrow> (db, string list) prog" where
  "expire_open_tickets now =
     andthen (gets (\<lambda>s. filter (\<lambda>t. t_status t = Open) (tickets s)))
       (\<lambda>rows. fold_each (sweep_row now) rows [])"

section \<open>Reading the tool input\<close>

text \<open>\<open>isinstance\<close> and \<open>isdigit\<close>, then \<open>int()\<close>, which can still raise.\<close>

fun as_share_count :: "pyval \<Rightarrow> int option res" where
  "as_share_count (PBool _) = Inr None"
| "as_share_count (PInt n) = Inr (Some n)"
| "as_share_count (PStr t) =
     (if isdigit t then (case int_of_str t of Inl e \<Rightarrow> Inl e | Inr n \<Rightarrow> Inr (Some n)) else Inr None)"
| "as_share_count _ = Inr None"

definition STOP_LEG_KEYS :: "string list" where
  "STOP_LEG_KEYS = [''stop_loss_stop_price'', ''stop_loss_limit_price'', ''take_profit_limit_price'']"

fun as_price :: "pyval \<Rightarrow> pyfloat option res" where
  "as_price (PBool _) = Inr None"
| "as_price (PInt n) = (case float_of_int n of Inl e \<Rightarrow> Inl e | Inr x \<Rightarrow> Inr (Some x))"
| "as_price (PFloat x) = Inr (Some x)"
| "as_price (PStr t) = (case float_of_str t of Inl _ \<Rightarrow> Inr None | Inr x \<Rightarrow> Inr (Some x))"
| "as_price _ = Inr None"

fun as_time_in_force :: "pyval \<Rightarrow> string option" where
  "as_time_in_force (PStr t) = Some (lower (strip t))"
| "as_time_in_force _ = None"

section \<open>The order check\<close>

datatype deny = OK | Malformed | Missing_id | No_ticket | Not_open | Ticket_expired | Wrong_symbol
  | Wrong_side | Bad_qty | Over_max | Nested_leg | Unstopped_leg | Extra_leg | Stop_mismatch
  | Bad_order_class | Bad_tif

text \<open>The exit-leg rules, after the quantity is settled.\<close>

definition check_legs :: "pydict \<Rightarrow> pyfloat option \<Rightarrow> deny res" where
  "check_legs d stop =
     (let nested = filter (\<lambda>k. dget d k \<noteq> PNone) [''stop_loss'', ''take_profit''];
          legs = filter (\<lambda>k. dget d k \<noteq> PNone) STOP_LEG_KEYS
      in if nested \<noteq> [] then Inr Nested_leg
         else case stop of
           None \<Rightarrow> Inr (if legs \<noteq> [] then Unstopped_leg else OK)
         | Some p \<Rightarrow>
             if filter (\<lambda>k. k \<noteq> ''stop_loss_stop_price'') legs \<noteq> [] then Inr Extra_leg
             else res_bind (as_price (dget d ''stop_loss_stop_price'')) (\<lambda>lp.
               case lp of None \<Rightarrow> Inr Stop_mismatch
               | Some x \<Rightarrow>
                   Inr (if \<not> feq x p then Stop_mismatch
                        else if \<not> py_eq (PStr ''oto'') (dget d ''order_class'') then Bad_order_class
                        else if as_time_in_force (dget d ''time_in_force'') \<noteq> Some ''gtc'' then Bad_tif
                        else OK)))"

definition validate_order :: "db \<Rightarrow> pyval \<Rightarrow> time \<Rightarrow> deny res" where
  "validate_order s tool_input now =
     (case tool_input of PDict d \<Rightarrow>
        (case dget d ''client_order_id'' of PStr coid \<Rightarrow>
           if coid = [] then Inr Missing_id
           else (case get_ticket s coid of
               None \<Rightarrow> Inr No_ticket
             | Some t \<Rightarrow>
                 if t_status t \<noteq> Open then Inr Not_open
                 else if expired (t_expires_at t) now then Inr Ticket_expired
                 else if \<not> py_eq (PStr (t_ticker t)) (dget d ''symbol'') then Inr Wrong_symbol
                 else if \<not> py_eq (PStr (action_str (t_side t))) (dget d ''side'') then Inr Wrong_side
                 else res_bind (as_share_count (dget d ''qty'')) (\<lambda>qty.
                   case qty of None \<Rightarrow> Inr Bad_qty
                   | Some q \<Rightarrow> if q < 1 then Inr Bad_qty
                               else if q > t_max_qty t then Inr Over_max
                               else check_legs d (t_stop_price t)))
         | _ \<Rightarrow> Inr Missing_id)
      | _ \<Rightarrow> Inr Malformed)"

section \<open>What an accepted order is\<close>

text \<open>
  The contract, stated without the order of the checks: the order names an open, live
  ticket, repeats its symbol and side, buys or sells between one and \<open>max_qty\<close> whole
  shares, and carries the ticket's exit and no other.
\<close>

definition exit_matches :: "pydict \<Rightarrow> pyfloat option \<Rightarrow> bool" where
  "exit_matches d stop \<longleftrightarrow>
     dget d ''stop_loss'' = PNone \<and> dget d ''take_profit'' = PNone \<and>
     dget d ''stop_loss_limit_price'' = PNone \<and> dget d ''take_profit_limit_price'' = PNone \<and>
     (case stop of None \<Rightarrow> dget d ''stop_loss_stop_price'' = PNone
      | Some p \<Rightarrow> (\<exists>x. as_price (dget d ''stop_loss_stop_price'') = Inr (Some x) \<and> feq x p) \<and>
          dget d ''order_class'' = PStr ''oto'' \<and>
          (\<exists>w. dget d ''time_in_force'' = PStr w \<and> lower (strip w) = ''gtc''))"

definition ticket_covers :: "ticket \<Rightarrow> pydict \<Rightarrow> time \<Rightarrow> bool" where
  "ticket_covers t d now \<longleftrightarrow>
     t_status t = Open \<and> now < t_expires_at t \<and>
     dget d ''symbol'' = PStr (t_ticker t) \<and> dget d ''side'' = PStr (action_str (t_side t)) \<and>
     (\<exists>q. as_share_count (dget d ''qty'') = Inr (Some q) \<and> 1 \<le> q \<and> q \<le> t_max_qty t) \<and>
     exit_matches d (t_stop_price t)"

definition authorized :: "db \<Rightarrow> pydict \<Rightarrow> time \<Rightarrow> bool" where
  "authorized s d now \<longleftrightarrow>
     (\<exists>t\<in>set (tickets s). t_id t \<noteq> [] \<and> dget d ''client_order_id'' = PStr (t_id t) \<and>
        ticket_covers t d now)"

lemma as_time_in_force_Some: "as_time_in_force v = Some w \<longleftrightarrow> (\<exists>t. v = PStr t \<and> lower (strip t) = w)"
  by (cases v) auto

lemma qty_check_OK:
  "res_bind r (\<lambda>qty. case qty of None \<Rightarrow> Inr Bad_qty
     | Some q \<Rightarrow> if q < 1 then Inr Bad_qty else if q > (m::int) then Inr Over_max else g) = Inr OK \<longleftrightarrow>
   (\<exists>q. r = Inr (Some q) \<and> 1 \<le> q \<and> q \<le> m) \<and> g = Inr OK"
  by (cases r) (auto split: option.splits)

lemma check_legs_OK: "check_legs d stop = Inr OK \<longleftrightarrow> exit_matches d stop"
  by (auto simp: check_legs_def exit_matches_def STOP_LEG_KEYS_def Let_def res_bind_Inr
        as_time_in_force_Some split: option.splits if_splits)

lemma get_ticket_unique:
  "unique_on t_id (tickets s) \<Longrightarrow> t \<in> set (tickets s) \<Longrightarrow> get_ticket s (t_id t) = Some t"
  using fetchone_unique [of t_id "tickets s" t "t_id t"] by (simp add: get_ticket_def)

lemma validate_order_at:
  assumes "dget d ''client_order_id'' = PStr coid" and "coid \<noteq> []" and "get_ticket s coid = Some t"
  shows "validate_order s (PDict d) now = Inr OK \<longleftrightarrow> ticket_covers t d now"
  using assms
  by (simp add: validate_order_def ticket_covers_def expired_def qty_check_OK check_legs_OK not_le)

text \<open>
  C2: an order passes the gate exactly when it is authorized: an input that is no
  dictionary never passes, and a dictionary passes iff an open unexpired ticket has its
  id, symbol and side, its quantity is a whole number between one and the ticket's
  \<open>max_qty\<close>, and its exit legs are exactly the ticket's (none at all without a stop; with
  one, the same stop price, order class \<open>oto\<close>, good till cancelled).
\<close>

theorem validate_order_iff_authorized:
  assumes "db_wf s"
  shows "validate_order s v now = Inr OK \<longleftrightarrow> (\<exists>d. v = PDict d \<and> authorized s d now)"
proof (cases "\<exists>d coid. v = PDict d \<and> dget d ''client_order_id'' = PStr coid \<and> coid \<noteq> []")
  case True
  then obtain d coid where v: "v = PDict d" "dget d ''client_order_id'' = PStr coid" "coid \<noteq> []" by blast
  note u = get_ticket_unique [of s]
  from assms have wf: "unique_on t_id (tickets s)" by (simp add: db_wf_def)
  show ?thesis
  proof (cases "get_ticket s coid")
    case None
    then have "\<forall>t\<in>set (tickets s). t_id t \<noteq> coid" by (simp add: get_ticket_def fetchone_None)
    with v None show ?thesis by (auto simp: validate_order_def authorized_def)
  next
    case (Some t)
    then have t: "t \<in> set (tickets s)" "t_id t = coid"
      by (auto simp: get_ticket_def dest: fetchone_SomeD)
    have "t' = t" if "t' \<in> set (tickets s)" "t_id t' = coid" for t'
      using u [OF wf that(1)] Some that(2) by simp
    note only = this
    have "authorized s d now \<longleftrightarrow> validate_order s (PDict d) now = Inr OK"
      unfolding validate_order_at [OF v(2,3) Some, of now]
    proof
      assume "authorized s d now"
      then obtain t' where "t' \<in> set (tickets s)" "PStr coid = PStr (t_id t')" "ticket_covers t' d now"
        unfolding authorized_def v(2) by blast
      with only [of t'] show "ticket_covers t d now" by simp
    next
      assume "ticket_covers t d now"
      with t v(2,3) show "authorized s d now" unfolding authorized_def by (intro bexI [of _ t]) simp_all
    qed
    with v(1) show ?thesis by simp
  qed
next
  case False
  have "validate_order s v now \<noteq> Inr OK"
  proof (cases v)
    case (PDict d)
    show ?thesis
    proof (cases "dget d ''client_order_id''")
      case (PStr coid)
      with False PDict have "coid = []" by blast
      with PDict PStr show ?thesis by (simp add: validate_order_def)
    qed (simp_all add: validate_order_def PDict)
  qed (simp_all add: validate_order_def)
  moreover have "\<not> authorized s d now" if "v = PDict d" for d
    using False that by (auto simp: authorized_def)
  ultimately show ?thesis by blast
qed


text \<open>The order the trader's charter tells it to place for a ticket: quantity as a string.\<close>

definition order_for :: "ticket \<Rightarrow> int \<Rightarrow> pyval" where
  "order_for t q = PDict ([(''client_order_id'', PStr (t_id t)), (''symbol'', PStr (t_ticker t)),
      (''side'', PStr (action_str (t_side t))), (''qty'', PStr (str_of_int q))]
     @ (case t_stop_price t of None \<Rightarrow> []
        | Some p \<Rightarrow> [(''stop_loss_stop_price'', PFloat p), (''order_class'', PStr ''oto''),
                     (''time_in_force'', PStr ''GTC'')]))"

definition golden_ticket :: ticket where
  "golden_ticket = \<lparr>t_id = ''tk-1'', t_decision_id = 1, t_ticker = ''NVDA'', t_side = Buy,
     t_max_qty = 80, t_stop_price = Some (Fin 215), t_expires_at = 2700, t_status = Open, t_created_at = 0\<rparr>"

definition golden_db :: db where
  "golden_db = empty_db\<lparr>tickets := [golden_ticket],
     decisions := map (\<lambda>d. d\<lparr>d_status := Approved_st\<rparr>) (decisions one_decision)\<rparr>"

lemma golden_db_wf: "db_wf golden_db"
  by (simp add: golden_db_def golden_ticket_def db_wf_def unique_on_def empty_db_def one_decision_def)

text \<open>
  No false denial: for every open, unexpired ticket of the store and every whole
  quantity up to its cap, the order that repeats the ticket, with the quantity printed as
  a string and, on a ticket with a stop, the stop as an \<open>oto\<close> leg good till cancelled
  (in any letter case), is accepted.
\<close>

theorem canonical_order_accepted:
  assumes "db_wf s" and "t \<in> set (tickets s)" and "t_id t \<noteq> []" and "t_status t = Open"
    and "now < t_expires_at t" and "1 \<le> q" and "q \<le> t_max_qty t"
    and "\<And>p. t_stop_price t = Some p \<Longrightarrow> p \<noteq> NaN"
  shows "validate_order s (order_for t q) now = Inr OK"
proof -
  from assms(1) have "unique_on t_id (tickets s)" by (simp add: db_wf_def)
  from get_ticket_unique [OF this assms(2)] have g: "get_ticket s (t_id t) = Some t" .
  have gtc: "lower (strip ''GTC'') = ''gtc''" by code_simp
  have q: "as_share_count (PStr (str_of_int q)) = Inr (Some q)"
    using assms(6) by (simp add: isdigit_str_of_int int_of_str_of_int)
  obtain d where d: "order_for t q = PDict d" by (simp add: order_for_def)
  have "dget d ''client_order_id'' = PStr (t_id t)"
    using d by (auto simp: order_for_def dget_def split: option.splits)
  moreover have "ticket_covers t d now"
  proof (cases "t_stop_price t")
    case None
    with d q assms show ?thesis
      by (auto simp: order_for_def ticket_covers_def exit_matches_def dget_def)
  next
    case (Some p)
    with assms(8) have "feq p p" by (simp add: feq_def)
    with Some d q gtc assms show ?thesis
      by (auto simp: order_for_def ticket_covers_def exit_matches_def dget_def)
  qed
  ultimately show ?thesis
    unfolding d by (simp add: validate_order_at [OF _ assms(3) g])
qed

theorem canonical_order_accepted_witness:
  "validate_order golden_db (order_for golden_ticket 80) 60 = Inr OK"
  by (rule canonical_order_accepted [OF golden_db_wf]) (simp_all add: golden_db_def golden_ticket_def)

theorem validate_order_iff_authorized_witness:
  "validate_order golden_db (order_for golden_ticket 81) 60 \<noteq> Inr OK"
proof -
  have "\<not> authorized golden_db d 60" if "order_for golden_ticket 81 = PDict d" for d
    using that int_of_str_of_int [of 81] isdigit_str_of_int [of 81]
    by (auto simp: authorized_def ticket_covers_def golden_db_def golden_ticket_def order_for_def dget_def)
  then show ?thesis
    using validate_order_iff_authorized [OF golden_db_wf, of "order_for golden_ticket 81" 60] by blast
qed

section \<open>The expiry sweep\<close>

definition dead :: "time \<Rightarrow> ticket \<Rightarrow> bool" where
  "dead now t \<longleftrightarrow> t_status t = Open \<and> expired (t_expires_at t) now"

text \<open>The sweep's contract, as two set-oriented updates.\<close>

definition sweep_ids :: "string set \<Rightarrow> int set \<Rightarrow> db \<Rightarrow> db" where
  "sweep_ids ts ds s =
     s\<lparr>tickets := update_where (\<lambda>t. t_id t \<in> ts \<and> t_status t = Open) (\<lambda>t. t\<lparr>t_status := Expired\<rparr>) (tickets s),
       decisions := update_where (\<lambda>d. d_id d \<in> ds \<and> d_status d = Approved_st)
                      (\<lambda>d. d\<lparr>d_status := Expired\<rparr>) (decisions s)\<rparr>"

definition sweep_spec :: "time \<Rightarrow> db \<Rightarrow> db" where
  "sweep_spec now s = (let gone = filter (dead now) (tickets s)
     in sweep_ids (t_id ` set gone) (t_decision_id ` set gone) s)"

lemma try_expire_ticket:
  "try_transition T_tickets (K_id_str k) Open Expired now [] None s =
    (Inr (rowcount (\<lambda>t. t_id t = k \<and> t_status t = Open) (tickets s) = 1),
     s\<lparr>tickets := update_where (\<lambda>t. t_id t = k \<and> t_status t = Open) (\<lambda>t. t\<lparr>t_status := Expired\<rparr>) (tickets s)\<rparr>)"
  by (subst try_transition_legal) (simp_all add: legal_call_def EDGES_def VERSIONED_def Let_def)

lemma try_expire_decision:
  "try_transition T_decisions (K_id_int k) Approved_st Expired now [] None s =
    (Inr (rowcount (\<lambda>d. d_id d = k \<and> d_status d = Approved_st) (decisions s) = 1),
     s\<lparr>decisions := update_where (\<lambda>d. d_id d = k \<and> d_status d = Approved_st)
                              (\<lambda>d. d\<lparr>d_status := Expired\<rparr>) (decisions s)\<rparr>)"
  by (subst try_transition_legal) (simp_all add: legal_call_def EDGES_def VERSIONED_def Let_def)

lemma sweep_ids_empty [simp]: "sweep_ids {} {} s = s"
  by (simp add: sweep_ids_def update_where_def)

lemma sweep_ids_insert:
  "sweep_ids {k} {i} (sweep_ids ts ds s) = sweep_ids (insert k ts) (insert i ds) s"
  by (simp add: sweep_ids_def update_where_fuse) (auto intro!: arg_cong2 [where f = "\<lambda>x y. s\<lparr>tickets := x, decisions := y\<rparr>"] update_where_cong)

lemma sweep_row_dead:
  assumes "unique_on t_id (tickets s)" and "r \<in> set (tickets s)" and "dead now r"
  shows "sweep_row now r acc s = (Inr (acc @ [t_id r]), sweep_ids {t_id r} {t_decision_id r} s)"
proof -
  have "rowcount (\<lambda>t. t_id t = t_id r \<and> t_status t = Open) (tickets s) = 1"
    using assms by (simp add: rowcount_key fetchone_unique dead_def)
  then show ?thesis
    using assms(3)
    by (simp add: sweep_row_def dead_def andthen_def try_expire_ticket try_expire_decision sweep_ids_def)
qed

lemma sweep_ids_row:
  "unique_on t_id (tickets s) \<Longrightarrow> unique_on t_id (tickets (sweep_ids ts ds s))"
  "r \<in> set (tickets s) \<Longrightarrow> t_id r \<notin> ts \<Longrightarrow> r \<in> set (tickets (sweep_ids ts ds s))"
  by (auto simp: sweep_ids_def unique_on_update_where set_update_where)

lemma sweep_rows:
  assumes "unique_on t_id (tickets s)" and "distinct (map t_id rows)"
    and "\<forall>r\<in>set rows. r \<in> set (tickets s) \<and> t_status r = Open \<and> t_id r \<notin> ts"
  shows "fold_each (sweep_row now) rows acc (sweep_ids ts ds s) =
    (Inr (acc @ map t_id (filter (dead now) rows)),
     sweep_ids (t_id ` set (filter (dead now) rows) \<union> ts) (t_decision_id ` set (filter (dead now) rows) \<union> ds) s)"
  using assms(2,3)
proof (induction rows arbitrary: acc ts ds)
  case (Cons r rows)
  show ?case
  proof (cases "dead now r")
    case True
    have "sweep_row now r acc (sweep_ids ts ds s) =
        (Inr (acc @ [t_id r]), sweep_ids (insert (t_id r) ts) (insert (t_decision_id r) ds) s)"
      using sweep_row_dead [OF sweep_ids_row(1) [OF assms(1)] sweep_ids_row(2) True] Cons.prems(2)
      by (simp add: sweep_ids_insert)
    moreover have "\<forall>x\<in>set rows. x \<in> set (tickets s) \<and> t_status x = Open \<and> t_id x \<notin> insert (t_id r) ts"
      using Cons.prems by (auto simp: image_iff)
    ultimately show ?thesis
      using Cons.IH [of "insert (t_id r) ts" "acc @ [t_id r]" "insert (t_decision_id r) ds"] Cons.prems(1) True
      by (simp add: andthen_def)
  next
    case False
    with Cons.prems(2) have "sweep_row now r acc w = (Inr acc, w)" for w
      by (simp add: sweep_row_def dead_def)
    then show ?thesis
      using Cons.IH [of ts acc ds] Cons.prems False by (simp add: andthen_def)
  qed
qed simp

lemma expire_open_tickets_run:
  assumes "db_wf s"
  shows "expire_open_tickets now s = (Inr (map t_id (filter (dead now) (tickets s))), sweep_spec now s)"
proof -
  let ?rows = "filter (\<lambda>t. t_status t = Open) (tickets s)"
  from assms have u: "unique_on t_id (tickets s)" by (simp add: db_wf_def)
  then have "distinct (map t_id ?rows)" by (simp add: unique_on_def distinct_map_filter)
  from sweep_rows [OF u this, of "{}" now "[]" "{}"]
  have "fold_each (sweep_row now) ?rows [] s =
    (Inr (map t_id (filter (dead now) ?rows)),
     sweep_ids (t_id ` set (filter (dead now) ?rows)) (t_decision_id ` set (filter (dead now) ?rows)) s)"
    by simp
  moreover have "filter (dead now) ?rows = filter (dead now) (tickets s)"
    by (auto simp: dead_def intro: filter_cong)
  ultimately show ?thesis
    by (simp only: expire_open_tickets_def andthen_gets sweep_spec_def Let_def)
qed

text \<open>
  C35: the sweep loop, row by row and compare-and-swap by compare-and-swap, does exactly
  what its contract says at once: it returns the ids of the open tickets whose time has
  come, in table order; these tickets and no other become expired; and of their decisions
  the approved ones become expired and no other column of any table moves.
\<close>

theorem sweep_refines_spec:
  assumes "db_wf s"
  shows "expire_open_tickets now s = (Inr (map t_id (filter (dead now) (tickets s))), sweep_spec now s)"
  by (rule expire_open_tickets_run [OF assms])

theorem sweep_refines_spec_witness:
  "expire_open_tickets 2700 golden_db = (Inr [''tk-1''], sweep_spec 2700 golden_db)"
  using sweep_refines_spec [OF golden_db_wf, of 2700]
  by (simp add: golden_db_def golden_ticket_def dead_def expired_def)

lemma sweep_spec_no_dead:
  assumes "unique_on t_id (tickets s)" and "t \<in> set (tickets (sweep_spec now s))"
  shows "\<not> dead now t"
  using assms unique_onD [OF assms(1)]
  by (auto simp: sweep_spec_def sweep_ids_def Let_def set_update_where dead_def)

lemma dead_earlier: "dead now' t \<Longrightarrow> now' \<le> now \<Longrightarrow> dead now t"
  by (auto simp: dead_def expired_def)

lemma ev_sweep: "ev.obeys (expire_open_tickets now)"
  unfolding expire_open_tickets_def sweep_row_def
  by (intro ev.obeys_intros ev_try_transition)

lemma sweep_spec_wf: "db_wf s \<Longrightarrow> db_wf (sweep_spec now s)"
  using expire_open_tickets_run [of s now] ev.obeysD [OF ev_sweep, of s now]
  by (simp add: evolves_def)

lemma no_dead_sweep_id: "(\<And>t. t \<in> set (tickets s) \<Longrightarrow> \<not> dead now t) \<Longrightarrow> sweep_spec now s = s"
  by (simp add: sweep_spec_def filter_empty_conv Let_def)

text \<open>
  After a sweep nothing expired is left open, so a sweep that follows at the same or
  an earlier reading of the clock returns no id and changes nothing.
\<close>

theorem sweep_idempotent:
  assumes "db_wf s" and "expire_open_tickets now s = (r, s')" and "now' \<le> now"
  shows "expire_open_tickets now' s' = (Inr [], s')"
proof -
  from assms(1,2) have s': "s' = sweep_spec now s" by (simp add: expire_open_tickets_run)
  have u: "unique_on t_id (tickets s)" using assms(1) by (simp add: db_wf_def)
  have "\<not> dead now' t" if "t \<in> set (tickets s')" for t
    using sweep_spec_no_dead [OF u] that assms(3) dead_earlier unfolding s' by blast
  moreover from this have "filter (dead now') (tickets s') = []" by (simp add: filter_empty_conv)
  ultimately show ?thesis
    using expire_open_tickets_run [of s' now'] sweep_spec_wf [OF assms(1)] no_dead_sweep_id [of s' now']
    by (simp add: s')
qed

theorem sweep_idempotent_witness:
  "\<exists>r s'. expire_open_tickets 2700 golden_db = (r, s') \<and> r = Inr [''tk-1''] \<and>
     expire_open_tickets 2699 s' = (Inr [], s')"
proof -
  have run: "expire_open_tickets 2700 golden_db = (Inr [''tk-1''], sweep_spec 2700 golden_db)"
    using expire_open_tickets_run [OF golden_db_wf, of 2700]
    by (simp add: golden_db_def golden_ticket_def dead_def expired_def)
  from sweep_idempotent [OF golden_db_wf run, of 2699] run show ?thesis by simp
qed

end
