(* ===== verification/Reconcile.thy ===== *)
theory Reconcile imports Tickets Ports "HOL-Library.AList" begin

text \<open>
  orchestrator/reconcile.py: recovering orders the broker holds and the books do not, and
  polling every live order to a terminal state. The broker is a record of functions on
  the outside state (orchestrator/broker.py's port); any of them may raise.
\<close>

section \<open>The broker port\<close>

record 'x broker =
  bk_lookup :: "(string \<Rightarrow> 'x \<Rightarrow> pydict option res \<times> 'x) option"
  bk_cancel :: "string \<Rightarrow> 'x \<Rightarrow> unit res \<times> 'x"
  bk_positions :: "('x \<Rightarrow> pyval list res \<times> 'x) option"
  bk_orders :: "('x \<Rightarrow> pyval list res \<times> 'x) option"
  bk_real_text :: "pyfloat \<Rightarrow> string"
  bk_str :: "pyval \<Rightarrow> string"

text \<open>\<open>broker.get_order_by_client_order_id(coid)\<close>, on a broker that may lack it.\<close>

definition get_order :: "'x broker \<Rightarrow> string \<Rightarrow> ('x world, pydict option) prog" where
  "get_order B coid = (case bk_lookup B of None \<Rightarrow> raise AttributeError | Some f \<Rightarrow> on_port (f coid))"

text \<open>\<open>d[k]\<close>; \<open>int(x)\<close> of a float.\<close>

definition dkey :: "pydict \<Rightarrow> string \<Rightarrow> pyval res" where
  "dkey d k = (case map_of d k of None \<Rightarrow> Inl KeyError | Some v \<Rightarrow> Inr v)"

fun int_of_float :: "pyfloat \<Rightarrow> int res" where
  "int_of_float (Fin q) = Inr (if 0 \<le> q then \<lfloor>q\<rfloor> else \<lceil>q\<rceil>)"
| "int_of_float NaN = Inl ValueError"
| "int_of_float _ = Inl OverflowError"

text \<open>A Python int bound to an INTEGER column must fit 64 bits.\<close>

definition sql_int :: "int \<Rightarrow> int res" where
  "sql_int n = (if - (2 ^ 63) \<le> n \<and> n < 2 ^ 63 then Inr n else Inl OverflowError)"

section \<open>Reading a fill\<close>

definition statuses :: "db \<Rightarrow> order list" where
  "statuses s = filter (\<lambda>q. o_status q \<in> {Submitted, Partially_filled}) (orders s)"

definition parse_fill :: "pydict \<Rightarrow> (int \<times> pyfloat) res" where
  "parse_fill d =
     res_bind (res_bind (dkey d ''filled_qty'') float_of) (\<lambda>raw_qty.
     res_bind (res_bind (dkey d ''filled_avg_price'') float_of) (\<lambda>avg.
     res_bind (int_of_float raw_qty) (\<lambda>n.
       if raw_qty \<noteq> Fin (of_int n) then Inl ValueError
       else if n \<le> 0 \<or> fle avg (Fin 0) then Inl ValueError
       else Inr (n, avg))))"

definition record_fill :: "string \<Rightarrow> int \<Rightarrow> pyfloat \<Rightarrow> time option \<Rightarrow> (db, unit) prog" where
  "record_fill coid n avg closed_at s = (case sql_int n of Inl e \<Rightarrow> (Inl e, s) | Inr k \<Rightarrow>
     (Inr (), s\<lparr>orders := update_where (\<lambda>q. o_client_order_id q = coid)
        (\<lambda>q. q\<lparr>o_filled_qty := k, o_filled_avg_price := sql_real avg,
               o_closed_at := (case closed_at of None \<Rightarrow> o_closed_at q | Some t \<Rightarrow> Some t)\<rparr>) (orders s)\<rparr>))"

definition fill_event :: "order \<Rightarrow> int \<Rightarrow> pyfloat \<Rightarrow> time \<Rightarrow> db \<Rightarrow> db" where
  "fill_event row n avg now s = append_event ''fill''
     [(''ticker'', PStr (o_symbol row)), (''side'', PStr (o_side row)),
      (''filled_qty'', PInt n), (''filled_avg_price'', PFloat avg),
      (''ticket_id'', PStr (o_client_order_id row))] now s"

definition decision_of_ticket :: "string \<Rightarrow> db \<Rightarrow> int option" where
  "decision_of_ticket coid s = map_option t_decision_id (fetchone (\<lambda>t. t_id t = coid) (tickets s))"

section \<open>Mirroring one broker order\<close>

abbreviation cas_order :: "string \<Rightarrow> status \<Rightarrow> status \<Rightarrow> time \<Rightarrow> (db, bool) prog" where
  "cas_order coid a b now \<equiv> try_transition T_orders (K_client_order_id coid) a b now [] None"

abbreviation cas_decision :: "int \<Rightarrow> status \<Rightarrow> status \<Rightarrow> time \<Rightarrow> (db, bool) prog" where
  "cas_decision i a b now \<equiv> try_transition T_decisions (K_id_int i) a b now [] None"

definition apply_order :: "order \<Rightarrow> pydict \<Rightarrow> time \<Rightarrow> (db, bool) prog" where
  "apply_order row d now =
     (let coid = o_client_order_id row; st = dget d ''status'' in
      if st = PStr ''filled'' then
        andthen (lift_res (parse_fill d)) (\<lambda>(n, avg).
        andthen (record_fill coid n avg (Some now)) (\<lambda>_.
        andthen (cas_order coid Submitted Filled now) (\<lambda>m1.
        andthen (if m1 then ret True else cas_order coid Partially_filled Filled now) (\<lambda>moved.
        andthen (whenever moved
          (andthen (modify (fill_event row n avg now)) (\<lambda>_.
           andthen (gets (decision_of_ticket coid)) (\<lambda>t.
           case t of None \<Rightarrow> ret ()
           | Some i \<Rightarrow> andthen (cas_decision i Approved_st Executed now) (\<lambda>dm.
               whenever (\<not> dm) (modify (alert ''fill_on_unapproved_decision'' now))))))) (\<lambda>_.
        ret moved)))))
      else if st = PStr ''partially_filled'' then
        andthen (lift_res (parse_fill d)) (\<lambda>(n, avg).
        andthen (record_fill coid n avg None) (\<lambda>_.
        andthen (cas_order coid Submitted Partially_filled now) (\<lambda>m.
        andthen (whenever m (modify (alert ''partial_fill_manual_review'' now))) (\<lambda>_.
        ret False))))
      else ret False)"

section \<open>Closing out at the cap\<close>

definition CONFIRMED_DEAD :: "(string \<times> status) list" where
  "CONFIRMED_DEAD = [(''canceled'', Canceled), (''expired'', Canceled), (''rejected'', Rejected_st)]"

text \<open>\<open>status in _CONFIRMED_DEAD\<close>; a list or a dictionary is not hashable.\<close>

fun dead_status :: "pyval \<Rightarrow> status option res" where
  "dead_status (PStr st) = Inr (map_of CONFIRMED_DEAD st)"
| "dead_status (PList _) = Inl TypeError"
| "dead_status (PDict _) = Inl TypeError"
| "dead_status _ = Inr None"

text \<open>\<open>raw in (None, "") or float(raw) == 0\<close>, else the fill must parse.\<close>

definition dead_fill :: "pydict \<Rightarrow> (int \<times> pyfloat) option res" where
  "dead_fill d =
     (let raw = dget d ''filled_qty'' in
      if raw = PNone \<or> raw = PStr [] then Inr None
      else res_bind (float_of raw) (\<lambda>x.
        if feq x (Fin 0) then Inr None else res_bind (parse_fill d) (\<lambda>f. Inr (Some f))))"

abbreviation unreconciled :: "time \<Rightarrow> ('x world, bool) prog" where
  "unreconciled now \<equiv> andthen (on_db (modify (alert ''order_unreconciled'' now))) (\<lambda>_. ret False)"

text \<open>The broker says the order is dead: record what it says was filled, then the status.\<close>

definition close_dead :: "order \<Rightarrow> order \<Rightarrow> status \<Rightarrow> (int \<times> pyfloat) option \<Rightarrow> time \<Rightarrow> (db, bool) prog" where
  "close_dead row cur dead_st fill now =
     (let coid = o_client_order_id row in
      andthen (case fill of None \<Rightarrow> ret () | Some (n, avg) \<Rightarrow> record_fill coid n avg (Some now)) (\<lambda>_.
      andthen (cas_order coid (o_status cur) dead_st now) (\<lambda>won.
      andthen (whenever won
        (andthen (gets (decision_of_ticket coid)) (\<lambda>t.
         case fill of
           None \<Rightarrow>
             andthen (case t of None \<Rightarrow> ret False | Some i \<Rightarrow> cas_decision i Approved_st Failed now) (\<lambda>_.
             modify (alert ''order_unfilled_at_cap'' now))
         | Some (n, avg) \<Rightarrow>
             andthen (modify (fill_event row n avg now)) (\<lambda>_.
             andthen (case t of None \<Rightarrow> ret False | Some i \<Rightarrow> cas_decision i Approved_st Executed now) (\<lambda>_.
             modify (alert ''order_partial_then_dead'' now)))))) (\<lambda>_.
      ret False))))"

text \<open>What the re-query answered; \<open>None\<close>, an empty order or an exception is no answer.\<close>

definition timeout_answer :: "order \<Rightarrow> time \<Rightarrow> pydict \<Rightarrow> ('x world, bool) prog" where
  "timeout_answer row now d =
     (let coid = o_client_order_id row; st = dget d ''status'' in
      if st = PStr ''filled'' \<or> st = PStr ''partially_filled''
      then catch (on_db (apply_order row d now)) (\<lambda>_. unreconciled now)
      else andthen (lift_res (dead_status st)) (\<lambda>dead_st.
        case dead_st of None \<Rightarrow> unreconciled now
        | Some b \<Rightarrow>
          andthen (on_db (gets (\<lambda>s. fetchone (\<lambda>q. o_client_order_id q = coid) (orders s)))) (\<lambda>cur.
          case cur of None \<Rightarrow> unreconciled now
          | Some q \<Rightarrow>
            if \<not> (case EDGES T_orders of None \<Rightarrow> False | Some es \<Rightarrow> (o_status q, b) \<in> set es)
            then unreconciled now
            else (case dead_fill d of Inl _ \<Rightarrow> unreconciled now
                  | Inr fill \<Rightarrow> on_db (close_dead row q b fill now)))))"

definition timeout_close :: "'x broker \<Rightarrow> order \<Rightarrow> time \<Rightarrow> ('x world, bool) prog" where
  "timeout_close B row now =
     andthen (catch (on_port (bk_cancel B (o_client_order_id row))) (\<lambda>_. ret ())) (\<lambda>_.
     andthen (catch (andthen (get_order B (o_client_order_id row))
          (\<lambda>a. case a of Some (kv # d) \<Rightarrow> ret (Some (kv # d)) | _ \<Rightarrow> raise ValueError)) (\<lambda>_. ret None))
       (\<lambda>a. case a of None \<Rightarrow> unreconciled now | Some d \<Rightarrow> timeout_answer row now d))"

section \<open>Polling\<close>

record poll_state =
  ps_filled :: int
  ps_open :: "(string \<times> order) list"
  ps_problem :: "(string \<times> exn) list"

definition poll_one :: "'x broker \<Rightarrow> time \<Rightarrow> order \<Rightarrow> poll_state \<Rightarrow> ('x world, poll_state) prog" where
  "poll_one B now row st w =
     (let coid = o_client_order_id row in
      case andthen (get_order B coid) (\<lambda>a. case a of
             Some (kv # d) \<Rightarrow> andthen (on_db (apply_order row (kv # d) now)) (\<lambda>m. ret (m, dget (kv # d) ''status''))
           | _ \<Rightarrow> ret (False, PNone)) w of
        (Inl e, w') \<Rightarrow> (Inr (st\<lparr>ps_open := AList.delete coid (ps_open st),
                               ps_problem := AList.update coid e (ps_problem st)\<rparr>), w')
      | (Inr (m, stv), w') \<Rightarrow>
          (Inr (st\<lparr>ps_filled := ps_filled st + of_bool m,
             ps_problem := AList.delete coid (ps_problem st),
             ps_open := (if stv = PStr ''filled'' \<or> stv = PStr ''partially_filled''
                         then AList.delete coid (ps_open st) else AList.update coid row (ps_open st))\<rparr>), w'))"

text \<open>
  The \<open>while True\<close>: \<open>Inl\<close> is the early return (nothing pending), \<open>Inr\<close> the break at the
  cap; \<open>None\<close> when the fuel does not suffice.
\<close>

fun poll_loop :: "nat \<Rightarrow> ('x, 'z) ports_scheme \<Rightarrow> 'x broker \<Rightarrow> (pyfloat \<Rightarrow> 'x \<Rightarrow> unit res \<times> 'x)
    \<Rightarrow> pyfloat \<Rightarrow> pyfloat \<Rightarrow> pyfloat \<Rightarrow> poll_state \<Rightarrow> ('x world, (int + poll_state) option) prog" where
  "poll_loop 0 P B sleep poll_s max_wait_s waited st = ret None"
| "poll_loop (Suc fuel) P B sleep poll_s max_wait_s waited st =
     andthen (on_db (gets statuses)) (\<lambda>pending.
     if pending = [] then ret (Some (Inl (ps_filled st)))
     else
       andthen (clock_now P) (\<lambda>now.
       andthen (fold_each (poll_one B now) pending st) (\<lambda>st1.
       if fle max_wait_s waited then ret (Some (Inr st1))
       else andthen (on_port (sleep poll_s)) (\<lambda>_.
            poll_loop fuel P B sleep poll_s max_wait_s (fadd waited poll_s) st1))))"

definition poll_fuel :: nat where "poll_fuel = 32"

definition reconcile_orders :: "('x, 'z) ports_scheme \<Rightarrow> 'x broker \<Rightarrow> (pyfloat \<Rightarrow> 'x \<Rightarrow> unit res \<times> 'x)
    \<Rightarrow> pyfloat \<Rightarrow> pyfloat \<Rightarrow> nat \<Rightarrow> ('x world, int option) prog" where
  "reconcile_orders P B sleep poll_s max_wait_s fuel =
     (if fle poll_s (Fin 0) then raise ValueError
      else andthen (poll_loop fuel P B sleep poll_s max_wait_s (Fin 0) \<lparr>ps_filled = 0, ps_open = [], ps_problem = []\<rparr>)
       (\<lambda>out. case out of None \<Rightarrow> ret None
        | Some (Inl n) \<Rightarrow> ret (Some n)
        | Some (Inr st) \<Rightarrow>
            andthen (clock_now P) (\<lambda>now.
            andthen (fold_each (\<lambda>(_, row) n. andthen (timeout_close B row now) (\<lambda>m. ret (n + of_bool m)))
                       (ps_open st) (ps_filled st)) (\<lambda>n.
            andthen (for_each (\<lambda>_. on_db (modify (alert ''order_unresolved_at_cap'' now))) (ps_problem st)) (\<lambda>_.
            ret (Some n))))))"

section \<open>Recovering lost orders\<close>

text \<open>\<open>[0-9]+(?:\.[0-9]+)?\<close>, and the parts around the point.\<close>

definition whole_part :: "string \<Rightarrow> string" where
  "whole_part t = takeWhile (\<lambda>c. c \<noteq> CHR ''.'') t"

definition frac_part :: "string \<Rightarrow> string" where
  "frac_part t = drop 1 (dropWhile (\<lambda>c. c \<noteq> CHR ''.'') t)"

definition DECIMAL_QTY :: "string \<Rightarrow> bool" where
  "DECIMAL_QTY t \<longleftrightarrow> whole_part t \<noteq> [] \<and> list_all is_dec (whole_part t) \<and>
     (CHR ''.'' \<in> set t \<longrightarrow> frac_part t \<noteq> [] \<and> list_all is_dec (frac_part t))"

text \<open>The qty as an int, or \<open>None\<close>: booleans, fractions and every other shape are refused.\<close>

fun whole_qty :: "pyval \<Rightarrow> int option" where
  "whole_qty (PInt n) = Some n"
| "whole_qty (PStr t) =
     (if \<not> DECIMAL_QTY t \<or> \<not> list_all (\<lambda>c. c = CHR ''0'') (frac_part t) then None
      else case int_of_str (whole_part t) of Inl _ \<Rightarrow> None | Inr n \<Rightarrow> Some n)"
| "whole_qty _ = None"

definition recoverable_qty :: "pydict \<Rightarrow> ticket \<Rightarrow> int option" where
  "recoverable_qty d t =
     (if dget d ''symbol'' \<noteq> PStr (t_ticker t) \<or> dget d ''side'' \<noteq> PStr (action_str (t_side t)) then None
      else if dget d ''client_order_id'' \<noteq> PStr (t_id t) then None
      else case whole_qty (dget d ''qty'') of None \<Rightarrow> None
        | Some q \<Rightarrow> if q < 1 \<or> q > t_max_qty t then None else Some q)"

text \<open>What SQLite stores for \<open>o.get("id")\<close> in a TEXT column.\<close>

fun sql_text :: "(pyfloat \<Rightarrow> string) \<Rightarrow> pyval \<Rightarrow> string option res" where
  "sql_text real_text PNone = Inr None"
| "sql_text real_text (PStr t) = Inr (Some t)"
| "sql_text real_text (PBool b) = Inr (Some (if b then ''1'' else ''0''))"
| "sql_text real_text (PInt n) = (case sql_int n of Inl e \<Rightarrow> Inl e | Inr k \<Rightarrow> Inr (Some (str_of_int k)))"
| "sql_text real_text (PFloat x) = Inr (if x = NaN then None else Some (real_text x))"
| "sql_text real_text _ = Inl (Other ''ProgrammingError'')"

definition submitted_order :: "string \<Rightarrow> string option \<Rightarrow> ticket \<Rightarrow> int \<Rightarrow> time \<Rightarrow> order" where
  "submitted_order tid bid t q now = \<lparr>o_client_order_id = tid, o_alpaca_order_id = bid, o_symbol = t_ticker t,
     o_side = action_str (t_side t), o_qty = q, o_status = Submitted, o_filled_qty = 0, o_filled_avg_price = None,
     o_submitted_at = now, o_closed_at = None\<rparr>"

text \<open>
  \<open>INSERT OR IGNORE INTO orders\<close>: the row count, as a flag. A taken key is ignored; an
  order without a ticket is not, foreign keys are no part of \<open>OR IGNORE\<close>.
\<close>

definition insert_order :: "order \<Rightarrow> (db, bool) prog" where
  "insert_order row s =
     (if list_ex (\<lambda>q. o_client_order_id q = o_client_order_id row
                    \<or> (o_alpaca_order_id row \<noteq> None \<and> o_alpaca_order_id q = o_alpaca_order_id row)) (orders s)
      then (Inr False, s)
      else if \<not> list_ex (\<lambda>t. t_id t = o_client_order_id row) (tickets s) then (Inl IntegrityForeignKey, s)
      else (Inr True, s\<lparr>orders := orders s @ [row]\<rparr>))"

definition recover_one :: "'x broker \<Rightarrow> time \<Rightarrow> ticket \<Rightarrow> int \<Rightarrow> ('x world, int) prog" where
  "recover_one B now t n =
     catch (andthen (get_order B (t_id t)) (\<lambda>a. case a of
         Some (kv # d0) \<Rightarrow> (let d = kv # d0 in
           case recoverable_qty d t of
             None \<Rightarrow> on_db (andthen (modify (alert_for ''order_recovery_mismatch'' (t_ticker t) now)) (\<lambda>_. ret n))
           | Some q \<Rightarrow> on_db (
               andthen (lift_res (sql_text (bk_real_text B) (dget d ''id''))) (\<lambda>bid.
               andthen (lift_res (sql_int q)) (\<lambda>_.
               andthen (insert_order (submitted_order (t_id t) bid t q now)) (\<lambda>ins.
               if \<not> ins then andthen (modify (alert_for ''order_recovery_unwritable'' (t_ticker t) now)) (\<lambda>_. ret n)
               else andthen (try_transition T_tickets (K_id_str (t_id t)) Open Consumed now [] None) (\<lambda>won.
                 if won then andthen (modify (alert_for ''order_recovered'' (t_ticker t) now)) (\<lambda>_. ret (n + 1))
                 else ret n))))))
       | _ \<Rightarrow> ret n))
     (\<lambda>_. on_db (andthen (modify (alert_for ''order_recovery_failed'' (t_ticker t) now)) (\<lambda>_. ret n)))"

definition recover_lost_orders :: "('x, 'z) ports_scheme \<Rightarrow> 'x broker \<Rightarrow> ('x world, int) prog" where
  "recover_lost_orders P B =
     (if bk_lookup B = None then ret 0
      else andthen (clock_now P) (\<lambda>now.
           andthen (on_db (gets open_tickets_without_orders)) (\<lambda>ts.
           fold_each (recover_one B now) ts 0)))"

definition reconcile_stage :: "('x, 'z) ports_scheme \<Rightarrow> 'x broker \<Rightarrow> (pyfloat \<Rightarrow> 'x \<Rightarrow> unit res \<times> 'x)
    \<Rightarrow> pyfloat \<Rightarrow> pyfloat \<Rightarrow> nat \<Rightarrow> ('x world, int option) prog" where
  "reconcile_stage P B sleep poll_s max_wait_s fuel =
     andthen (recover_lost_orders P B) (\<lambda>_. reconcile_orders P B sleep poll_s max_wait_s fuel)"

end
