(* ===== verification/Runtime.thy ===== *)
theory Runtime imports Reconcile begin

text \<open>
  agents/runtime.py: the hooks that stand between a seat and the broker (the order gate
  before every tool call, the order recorder after it) and the cost seam of a turn; and
  agents/exec_turn.py, the assertions on the execution seat's turn. The world's outside
  state carries, beside the port state, whether the hook's connection is open.
\<close>

section \<open>Strings\<close>

text \<open>\<open>str(v)\<close>, with a parameter for the values that are no strings.\<close>

definition str_of :: "(pyval \<Rightarrow> string) \<Rightarrow> pyval \<Rightarrow> string" where
  "str_of f v = (case v of PStr t \<Rightarrow> t | _ \<Rightarrow> f v)"

section \<open>Which broker verbs pass\<close>

definition PLACE_PREFIX :: string where "PLACE_PREFIX = ''mcp__alpaca__place_''"
definition BROKER_PREFIX :: string where "BROKER_PREFIX = ''mcp__alpaca__''"
definition GATED_PREFIXES :: "string list" where "GATED_PREFIXES = [PLACE_PREFIX]"
definition READ_PREFIX :: string where "READ_PREFIX = ''mcp__alpaca__get_''"

definition READ_VERBS :: "string list" where
  "READ_VERBS = [''mcp__alpaca__search_alpaca_api_specs'', ''mcp__alpaca__search_alpaca_docs'',
     ''mcp__alpaca__fetch_alpaca_doc'', ''mcp__alpaca__list_alpaca_api_endpoints'']"

datatype verb_policy = Allow | Gated | Deny

definition broker_verb_policy :: "string \<Rightarrow> verb_policy" where
  "broker_verb_policy tool =
     (if \<not> starts_with BROKER_PREFIX tool then Allow
      else if list_ex (\<lambda>p. starts_with p tool) GATED_PREFIXES then Gated
      else if starts_with READ_PREFIX tool \<or> tool \<in> set READ_VERBS then Allow
      else Deny)"

section \<open>The order gate\<close>

text \<open>\<open>_cached\<close>: the connection is opened once; a failure is retried on the next call.\<close>

type_synonym 'x conn_state = "'x \<times> bool"

definition cached :: "('x \<Rightarrow> unit res \<times> 'x) \<Rightarrow> 'x conn_state \<Rightarrow> unit res \<times> 'x conn_state" where
  "cached conn_factory st =
     (if snd st then (Inr (), st)
      else case conn_factory (fst st) of (Inl e, x) \<Rightarrow> (Inl e, (x, False)) | (Inr _, x) \<Rightarrow> (Inr (), (x, True)))"

datatype hook_reply = Proceed | Denied_verb string | Denied_order deny | Denied_error exn

text \<open>The denial stands whether or not its alert can be recorded.\<close>

definition deny_hook :: "('x conn_state, 'z) ports_scheme \<Rightarrow> ('x \<Rightarrow> unit res \<times> 'x) \<Rightarrow> hook_reply
    \<Rightarrow> ('x conn_state world, hook_reply) prog" where
  "deny_hook P conn reply =
     andthen (catch (andthen (on_port (cached conn)) (\<lambda>_. andthen (clock_now P) (\<lambda>now.
         on_db (modify (alert ''order_gate_denied'' now))))) (\<lambda>_. ret ()))
       (\<lambda>_. ret reply)"

definition tool_of :: "(pyval \<Rightarrow> string) \<Rightarrow> pydict \<Rightarrow> string" where
  "tool_of f d = (case map_of d ''tool_name'' of None \<Rightarrow> [] | Some v \<Rightarrow> str_of f v)"

definition order_gate :: "('x conn_state, 'z) ports_scheme \<Rightarrow> (pyval \<Rightarrow> string) \<Rightarrow> ('x \<Rightarrow> unit res \<times> 'x)
    \<Rightarrow> pydict \<Rightarrow> ('x conn_state world, hook_reply) prog" where
  "order_gate P f conn d =
     (let tool = tool_of f d in
      case broker_verb_policy tool of
        Allow \<Rightarrow> ret Proceed
      | Deny \<Rightarrow> deny_hook P conn (Denied_verb (drop (length BROKER_PREFIX) tool))
      | Gated \<Rightarrow>
          andthen (catch
              (andthen (on_port (cached conn)) (\<lambda>_. andthen (clock_now P) (\<lambda>now.
               andthen (on_db (gets (\<lambda>s. validate_order s (dget d ''tool_input'') now))) (\<lambda>r.
               andthen (lift_res r) (\<lambda>why. ret (Denied_order why))))))
              (\<lambda>e. ret (Denied_error e)))
            (\<lambda>reply. if reply = Denied_order OK then ret Proceed else deny_hook P conn reply))"

section \<open>The order recorder\<close>

text \<open>\<open>_extract_order\<close>: \<open>json.loads\<close> is a parameter, \<open>None\<close> when it raises.\<close>

definition extract_order :: "(string \<Rightarrow> pyval option) \<Rightarrow> pyval \<Rightarrow> pydict option" where
  "extract_order json_loads response =
     (case (case response of PStr t \<Rightarrow> json_loads t | v \<Rightarrow> Some v) of
        Some (PDict d0) \<Rightarrow>
          (let d = (case dget d0 ''data'' of PDict d1 \<Rightarrow> d1 | _ \<Rightarrow> d0) in
           if map_of d ''error'' \<noteq> None \<or> map_of d ''code'' \<noteq> None then None
           else if \<not> truthy (dget d ''client_order_id'') then None
           else Some d)
      | _ \<Rightarrow> None)"

definition try_fill_number :: "pydict \<Rightarrow> string \<Rightarrow> pyfloat option res" where
  "try_fill_number d k = (case res_bind (dkey d k) float_of of Inr x \<Rightarrow> Inr (Some x)
     | Inl e \<Rightarrow> if e \<in> {KeyError, TypeError, ValueError} then Inr None else Inl e)"

text \<open>\<open>_parse_fill\<close>: \<open>int(raw_qty)\<close> stands outside the \<open>try\<close>.\<close>

definition hook_parse_fill :: "pydict \<Rightarrow> (int \<times> pyfloat) option res" where
  "hook_parse_fill d =
     res_bind (try_fill_number d ''filled_qty'') (\<lambda>q. case q of None \<Rightarrow> Inr None | Some raw_qty \<Rightarrow>
     res_bind (try_fill_number d ''filled_avg_price'') (\<lambda>p. case p of None \<Rightarrow> Inr None | Some avg \<Rightarrow>
     res_bind (int_of_float raw_qty) (\<lambda>n.
       Inr (if raw_qty \<noteq> Fin (of_int n) \<or> n \<le> 0 \<or> fle avg (Fin 0) then None else Some (n, avg)))))"

text \<open>\<open>int(v)\<close>\<close>

fun int_of :: "pyval \<Rightarrow> int res" where
  "int_of (PBool b) = Inr (of_bool b)"
| "int_of (PInt n) = Inr n"
| "int_of (PFloat x) = int_of_float x"
| "int_of (PStr t) = int_of_str t"
| "int_of _ = Inl TypeError"

text \<open>The \<open>INSERT OR IGNORE\<close>; a null symbol or side is ignored like a taken key.\<close>

definition insert_placed :: "(pyfloat \<Rightarrow> string) \<Rightarrow> string \<Rightarrow> pydict \<Rightarrow> time \<Rightarrow> (db, unit) prog" where
  "insert_placed rt coid d now =
     andthen (lift_res (res_bind (dkey d ''symbol'') (sql_text rt))) (\<lambda>symb.
     andthen (lift_res (res_bind (dkey d ''side'') (sql_text rt))) (\<lambda>side.
     andthen (lift_res (res_bind (res_bind (dkey d ''qty'') int_of) sql_int)) (\<lambda>q.
     andthen (lift_res (sql_text rt (dget d ''id''))) (\<lambda>bid.
     case (symb, side) of
       (Some sy, Some sd) \<Rightarrow> andthen (insert_order \<lparr>o_client_order_id = coid, o_alpaca_order_id = bid, o_symbol = sy,
           o_side = sd, o_qty = q, o_status = Submitted, o_filled_qty = 0, o_filled_avg_price = None,
           o_submitted_at = now, o_closed_at = None\<rparr>) (\<lambda>_. ret ())
     | _ \<Rightarrow> ret ()))))"

definition placed_fill :: "string \<Rightarrow> pydict \<Rightarrow> int \<Rightarrow> pyfloat \<Rightarrow> time \<Rightarrow> (db, unit) prog" where
  "placed_fill coid d n avg now =
     andthen (cas_order coid Submitted Filled now) (\<lambda>won. whenever won
       (andthen (record_fill coid n avg (Some now)) (\<lambda>_.
        andthen (modify (append_event ''fill'' [(''ticker'', dget d ''symbol''), (''side'', dget d ''side''),
          (''filled_qty'', PInt n), (''filled_avg_price'', PFloat avg), (''ticket_id'', PStr coid)] now)) (\<lambda>_.
        andthen (gets (decision_of_ticket coid)) (\<lambda>t.
        case t of None \<Rightarrow> ret ()
        | Some i \<Rightarrow> andthen (cas_decision i Approved_st Executed now) (\<lambda>_. ret ()))))))"

text \<open>A client order id that is no text (a NaN, say) names no ticket and no order.\<close>

definition record_placed :: "(pyfloat \<Rightarrow> string) \<Rightarrow> pydict \<Rightarrow> time \<Rightarrow> (db, unit) prog" where
  "record_placed rt d now =
     andthen (lift_res (sql_text rt (dget d ''client_order_id''))) (\<lambda>c.
     case c of None \<Rightarrow> ret () | Some coid \<Rightarrow>
     andthen (insert_placed rt coid d now) (\<lambda>_.
     andthen (try_transition T_tickets (K_id_str coid) Open Consumed now [] None) (\<lambda>_.
     if dget d ''status'' = PStr ''filled''
     then andthen (lift_res (hook_parse_fill d)) (\<lambda>f.
            case f of None \<Rightarrow> ret () | Some (n, avg) \<Rightarrow> placed_fill coid d n avg now)
     else ret ())))"

definition record_order :: "('x conn_state, 'z) ports_scheme \<Rightarrow> (pyval \<Rightarrow> string) \<Rightarrow> (pyfloat \<Rightarrow> string)
    \<Rightarrow> (string \<Rightarrow> pyval option) \<Rightarrow> ('x \<Rightarrow> unit res \<times> 'x) \<Rightarrow> pydict \<Rightarrow> ('x conn_state world, unit) prog" where
  "record_order P f rt json_loads conn d =
     (if \<not> starts_with PLACE_PREFIX (tool_of f d) then ret ()
      else case extract_order json_loads (dget d ''tool_response'') of None \<Rightarrow> ret ()
      | Some order \<Rightarrow>
          andthen (on_port (cached conn)) (\<lambda>_. andthen (clock_now P) (\<lambda>now. on_db (record_placed rt order now))))"

text \<open>The decision recorder of record mode: one line per MCP call.\<close>

definition record_decision :: "(pyval \<Rightarrow> string) \<Rightarrow> string \<Rightarrow> pydict \<Rightarrow> (string \<times> string \<times> pyval) list
    \<Rightarrow> (string \<times> string \<times> pyval) list" where
  "record_decision f seat d lines =
     (if starts_with ''mcp__'' (tool_of f d)
      then lines @ [(seat, tool_of f d, if truthy (dget d ''tool_input'') then dget d ''tool_input'' else PDict [])]
      else lines)"

section \<open>Costs\<close>

definition record_cost :: "date \<Rightarrow> string \<Rightarrow> pyfloat \<Rightarrow> (db, unit) prog" where
  "record_cost rd agent usd s =
     (if usd = NaN then (Inl IntegrityCheck, s)
      else (Inr (), s\<lparr>costs := costs s @ [\<lparr>k_run_date = rd, k_agent = agent, k_usd = usd\<rparr>]\<rparr>))"

definition served_matches :: "string \<Rightarrow> string \<Rightarrow> bool" where
  "served_matches key configured \<longleftrightarrow> key = configured \<or> starts_with configured key \<or> starts_with key configured"

definition unmatched_models :: "pydict \<Rightarrow> string \<Rightarrow> string list" where
  "unmatched_models model_usage configured =
     (if model_usage = [] \<or> configured = [] then []
      else sort (filter (\<lambda>k. \<not> served_matches k configured) (map fst model_usage)))"

definition usage_figures :: "pydict \<Rightarrow> pydict" where
  "usage_figures model_usage = map (\<lambda>(k, v). (k, case v of PDict d \<Rightarrow> PDict d | _ \<Rightarrow> PDict [])) model_usage"

record turn_result =
  tr_model_usage :: pydict
  tr_total_cost_usd :: pyval

text \<open>The estimate, if it is a finite number.\<close>

fun finite_usd :: "pyval \<Rightarrow> bool" where
  "finite_usd (PInt _) = True"
| "finite_usd (PFloat x) = isfinite x"
| "finite_usd _ = False"

definition record_turn_result :: "string \<Rightarrow> date \<Rightarrow> string \<Rightarrow> turn_result \<Rightarrow> time \<Rightarrow> string \<Rightarrow> (db, bool) prog" where
  "record_turn_result sdk rd seat result now configured =
     (let unmatched = unmatched_models (tr_model_usage result) configured; usd = tr_total_cost_usd result in
      andthen (whenever (unmatched \<noteq> []) (modify (append_event ''model_fallback_used''
          [(''seat'', PStr seat), (''configured'', PStr configured), (''served'', PList (map PStr unmatched)),
           (''usage'', PDict (usage_figures (tr_model_usage result))), (''sdk'', PStr sdk)] now))) (\<lambda>_.
      if \<not> finite_usd usd then andthen (modify (alert ''cost_unavailable'' now)) (\<lambda>_. ret False)
      else andthen (lift_res (float_of usd)) (\<lambda>x. andthen (record_cost rd seat x) (\<lambda>_. ret True))))"

section \<open>The execution turn\<close>

definition ALLOWED_TOOL_PREFIXES :: "string list" where
  "ALLOWED_TOOL_PREFIXES = [''mcp__fund__'', ''mcp__alpaca__'']"

text \<open>A status container: \<open>{name: status}\<close>, the last entry of a name winning.\<close>

definition server_statuses :: "pyval \<Rightarrow> (pyval \<times> pyval) list res" where
  "server_statuses source =
     (let servers = (case source of
          PDict d \<Rightarrow> (if truthy (dget d ''mcp_servers'') then dget d ''mcp_servers''
                      else if truthy (dget d ''mcpServers'') then dget d ''mcpServers'' else PList [])
        | v \<Rightarrow> v)
      in case servers of
           PList xs \<Rightarrow> fold (\<lambda>v acc. res_bind acc (\<lambda>m. case v of
               PDict d \<Rightarrow> Inr (AList.update (dget d ''name'') (dget d ''status'') m)
             | _ \<Rightarrow> Inl AttributeError)) xs (Inr [])
         | _ \<Rightarrow> Inl TypeError)"

definition unconnected_servers :: "pyval \<Rightarrow> string list \<Rightarrow> string list res" where
  "unconnected_servers source required = res_bind (server_statuses source) (\<lambda>m.
     Inr (filter (\<lambda>n. map_of m (PStr n) \<noteq> Some (PStr ''connected'')) required))"

definition check_required_servers :: "pyval \<Rightarrow> string list \<Rightarrow> unit res" where
  "check_required_servers source required = res_bind (unconnected_servers source required) (\<lambda>bad.
     if bad \<noteq> [] then Inl (Other ''ExecTurnViolation'') else Inr ())"

text \<open>The wait for the servers; \<open>None\<close> when the fuel does not suffice.\<close>

fun await_servers :: "nat \<Rightarrow> ('x \<Rightarrow> pyval res \<times> 'x) \<Rightarrow> (pyfloat \<Rightarrow> 'x \<Rightarrow> unit res \<times> 'x) \<Rightarrow> string list
    \<Rightarrow> pyfloat \<Rightarrow> pyfloat \<Rightarrow> pyfloat \<Rightarrow> ('x world, unit option) prog" where
  "await_servers 0 get_status sleep required timeout_s poll_s elapsed = ret None"
| "await_servers (Suc fuel) get_status sleep required timeout_s poll_s elapsed =
     andthen (on_port get_status) (\<lambda>source.
     andthen (lift_res (unconnected_servers source required)) (\<lambda>bad.
     if bad = [] then ret (Some ())
     else if fle timeout_s elapsed then raise (Other ''ExecTurnViolation'')
     else andthen (on_port (sleep poll_s)) (\<lambda>_.
          await_servers fuel get_status sleep required timeout_s poll_s (fadd elapsed poll_s))))"

definition check_tool_calls :: "string list \<Rightarrow> int \<Rightarrow> unit res" where
  "check_tool_calls tool_names open_ticket_count =
     (if tool_names = [] then Inl (Other ''ExecTurnViolation'')
      else if filter (\<lambda>t. \<not> list_ex (\<lambda>p. starts_with p t) ALLOWED_TOOL_PREFIXES) tool_names \<noteq> []
      then Inl (Other ''ExecTurnViolation'')
      else if 0 < open_ticket_count \<and> \<not> list_ex (starts_with PLACE_PREFIX) tool_names
      then Inl (Other ''ExecTurnViolation'')
      else Inr ())"

text \<open>A turn: wait, query, drain the messages; a message is its tool-use blocks or the result.\<close>

datatype 'r message = Tool_uses "string list" | Result_msg 'r

definition tools_used :: "'r message list \<Rightarrow> string list" where
  "tools_used ms = filter (\<lambda>n. n \<noteq> []) (concat (map (\<lambda>m. case m of Tool_uses ns \<Rightarrow> ns | Result_msg _ \<Rightarrow> []) ms))"

definition last_result :: "'r message list \<Rightarrow> 'r option" where
  "last_result ms = fold (\<lambda>m acc. case m of Result_msg r \<Rightarrow> Some r | Tool_uses _ \<Rightarrow> acc) ms None"

definition turn_fuel :: nat where "turn_fuel = 62"

definition run_seat_turn :: "('x \<Rightarrow> pyval res \<times> 'x) \<Rightarrow> (pyfloat \<Rightarrow> 'x \<Rightarrow> unit res \<times> 'x) \<Rightarrow> string list
    \<Rightarrow> ('x world, 'r message list) prog \<Rightarrow> ('x world, string list \<times> 'r option) prog" where
  "run_seat_turn get_status sleep required talk =
     andthen (await_servers turn_fuel get_status sleep required (Fin 30) (Fin (1 / 2)) (Fin 0)) (\<lambda>_.
     andthen talk (\<lambda>ms. ret (tools_used ms, last_result ms)))"

definition run_exec_turn :: "('x \<Rightarrow> pyval res \<times> 'x) \<Rightarrow> (pyfloat \<Rightarrow> 'x \<Rightarrow> unit res \<times> 'x) \<Rightarrow> string list
    \<Rightarrow> ('x world, 'r message list) prog \<Rightarrow> int \<Rightarrow> ('x world, string list) prog" where
  "run_exec_turn get_status sleep required talk open_ticket_count =
     andthen (run_seat_turn get_status sleep required talk) (\<lambda>(tool_names, _).
     andthen (lift_res (check_tool_calls tool_names open_ticket_count)) (\<lambda>_. ret tool_names))"

end
