(* ===== verification/Models.thy ===== *)
theory Models imports Runtime begin

text \<open>
  state/models.py: the payload models of the seats' tools. What pydantic itself does (the
  coercion of a JSON value to a field's type) is a record of parameters; the fields, the
  literals, the bounds and the validators are the source's. A model is a function from the
  payload to the validated record or an exception: \<open>ValidationError\<close> collects every
  refused field, while an exception other than \<open>ValueError\<close> or \<open>AssertionError\<close> raised by
  a validator passes through.
\<close>

section \<open>Coercions and literals\<close>

record pydantic =
  as_str :: "pyval \<Rightarrow> string option"
  as_int :: "pyval \<Rightarrow> int option"
  as_float :: "pyval \<Rightarrow> pyfloat option"
  as_date :: "string \<Rightarrow> date option"
  as_dict :: "pyval \<Rightarrow> pydict option"
  as_params :: "pyval \<Rightarrow> pydict option"

definition need :: "'a option \<Rightarrow> 'a res" where
  "need v = (case v of None \<Rightarrow> Inl ValidationError | Some x \<Rightarrow> Inr x)"

definition ensure :: "bool \<Rightarrow> unit res" where
  "ensure b = (if b then Inr () else Inl ValidationError)"

lemma need_Inr [simp]: "need v = Inr x \<longleftrightarrow> v = Some x"
  by (cases v) (simp_all add: need_def)

lemma need_Some [simp]: "need (Some x) = Inr x"
  by (simp add: need_def)

lemma ensure_Inr [simp]: "ensure b = Inr u \<longleftrightarrow> b"
  by (simp add: ensure_def)

lemma ensure_simps [simp]: "ensure True = Inr ()" "ensure False = Inl ValidationError"
  by (simp_all add: ensure_def)

definition literal :: "string list \<Rightarrow> pyval \<Rightarrow> string res" where
  "literal ws v = (case v of PStr t \<Rightarrow> if t \<in> set ws then Inr t else Inl ValidationError | _ \<Rightarrow> Inl ValidationError)"

lemma literal_Inr: "literal ws v = Inr t \<longleftrightarrow> v = PStr t \<and> t \<in> set ws"
  by (cases v) (auto simp: literal_def)

definition direction_of :: "pyval \<Rightarrow> direction res" where
  "direction_of v = (if v = PStr ''bullish'' then Inr Bullish else if v = PStr ''bearish'' then Inr Bearish
     else if v = PStr ''neutral'' then Inr Neutral else Inl ValidationError)"

definition action_of :: "pyval \<Rightarrow> action res" where
  "action_of v = (if v = PStr ''buy'' then Inr Buy else if v = PStr ''sell'' then Inr Sell
     else if v = PStr ''hold'' then Inr Hold else Inl ValidationError)"

definition MECHANISM_CLASS :: "string list" where
  "MECHANISM_CLASS = [''behavioral'', ''institutional'', ''risk_premium'', ''liquidity_provision'']"

definition LIQUIDITY_BUCKET :: "string list" where
  "LIQUIDITY_BUCKET = [''mega_large'', ''mid'', ''small'', ''micro'']"

definition SPEC_VERDICT :: "string list" where
  "SPEC_VERDICT = [''clear'', ''objections'']"

section \<open>Signal and decision\<close>

record signal_model =
  sm_run_date :: date
  sm_agent :: string
  sm_ticker :: string
  sm_direction :: direction
  sm_confidence :: int
  sm_summary :: string

definition parse_signal :: "pydantic \<Rightarrow> date \<Rightarrow> string \<Rightarrow> pyval \<Rightarrow> pyval \<Rightarrow> pyval \<Rightarrow> pyval \<Rightarrow> signal_model res" where
  "parse_signal V rd agent tk dr cf sy =
     res_bind (need (as_date V rd)) (\<lambda>d. res_bind (need (as_str V tk)) (\<lambda>t.
     res_bind (direction_of dr) (\<lambda>dir. res_bind (need (as_int V cf)) (\<lambda>c.
     res_bind (ensure (0 \<le> c \<and> c \<le> 100)) (\<lambda>_. res_bind (need (as_str V sy)) (\<lambda>summ.
     res_bind (ensure (length summ \<le> 500)) (\<lambda>_.
       Inr \<lparr>sm_run_date = d, sm_agent = agent, sm_ticker = t, sm_direction = dir, sm_confidence = c, sm_summary = summ\<rparr>)))))))"

record decision_model =
  dm_run_date :: date
  dm_ticker :: string
  dm_action :: action
  dm_qty :: int
  dm_thesis :: string
  dm_invalidation :: string
  dm_stop_price :: "pyfloat option"

definition optional :: "('a \<Rightarrow> 'b res) \<Rightarrow> ('a \<Rightarrow> bool) \<Rightarrow> 'a \<Rightarrow> 'b option res" where
  "optional f none v = (if none v then Inr None else res_bind (f v) (\<lambda>x. Inr (Some x)))"

definition hold_means_zero :: "action \<Rightarrow> int \<Rightarrow> pyfloat option \<Rightarrow> bool" where
  "hold_means_zero act q stop \<longleftrightarrow> (act = Hold) = (q = 0) \<and> (stop = None \<or> act = Buy)"

definition parse_decision :: "pydantic \<Rightarrow> date \<Rightarrow> pyval \<Rightarrow> pyval \<Rightarrow> pyval \<Rightarrow> pyval \<Rightarrow> pyval \<Rightarrow> pyval \<Rightarrow> decision_model res" where
  "parse_decision V rd tk ac qt th iv st =
     res_bind (need (as_date V rd)) (\<lambda>d. res_bind (need (as_str V tk)) (\<lambda>t.
     res_bind (action_of ac) (\<lambda>act. res_bind (need (as_int V qt)) (\<lambda>q. res_bind (ensure (0 \<le> q)) (\<lambda>_.
     res_bind (need (as_str V th)) (\<lambda>thesis. res_bind (need (as_str V iv)) (\<lambda>inv.
     res_bind (optional (\<lambda>v. need (as_float V v)) (\<lambda>v. v = PNone) st) (\<lambda>stop.
     res_bind (ensure (case stop of None \<Rightarrow> True | Some x \<Rightarrow> field_gt0 x)) (\<lambda>_.
     res_bind (ensure (hold_means_zero act q stop)) (\<lambda>_.
       Inr \<lparr>dm_run_date = d, dm_ticker = t, dm_action = act, dm_qty = q, dm_thesis = thesis,
            dm_invalidation = inv, dm_stop_price = stop\<rparr>))))))))))"

section \<open>Strategy specs\<close>

definition REGISTERED_FAMILIES :: "string list" where
  "REGISTERED_FAMILIES = [''F1'', ''F2'', ''F3'', ''F4'', ''F5'']"

definition FAMILY_MAX :: nat where "FAMILY_MAX = 72"

text \<open>\<open>re.fullmatch(r"F\d.*", name)\<close>: the dot does not match a newline.\<close>

definition family_code_shape :: "string \<Rightarrow> bool" where
  "family_code_shape name = (case name of f # d # rest \<Rightarrow> f = CHR ''F'' \<and> is_dec d \<and> CHR 0x0A \<notin> set rest | _ \<Rightarrow> False)"

definition check_family :: "string \<Rightarrow> string res" where
  "check_family v =
     (if v \<in> set REGISTERED_FAMILIES then Inr v
      else if \<not> starts_with ''petition:'' v then Inl ValueError
      else (let name = drop (length ''petition:'') v in
        if name = [] \<or> name \<noteq> strip name then Inl ValueError
        else if family_code_shape name then Inl ValueError
        else if FAMILY_MAX < length v then Inl ValueError
        else Inr v))"

definition PREDICTED_KEYS :: "string list" where
  "PREDICTED_KEYS = [''hit_rate'', ''max_dd'', ''net_sharpe'']"

text \<open>\<open>math.isfinite\<close> converts an int to a double, which overflows for a large one.\<close>

fun finite_number :: "pyval \<Rightarrow> unit res" where
  "finite_number (PInt n) = res_bind (float_of_int n) (\<lambda>_. Inr ())"
| "finite_number (PFloat x) = (if isfinite x then Inr () else Inl ValueError)"
| "finite_number _ = Inl ValueError"

definition check_predicted :: "pydict \<Rightarrow> pydict res" where
  "check_predicted v =
     (if set (map fst v) \<noteq> set PREDICTED_KEYS then Inl ValueError
      else fold (\<lambda>k acc. res_bind acc (\<lambda>_. res_bind (finite_number (dget v k)) (\<lambda>_. Inr v))) PREDICTED_KEYS (Inr v))"

text \<open>What pydantic makes of an exception in a field validator.\<close>

definition validator :: "'a res \<Rightarrow> 'a res" where
  "validator r = (case r of Inl e \<Rightarrow> Inl (if e = ValueError then ValidationError else e) | Inr x \<Rightarrow> Inr x)"

record strategy_spec =
  ss_family :: string
  ss_seat :: string
  ss_hypothesis :: string
  ss_mechanism_class :: string
  ss_universe :: pydict
  ss_liquidity_bucket :: string
  ss_signal_rule :: pydict
  ss_param_ranges :: pydict
  ss_search_budget :: int
  ss_holding_period_d :: int
  ss_rebalance :: string
  ss_expected_turnover :: pyfloat
  ss_exit_rule :: string
  ss_invalidation :: string
  ss_capacity_usd :: pyfloat
  ss_predicted :: pydict
  ss_llm_in_loop :: int

definition SPEC_FIELDS :: "string list" where
  "SPEC_FIELDS = [''family'', ''seat'', ''hypothesis'', ''mechanism_class'', ''universe'', ''liquidity_bucket'',
     ''signal_rule'', ''param_ranges'', ''search_budget'', ''holding_period_d'', ''rebalance'', ''expected_turnover'',
     ''exit_rule'', ''invalidation'', ''capacity_usd'', ''predicted'', ''llm_in_loop'']"

text \<open>A required field of a payload: its value, or a \<open>ValidationError\<close> when it is missing.\<close>

definition fld :: "pydict \<Rightarrow> string \<Rightarrow> (pyval \<Rightarrow> 'a option) \<Rightarrow> 'a res" where
  "fld d k f = res_bind (need (map_of d k)) (\<lambda>v. need (f v))"

lemma fld_Inr: "fld d k f = Inr x \<longleftrightarrow> (\<exists>v. map_of d k = Some v \<and> f v = Some x)"
  by (auto simp: fld_def res_bind_Inr)

definition opt_where :: "('a \<Rightarrow> bool) \<Rightarrow> 'a option \<Rightarrow> 'a option" where
  "opt_where P v = (case v of Some x \<Rightarrow> if P x then Some x else None | None \<Rightarrow> None)"

lemma opt_where_Some [simp]: "opt_where P v = Some x \<longleftrightarrow> v = Some x \<and> P x"
  by (auto simp: opt_where_def split: option.splits if_splits)

definition lit :: "string list \<Rightarrow> pyval \<Rightarrow> string option" where
  "lit ws v = (case literal ws v of Inl _ \<Rightarrow> None | Inr t \<Rightarrow> Some t)"

lemma lit_Some: "lit ws v = Some t \<longleftrightarrow> v = PStr t \<and> t \<in> set ws"
  by (cases v) (auto simp: lit_def literal_def)

text \<open>
  The two fields with a validator of the source. Only the one of \<open>predicted\<close> can raise what
  pydantic does not turn into a \<open>ValidationError\<close>, and then no other field matters.
\<close>

definition spec_family :: "pydantic \<Rightarrow> pydict \<Rightarrow> string res" where
  "spec_family V a = res_bind (fld a ''family'' (as_str V)) (\<lambda>v. validator (check_family v))"

definition spec_predicted :: "pydantic \<Rightarrow> pydict \<Rightarrow> pydict res" where
  "spec_predicted V a = res_bind (fld a ''predicted'' (as_dict V)) (\<lambda>v. validator (check_predicted v))"

text \<open>\<open>StrategySpec(**args, seat=seat)\<close>\<close>

definition parse_spec :: "pydantic \<Rightarrow> pydict \<Rightarrow> string \<Rightarrow> strategy_spec res" where
  "parse_spec V a seat =
     (if map_of a ''seat'' \<noteq> None then Inl TypeError
      else case spec_predicted V a of Inl e \<Rightarrow> Inl e | Inr predicted \<Rightarrow>
     res_bind (ensure (set (map fst a) \<subseteq> set SPEC_FIELDS)) (\<lambda>_.
     res_bind (spec_family V a) (\<lambda>family.
     res_bind (fld a ''hypothesis'' (opt_where (\<lambda>t. length t \<le> 500) \<circ> as_str V)) (\<lambda>hypothesis.
     res_bind (fld a ''mechanism_class'' (lit MECHANISM_CLASS)) (\<lambda>mechanism.
     res_bind (fld a ''universe'' (as_dict V)) (\<lambda>universe.
     res_bind (fld a ''liquidity_bucket'' (lit LIQUIDITY_BUCKET)) (\<lambda>bucket.
     res_bind (fld a ''signal_rule'' (as_dict V)) (\<lambda>rule.
     res_bind (fld a ''param_ranges'' (as_dict V)) (\<lambda>ranges.
     res_bind (fld a ''search_budget'' (opt_where (\<lambda>n. 0 < n) \<circ> as_int V)) (\<lambda>budget.
     res_bind (fld a ''holding_period_d'' (opt_where (\<lambda>n. 0 < n) \<circ> as_int V)) (\<lambda>hold.
     res_bind (fld a ''rebalance'' (as_str V)) (\<lambda>rebalance.
     res_bind (fld a ''expected_turnover'' (opt_where field_ge0 \<circ> as_float V)) (\<lambda>turnover.
     res_bind (fld a ''exit_rule'' (as_str V)) (\<lambda>exit_rule.
     res_bind (fld a ''invalidation'' (opt_where (\<lambda>t. length t \<le> 500) \<circ> as_str V)) (\<lambda>inv.
     res_bind (fld a ''capacity_usd'' (opt_where field_gt0 \<circ> as_float V)) (\<lambda>capacity.
     res_bind (fld a ''llm_in_loop'' (opt_where (\<lambda>n. 0 \<le> n \<and> n \<le> 1) \<circ> as_int V)) (\<lambda>llm.
       Inr \<lparr>ss_family = family, ss_seat = seat, ss_hypothesis = hypothesis, ss_mechanism_class = mechanism,
         ss_universe = universe, ss_liquidity_bucket = bucket, ss_signal_rule = rule, ss_param_ranges = ranges,
         ss_search_budget = budget, ss_holding_period_d = hold, ss_rebalance = rebalance,
         ss_expected_turnover = turnover, ss_exit_rule = exit_rule, ss_invalidation = inv,
         ss_capacity_usd = capacity, ss_predicted = predicted, ss_llm_in_loop = llm\<rparr>)))))))))))))))))"

text \<open>\<open>spec.model_dump()\<close>\<close>

definition model_dump :: "strategy_spec \<Rightarrow> pydict" where
  "model_dump m = [(''family'', PStr (ss_family m)), (''seat'', PStr (ss_seat m)), (''hypothesis'', PStr (ss_hypothesis m)),
     (''mechanism_class'', PStr (ss_mechanism_class m)), (''universe'', PDict (ss_universe m)),
     (''liquidity_bucket'', PStr (ss_liquidity_bucket m)), (''signal_rule'', PDict (ss_signal_rule m)),
     (''param_ranges'', PDict (ss_param_ranges m)), (''search_budget'', PInt (ss_search_budget m)),
     (''holding_period_d'', PInt (ss_holding_period_d m)), (''rebalance'', PStr (ss_rebalance m)),
     (''expected_turnover'', PFloat (ss_expected_turnover m)), (''exit_rule'', PStr (ss_exit_rule m)),
     (''invalidation'', PStr (ss_invalidation m)), (''capacity_usd'', PFloat (ss_capacity_usd m)),
     (''predicted'', PDict (ss_predicted m)), (''llm_in_loop'', PInt (ss_llm_in_loop m))]"

section \<open>Critiques and backtest requests\<close>

record spec_critique_model =
  cm_spec_id :: string
  cm_verdict :: string
  cm_objections :: "string list"
  cm_seat :: string

definition objections_match_verdict :: "string \<Rightarrow> string list \<Rightarrow> bool" where
  "objections_match_verdict verdict objections \<longleftrightarrow>
     (verdict = ''objections'') = (objections \<noteq> []) \<and> list_all (\<lambda>t. length t \<le> 200) objections"

text \<open>\<open>list[str]\<close>, element by element.\<close>

fun all_strs :: "pydantic \<Rightarrow> pyval list \<Rightarrow> string list res" where
  "all_strs V [] = Inr []"
| "all_strs V (v # vs) = res_bind (need (as_str V v)) (\<lambda>t. res_bind (all_strs V vs) (\<lambda>ts. Inr (t # ts)))"

definition parse_critique :: "pydantic \<Rightarrow> pyval \<Rightarrow> pyval \<Rightarrow> pyval list \<Rightarrow> string \<Rightarrow> spec_critique_model res" where
  "parse_critique V sid vd objs seat =
     res_bind (need (as_str V sid)) (\<lambda>i. res_bind (literal SPEC_VERDICT vd) (\<lambda>verdict.
     res_bind (all_strs V objs) (\<lambda>os. res_bind (ensure (length objs \<le> 3)) (\<lambda>_.
     res_bind (ensure (objections_match_verdict verdict os)) (\<lambda>_.
       Inr \<lparr>cm_spec_id = i, cm_verdict = verdict, cm_objections = os, cm_seat = seat\<rparr>)))))"

record backtest_request =
  bq_spec_id :: string
  bq_params :: pydict
  bq_seed :: int

definition parse_request :: "pydantic \<Rightarrow> pydict \<Rightarrow> backtest_request res" where
  "parse_request V a =
     res_bind (ensure (set (map fst a) \<subseteq> {''spec_id'', ''params'', ''seed''})) (\<lambda>_.
     res_bind (fld a ''spec_id'' (as_str V)) (\<lambda>i. res_bind (fld a ''params'' (as_params V)) (\<lambda>ps.
     res_bind (case map_of a ''seed'' of None \<Rightarrow> Inr 0 | Some v \<Rightarrow> need (as_int V v)) (\<lambda>seed.
       Inr \<lparr>bq_spec_id = i, bq_params = ps, bq_seed = seed\<rparr>))))"

end
