(* ===== verification/Hashing.thy ===== *)
theory Hashing imports PyVal begin

text \<open>
  fundbt/hashing.py: content-addressed identity. \<open>canonical_json\<close> is \<open>json.dumps\<close> with
  sorted keys and no white space; the shortest representation of a finite double
  (\<open>repr\<close>) and the SHA-256 digest are parameters.
\<close>

section \<open>Canonical JSON\<close>

definition hex_digit :: "nat \<Rightarrow> char" where
  "hex_digit n = (if n < 10 then char_of (n + 48) else char_of (n + 87))"

text \<open>One character of a JSON string, \<open>ensure_ascii\<close> on.\<close>

definition esc_char :: "char \<Rightarrow> string" where
  "esc_char c =
     (if c = CHR 0x22 then [CHR 0x5C, CHR 0x22]
      else if c = CHR 0x5C then [CHR 0x5C, CHR 0x5C]
      else if c = CHR 0x0A then [CHR 0x5C, CHR ''n'']
      else if c = CHR 0x0D then [CHR 0x5C, CHR ''r'']
      else if c = CHR 0x09 then [CHR 0x5C, CHR ''t'']
      else if c = CHR 0x0C then [CHR 0x5C, CHR ''f'']
      else if c = CHR 0x08 then [CHR 0x5C, CHR ''b'']
      else if 32 \<le> ord_of c \<and> ord_of c < 127 then [c]
      else [CHR 0x5C, CHR ''u'', CHR ''0'', CHR ''0'', hex_digit (ord_of c div 16), hex_digit (ord_of c mod 16)])"

definition json_string :: "string \<Rightarrow> string" where
  "json_string t = CHR 0x22 # concat (map esc_char t) @ [CHR 0x22]"

fun json_float :: "(rat \<Rightarrow> string) \<Rightarrow> pyfloat \<Rightarrow> string" where
  "json_float fr (Fin q) = fr q"
| "json_float fr NaN = ''NaN''"
| "json_float fr PInf = ''Infinity''"
| "json_float fr NInf = ''-Infinity''"

fun commas :: "string list \<Rightarrow> string" where
  "commas [] = []"
| "commas [t] = t"
| "commas (t # ts) = t @ CHR '','' # commas ts"

text \<open>Printing a value; the keys of a dictionary in the order it has them.\<close>

primrec json_text :: "(rat \<Rightarrow> string) \<Rightarrow> pyval \<Rightarrow> string" where
  "json_text fr PNone = ''null''"
| "json_text fr (PBool b) = (if b then ''true'' else ''false'')"
| "json_text fr (PInt n) = str_of_int n"
| "json_text fr (PFloat x) = json_float fr x"
| "json_text fr (PStr t) = json_string t"
| "json_text fr (PList xs) = CHR ''['' # commas (map (json_text fr) xs) @ '']''"
| "json_text fr (PDict d) = CHR ''{'' # commas (map (\<lambda>(k, t). json_string k @ CHR '':'' # t)
     (map (map_prod id (json_text fr)) d)) @ ''}''"

text \<open>The same value with the keys of every dictionary sorted by code point.\<close>

primrec sorted_val :: "pyval \<Rightarrow> pyval" where
  "sorted_val PNone = PNone"
| "sorted_val (PBool b) = PBool b"
| "sorted_val (PInt n) = PInt n"
| "sorted_val (PFloat x) = PFloat x"
| "sorted_val (PStr t) = PStr t"
| "sorted_val (PList xs) = PList (map sorted_val xs)"
| "sorted_val (PDict d) = PDict (sort_key fst (map (map_prod id sorted_val) d))"

definition canonical_json :: "(rat \<Rightarrow> string) \<Rightarrow> pyval \<Rightarrow> string" where
  "canonical_json fr v = json_text fr (sorted_val v)"

section \<open>Identities\<close>

record hasher =
  hs_repr :: "rat \<Rightarrow> string"
  hs_sha :: "string \<Rightarrow> string"

definition hashed :: "hasher \<Rightarrow> string \<Rightarrow> string \<Rightarrow> string" where
  "hashed H pre payload = pre @ take 16 (hs_sha H payload)"

definition spec_id_of :: "hasher \<Rightarrow> pydict \<Rightarrow> string" where
  "spec_id_of H d = hashed H ''spec_'' (canonical_json (hs_repr H) (PDict d))"

definition config_hash :: "hasher \<Rightarrow> string \<Rightarrow> pydict \<Rightarrow> string" where
  "config_hash H sid params =
     hashed H ''cfg_'' (canonical_json (hs_repr H) (PDict [(''spec_id'', PStr sid), (''params'', PDict params)]))"

definition run_key_of :: "hasher \<Rightarrow> string \<Rightarrow> string \<Rightarrow> string \<Rightarrow> int \<Rightarrow> string" where
  "run_key_of H cfg_hash data_snapshot_hash engine_version seed =
     hashed H ''run_'' (cfg_hash @ data_snapshot_hash @ engine_version @ str_of_int seed)"

definition work_id_of :: "hasher \<Rightarrow> string \<Rightarrow> string \<Rightarrow> string \<Rightarrow> string" where
  "work_id_of H kind subject dedupe_key = hashed H ''wk_'' (canonical_json (hs_repr H)
     (PDict [(''kind'', PStr kind), (''subject'', PStr subject), (''dedupe_key'', PStr dedupe_key)]))"

end
