(* ===== verification/Specs.thy ===== *)
theory Specs imports Models Hashing begin

text \<open>
  state/specs.py: registering a strategy spec with its lifecycle row, the edge to
  BACKTEST, and the queue of specs that await a G1 verdict.
\<close>

section \<open>Registration\<close>

definition JSON_COLUMNS :: "string list" where
  "JSON_COLUMNS = [''universe'', ''signal_rule'', ''param_ranges'', ''predicted'']"

text \<open>
  The NOT NULL and CHECK constraints of the table on the values bound: \<open>length\<close> counts the
  characters before a NUL, and a double that is not a number is stored as a null.
\<close>

definition spec_row_ok :: "strategy_spec \<Rightarrow> bool" where
  "spec_row_ok m \<longleftrightarrow>
     length (takeWhile (\<lambda>c. c \<noteq> CHR 0x00) (ss_hypothesis m)) \<le> 500 \<and>
     ss_mechanism_class m \<in> set MECHANISM_CLASS \<and> ss_liquidity_bucket m \<in> set LIQUIDITY_BUCKET \<and>
     0 < ss_search_budget m \<and> ss_expected_turnover m \<noteq> NaN \<and> ss_capacity_usd m \<noteq> NaN"

text \<open>The columns as they are read back: JSON columns with their keys sorted.\<close>

definition spec_columns :: "strategy_spec \<Rightarrow> pydict" where
  "spec_columns m = map (\<lambda>(k, v). (k, if k \<in> set JSON_COLUMNS then sorted_val v else v)) (model_dump m)"

definition spec_row :: "string \<Rightarrow> strategy_spec \<Rightarrow> time \<Rightarrow> spec" where
  "spec_row sid m now = \<lparr>sp_spec_id = sid, sp_fields = spec_columns m, sp_created_at = now\<rparr>"

definition lifecycle_row :: "string \<Rightarrow> time \<Rightarrow> strategy" where
  "lifecycle_row sid now = \<lparr>st_strategy_id = sid, st_state = SPEC, st_state_version = 0, st_updated_at = now\<rparr>"

definition has_spec :: "string \<Rightarrow> db \<Rightarrow> bool" where
  "has_spec sid s \<longleftrightarrow> sid \<in> set (map sp_spec_id (strategy_specs s))"

definition write_spec :: "string \<Rightarrow> strategy_spec \<Rightarrow> time \<Rightarrow> db \<Rightarrow> db" where
  "write_spec sid m now s =
     (if has_spec sid s \<or> \<not> spec_row_ok m then s
      else s\<lparr>strategy_specs := strategy_specs s @ [spec_row sid m now],
             strategies := fst (insert_or_ignore st_strategy_id (lifecycle_row sid now) (strategies s))\<rparr>)"

definition insert_strategy_spec :: "hasher \<Rightarrow> strategy_spec \<Rightarrow> time \<Rightarrow> (db, string) prog" where
  "insert_strategy_spec H m now =
     (let sid = spec_id_of H (model_dump m) in
      andthen (lift_res (sql_int (ss_search_budget m))) (\<lambda>_.
      andthen (lift_res (sql_int (ss_holding_period_d m))) (\<lambda>_.
      andthen (modify (write_spec sid m now)) (\<lambda>_. ret sid))))"

section \<open>The lifecycle edge\<close>

definition lifecycle :: "string \<Rightarrow> db \<Rightarrow> strategy option" where
  "lifecycle sid s = fetchone (\<lambda>t. st_strategy_id t = sid) (strategies s)"

definition advance_to_backtest :: "string \<Rightarrow> int \<Rightarrow> time \<Rightarrow> (db, bool) prog" where
  "advance_to_backtest sid version now =
     andthen (gets (lifecycle sid)) (\<lambda>row. case row of
         None \<Rightarrow> raise LookupError
       | Some t \<Rightarrow> if st_state t = BACKTEST then ret False
           else andthen (transition T_strategies (K_strategy_id sid) (st_state t) BACKTEST now [] (Some version)) (\<lambda>_. ret True))"

section \<open>The G1 queue\<close>

definition orphans :: "db \<Rightarrow> string list" where
  "orphans s = sort (map sp_spec_id (filter (\<lambda>p. sp_spec_id p \<notin> st_strategy_id ` set (strategies s)) (strategy_specs s)))"

definition refuse_orphaned_specs :: "(db, unit) prog" where
  "refuse_orphaned_specs = andthen (gets orphans) (\<lambda>bad. if bad = [] then ret () else raise OrphanedSpecs)"

definition critiqued :: "string \<Rightarrow> db \<Rightarrow> bool" where
  "critiqued sid s \<longleftrightarrow> sid \<in> set (map sc_spec_id (strategy_critiques s))"

definition pending_specs :: "db \<Rightarrow> spec list" where
  "pending_specs s = sort_key sp_created_at (sort_key sp_spec_id
     (filter (\<lambda>p. list_ex (\<lambda>t. st_strategy_id t = sp_spec_id p \<and> st_state t = SPEC) (strategies s)
                \<and> \<not> critiqued (sp_spec_id p) s) (strategy_specs s)))"

definition specs_awaiting_critique :: "nat \<Rightarrow> (db, spec list) prog" where
  "specs_awaiting_critique limit =
     andthen refuse_orphaned_specs (\<lambda>_. gets (\<lambda>s. take limit (pending_specs s)))"

section \<open>What registration and the queue promise\<close>

text \<open>
  The payload model is at least as strict as the table but for one value: NaN passes its bounds, and the
  table has no place for it.
\<close>

lemma res_bindE:
  assumes "res_bind r f = Inr y"
  obtains x where "r = Inr x" and "f x = Inr y"
  using assms by (auto simp: res_bind_Inr)

lemma fld_whereD: "fld d k (opt_where P \<circ> f) = Inr x \<Longrightarrow> P x"
  by (auto simp: fld_Inr)

lemma fld_litD: "fld d k (lit ws) = Inr x \<Longrightarrow> x \<in> set ws"
  by (auto simp: fld_Inr lit_Some)

lemma validator_Inr: "validator r = Inr x \<longleftrightarrow> r = Inr x"
  by (cases r) (simp_all add: validator_def)

lemma check_predicted_Inr:
  assumes "check_predicted v = Inr d"
  shows "d = v \<and> set (map fst v) = set PREDICTED_KEYS \<and> list_all (\<lambda>k. finite_number (dget v k) = Inr ()) PREDICTED_KEYS"
proof -
  have k: "set (map fst v) = set PREDICTED_KEYS" using assms by (simp add: check_predicted_def split: if_splits)
  let ?f = "\<lambda>k. finite_number (dget v k)"
  have "d = v \<and> ?f ''hit_rate'' = Inr () \<and> ?f ''max_dd'' = Inr () \<and> ?f ''net_sharpe'' = Inr ()"
    using assms k unfolding check_predicted_def
    by (cases "?f ''hit_rate''"; cases "?f ''max_dd''"; cases "?f ''net_sharpe''") (simp_all add: PREDICTED_KEYS_def)
  with k show ?thesis by (simp add: PREDICTED_KEYS_def)
qed

lemma parse_spec_InrD:
  assumes "parse_spec V a seat = Inr m"
  shows "spec_predicted V a = Inr (ss_predicted m)" "spec_family V a = Inr (ss_family m)" "ss_seat m = seat"
    "length (ss_hypothesis m) \<le> 500" "length (ss_invalidation m) \<le> 500"
    "ss_mechanism_class m \<in> set MECHANISM_CLASS" "ss_liquidity_bucket m \<in> set LIQUIDITY_BUCKET"
    "0 < ss_search_budget m" "0 < ss_holding_period_d m" "field_ge0 (ss_expected_turnover m)"
    "field_gt0 (ss_capacity_usd m)" "ss_llm_in_loop m \<in> {0..1}"
    "map_of a ''seat'' = None" "set (map fst a) \<subseteq> set SPEC_FIELDS"
proof -
  from assms have s: "map_of a ''seat'' = None" by (auto simp: parse_spec_def split: if_splits)
  then obtain p where p: "spec_predicted V a = Inr p" using assms by (cases "spec_predicted V a") (simp_all add: parse_spec_def)
  show "map_of a ''seat'' = None" by (rule s)
  have n: "\<not> map_of a ''seat'' \<noteq> None" using s by simp
  note r = assms [unfolded parse_spec_def p sum.case if_not_P [OF n]]
  show "spec_predicted V a = Inr (ss_predicted m)" "spec_family V a = Inr (ss_family m)" "ss_seat m = seat"
    "length (ss_hypothesis m) \<le> 500" "length (ss_invalidation m) \<le> 500"
    "ss_mechanism_class m \<in> set MECHANISM_CLASS" "ss_liquidity_bucket m \<in> set LIQUIDITY_BUCKET"
    "0 < ss_search_budget m" "0 < ss_holding_period_d m" "field_ge0 (ss_expected_turnover m)"
    "field_gt0 (ss_capacity_usd m)" "ss_llm_in_loop m \<in> {0..1}" "set (map fst a) \<subseteq> set SPEC_FIELDS"
    using r by (elim res_bindE; clarsimp simp: p dest!: fld_whereD fld_litD; fail)+
qed

lemma parse_spec_row_ok:
  "parse_spec V a seat = Inr m \<Longrightarrow> spec_row_ok m \<longleftrightarrow> ss_expected_turnover m \<noteq> NaN \<and> ss_capacity_usd m \<noteq> NaN"
  using parse_spec_InrD [of V a seat m] length_takeWhile_le [of "\<lambda>c. c \<noteq> CHR 0x00" "ss_hypothesis m"]
  by (auto simp: spec_row_ok_def)

lemma insert_strategy_spec_run:
  "insert_strategy_spec H m now s =
     (case (sql_int (ss_search_budget m), sql_int (ss_holding_period_d m)) of
        (Inr _, Inr _) \<Rightarrow> (Inr (spec_id_of H (model_dump m)), write_spec (spec_id_of H (model_dump m)) m now s)
      | (Inl e, _) \<Rightarrow> (Inl e, s) | (_, Inl e) \<Rightarrow> (Inl e, s))"
  by (simp add: insert_strategy_spec_def Let_def andthen_def split: sum.splits)

lemma write_spec_has: "spec_row_ok m \<Longrightarrow> has_spec sid (write_spec sid m now s)"
  by (auto simp: write_spec_def has_spec_def spec_row_def)

lemma write_spec_keeps:
  "decisions (write_spec sid m now s) = decisions s" "tickets (write_spec sid m now s) = tickets s"
  "orders (write_spec sid m now s) = orders s" "checkpoints (write_spec sid m now s) = checkpoints s"
  "worklist (write_spec sid m now s) = worklist s" "events (write_spec sid m now s) = events s"
  by (simp_all add: write_spec_def)

lemma write_spec_wf: "db_wf s \<Longrightarrow> db_wf (write_spec sid m now s)"
  by (auto simp: write_spec_def db_wf_def has_spec_def spec_row_def insert_or_ignore_unique unique_on_def
      simp del: set_map, auto simp: insert_or_ignore_def)

lemma evolves_write_spec: "evolves s (write_spec sid m now s)"
  by (rule evolves_more_rows [OF write_spec_wf]) (simp_all add: write_spec_keeps, simp add: write_spec_def insert_or_ignore_def)

lemma ev_insert_strategy_spec: "ev.obeys (insert_strategy_spec H m now)"
  unfolding insert_strategy_spec_def Let_def
  by (intro ev.obeys_intros ev.obeys_modify evolves_write_spec)

lemma ev_advance_to_backtest: "ev.obeys (advance_to_backtest sid v now)"
  unfolding advance_to_backtest_def by (intro ev.obeys_intros ev_transition)

text \<open>
  Registration is idempotent. Registering the same content again, at any later time
  and in whatever the database has become while the spec is on the record, returns the
  same id and changes nothing: the lifecycle row is not rewound however far it advanced.
\<close>

theorem registration_is_idempotent:
  assumes "insert_strategy_spec H m now s = (Inr sid, s')" and "has_spec sid t"
  shows "insert_strategy_spec H m later t = (Inr sid, t)"
  using assms by (auto simp: insert_strategy_spec_run write_spec_def split: sum.splits)

section \<open>The queue\<close>

lemma orphans_Nil: "orphans s = [] \<longleftrightarrow> (\<forall>p\<in>set (strategy_specs s). \<exists>t\<in>set (strategies s). st_strategy_id t = sp_spec_id p)"
proof -
  have "orphans s = [] \<longleftrightarrow> set (orphans s) = {}" by simp
  also have "\<dots> \<longleftrightarrow> (\<forall>p\<in>set (strategy_specs s). \<exists>t\<in>set (strategies s). st_strategy_id t = sp_spec_id p)"
    unfolding orphans_def set_sort by (force simp: image_iff)
  finally show ?thesis .
qed

text \<open>Registration makes no orphan.\<close>

lemma write_spec_no_orphans: "orphans s = [] \<Longrightarrow> orphans (write_spec sid m now s) = []"
  unfolding orphans_Nil
  by (auto simp: write_spec_def spec_row_def insert_or_ignore_def lifecycle_row_def)

lemma pending_iff:
  "p \<in> set (pending_specs s) \<longleftrightarrow> p \<in> set (strategy_specs s) \<and>
     (\<exists>t\<in>set (strategies s). st_strategy_id t = sp_spec_id p \<and> st_state t = SPEC) \<and> \<not> critiqued (sp_spec_id p) s"
  by (auto simp: pending_specs_def list_ex_iff)

lemma pending_sorted: "sorted (map sp_created_at (pending_specs s))"
  by (simp add: pending_specs_def)

text \<open>
  The G1 queue serves the oldest spec that still has no verdict. It refuses to be read
  while any registered spec has no lifecycle row. Otherwise it changes nothing and serves
  one spec, in state SPEC and never judged, such that none registered earlier waits; it is
  empty only when no spec waits.
\<close>

theorem queue_serves_the_oldest:
  "specs_awaiting_critique 1 s =
     (if \<exists>p\<in>set (strategy_specs s). \<forall>t\<in>set (strategies s). st_strategy_id t \<noteq> sp_spec_id p then (Inl OrphanedSpecs, s)
      else (Inr (take 1 (pending_specs s)), s)) \<and>
   (case pending_specs s of
      [] \<Rightarrow> \<forall>p\<in>set (strategy_specs s). critiqued (sp_spec_id p) s \<or>
              (\<forall>t\<in>set (strategies s). st_strategy_id t = sp_spec_id p \<longrightarrow> st_state t \<noteq> SPEC)
    | p # _ \<Rightarrow> p \<in> set (strategy_specs s) \<and> \<not> critiqued (sp_spec_id p) s \<and>
              (\<exists>t\<in>set (strategies s). st_strategy_id t = sp_spec_id p \<and> st_state t = SPEC) \<and>
              (\<forall>q\<in>set (pending_specs s). sp_created_at p \<le> sp_created_at q))"
proof
  show "specs_awaiting_critique 1 s =
     (if \<exists>p\<in>set (strategy_specs s). \<forall>t\<in>set (strategies s). st_strategy_id t \<noteq> sp_spec_id p then (Inl OrphanedSpecs, s)
      else (Inr (take 1 (pending_specs s)), s))"
    using orphans_Nil [of s] by (auto simp: specs_awaiting_critique_def refuse_orphaned_specs_def andthen_def)
  show "case pending_specs s of
      [] \<Rightarrow> \<forall>p\<in>set (strategy_specs s). critiqued (sp_spec_id p) s \<or>
              (\<forall>t\<in>set (strategies s). st_strategy_id t = sp_spec_id p \<longrightarrow> st_state t \<noteq> SPEC)
    | p # _ \<Rightarrow> p \<in> set (strategy_specs s) \<and> \<not> critiqued (sp_spec_id p) s \<and>
              (\<exists>t\<in>set (strategies s). st_strategy_id t = sp_spec_id p \<and> st_state t = SPEC) \<and>
              (\<forall>q\<in>set (pending_specs s). sp_created_at p \<le> sp_created_at q)"
  proof (cases "pending_specs s")
    case Nil
    then show ?thesis using pending_iff [of _ s] by auto
  next
    case (Cons p ps)
    then show ?thesis using pending_iff [of p s] pending_sorted [of s] by auto
  qed
qed

text \<open>A spec on the record, and what the validators of its payload let through.\<close>

definition golden_pydantic :: pydantic where
  "golden_pydantic = \<lparr>as_str = (\<lambda>v. case v of PStr t \<Rightarrow> Some t | _ \<Rightarrow> None),
     as_int = (\<lambda>v. case v of PInt n \<Rightarrow> Some n | PBool b \<Rightarrow> Some (of_bool b) | _ \<Rightarrow> None),
     as_float = (\<lambda>v. case v of PFloat x \<Rightarrow> Some x | PInt n \<Rightarrow> Some (Fin (of_int n)) | _ \<Rightarrow> None),
     as_date = Some, as_dict = (\<lambda>v. case v of PDict d \<Rightarrow> Some d | _ \<Rightarrow> None),
     as_params = (\<lambda>v. case v of PDict d \<Rightarrow> Some d | _ \<Rightarrow> None)\<rparr>"

definition golden_payload :: pydict where
  "golden_payload = [(''family'', PStr ''F1''), (''hypothesis'', PStr ''dips revert''), (''mechanism_class'', PStr ''behavioral''),
     (''universe'', PDict [(''index'', PStr ''sp500'')]), (''liquidity_bucket'', PStr ''mega_large''),
     (''signal_rule'', PDict [(''name'', PStr ''dip_buyer'')]),
     (''param_ranges'', PDict [(''dip_days'', PList [PInt 2, PInt 10, PInt 1])]), (''search_budget'', PInt 2),
     (''holding_period_d'', PInt 5), (''rebalance'', PStr ''daily''), (''expected_turnover'', PInt 12),
     (''exit_rule'', PStr ''rebound''), (''invalidation'', PStr ''no edge''), (''capacity_usd'', PInt 100000),
     (''predicted'', PDict [(''net_sharpe'', PInt 1), (''max_dd'', PFloat (Fin (1 / 4))), (''hit_rate'', PFloat (Fin (1 / 2)))]),
     (''llm_in_loop'', PInt 0)]"

definition golden_hasher :: hasher where
  "golden_hasher = \<lparr>hs_repr = (\<lambda>_. ''0.5''), hs_sha = (\<lambda>t. take 16 t)\<rparr>"

definition golden_spec :: strategy_spec where
  "golden_spec = \<lparr>ss_family = ''F1'', ss_seat = ''quant'', ss_hypothesis = ''dips revert'', ss_mechanism_class = ''behavioral'',
     ss_universe = [(''index'', PStr ''sp500'')], ss_liquidity_bucket = ''mega_large'',
     ss_signal_rule = [(''name'', PStr ''dip_buyer'')], ss_param_ranges = [(''dip_days'', PList [PInt 2, PInt 10, PInt 1])],
     ss_search_budget = 2, ss_holding_period_d = 5, ss_rebalance = ''daily'', ss_expected_turnover = Fin 12,
     ss_exit_rule = ''rebound'', ss_invalidation = ''no edge'', ss_capacity_usd = Fin 100000,
     ss_predicted = [(''net_sharpe'', PInt 1), (''max_dd'', PFloat (Fin (1 / 4))), (''hit_rate'', PFloat (Fin (1 / 2)))],
     ss_llm_in_loop = 0\<rparr>"

lemma golden_spec_parses: "parse_spec golden_pydantic golden_payload ''quant'' = Inr golden_spec"
  by code_simp

lemma golden_spec_ok: "spec_row_ok golden_spec"
  using parse_spec_row_ok [OF golden_spec_parses] by (simp add: golden_spec_def)

lemma golden_registration:
  "insert_strategy_spec golden_hasher golden_spec now empty_db =
     (Inr (spec_id_of golden_hasher (model_dump golden_spec)),
      write_spec (spec_id_of golden_hasher (model_dump golden_spec)) golden_spec now empty_db)"
  by (simp add: insert_strategy_spec_run sql_int_def golden_spec_def)

theorem registration_is_idempotent_witness:
  "\<exists>sid s'. insert_strategy_spec golden_hasher golden_spec 0 empty_db = (Inr sid, s') \<and> length (strategies s') = 1 \<and>
     insert_strategy_spec golden_hasher golden_spec 60 s' = (Inr sid, s')"
proof -
  note ok = golden_spec_ok
  let ?i = "spec_id_of golden_hasher (model_dump golden_spec)"
  have "length (strategies (write_spec ?i golden_spec 0 empty_db)) = 1"
    using ok by (simp add: write_spec_def has_spec_def empty_db_def insert_or_ignore_def)
  with registration_is_idempotent [OF golden_registration write_spec_has [OF ok], of 60] golden_registration
  show ?thesis by blast
qed

theorem queue_serves_the_oldest_witness:
  "\<exists>p s. s = snd (insert_strategy_spec golden_hasher golden_spec 0 empty_db) \<and>
     specs_awaiting_critique 1 s = (Inr [p], s) \<and> sp_created_at p = 0"
proof -
  let ?i = "spec_id_of golden_hasher (model_dump golden_spec)"
  let ?s = "write_spec ?i golden_spec 0 empty_db"
  have s: "snd (insert_strategy_spec golden_hasher golden_spec 0 empty_db) = ?s" by (simp add: golden_registration)
  have "pending_specs ?s = [spec_row ?i golden_spec 0]" "\<not> (\<exists>p\<in>set (strategy_specs ?s). \<forall>t\<in>set (strategies ?s). st_strategy_id t \<noteq> sp_spec_id p)"
    using golden_spec_ok
    by (simp_all add: pending_specs_def write_spec_def has_spec_def empty_db_def insert_or_ignore_def lifecycle_row_def
        spec_row_def critiqued_def)
  then have "specs_awaiting_critique 1 ?s = (Inr [spec_row ?i golden_spec 0], ?s)"
    using queue_serves_the_oldest [of ?s] by simp
  then show ?thesis unfolding s [symmetric] by (force simp: spec_row_def)
qed

text \<open>
  Three holes in the validators. NaN passes the bounds of the payload and the table drops its row (see \<open>FundProps\<close>). A petition whose name has the reserved shape passes when a
  newline follows, since the dot of the pattern stops there; and a predicted number too
  large for a double raises out of the model instead of being refused.
\<close>

lemma newline_petition_accepted: "check_family (''petition:F1'' @ [CHR 0x0A] @ ''x'') = Inr (''petition:F1'' @ [CHR 0x0A] @ ''x'')"
  by code_simp

lemma float_of_int_huge: "(2::int) ^ 1024 \<le> n \<Longrightarrow> float_of_int n = Inl OverflowError"
proof -
  assume n: "(2::int) ^ 1024 \<le> n"
  then have "(of_int (2 ^ 1024) :: rat) \<le> of_int n" by (simp only: of_int_le_iff)
  then have "pow2 1024 \<le> (of_int n :: rat)" using pow2_nat [of 1024] by (simp only: of_int_power of_int_numeral of_nat_numeral)
  moreover from this have q: "0 < (of_int n :: rat)" using pow2_pos [of 1024] by linarith
  ultimately have e: "1024 \<le> ilog2 (of_int n)" by (simp add: ilog2_ge_iff)
  then have "max (ilog2 (of_int n)) (- 1022) = ilog2 (of_int n)" by simp
  from rq_ge_pow2 [OF q _ this] q have "pow2 (ilog2 (of_int n)) \<le> rq (of_int n)" by (simp add: ilog2_bounds)
  with e have "pow2 1024 \<le> rq (of_int n)" by (meson pow2_le_iff order_trans)
  moreover from this have "0 < rq (of_int n)" using pow2_pos [of 1024] by linarith
  ultimately have "rnd (of_int n) = PInf" by (simp add: rnd_def Let_def overflows_iff)
  then show ?thesis by (simp add: float_of_int_def)
qed

lemma huge_prediction_raises:
  "check_predicted [(''hit_rate'', PInt (2 ^ 1024)), (''max_dd'', PInt 0), (''net_sharpe'', PInt 0)] = Inl OverflowError"
proof -
  have "set (map fst [(''hit_rate'', PInt (2 ^ 1024)), (''max_dd'', PInt 0), (''net_sharpe'', PInt 0)]) = set PREDICTED_KEYS"
    by (simp add: PREDICTED_KEYS_def)
  then show ?thesis
    by (simp add: check_predicted_def PREDICTED_KEYS_def dget_def float_of_int_huge del: power_numeral)
qed

end
