(* ===== verification/Improve.thy ===== *)
theory Improve imports Hashing Reconcile begin

text \<open>
  orchestrator/improve.py and calibration/rows.py: the graded rows, the behavioural window
  and the nightly \<open>weights\<close> rows. The scoring itself (numpy) is a parameter, as are
  SQLite's \<open>SUM\<close> of doubles and the digest of a row's inputs.
\<close>

section \<open>Graded signals\<close>

record graded_row =
  gr_seat :: string
  gr_direction :: string
  gr_confidence :: int
  gr_alpha :: pyfloat

fun scoring_word :: "direction \<Rightarrow> string" where
  "scoring_word Bullish = ''long''"
| "scoring_word Bearish = ''short''"
| "scoring_word Neutral = ''neutral''"

text \<open>The join, in the order of the tables; \<open>ORDER BY run_date, agent\<close>.\<close>

definition joined_rows :: "db \<Rightarrow> (resolution \<times> signal) list" where
  "joined_rows s = concat (map (\<lambda>r. concat (map (\<lambda>d.
      map (\<lambda>g. (r, g)) (filter (\<lambda>g. sg_run_date g = d_run_date d \<and> sg_ticker g = d_ticker d) (signals s)))
      (filter (\<lambda>d. d_id d = r_decision_id r) (decisions s)))) (resolutions s))"

definition scoreboard_rows :: "db \<Rightarrow> graded_row list" where
  "scoreboard_rows s = map (\<lambda>(r, g). \<lparr>gr_seat = sg_agent g, gr_direction = scoring_word (sg_direction g),
       gr_confidence = sg_confidence g, gr_alpha = r_alpha_vs_spy r\<rparr>)
     (sort_key (sg_run_date \<circ> snd) (sort_key (sg_agent \<circ> snd) (joined_rows s)))"

section \<open>The window\<close>

record weights_config =
  wc_window_days :: int
  wc_horizon_days :: int

definition weights_config_ok :: "weights_config \<Rightarrow> bool" where
  "weights_config_ok c \<longleftrightarrow> 1 \<le> wc_window_days c \<and> 1 \<le> wc_horizon_days c"

text \<open>\<open>SELECT DISTINCT run_date ... ORDER BY run_date DESC LIMIT ?\<close>, then sorted.\<close>

definition window_dates :: "date \<Rightarrow> int \<Rightarrow> db \<Rightarrow> date list" where
  "window_dates as_of_date window_days s =
     sort (take (nat window_days) (rev (sort (remdups (filter (\<lambda>d. d \<le> as_of_date) (map sg_run_date (signals s)))))))"

record behav =
  bh_n_signalled :: int
  bh_n_offered :: int
  bh_n_distinct_conf :: int
  bh_abstention_rate :: pyfloat
  bh_coverage :: pyfloat
  bh_cost_usd :: pyfloat

text \<open>Python's true division of two ints, zero when there is nothing to divide by.\<close>

definition int_ratio :: "int \<Rightarrow> int \<Rightarrow> pyfloat" where
  "int_ratio a b = (if b = 0 then Fin 0 else rnd (of_int a / of_int b))"

definition spoke :: "string \<Rightarrow> date list \<Rightarrow> db \<Rightarrow> signal list" where
  "spoke seat dates s = filter (\<lambda>g. sg_agent g = seat \<and> sg_charter g \<noteq> ''none'' \<and> sg_run_date g \<in> set dates) (signals s)"

definition offered_rows :: "date list \<Rightarrow> db \<Rightarrow> offered_row list" where
  "offered_rows dates s = filter (\<lambda>f. f_run_date f \<in> set dates) (offered s)"

definition covered_rows :: "string \<Rightarrow> date list \<Rightarrow> db \<Rightarrow> (signal \<times> offered_row) list" where
  "covered_rows seat dates s = concat (map (\<lambda>g. map (\<lambda>f. (g, f))
     (filter (\<lambda>f. f_run_date f = sg_run_date g \<and> f_ticker f = sg_ticker g) (offered s))) (spoke seat dates s))"

definition behaviour :: "(pyfloat list \<Rightarrow> pyfloat) \<Rightarrow> string \<Rightarrow> date list \<Rightarrow> db \<Rightarrow> behav" where
  "behaviour sum_usd seat dates s =
     (if dates = [] then \<lparr>bh_n_signalled = 0, bh_n_offered = 0, bh_n_distinct_conf = 0,
        bh_abstention_rate = Fin 0, bh_coverage = Fin 0, bh_cost_usd = Fin 0\<rparr>
      else (let sp = spoke seat dates s; n = int (length sp); n_off = int (length (offered_rows dates s)) in
        \<lparr>bh_n_signalled = n, bh_n_offered = n_off,
         bh_n_distinct_conf = int (card (set (map sg_confidence sp))),
         bh_abstention_rate = int_ratio (int (length (filter (\<lambda>g. sg_direction g = Neutral) sp))) n,
         bh_coverage = int_ratio (int (length (covered_rows seat dates s))) n_off,
         bh_cost_usd = (case map k_usd (filter (\<lambda>k. k_agent k = seat \<and> k_run_date k \<in> set dates) (costs s)) of
             [] \<Rightarrow> Fin 0 | xs \<Rightarrow> sum_usd xs)\<rparr>))"

section \<open>The weights rows\<close>

record agent_score =
  ag_seat :: string
  ag_n_graded :: int
  ag_n_abstain :: int
  ag_brier :: pyfloat
  ag_bss :: pyfloat
  ag_bss_shrunk :: pyfloat
  ag_total_skill :: pyfloat
  ag_reliability :: pyfloat
  ag_resolution :: pyfloat
  ag_ece :: pyfloat
  ag_batting :: pyfloat
  ag_slugging :: pyfloat

definition LOAD_BEARING :: "string list" where
  "LOAD_BEARING = [''n_eff'', ''brier'', ''bss_shrunk'', ''total_skill'', ''weight'']"

definition descriptive :: "pyfloat \<Rightarrow> pyval" where
  "descriptive x = (if isfinite x then PFloat x else PNone)"

definition score_row :: "agent_score \<Rightarrow> pyfloat \<Rightarrow> behav \<Rightarrow> weights_config \<Rightarrow> string \<Rightarrow> date \<Rightarrow> time \<Rightarrow> pydict" where
  "score_row sc weight beh cfg digest as_of_date now =
     [(''as_of_date'', PStr as_of_date), (''agent'', PStr (ag_seat sc)), (''n_graded'', PInt (ag_n_graded sc)),
      (''n_abstain'', PInt (ag_n_abstain sc)), (''n_eff'', PFloat (int_ratio (ag_n_graded sc) (wc_horizon_days cfg))),
      (''brier'', PFloat (ag_brier sc)), (''bss'', descriptive (ag_bss sc)), (''bss_shrunk'', PFloat (ag_bss_shrunk sc)),
      (''total_skill'', PFloat (ag_total_skill sc)), (''reliability'', descriptive (ag_reliability sc)),
      (''resolution'', descriptive (ag_resolution sc)), (''ece'', descriptive (ag_ece sc)),
      (''batting'', descriptive (ag_batting sc)), (''slugging'', descriptive (ag_slugging sc)),
      (''n_signalled'', PInt (bh_n_signalled beh)), (''n_offered'', PInt (bh_n_offered beh)),
      (''n_distinct_conf'', PInt (bh_n_distinct_conf beh)), (''abstention_rate'', PFloat (bh_abstention_rate beh)),
      (''coverage'', PFloat (bh_coverage beh)), (''cost_usd'', PFloat (bh_cost_usd beh)), (''weight'', PFloat weight),
      (''narrowed'', PInt 0), (''inputs_hash'', PStr digest), (''created_at'', PInt now)]"

text \<open>Each seat's newest row, in seat order.\<close>

definition newest :: "db \<Rightarrow> weight_row \<Rightarrow> bool" where
  "newest s w \<longleftrightarrow> list_all (\<lambda>v. wt_agent v = wt_agent w \<longrightarrow> wt_as_of_date v \<le> wt_as_of_date w) (weights s)"

definition latest_weights :: "string option \<Rightarrow> db \<Rightarrow> weight_row list" where
  "latest_weights agent s = sort_key wt_agent (filter (\<lambda>w. newest s w \<and> (case agent of None \<Rightarrow> True | Some a \<Rightarrow> wt_agent w = a))
     (weights s))"

text \<open>The UPSERT on \<open>(as_of_date, agent)\<close>; the CHECK on \<open>weight\<close> and a null that NOT NULL forbids raise.\<close>

definition weight_key :: "weight_row \<Rightarrow> date \<times> string" where
  "weight_key w = (wt_as_of_date w, wt_agent w)"

definition weight_checks :: "pydict \<Rightarrow> bool" where
  "weight_checks row \<longleftrightarrow> (case dget row ''weight'' of PFloat x \<Rightarrow> fle (Fin 0) x \<and> fle x (Fin 1) | _ \<Rightarrow> False) \<and>
     dget row ''abstention_rate'' \<noteq> PFloat NaN \<and> dget row ''coverage'' \<noteq> PFloat NaN \<and> dget row ''cost_usd'' \<noteq> PFloat NaN"

definition upsert_weight :: "weight_row \<Rightarrow> (db, unit) prog" where
  "upsert_weight w s =
     (if \<not> weight_checks (wt_cols w) then (Inl IntegrityCheck, s)
      else if list_ex (\<lambda>v. weight_key v = weight_key w) (weights s)
      then (Inr (), s\<lparr>weights := update_where (\<lambda>v. weight_key v = weight_key w) (\<lambda>_. w) (weights s)\<rparr>)
      else (Inr (), s\<lparr>weights := weights s @ [w]\<rparr>))"

record weights_report =
  wr_written :: "string list"
  wr_unchanged :: "string list"
  wr_skipped :: "string list"

text \<open>One seat: what the report says of it, and the row to write.\<close>

definition load_bearing_ok :: "pydict \<Rightarrow> bool" where
  "load_bearing_ok row \<longleftrightarrow> list_all (\<lambda>k. case dget row k of PFloat x \<Rightarrow> isfinite x | _ \<Rightarrow> True) LOAD_BEARING"

definition latest_hash :: "db \<Rightarrow> string \<Rightarrow> string option" where
  "latest_hash s seat = map_of (map (\<lambda>w. (wt_agent w, wt_inputs_hash w)) (latest_weights None s)) seat"

definition seat_rows :: "db \<Rightarrow> string \<Rightarrow> graded_row list" where
  "seat_rows s seat = filter (\<lambda>r. gr_seat r = seat) (scoreboard_rows s)"

definition seat_digest :: "(graded_row list \<Rightarrow> behav \<Rightarrow> string) \<Rightarrow> (pyfloat list \<Rightarrow> pyfloat) \<Rightarrow> date list \<Rightarrow> db \<Rightarrow> string \<Rightarrow> string" where
  "seat_digest digest sum_usd dates s seat = digest (seat_rows s seat) (behaviour sum_usd seat dates s)"

definition grade_one :: "(graded_row list \<Rightarrow> behav \<Rightarrow> string) \<Rightarrow> (pyfloat list \<Rightarrow> pyfloat) \<Rightarrow> weights_config \<Rightarrow> date \<Rightarrow> time
    \<Rightarrow> (string \<times> pyfloat) list \<Rightarrow> db \<Rightarrow> agent_score \<Rightarrow> weights_report \<times> weight_row list
    \<Rightarrow> (weights_report \<times> weight_row list) res" where
  "grade_one digest sum_usd cfg as_of_date now ws s sc acc =
     (let dates = window_dates as_of_date (wc_window_days cfg) s; seat = ag_seat sc;
          h = seat_digest digest sum_usd dates s seat; (rep, pending) = acc
      in if latest_hash s seat = Some h then Inr (rep\<lparr>wr_unchanged := wr_unchanged rep @ [seat]\<rparr>, pending)
         else case map_of ws seat of None \<Rightarrow> Inl KeyError
         | Some weight \<Rightarrow>
             (let row = score_row sc weight (behaviour sum_usd seat dates s) cfg h as_of_date now
              in if \<not> load_bearing_ok row then Inr (rep\<lparr>wr_skipped := wr_skipped rep @ [seat]\<rparr>, pending)
                 else Inr (rep, pending @ [\<lparr>wt_as_of_date = as_of_date, wt_agent = seat, wt_inputs_hash = h, wt_cols = row\<rparr>])))"

fun grade_all :: "(agent_score \<Rightarrow> weights_report \<times> weight_row list \<Rightarrow> (weights_report \<times> weight_row list) res)
    \<Rightarrow> agent_score list \<Rightarrow> weights_report \<times> weight_row list \<Rightarrow> (weights_report \<times> weight_row list) res" where
  "grade_all f [] acc = Inr acc"
| "grade_all f (sc # scs) acc = res_bind (f sc acc) (grade_all f scs)"

text \<open>All or nothing: an exception rolls the writes back.\<close>

definition rolled_back :: "(db, 'a) prog \<Rightarrow> (db, 'a) prog" where
  "rolled_back m s = (case m s of (Inl e, _) \<Rightarrow> (Inl e, s) | (Inr x, s') \<Rightarrow> (Inr x, s'))"

definition write_weights :: "(graded_row list \<Rightarrow> (agent_score list \<times> (string \<times> pyfloat) list) res)
    \<Rightarrow> (graded_row list \<Rightarrow> behav \<Rightarrow> string) \<Rightarrow> (pyfloat list \<Rightarrow> pyfloat) \<Rightarrow> weights_config \<Rightarrow> date \<Rightarrow> time
    \<Rightarrow> (db, weights_report) prog" where
  "write_weights score_agents digest sum_usd cfg as_of_date now =
     andthen (gets (\<lambda>s. score_agents (scoreboard_rows s))) (\<lambda>sc. andthen (lift_res sc) (\<lambda>(scores, ws).
     rolled_back
       (andthen (gets (\<lambda>s. grade_all (grade_one digest sum_usd cfg as_of_date now ws s) scores
           (\<lparr>wr_written = [], wr_unchanged = [], wr_skipped = []\<rparr>, []))) (\<lambda>r. andthen (lift_res r) (\<lambda>(rep, pending).
        andthen (for_each upsert_weight pending) (\<lambda>_. ret (rep\<lparr>wr_written := map wt_agent pending\<rparr>)))))))"

end
