(* ===== verification/Reflect.thy ===== *)
theory Reflect imports Reconcile begin

text \<open>
  orchestrator/reflect.py: the facts of a resolved decision, rendered from rows, and the
  one write of a reflection. The format \<open>+.2f\<close> of a double is a parameter.
\<close>

definition dot_sep :: string where "dot_sep = [CHR '' '', CHR 0xB7, CHR '' '']"

definition nl1 :: string where "nl1 = [CHR 0x0A]"

definition pct :: "(pyfloat \<Rightarrow> string) \<Rightarrow> pyfloat \<Rightarrow> string" where
  "pct signed2 x = signed2 (fmul x (Fin 100)) @ ''%''"

definition pp :: "(pyfloat \<Rightarrow> string) \<Rightarrow> pyfloat \<Rightarrow> string" where
  "pp signed2 x = signed2 (fmul x (Fin 100)) @ ''pp''"

fun direction_str :: "direction \<Rightarrow> string" where
  "direction_str Bullish = ''bullish''"
| "direction_str Bearish = ''bearish''"
| "direction_str Neutral = ''neutral''"

fun join_with :: "string \<Rightarrow> string list \<Rightarrow> string" where
  "join_with sep [] = []"
| "join_with sep [t] = t"
| "join_with sep (t # ts) = t @ sep @ join_with sep ts"

definition signals_said :: "decision \<Rightarrow> db \<Rightarrow> string" where
  "signals_said d s =
     (let said = join_with dot_sep (map (\<lambda>g. sg_agent g @ '' '' @ direction_str (sg_direction g) @ '' '' @ str_of_int (sg_confidence g))
            (sort_key sg_agent (filter (\<lambda>g. sg_run_date g = d_run_date d \<and> sg_ticker g = d_ticker d) (signals s))))
      in if said = [] then ''no signals'' else said)"

definition frame_text :: "(pyfloat \<Rightarrow> string) \<Rightarrow> decision \<Rightarrow> resolution \<Rightarrow> string \<Rightarrow> string" where
  "frame_text signed2 d r said =
     d_ticker d @ dot_sep @ d_run_date d @ dot_sep @ action_str (d_action d) @ '' '' @ str_of_int (d_qty d)
       @ '' ('' @ status_str (d_status d) @ '')'' @ nl1 @
     ''signals: '' @ said @ nl1 @
     ''after '' @ str_of_int (r_horizon_days r) @ '' sessions: '' @ pct signed2 (r_realized_return r) @ '' realized''
       @ dot_sep @ pp signed2 (r_alpha_vs_spy r) @ '' vs SPY''"

definition resolved_call :: "int \<Rightarrow> db \<Rightarrow> (decision \<times> resolution) option" where
  "resolved_call i s = (case fetchone (\<lambda>d. d_id d = i) (decisions s) of None \<Rightarrow> None
     | Some d \<Rightarrow> (case fetchone (\<lambda>r. r_decision_id r = i) (resolutions s) of None \<Rightarrow> None | Some r \<Rightarrow> Some (d, r)))"

definition reflection_frame :: "(pyfloat \<Rightarrow> string) \<Rightarrow> int \<Rightarrow> db \<Rightarrow> string option" where
  "reflection_frame signed2 i s =
     map_option (\<lambda>(d, r). frame_text signed2 d r (signals_said d s)) (resolved_call i s)"

text \<open>\<open>str.rstrip()\<close>\<close>

definition rstrip :: "string \<Rightarrow> string" where
  "rstrip t = rev (dropWhile is_space (rev t))"

definition reflection_text :: "string \<Rightarrow> string \<Rightarrow> string" where
  "reflection_text frame prose = (if prose = [] then frame else rstrip (frame @ nl1 @ nl1 @ prose))"

definition unreflected :: "int \<Rightarrow> resolution \<Rightarrow> bool" where
  "unreflected i r \<longleftrightarrow> r_decision_id r = i \<and> r_reflection r = None"

definition store_reflection :: "int \<Rightarrow> string \<Rightarrow> string \<Rightarrow> (db, bool) prog" where
  "store_reflection i frame prose s =
     (Inr (rowcount (unreflected i) (resolutions s) = 1),
      s\<lparr>resolutions := update_where (unreflected i) (\<lambda>r. r\<lparr>r_reflection := Some (reflection_text frame prose)\<rparr>) (resolutions s)\<rparr>)"

section \<open>What is stored\<close>

text \<open>The facts come first, whatever the prose is: only the prose is stripped.\<close>

lemma frame_ends: "rev (frame_text f d r said) = CHR ''Y'' # drop 1 (rev (frame_text f d r said))"
  by (simp add: frame_text_def)

lemma rstrip_snoc: "\<not> is_space c \<Longrightarrow> rstrip (xs @ [c]) = xs @ [c]"
  by (simp add: rstrip_def)

lemma rstrip_keeps_prefix:
  assumes "\<not> is_space c"
  shows "\<exists>zs. rstrip (xs @ [c] @ ys) = xs @ [c] @ zs"
proof (induction ys rule: rev_induct)
  case Nil
  show ?case using rstrip_snoc [OF assms, of xs] by (intro exI [of _ "[]"]) simp
next
  case (snoc y ys)
  show ?case
  proof (cases "is_space y")
    case True
    then have "rstrip (xs @ [c] @ ys @ [y]) = rstrip (xs @ [c] @ ys)" by (simp add: rstrip_def)
    with snoc show ?thesis by simp
  next
    case False
    from rstrip_snoc [OF this, of "xs @ [c] @ ys"] show ?thesis
      by (intro exI [of _ "ys @ [y]"]) simp
  qed
qed

lemma stored_text_starts_with_the_frame:
  assumes "frame = xs @ [c]" and "\<not> is_space c"
  shows "starts_with frame (reflection_text frame prose)"
proof (cases "prose = []")
  case False
  obtain zs where "rstrip (xs @ [c] @ nl1 @ nl1 @ prose) = xs @ [c] @ zs"
    using rstrip_keeps_prefix [OF assms(2), of xs "nl1 @ nl1 @ prose"] by auto
  then show ?thesis using assms(1) False by (simp add: reflection_text_def starts_with_def)
qed (simp add: reflection_text_def starts_with_def)

lemma frame_text_starts: "starts_with (frame_text f d r said) (reflection_text (frame_text f d r said) prose)"
proof -
  have "frame_text f d r said = butlast (frame_text f d r said) @ [CHR ''Y'']"
    by (simp add: frame_text_def butlast_append)
  then show ?thesis by (rule stored_text_starts_with_the_frame) (simp add: is_space_def ord_of_def)
qed

end
