(* ===== verification/Journal.thy ===== *)
theory Journal imports PyVal begin

text \<open>
  state/journal.py: the append-only journals, one file per seat. The files under the
  journal root are a map from seat names to contents.
\<close>

type_synonym files = "string \<Rightarrow> string option"

definition nl :: string where "nl = [CHR 0x0A]"

definition entry_text :: "string \<Rightarrow> string \<Rightarrow> string" where
  "entry_text run_date txt = nl @ ''## '' @ run_date @ nl @ txt @ nl"

definition append_entry :: "string \<Rightarrow> string \<Rightarrow> string \<Rightarrow> files \<Rightarrow> files" where
  "append_entry seat run_date txt f =
     f(seat \<mapsto> (case f seat of None \<Rightarrow> [] | Some old \<Rightarrow> old) @ entry_text run_date txt)"

text \<open>\<open>pat in text\<close>, and \<open>text.split(sep)\<close> for a non-empty separator.\<close>

fun contains :: "string \<Rightarrow> string \<Rightarrow> bool" where
  "contains pat [] = (pat = [])"
| "contains pat (x # xs) = (take (length pat) (x # xs) = pat \<or> contains pat xs)"

fun find_sep :: "string \<Rightarrow> string \<Rightarrow> (string \<times> string) option" where
  "find_sep sep [] = None"
| "find_sep sep (x # xs) =
     (if take (length sep) (x # xs) = sep then Some ([], drop (length sep) (x # xs))
      else case find_sep sep xs of None \<Rightarrow> None | Some (a, b) \<Rightarrow> Some (x # a, b))"

lemma find_sep_length: "find_sep sep xs = Some (a, b) \<Longrightarrow> sep \<noteq> [] \<Longrightarrow> length b < length xs"
  by (induction xs arbitrary: a) (auto split: if_splits option.splits prod.splits intro: less_SucI)

function split_on :: "string \<Rightarrow> string \<Rightarrow> string list" where
  "split_on sep xs = (if sep = [] then [xs] else
     case find_sep sep xs of None \<Rightarrow> [xs] | Some (a, b) \<Rightarrow> a # split_on sep b)"
  by pat_completeness auto

termination split_on
  by (relation "measure (\<lambda>(_, xs). length xs)") (auto dest: find_sep_length)

declare split_on.simps [simp del]

definition SEP :: string where "SEP = nl @ ''## ''"

definition recent_entries :: "string \<Rightarrow> int \<Rightarrow> files \<Rightarrow> string" where
  "recent_entries seat limit f =
     (case f seat of None \<Rightarrow> []
      | Some content \<Rightarrow>
          if limit \<le> 0 then []
          else (let sections = filter (\<lambda>x. strip x \<noteq> []) (split_on SEP content)
                in concat (map (\<lambda>x. SEP @ x) (drop (length sections - nat limit) sections))))"

section \<open>What was appended is read back\<close>

lemma find_sep_None_append:
  assumes "find_sep SEP xs = None"
  shows "find_sep SEP (xs @ SEP @ ys) = Some (xs, ys)"
  using assms
proof (induction xs)
  case Nil
  then show ?case by (simp add: SEP_def nl_def)
next
  case (Cons x xs)
  have no: "take (length SEP) (x # xs @ SEP @ ys) \<noteq> SEP"
  proof
    assume t: "take (length SEP) (x # xs @ SEP @ ys) = SEP"
    have "take (length SEP) (x # xs) \<noteq> SEP" using Cons.prems by (auto split: if_splits)
    then have "length xs < 3"
      using t by (cases "length xs < 3") (auto simp: SEP_def nl_def take_Cons' split: if_splits)
    then consider "xs = []" | a where "xs = [a]" | a b where "xs = [a, b]"
      by (cases xs; cases "tl xs"; cases "tl (tl xs)") auto
    then show False using t by cases (auto simp: SEP_def nl_def)
  qed
  have "find_sep SEP xs = None" using Cons.prems by (auto split: if_splits option.splits)
  from Cons.IH [OF this] no show ?case by simp
qed

lemma find_sep_split: "find_sep sep xs = Some (a, b) \<Longrightarrow> xs = a @ sep @ b"
proof (induction xs arbitrary: a)
  case (Cons x xs)
  show ?case
  proof (cases "take (length sep) (x # xs) = sep")
    case True
    with Cons.prems have "a = []" "b = drop (length sep) (x # xs)" by auto
    with True show ?thesis by (metis append_Nil append_take_drop_id)
  next
    case False
    with Cons.prems obtain a' where "find_sep sep xs = Some (a', b)" "a = x # a'"
      by (auto split: option.splits)
    with Cons.IH show ?thesis by simp
  qed
qed simp

lemma find_sep_extend: "find_sep sep xs = Some (a, b) \<Longrightarrow> find_sep sep (xs @ vs) = Some (a, b @ vs)"
proof (induction xs arbitrary: a)
  case (Cons x xs)
  from find_sep_split [OF Cons.prems] have "length sep \<le> length (x # xs)"
    by (metis length_append le_add1 le_add2 le_trans)
  then have t: "take (length sep) ((x # xs) @ vs) = take (length sep) (x # xs)"
    and d: "drop (length sep) ((x # xs) @ vs) = drop (length sep) (x # xs) @ vs"
    by (simp_all only: take_append drop_append) simp_all
  show ?case
  proof (cases "take (length sep) (x # xs) = sep")
    case True
    with Cons.prems t d show ?thesis by auto
  next
    case False
    with Cons.prems obtain a' where "find_sep sep xs = Some (a', b)" "a = x # a'"
      by (auto split: option.splits)
    with Cons.IH False t show ?thesis by simp
  qed
qed simp

lemma split_on_append:
  assumes "find_sep SEP ys = None"
  shows "split_on SEP (xs @ SEP @ ys) = split_on SEP xs @ [ys]"
proof (induction "length xs" arbitrary: xs rule: less_induct)
  case less
  have sep: "SEP \<noteq> []" by (simp add: SEP_def nl_def)
  have last: "split_on SEP ys = [ys]" using assms by (simp add: split_on.simps)
  show ?case
  proof (cases "find_sep SEP xs")
    case None
    then show ?thesis
      using find_sep_None_append [OF None, of ys] sep last
      by (subst split_on.simps) (simp add: split_on.simps [of SEP xs])
  next
    case (Some p)
    obtain a b where p: "p = (a, b)" by fastforce
    from find_sep_extend [OF Some [unfolded p]]
    have f: "find_sep SEP (xs @ SEP @ ys) = Some (a, b @ SEP @ ys)" .
    have "length b < length xs" using find_sep_length [OF Some [unfolded p] sep] .
    from less.hyps [OF this] show ?thesis
      using f Some p sep by (simp add: split_on.simps [of SEP "xs @ SEP @ ys"] split_on.simps [of SEP xs])
  qed
qed

text \<open>
  The newest journal entry is read back as it was written: after an append, the last
  section of that seat's journal is the entry, and no other seat's journal changes. The
  entry must not itself contain a section header, which a seat's free text could.
\<close>

theorem journal_round_trip:
  assumes "find_sep SEP (run_date @ nl @ txt @ nl) = None" and "strip (run_date @ nl @ txt @ nl) \<noteq> []"
  shows "recent_entries seat 1 (append_entry seat run_date txt f) = entry_text run_date txt \<and>
    (\<forall>other. other \<noteq> seat \<longrightarrow> recent_entries other n (append_entry seat run_date txt f) = recent_entries other n f)"
proof -
  let ?old = "case f seat of None \<Rightarrow> [] | Some old \<Rightarrow> old"
  have "append_entry seat run_date txt f seat = Some (?old @ SEP @ (run_date @ nl @ txt @ nl))"
    by (simp add: append_entry_def entry_text_def SEP_def)
  then have "recent_entries seat 1 (append_entry seat run_date txt f) = entry_text run_date txt"
    using split_on_append [OF assms(1), of ?old] assms(2)
    by (simp add: recent_entries_def entry_text_def SEP_def)
  then show ?thesis by (simp add: append_entry_def recent_entries_def)
qed

theorem journal_round_trip_witness:
  "recent_entries ''pm'' 1 (append_entry ''pm'' ''2026-08-17'' ''held'' (\<lambda>_. None)) = entry_text ''2026-08-17'' ''held''"
proof -
  have "find_sep SEP (''2026-08-17'' @ nl @ ''held'' @ nl) = None" by code_simp
  moreover have "strip (''2026-08-17'' @ nl @ ''held'' @ nl) \<noteq> []" by code_simp
  ultimately show ?thesis
    using journal_round_trip [of "''2026-08-17''" "''held''" "''pm''" "\<lambda>_. None"] by blast
qed

end
