(* ===== verification/FundServer.thy ===== *)
theory FundServer imports Specs Improve Reflect Journal begin

text \<open>
  agents/tools/fund_server.py: the tools of the fund's own MCP server. Every \<open>submit_*\<close>
  handler, the two briefs and the assembly of a seat's server; the wording of a refusal is
  a constructor of \<open>refusal\<close>, and what the server is bound to (the seat, the clock, the
  snapshot, the journals, the turn's decision or spec) is the record \<open>fund_server\<close>.
\<close>

section \<open>Capabilities\<close>

definition SEAT_CAPS :: "(string \<times> string list) list" where
  "SEAT_CAPS =
     [(''analyst'', [''get_stage_brief'', ''submit_signal'', ''read_account'', ''read_weights'']),
      (''news'', [''get_stage_brief'', ''submit_signal'', ''read_weights'']),
      (''pm'', [''get_stage_brief'', ''submit_decision'', ''read_account'', ''read_signals'', ''read_allowed_actions'', ''read_weights'']),
      (''exec'', [''list_open_tickets'']),
      (''critic'', [''get_spec_brief'', ''submit_spec_critique'']),
      (''reflect'', [''submit_reflection'']),
      (''quant'', [''submit_strategy_spec''])]"

definition can :: "string \<Rightarrow> string \<Rightarrow> bool" where
  "can seat cap \<longleftrightarrow> (case map_of SEAT_CAPS seat of None \<Rightarrow> False | Some caps \<Rightarrow> cap \<in> set caps)"

definition JOURNAL_ENTRIES :: int where "JOURNAL_ENTRIES = 3"

section \<open>Answers\<close>

datatype refusal =
    Not_granted string | Invalid exn | Irrevocable status | No_critique | Spec_not_written string
  | Unbound_turn | Wrong_spec | Not_registered string | Already_judged string | Bad_prose | Not_resolved
  | Already_reflected | Queue_unreadable exn | No_lifecycle string | Wrong_state status
  | Unknown_rule | Bad_params string | No_data | Backtest_refused string | Lifecycle_moved string

type_synonym 'a answer = "refusal + 'a"

definition no :: "refusal \<Rightarrow> ('w, 'a answer) prog" where
  "no r = ret (Inl r)"

definition yes :: "'a \<Rightarrow> ('w, 'a answer) prog" where
  "yes x = ret (Inr x)"

text \<open>\<open>except (ValidationError, KeyError, TypeError) as e\<close> around a payload model.\<close>

definition parsed :: "exn list \<Rightarrow> 'b res \<Rightarrow> ('b \<Rightarrow> ('w, 'a answer) prog) \<Rightarrow> ('w, 'a answer) prog" where
  "parsed caught r f = (case r of Inr m \<Rightarrow> f m
     | Inl e \<Rightarrow> if e \<in> set caught then no (Invalid e) else raise e)"

section \<open>Signals\<close>

definition signal_of :: "signal_model \<Rightarrow> string \<Rightarrow> string \<Rightarrow> time \<Rightarrow> signal" where
  "signal_of m charter model now = \<lparr>sg_run_date = sm_run_date m, sg_agent = sm_agent m, sg_ticker = sm_ticker m,
     sg_direction = sm_direction m, sg_confidence = sm_confidence m, sg_summary = sm_summary m, sg_charter = charter,
     sg_model = model, sg_created_at = now\<rparr>"

definition signal_key :: "signal \<Rightarrow> date \<times> string \<times> string" where
  "signal_key g = (sg_run_date g, sg_agent g, sg_ticker g)"

text \<open>\<open>INSERT ... ON CONFLICT DO UPDATE\<close>: the key stays, everything else is the new row's.\<close>

definition upsert_signal :: "signal \<Rightarrow> db \<Rightarrow> db" where
  "upsert_signal g s =
     (if list_ex (\<lambda>h. signal_key h = signal_key g) (signals s)
      then s\<lparr>signals := update_where (\<lambda>h. signal_key h = signal_key g) (\<lambda>_. g) (signals s)\<rparr>
      else s\<lparr>signals := signals s @ [g]\<rparr>)"

definition signal_payload :: "signal_model \<Rightarrow> pydict" where
  "signal_payload m = [(''agent'', PStr (sm_agent m)), (''ticker'', PStr (sm_ticker m)),
     (''direction'', PStr (direction_str (sm_direction m))), (''confidence'', PInt (sm_confidence m)), (''summary'', PStr (sm_summary m))]"

definition signal_args :: "pydantic \<Rightarrow> pydict \<Rightarrow> date \<Rightarrow> string \<Rightarrow> signal_model res" where
  "signal_args V a rd seat =
     res_bind (dkey a ''ticker'') (\<lambda>tk. res_bind (dkey a ''direction'') (\<lambda>dr. res_bind (dkey a ''confidence'') (\<lambda>cf.
     res_bind (dkey a ''summary'') (\<lambda>sy. parse_signal V rd seat tk dr cf sy))))"

definition handle_submit_signal :: "pydantic \<Rightarrow> string \<Rightarrow> pydict \<Rightarrow> date \<Rightarrow> time \<Rightarrow> string \<Rightarrow> string \<Rightarrow> (db, unit answer) prog" where
  "handle_submit_signal V seat a rd now charter model =
     (if \<not> can seat ''submit_signal'' then no (Not_granted ''submit_signal'')
      else parsed [ValidationError, KeyError, TypeError] (signal_args V a rd seat) (\<lambda>m.
        andthen (modify (upsert_signal (signal_of m charter model now))) (\<lambda>_.
        andthen (modify (append_event ''signal'' (signal_payload m) now)) (\<lambda>_. yes ()))))"

section \<open>Decisions\<close>

definition decision_args :: "pydantic \<Rightarrow> pydict \<Rightarrow> date \<Rightarrow> decision_model res" where
  "decision_args V a rd =
     res_bind (dkey a ''ticker'') (\<lambda>tk. res_bind (dkey a ''action'') (\<lambda>ac. res_bind (dkey a ''qty'') (\<lambda>qt.
     res_bind (dkey a ''thesis'') (\<lambda>th. res_bind (dkey a ''invalidation'') (\<lambda>iv.
       parse_decision V rd tk ac qt th iv (dget a ''stop_price''))))))"

definition decision_on :: "date \<Rightarrow> string \<Rightarrow> db \<Rightarrow> decision option" where
  "decision_on rd tk s = fetchone (\<lambda>d. d_run_date d = rd \<and> d_ticker d = tk) (decisions s)"

definition critique_on :: "date \<Rightarrow> string \<Rightarrow> db \<Rightarrow> bool" where
  "critique_on rd tk s \<longleftrightarrow> list_ex (\<lambda>c. cq_run_date c = rd \<and> cq_ticker c = tk) (critiques s)"

definition rewritten :: "decision_model \<Rightarrow> int \<Rightarrow> string \<Rightarrow> string \<Rightarrow> time \<Rightarrow> decision \<Rightarrow> decision" where
  "rewritten m q charter model now d = d\<lparr>d_action := dm_action m, d_qty := q, d_thesis := dm_thesis m,
     d_invalidation := dm_invalidation m, d_stop_price := Option.bind (dm_stop_price m) sql_real, d_created_at := now, d_charter := charter, d_model := model\<rparr>"

definition new_decision :: "decision_model \<Rightarrow> int \<Rightarrow> string \<Rightarrow> string \<Rightarrow> time \<Rightarrow> db \<Rightarrow> decision" where
  "new_decision m q charter model now s = \<lparr>d_id = next_id d_id (decisions s), d_run_date = dm_run_date m, d_ticker = dm_ticker m,
     d_action = dm_action m, d_qty = q, d_thesis = dm_thesis m, d_invalidation = dm_invalidation m,
     d_stop_price = Option.bind (dm_stop_price m) sql_real, d_charter = charter, d_model = model, d_status = Submitted, d_created_at = now\<rparr>"

definition upsert_decision :: "decision_model \<Rightarrow> int \<Rightarrow> string \<Rightarrow> string \<Rightarrow> time \<Rightarrow> db \<Rightarrow> db" where
  "upsert_decision m q charter model now s =
     (if decision_on (dm_run_date m) (dm_ticker m) s \<noteq> None
      then s\<lparr>decisions := update_where (\<lambda>d. d_run_date d = dm_run_date m \<and> d_ticker d = dm_ticker m)
               (rewritten m q charter model now) (decisions s)\<rparr>
      else s\<lparr>decisions := decisions s @ [new_decision m q charter model now s]\<rparr>)"

definition decision_event :: "string \<Rightarrow> decision_model \<Rightarrow> pydict" where
  "decision_event seat m = [(''seat'', PStr seat), (''ticker'', PStr (dm_ticker m)), (''action'', PStr (action_str (dm_action m))),
     (''qty'', PInt (dm_qty m)), (''thesis'', PStr (dm_thesis m))]"

text \<open>The status of a decision that has left \<open>submitted\<close>.\<close>

definition existing_status :: "decision option \<Rightarrow> status option" where
  "existing_status v = (case v of None \<Rightarrow> None | Some d \<Rightarrow> if d_status d \<noteq> Submitted then Some (d_status d) else None)"

definition handle_submit_decision :: "pydantic \<Rightarrow> string \<Rightarrow> pydict \<Rightarrow> date \<Rightarrow> time \<Rightarrow> string \<Rightarrow> string \<Rightarrow> (db, unit answer) prog" where
  "handle_submit_decision V seat a rd now charter model =
     (if \<not> can seat ''submit_decision'' then no (Not_granted ''submit_decision'')
      else parsed [ValidationError, KeyError, TypeError] (decision_args V a rd) (\<lambda>m.
        andthen (gets (decision_on rd (dm_ticker m))) (\<lambda>existing.
        case existing_status existing of
          Some st \<Rightarrow> no (Irrevocable st)
        | None \<Rightarrow>
            andthen (gets (critique_on rd (dm_ticker m))) (\<lambda>crit. if \<not> crit then no No_critique else
            andthen (lift_res (sql_int (dm_qty m))) (\<lambda>q.
            andthen (modify (upsert_decision m q charter model now)) (\<lambda>_.
            andthen (modify (append_event ''decision'' (decision_event seat m) now)) (\<lambda>_. yes ())))))))"

section \<open>Strategy specs\<close>

definition spec_event :: "string \<Rightarrow> string \<Rightarrow> strategy_spec \<Rightarrow> pydict" where
  "spec_event seat sid m = [(''seat'', PStr seat), (''spec_id'', PStr sid), (''family'', PStr (ss_family m)),
     (''mechanism_class'', PStr (ss_mechanism_class m)), (''hypothesis'', PStr (ss_hypothesis m))]"

definition handle_submit_strategy_spec :: "pydantic \<Rightarrow> hasher \<Rightarrow> string \<Rightarrow> pydict \<Rightarrow> time \<Rightarrow> (db, (string \<times> bool) answer) prog" where
  "handle_submit_strategy_spec V H seat a now =
     (if \<not> can seat ''submit_strategy_spec'' then no (Not_granted ''submit_strategy_spec'')
      else parsed [ValidationError, TypeError] (parse_spec V a seat) (\<lambda>m.
        andthen (gets (\<lambda>s. length (strategy_specs s))) (\<lambda>before.
        andthen (insert_strategy_spec H m now) (\<lambda>sid.
        andthen (gets (has_spec sid)) (\<lambda>there.
        if \<not> there then no (Spec_not_written sid)
        else andthen (gets (\<lambda>s. length (strategy_specs s))) (\<lambda>after.
          andthen (whenever (after \<noteq> before) (modify (append_event ''strategy_spec'' (spec_event seat sid m) now))) (\<lambda>_.
          yes (sid, after = before))))))))"

section \<open>G1 critiques\<close>

text \<open>\<open>list(v or [])\<close>\<close>

definition list_or_empty :: "pyval \<Rightarrow> pyval list res" where
  "list_or_empty v = (if \<not> truthy v then Inr [] else case v of
       PList xs \<Rightarrow> Inr xs | PStr t \<Rightarrow> Inr (map (\<lambda>c. PStr [c]) t) | PDict d \<Rightarrow> Inr (map (PStr \<circ> fst) d) | _ \<Rightarrow> Inl TypeError)"

definition critique_args :: "pydantic \<Rightarrow> pydict \<Rightarrow> string \<Rightarrow> spec_critique_model res" where
  "critique_args V a seat =
     res_bind (dkey a ''spec_id'') (\<lambda>i. res_bind (dkey a ''verdict'') (\<lambda>v.
     res_bind (list_or_empty (dget a ''objections'')) (\<lambda>objs. parse_critique V i v objs seat)))"

definition verdict_on :: "string \<Rightarrow> db \<Rightarrow> spec_critique option" where
  "verdict_on sid s = fetchone (\<lambda>c. sc_spec_id c = sid) (strategy_critiques s)"

definition critique_row :: "spec_critique_model \<Rightarrow> string \<Rightarrow> string \<Rightarrow> time \<Rightarrow> spec_critique" where
  "critique_row m charter model now = \<lparr>sc_spec_id = cm_spec_id m, sc_verdict = cm_verdict m, sc_objections = cm_objections m,
     sc_seat = cm_seat m, sc_charter = charter, sc_model = model, sc_created_at = now\<rparr>"

text \<open>The table's CHECKs on the attribution.\<close>

definition insert_critique :: "spec_critique \<Rightarrow> (db, unit) prog" where
  "insert_critique c s =
     (if sc_charter c \<in> {''none'', ''unknown''} \<or> sc_model c \<in> {''none'', ''unknown''} then (Inl IntegrityCheck, s)
      else (Inr (), s\<lparr>strategy_critiques := strategy_critiques s @ [c]\<rparr>))"

definition critique_event :: "string \<Rightarrow> spec_critique_model \<Rightarrow> pydict" where
  "critique_event seat m = [(''seat'', PStr seat), (''spec_id'', PStr (cm_spec_id m)), (''verdict'', PStr (cm_verdict m)),
     (''objections'', PList (map PStr (cm_objections m)))]"

definition handle_submit_spec_critique :: "pydantic \<Rightarrow> string \<Rightarrow> pydict \<Rightarrow> time \<Rightarrow> string \<Rightarrow> string \<Rightarrow> string option
    \<Rightarrow> (db, unit answer) prog" where
  "handle_submit_spec_critique V seat a now charter model expected =
     (if \<not> can seat ''submit_spec_critique'' then no (Not_granted ''submit_spec_critique'')
      else case expected of None \<Rightarrow> no Unbound_turn | Some shown \<Rightarrow>
        if dget a ''spec_id'' \<noteq> PStr shown then no Wrong_spec
        else parsed [ValidationError, KeyError, TypeError] (critique_args V a seat) (\<lambda>m.
          andthen (gets (has_spec (cm_spec_id m))) (\<lambda>there. if \<not> there then no (Not_registered (cm_spec_id m)) else
          andthen (gets (verdict_on (cm_spec_id m))) (\<lambda>old. case old of Some c \<Rightarrow> no (Already_judged (sc_verdict c))
          | None \<Rightarrow>
              andthen (insert_critique (critique_row m charter model now)) (\<lambda>_.
              andthen (modify (append_event ''spec_critique'' (critique_event seat m) now)) (\<lambda>_. yes ()))))))"

section \<open>Reflections\<close>

definition handle_submit_reflection :: "(pyfloat \<Rightarrow> string) \<Rightarrow> string \<Rightarrow> pydict \<Rightarrow> int option \<Rightarrow> (db, unit answer) prog" where
  "handle_submit_reflection signed2 seat a expected =
     (if \<not> can seat ''submit_reflection'' then no (Not_granted ''submit_reflection'')
      else case expected of None \<Rightarrow> no Unbound_turn | Some i \<Rightarrow>
        (case dget a ''prose'' of
           PStr prose \<Rightarrow> if strip prose = [] then no Bad_prose else
             andthen (gets (reflection_frame signed2 i)) (\<lambda>frame. case frame of None \<Rightarrow> no Not_resolved | Some f \<Rightarrow>
             andthen (store_reflection i f prose) (\<lambda>wrote. if wrote then yes () else no Already_reflected))
         | _ \<Rightarrow> no Bad_prose))"

section \<open>Briefs\<close>

text \<open>One section of a brief: a failure leaves the default and its name.\<close>

definition brief_section :: "string \<Rightarrow> ('w, 'a) prog \<Rightarrow> 'a \<Rightarrow> (string \<times> exn) list \<Rightarrow> ('w, 'a \<times> (string \<times> exn) list) prog" where
  "brief_section name build dflt missing =
     catch (andthen build (\<lambda>x. ret (x, missing))) (\<lambda>e. ret (dflt, missing @ [(name, e)]))"

definition snapshot_of :: "('x \<Rightarrow> pydict res \<times> 'x) option \<Rightarrow> ('x world, pydict) prog" where
  "snapshot_of provider = (case provider of None \<Rightarrow> raise LookupError | Some f \<Rightarrow> on_port f)"

definition journal_of :: "('x \<Rightarrow> files res) option \<Rightarrow> string \<Rightarrow> ('x world, string) prog" where
  "journal_of jroot seat = (case jroot of None \<Rightarrow> raise LookupError
     | Some files \<Rightarrow> andthen (on_port (\<lambda>x. (files x, x))) (\<lambda>f. ret (recent_entries seat JOURNAL_ENTRIES f)))"

definition weights_for :: "string \<Rightarrow> (db, weight_row list) prog" where
  "weights_for seat = andthen (gets (latest_weights (if can seat ''read_signals'' then None else Some seat)))
     (\<lambda>rows. if rows = [] then raise LookupError else ret rows)"

definition signal_rows :: "date \<Rightarrow> db \<Rightarrow> signal list" where
  "signal_rows rd s = sort_key sg_ticker (sort_key sg_agent (filter (\<lambda>g. sg_run_date g = rd) (signals s)))"

record spec_brief =
  sb_seat :: string
  sb_specs :: "spec list"
  sb_journal :: string
  sb_unavailable :: "(string \<times> exn) list"

definition handle_get_spec_brief :: "string \<Rightarrow> ('x \<Rightarrow> files res) option \<Rightarrow> ('x world, spec_brief answer) prog" where
  "handle_get_spec_brief seat jroot =
     (if \<not> can seat ''get_spec_brief'' then no (Not_granted ''get_spec_brief'')
      else andthen (catch (andthen (on_db (specs_awaiting_critique 1)) (\<lambda>ps. ret (Inr ps))) (\<lambda>e. ret (Inl (Queue_unreadable e))))
        (\<lambda>q. case q of Inl r \<Rightarrow> no r | Inr specs \<Rightarrow>
          andthen (brief_section ''journal'' (journal_of jroot seat) [] []) (\<lambda>(journal, missing).
          yes \<lparr>sb_seat = seat, sb_specs = specs, sb_journal = journal, sb_unavailable = missing\<rparr>)))"

text \<open>A key of the brief that a seat is not granted is absent: \<open>None\<close>.\<close>

record stage_brief =
  br_run_date :: date
  br_seat :: string
  br_journal :: string
  br_account :: "(pyval \<times> pyval) option"
  br_weights :: "weight_row list option"
  br_signals :: "signal list option"
  br_allowed :: "pydict option"
  br_unavailable :: "(string \<times> exn) list"

text \<open>\<open>dict(snap["allowed_actions"])\<close>, for a value that is a mapping.\<close>

definition allowed_of :: "pydict \<Rightarrow> pydict res" where
  "allowed_of snap = res_bind (dkey snap ''allowed_actions'') (\<lambda>v. case v of PDict d \<Rightarrow> Inr d | _ \<Rightarrow> Inl TypeError)"

definition granted :: "bool \<Rightarrow> string \<Rightarrow> ('w, 'a) prog \<Rightarrow> 'a \<Rightarrow> (string \<times> exn) list
    \<Rightarrow> ('w, 'a option \<times> (string \<times> exn) list) prog" where
  "granted b name build dflt missing =
     (if b then andthen (brief_section name build dflt missing) (\<lambda>(x, ms). ret (Some x, ms)) else ret (None, missing))"

definition handle_get_stage_brief :: "string \<Rightarrow> date \<Rightarrow> ('x \<Rightarrow> pydict res \<times> 'x) option \<Rightarrow> ('x \<Rightarrow> files res) option
    \<Rightarrow> ('x world, stage_brief answer) prog" where
  "handle_get_stage_brief seat rd provider jroot =
     (if \<not> can seat ''get_stage_brief'' then no (Not_granted ''get_stage_brief'')
      else (let acct = can seat ''read_account''; acts = can seat ''read_allowed_actions'' in
        andthen (granted (acct \<or> acts) ''account snapshot'' (snapshot_of provider) [] []) (\<lambda>(sn, m1).
        let snap = (case sn of None \<Rightarrow> [] | Some d \<Rightarrow> d) in
        andthen (brief_section ''journal'' (journal_of jroot seat) [] m1) (\<lambda>(journal, m2).
        andthen (granted (can seat ''read_weights'') ''weights'' (on_db (weights_for seat)) [] m2) (\<lambda>(ws, m3).
        andthen (granted (can seat ''read_signals'') ''signals'' (on_db (gets (signal_rows rd))) [] m3) (\<lambda>(sigs, m4).
        andthen (granted acts ''allowed actions'' (lift_res (allowed_of snap)) [] m4) (\<lambda>(allow, m5).
        yes \<lparr>br_run_date = rd, br_seat = seat, br_journal = journal,
             br_account = (if acct then Some (dget snap ''cash'',
                 if truthy (dget snap ''positions'') then dget snap ''positions'' else PDict []) else None),
             br_weights = ws, br_signals = sigs, br_allowed = allow, br_unavailable = m5\<rparr>)))))))"

end
