(* ===== verification/FundTools.thy ===== *)
theory FundTools imports FundServer begin

text \<open>
  agents/tools/fund_server.py, the tools as a seat's client sees them: the closures of
  \<open>build_fund_server\<close>, the surface they make, and a turn in which an agent, whatever it
  is, calls them one after the other.
\<close>

section \<open>What a seat's server is bound to\<close>

record 'x fund_server =
  fs_seat :: string
  fs_connect :: "'x \<Rightarrow> unit res \<times> 'x"
  fs_now :: "'x \<Rightarrow> time \<times> 'x"
  fs_run_date :: "time \<Rightarrow> date"
  fs_snapshot :: "('x \<Rightarrow> pydict res \<times> 'x) option"
  fs_journals :: "('x \<Rightarrow> files res) option"
  fs_charter :: string
  fs_model :: string
  fs_decision_id :: "int option"
  fs_spec_id :: "string option"
  fs_pydantic :: pydantic
  fs_hasher :: hasher
  fs_signed2 :: "pyfloat \<Rightarrow> string"

definition server_now :: "'x fund_server \<Rightarrow> ('x world, time) prog" where
  "server_now S = on_port (\<lambda>x. case fs_now S x of (t, x') \<Rightarrow> (Inr t, x'))"

definition run_date_from_clock :: "'x fund_server \<Rightarrow> ('x world, date) prog" where
  "run_date_from_clock S = andthen (server_now S) (\<lambda>t. ret (fs_run_date S t))"

definition server_conn :: "'x fund_server \<Rightarrow> ('x world, unit) prog" where
  "server_conn S = on_port (fs_connect S)"

section \<open>The tools\<close>

datatype tool_text =
    Listed "ticket list" | Stage_text stage_brief | Spec_text spec_brief | Signal_recorded pyval
  | Decision_recorded pyval | Critique_recorded pyval pyval | Reflection_recorded | Spec_registered string bool

datatype tool_result = Text tool_text | Is_error refusal

definition answered :: "('w, 'a answer) prog \<Rightarrow> ('a \<Rightarrow> tool_text) \<Rightarrow> ('w, tool_result) prog" where
  "answered m f = andthen m (\<lambda>r. ret (case r of Inl e \<Rightarrow> Is_error e | Inr x \<Rightarrow> Text (f x)))"

definition list_open_tickets_tool :: "'x fund_server \<Rightarrow> ('x world, tool_result) prog" where
  "list_open_tickets_tool S =
     (if fs_seat S \<noteq> ''exec'' then ret (Is_error (Not_granted ''list_open_tickets''))
      else andthen (server_conn S) (\<lambda>_. andthen (server_now S) (\<lambda>now.
           andthen (on_db (gets (open_tickets now))) (\<lambda>rows. ret (Text (Listed rows))))))"

definition get_stage_brief_tool :: "'x fund_server \<Rightarrow> ('x world, tool_result) prog" where
  "get_stage_brief_tool S = andthen (server_conn S) (\<lambda>_. andthen (run_date_from_clock S) (\<lambda>rd.
     answered (handle_get_stage_brief (fs_seat S) rd (fs_snapshot S) (fs_journals S)) Stage_text))"

definition submit_signal_tool :: "'x fund_server \<Rightarrow> pydict \<Rightarrow> ('x world, tool_result) prog" where
  "submit_signal_tool S a = andthen (server_conn S) (\<lambda>_. andthen (run_date_from_clock S) (\<lambda>rd. andthen (server_now S) (\<lambda>now.
     answered (on_db (handle_submit_signal (fs_pydantic S) (fs_seat S) a rd now (fs_charter S) (fs_model S)))
       (\<lambda>_. Signal_recorded (dget a ''ticker'')))))"

definition submit_decision_tool :: "'x fund_server \<Rightarrow> pydict \<Rightarrow> ('x world, tool_result) prog" where
  "submit_decision_tool S a = andthen (server_conn S) (\<lambda>_. andthen (run_date_from_clock S) (\<lambda>rd. andthen (server_now S) (\<lambda>now.
     answered (on_db (handle_submit_decision (fs_pydantic S) (fs_seat S) a rd now (fs_charter S) (fs_model S)))
       (\<lambda>_. Decision_recorded (dget a ''ticker'')))))"

definition get_spec_brief_tool :: "'x fund_server \<Rightarrow> ('x world, tool_result) prog" where
  "get_spec_brief_tool S = andthen (server_conn S) (\<lambda>_.
     answered (handle_get_spec_brief (fs_seat S) (fs_journals S)) Spec_text)"

definition submit_spec_critique_tool :: "'x fund_server \<Rightarrow> pydict \<Rightarrow> ('x world, tool_result) prog" where
  "submit_spec_critique_tool S a = andthen (server_conn S) (\<lambda>_. andthen (server_now S) (\<lambda>now.
     answered (on_db (handle_submit_spec_critique (fs_pydantic S) (fs_seat S) a now (fs_charter S) (fs_model S) (fs_spec_id S)))
       (\<lambda>_. Critique_recorded (dget a ''spec_id'') (dget a ''verdict''))))"

definition submit_reflection_tool :: "'x fund_server \<Rightarrow> pydict \<Rightarrow> ('x world, tool_result) prog" where
  "submit_reflection_tool S a = andthen (server_conn S) (\<lambda>_. andthen (server_now S) (\<lambda>_.
     answered (on_db (handle_submit_reflection (fs_signed2 S) (fs_seat S) a (fs_decision_id S))) (\<lambda>_. Reflection_recorded)))"

definition submit_strategy_spec_tool :: "'x fund_server \<Rightarrow> pydict \<Rightarrow> ('x world, tool_result) prog" where
  "submit_strategy_spec_tool S a = andthen (server_conn S) (\<lambda>_. andthen (server_now S) (\<lambda>now.
     answered (on_db (handle_submit_strategy_spec (fs_pydantic S) (fs_hasher S) (fs_seat S) a now))
       (\<lambda>(sid, dup). Spec_registered sid dup)))"

definition cap_tools :: "'x fund_server \<Rightarrow> (string \<times> (pydict \<Rightarrow> ('x world, tool_result) prog)) list" where
  "cap_tools S =
     [(''get_stage_brief'', \<lambda>_. get_stage_brief_tool S), (''submit_signal'', submit_signal_tool S),
      (''submit_decision'', submit_decision_tool S), (''list_open_tickets'', \<lambda>_. list_open_tickets_tool S),
      (''get_spec_brief'', \<lambda>_. get_spec_brief_tool S), (''submit_spec_critique'', submit_spec_critique_tool S),
      (''submit_reflection'', submit_reflection_tool S), (''submit_strategy_spec'', submit_strategy_spec_tool S)]"

definition build_fund_server :: "'x fund_server \<Rightarrow> (string \<times> (pydict \<Rightarrow> ('x world, tool_result) prog)) list res" where
  "build_fund_server S =
     (if map_of SEAT_CAPS (fs_seat S) = None then Inl ValueError
      else Inr (filter (\<lambda>(c, _). can (fs_seat S) c) (cap_tools S)))"

section \<open>A turn\<close>

text \<open>
  The client of a turn: from the answers so far, the next call of a tool of the surface by
  its name, or the end. A call of a name that is not on the surface does not reach the
  server, and an exception of a tool is answered, not propagated.
\<close>

type_synonym client = "tool_result option list \<Rightarrow> (string \<times> pydict) option"

definition call_tool :: "'x fund_server \<Rightarrow> string \<Rightarrow> pydict \<Rightarrow> ('x world, tool_result option) prog" where
  "call_tool S name a = (case build_fund_server S of Inl e \<Rightarrow> raise e
     | Inr ts \<Rightarrow> (case map_of ts name of None \<Rightarrow> ret None
         | Some f \<Rightarrow> catch (andthen (f a) (\<lambda>r. ret (Some r))) (\<lambda>_. ret None)))"

fun seat_turn :: "nat \<Rightarrow> 'x fund_server \<Rightarrow> client \<Rightarrow> tool_result option list \<Rightarrow> ('x world, unit) prog" where
  "seat_turn 0 S client past = ret ()"
| "seat_turn (Suc n) S client past = (case client past of None \<Rightarrow> ret ()
     | Some (name, a) \<Rightarrow> andthen (call_tool S name a) (\<lambda>r. seat_turn n S client (past @ [r])))"

end
