(* ===== verification/Stages.thy ===== *)
theory Stages imports Tickets Ports Journal begin

text \<open>
  orchestrator/daily.py: the stages of a trading day up to its close, and
  state/critiques.py. A stage context is the ports with the day's configuration: the
  seats, the market snapshot, the agent turns (any operation on the world), the ticket
  ids, and the journal files inside the outside state.
\<close>

section \<open>The stage context\<close>

record 'x stage_ctx = "'x ports" +
  cx_run_date :: date
  cx_seats :: "string list"
  cx_inputs :: "(string \<times> pydict) list"
  cx_validate :: "pydict \<Rightarrow> gate_inputs res"
  cx_turn :: "string \<Rightarrow> ('x world, unit) prog option"
  cx_new_id :: "'x \<Rightarrow> string \<times> 'x"
  cx_hhmm :: "time \<Rightarrow> string"
  cx_sum :: "pyfloat list \<Rightarrow> pyfloat"
  cx_journals :: "(('x \<Rightarrow> files) \<times> (files \<Rightarrow> 'x \<Rightarrow> 'x)) option"

definition TICKET_TTL_MIN :: int where "TICKET_TTL_MIN = 45"

definition new_id :: "('x, 'z) stage_ctx_scheme \<Rightarrow> ('x world, string) prog" where
  "new_id C = on_port (\<lambda>x. case cx_new_id C x of (i, x') \<Rightarrow> (Inr i, x'))"

definition stage_key :: "('x, 'z) stage_ctx_scheme \<Rightarrow> string \<Rightarrow> row_key" where
  "stage_key C stage = K_checkpoint (cx_run_date C) stage ''*''"

definition open_checkpoint :: "date \<Rightarrow> string \<Rightarrow> time \<Rightarrow> db \<Rightarrow> db" where
  "open_checkpoint rd stage now s = s\<lparr>checkpoints := fst (insert_or_ignore checkpoint_key
     \<lparr>c_run_date = rd, c_stage = stage, c_ticker = ''*'', c_status = Pending, c_updated_at = now\<rparr>
     (checkpoints s))\<rparr>"

text \<open>The stage wrapper: \<open>None\<close> when the stage was already done.\<close>

definition run_stage :: "('x, 'z) stage_ctx_scheme \<Rightarrow> string \<Rightarrow> ('x world, 'a) prog
    \<Rightarrow> ('x world, 'a option) prog" where
  "run_stage C stage body =
     andthen (clock_now C) (\<lambda>now.
     andthen (on_db (modify (open_checkpoint (cx_run_date C) stage now))) (\<lambda>_.
     andthen (on_db (gets (status_of T_checkpoints (stage_key C stage)))) (\<lambda>st.
     if st = Some Done then ret None
     else
       andthen (if st = Some Pending
                then on_db (try_transition T_checkpoints (stage_key C stage) Pending Running now [] None)
                else ret False) (\<lambda>_.
       andthen body (\<lambda>result.
       andthen (clock_now C) (\<lambda>now2.
       andthen (drain_outbox C now2) (\<lambda>_.
       andthen (on_db (try_transition T_checkpoints (stage_key C stage) Running Done now2 [] None)) (\<lambda>_.
       ret (Some result)))))))))"

section \<open>Pre-gate\<close>

definition sized :: "('x, 'z) stage_ctx_scheme \<Rightarrow> pydict \<Rightarrow> string \<Rightarrow> verdict" where
  "sized C inputs side =
     size (cx_validate C) (Raw ((''side'', PStr side) # filter (\<lambda>(k, _). k \<noteq> ''side'') inputs))"

fun approved_qty :: "verdict \<Rightarrow> int" where
  "approved_qty (Approved q _ _) = q"
| "approved_qty (Rejected _) = 0"

fun is_approved :: "verdict \<Rightarrow> bool" where
  "is_approved (Approved _ _ _) = True"
| "is_approved (Rejected _) = False"

text \<open>The snapshot, as the list of \<open>(ticker, (buy, sell))\<close> in the order of the inputs.\<close>

definition allowed_actions :: "('x, 'z) stage_ctx_scheme \<Rightarrow> (string \<times> int \<times> int) list" where
  "allowed_actions C =
     filter (\<lambda>(t, b, sl). b \<noteq> 0 \<or> sl \<noteq> 0)
       (map (\<lambda>(t, i). (t, approved_qty (sized C i ''buy''), approved_qty (sized C i ''sell''))) (cx_inputs C))"

definition run_pre_gate :: "('x, 'z) stage_ctx_scheme \<Rightarrow> string list" where
  "run_pre_gate C = map fst (allowed_actions C)"

definition pre_gate_one :: "('x, 'z) stage_ctx_scheme \<Rightarrow> time \<Rightarrow> string \<times> pydict \<Rightarrow> string list
    \<Rightarrow> (db, string list) prog" where
  "pre_gate_one C now ti active =
     (let results = map (sized C (snd ti)) [''buy'', ''sell'']
      in if list_ex is_approved results then ret (active @ [fst ti])
         else if list_all (\<lambda>r. r = Rejected ''gate_error'') results
         then andthen (modify (alert_for ''gate_error'' (fst ti) now)) (\<lambda>_. ret active)
         else ret active)"

definition offer :: "date \<Rightarrow> time \<Rightarrow> string \<Rightarrow> db \<Rightarrow> db" where
  "offer rd now symb s = s\<lparr>offered := fst (insert_or_ignore (\<lambda>f. (f_run_date f, f_ticker f))
     \<lparr>f_run_date = rd, f_ticker = symb, f_created_at = now\<rparr> (offered s))\<rparr>"

definition pre_gate_stage :: "('x, 'z) stage_ctx_scheme \<Rightarrow> ('x world, string list) prog" where
  "pre_gate_stage C =
     andthen (clock_now C) (\<lambda>now. on_db (
       andthen (fold_each (pre_gate_one C now) (cx_inputs C) []) (\<lambda>active.
       andthen (for_each (\<lambda>t. modify (offer (cx_run_date C) now t)) active) (\<lambda>_. ret active))))"

section \<open>Research\<close>

definition covered :: "date \<Rightarrow> db \<Rightarrow> (string \<times> string) list" where
  "covered rd s = map (\<lambda>g. (sg_agent g, sg_ticker g)) (filter (\<lambda>g. sg_run_date g = rd) (signals s))"

definition signal_key :: "signal \<Rightarrow> date \<times> string \<times> string" where
  "signal_key g = (sg_run_date g, sg_agent g, sg_ticker g)"

definition default_signal :: "date \<Rightarrow> time \<Rightarrow> string \<times> string \<Rightarrow> signal" where
  "default_signal rd now p = \<lparr>sg_run_date = rd, sg_agent = fst p, sg_ticker = snd p, sg_direction = Neutral,
     sg_confidence = 0, sg_summary = ''no report'', sg_charter = ''none'', sg_model = ''none'', sg_created_at = now\<rparr>"

definition add_default_signal :: "date \<Rightarrow> time \<Rightarrow> string \<times> string \<Rightarrow> db \<Rightarrow> db" where
  "add_default_signal rd now p s =
     s\<lparr>signals := fst (insert_or_ignore signal_key (default_signal rd now p) (signals s))\<rparr>"

definition wanted_pairs :: "('x, 'z) stage_ctx_scheme \<Rightarrow> string list \<Rightarrow> (string \<times> string) list" where
  "wanted_pairs C active = concat (map (\<lambda>seat. map (Pair seat) active) (cx_seats C))"

definition run_research :: "('x, 'z) stage_ctx_scheme \<Rightarrow> string list \<Rightarrow> ('x world, unit) prog" where
  "run_research C active =
     (if cx_seats C = [] then raise ValueError
      else (let wanted = wanted_pairs C active in
        andthen (on_db (gets (covered (cx_run_date C)))) (\<lambda>cov.
        andthen (case cx_turn C ''research'' of None \<Rightarrow> ret ()
                 | Some turn \<Rightarrow> whenever (\<not> set wanted \<subseteq> set cov) turn) (\<lambda>_.
        andthen (clock_now C) (\<lambda>now.
        andthen (on_db (gets (covered (cx_run_date C)))) (\<lambda>cov2.
        for_each (\<lambda>p. on_db (modify (add_default_signal (cx_run_date C) now p)))
          (filter (\<lambda>p. p \<notin> set cov2) wanted)))))))"

section \<open>Decision\<close>

definition default_critique :: "date \<Rightarrow> string \<Rightarrow> time \<Rightarrow> string \<Rightarrow> critique" where
  "default_critique rd note now symb = \<lparr>cq_run_date = rd, cq_ticker = symb, cq_verdict = ''clear'',
     cq_objections = [], cq_note = note, cq_charter = ''none'', cq_model = ''none'', cq_created_at = now\<rparr>"

text \<open>state/critiques.py\<close>

definition insert_default_critiques :: "date \<Rightarrow> string list \<Rightarrow> string \<Rightarrow> time \<Rightarrow> (db, unit) prog" where
  "insert_default_critiques rd symbs note now =
     for_each (\<lambda>t. modify (\<lambda>s. s\<lparr>critiques := fst (insert_or_ignore (\<lambda>c. (cq_run_date c, cq_ticker c))
        (default_critique rd note now t) (critiques s))\<rparr>)) symbs"

definition hold_decision :: "date \<Rightarrow> time \<Rightarrow> string \<Rightarrow> int \<Rightarrow> decision" where
  "hold_decision rd now symb i = \<lparr>d_id = i, d_run_date = rd, d_ticker = symb, d_action = Hold, d_qty = 0,
     d_thesis = ''no decision by the deadline (pm_timeout)'', d_invalidation = ''n/a'', d_stop_price = None,
     d_charter = ''none'', d_model = ''none'', d_status = Submitted, d_created_at = now\<rparr>"

definition decided :: "date \<Rightarrow> string \<Rightarrow> db \<Rightarrow> bool" where
  "decided rd symb s = list_ex (\<lambda>d. d_run_date d = rd \<and> d_ticker d = symb) (decisions s)"

definition default_decision :: "date \<Rightarrow> time \<Rightarrow> string \<Rightarrow> (db, unit) prog" where
  "default_decision rd now symb =
     andthen (gets (decided rd symb)) (\<lambda>dec. whenever (\<not> dec)
       (andthen (modify (alert ''pm_timeout'' now)) (\<lambda>_.
        modify (\<lambda>s. s\<lparr>decisions := decisions s @ [hold_decision rd now symb (next_id d_id (decisions s))]\<rparr>))))"

definition run_decision :: "('x, 'z) stage_ctx_scheme \<Rightarrow> string list \<Rightarrow> ('x world, unit) prog" where
  "run_decision C active =
     andthen (clock_now C) (\<lambda>now.
     andthen (on_db (insert_default_critiques (cx_run_date C) active ''no_critic_seat'' now)) (\<lambda>_.
     andthen (case cx_turn C ''decision'' of None \<Rightarrow> ret () | Some turn \<Rightarrow> turn) (\<lambda>_.
     andthen (clock_now C) (\<lambda>now2.
     for_each (\<lambda>t. on_db (default_decision (cx_run_date C) now2 t)) active))))"

section \<open>Gate\<close>

definition gate_reject :: "decision \<Rightarrow> string \<Rightarrow> time \<Rightarrow> (db, unit) prog" where
  "gate_reject d why now =
     andthen (gets (\<lambda>s. fetchone (\<lambda>t. t_decision_id t = d_id d \<and> t_status t = Open) (tickets s))) (\<lambda>existing.
     andthen (case existing of None \<Rightarrow> ret False
              | Some t \<Rightarrow> try_transition T_tickets (K_id_str (t_id t)) Open Expired now [] None) (\<lambda>_.
     andthen (try_transition T_decisions (K_id_int (d_id d)) Submitted Rejected_st now [] None) (\<lambda>won.
     whenever won (modify (append_event ''gate_rejected''
       [(''ticker'', PStr (d_ticker d)), (''side'', PStr (action_str (d_action d))), (''reason'', PStr why)] now)))))"

definition retune_ticket :: "string \<Rightarrow> int \<Rightarrow> time \<Rightarrow> db \<Rightarrow> db" where
  "retune_ticket tid cap expires_at s = s\<lparr>tickets := update_where (\<lambda>t. t_id t = tid \<and> t_status t = Open)
     (\<lambda>t. t\<lparr>t_max_qty := cap, t_expires_at := expires_at\<rparr>) (tickets s)\<rparr>"

definition inputs_for :: "('x, 'z) stage_ctx_scheme \<Rightarrow> string \<Rightarrow> pydict" where
  "inputs_for C symb = (case map_of (cx_inputs C) symb of None \<Rightarrow> [] | Some i \<Rightarrow> i)"

definition gate_cap :: "('x, 'z) stage_ctx_scheme \<Rightarrow> decision \<Rightarrow> int" where
  "gate_cap C d = (case sized C (inputs_for C (d_ticker d)) (action_str (d_action d)) of
     Approved q _ _ \<Rightarrow> min (d_qty d) q | Rejected _ \<Rightarrow> 0)"

definition gate_handle :: "('x, 'z) stage_ctx_scheme \<Rightarrow> time \<Rightarrow> time \<Rightarrow> decision \<Rightarrow> ('x world, unit) prog" where
  "gate_handle C now expires_at d =
     (if d_action d = Hold
      then andthen (on_db (try_transition T_decisions (K_id_int (d_id d)) Submitted Held now [] None)) (\<lambda>_. ret ())
      else andthen (on_db (gets (\<lambda>s. fetchone (\<lambda>t. t_decision_id t = d_id d) (tickets s)))) (\<lambda>existing.
        (let cap = gate_cap C d in
         if cap < 1
         then on_db (gate_reject d (case sized C (inputs_for C (d_ticker d)) (action_str (d_action d)) of
                Rejected why \<Rightarrow> why | Approved _ _ _ \<Rightarrow> ''zero_qty'') now)
         else andthen (case existing of Some t \<Rightarrow> ret (t_id t) | None \<Rightarrow> new_id C) (\<lambda>tid.
           andthen (on_db (case existing of
               None \<Rightarrow> create_ticket tid (d_id d) (d_ticker d) (d_action d) cap (d_stop_price d) expires_at now
             | Some _ \<Rightarrow> modify (retune_ticket tid cap expires_at))) (\<lambda>_.
           andthen (on_db (try_transition T_decisions (K_id_int (d_id d)) Submitted Approved_st now [] None)) (\<lambda>won.
           on_db (whenever won (modify (append_event ''gate_approved''
             [(''ticket_id'', PStr tid), (''ticker'', PStr (d_ticker d)),
              (''side'', PStr (action_str (d_action d))), (''max_qty'', PInt cap),
              (''expires_hhmm'', PStr (cx_hhmm C expires_at))] now)))))))))"

definition gate_one :: "('x, 'z) stage_ctx_scheme \<Rightarrow> time \<Rightarrow> time \<Rightarrow> decision \<Rightarrow> ('x world, unit) prog" where
  "gate_one C now expires_at d =
     catch (gate_handle C now expires_at d) (\<lambda>_. on_db (gate_reject d ''gate_error'' now))"

definition submitted_rows :: "date \<Rightarrow> db \<Rightarrow> decision list" where
  "submitted_rows rd s =
     sort_key d_id (filter (\<lambda>d. d_run_date d = rd \<and> d_status d = Submitted) (decisions s))"

definition run_gate :: "('x, 'z) stage_ctx_scheme \<Rightarrow> ('x world, unit) prog" where
  "run_gate C =
     andthen (clock_now C) (\<lambda>now.
     andthen (on_db (gets (submitted_rows (cx_run_date C)))) (\<lambda>rows.
     for_each (gate_one C now (now + TICKET_TTL_MIN * 60)) rows))"

section \<open>Execution\<close>

definition alert_unexecuted_tickets :: "('x, 'z) stage_ctx_scheme \<Rightarrow> ('x world, unit) prog" where
  "alert_unexecuted_tickets C =
     andthen (clock_now C) (\<lambda>now.
     andthen (on_db (gets open_tickets_without_orders)) (\<lambda>ts.
     for_each (\<lambda>t. on_db (modify (alert ''ticket_open_after_exec'' now))) ts))"

definition execution_body :: "('x, 'z) stage_ctx_scheme \<Rightarrow> ('x world, unit) prog option \<Rightarrow> ('x world, unit) prog" where
  "execution_body C turn =
     andthen (clock_now C) (\<lambda>now.
     andthen (on_db (expire_open_tickets now)) (\<lambda>_.
     andthen (case turn of None \<Rightarrow> ret ()
              | Some t \<Rightarrow> andthen (clock_now C) (\<lambda>now2.
                  andthen (on_db (gets (open_tickets now2))) (\<lambda>ts. whenever (ts \<noteq> []) t))) (\<lambda>_.
     alert_unexecuted_tickets C)))"

definition run_execution :: "('x, 'z) stage_ctx_scheme \<Rightarrow> ('x world, unit) prog option \<Rightarrow> ('x world, string) prog" where
  "run_execution C turn =
     andthen (run_stage C ''execution'' (execution_body C turn)) (\<lambda>_. ret ''done'')"

section \<open>Close\<close>

definition decision_rows :: "db \<Rightarrow> date \<Rightarrow> decision list" where
  "decision_rows s rd = sort_key d_ticker (filter (\<lambda>d. d_run_date d = rd) (decisions s))"

text \<open>The orders that filled, wholly or in part, on tickets of the day's decisions.\<close>

definition order_of_day :: "db \<Rightarrow> date \<Rightarrow> order \<Rightarrow> bool" where
  "order_of_day s rd q =
     list_ex (\<lambda>t. t_id t = o_client_order_id q \<and>
        list_ex (\<lambda>d. d_id d = t_decision_id t \<and> d_run_date d = rd) (decisions s)) (tickets s)"

definition fill_rows :: "db \<Rightarrow> date \<Rightarrow> order list" where
  "fill_rows s rd = sort_key o_submitted_at
     (filter (\<lambda>q. order_of_day s rd q \<and> o_status q \<in> {Filled, Partially_filled}) (orders s))"

definition digest_posted :: "date \<Rightarrow> db \<Rightarrow> bool" where
  "digest_posted rd s =
     list_ex (\<lambda>e. e_kind e = ''digest'' \<and> dget (e_payload e) ''run_date'' = PStr rd) (events s)"

definition decision_payload :: "decision \<Rightarrow> pyval" where
  "decision_payload d = PDict [(''ticker'', PStr (d_ticker d)), (''action'', PStr (action_str (d_action d))),
     (''qty'', PInt (d_qty d)), (''status'', PStr (status_str (d_status d)))]"

definition fill_payload :: "order \<Rightarrow> pyval" where
  "fill_payload q = PDict [(''symbol'', PStr (o_symbol q)), (''side'', PStr (o_side q)),
     (''filled_qty'', PInt (o_filled_qty q)),
     (''filled_avg_price'', case o_filled_avg_price q of None \<Rightarrow> PNone | Some p \<Rightarrow> PFloat p),
     (''partial'', PBool (o_status q = Partially_filled))]"

definition append_digest :: "('x, 'z) stage_ctx_scheme \<Rightarrow> time \<Rightarrow> db \<Rightarrow> db" where
  "append_digest C now s = append_event ''digest''
     [(''run_date'', PStr (cx_run_date C)),
      (''decisions'', PList (map decision_payload (decision_rows s (cx_run_date C)))),
      (''fills'', PList (map fill_payload (fill_rows s (cx_run_date C)))),
      (''cost_usd'', PFloat (cx_sum C (map k_usd (filter (\<lambda>k. k_run_date k = cx_run_date C) (costs s)))))] now s"

text \<open>
  The journal lines are prose: the parameter \<open>line\<close> says what a seat's line is, given
  the database. What the code decides is who gets one, and that none is written twice.
\<close>

definition append_entry_once :: "string \<Rightarrow> string \<Rightarrow> string \<Rightarrow> files \<Rightarrow> files" where
  "append_entry_once seat rd txt f =
     (case f seat of Some old \<Rightarrow> if contains (''## '' @ rd @ nl) old then f else append_entry seat rd txt f
      | None \<Rightarrow> append_entry seat rd txt f)"

definition signal_agents :: "date \<Rightarrow> db \<Rightarrow> string list" where
  "signal_agents rd s = sort (remdups (map sg_agent (filter (\<lambda>g. sg_run_date g = rd) (signals s))))"

definition write_journals :: "(string \<Rightarrow> db \<Rightarrow> string) \<Rightarrow> date \<Rightarrow> db \<Rightarrow> files \<Rightarrow> files" where
  "write_journals line rd s f =
     (let f1 = fold (\<lambda>a. append_entry_once a rd (line a s)) (signal_agents rd s) f;
          f2 = append_entry_once ''pm'' rd (line ''pm'' s) f1
      in if fill_rows s rd = [] then f2 else append_entry_once ''exec'' rd (line ''exec'' s) f2)"

definition run_close :: "('x, 'z) stage_ctx_scheme \<Rightarrow> (string \<Rightarrow> db \<Rightarrow> string) \<Rightarrow> ('x world, unit) prog" where
  "run_close C line =
     andthen (on_db (gets (digest_posted (cx_run_date C)))) (\<lambda>posted.
     andthen (clock_now C) (\<lambda>now.
     andthen (on_db (whenever (\<not> posted) (modify (append_digest C now)))) (\<lambda>_.
     case cx_journals C of None \<Rightarrow> ret ()
     | Some (get, put) \<Rightarrow>
         modify (\<lambda>(s, x). (s, put (write_journals line (cx_run_date C) s (get x)) x)))))"

end
