(* ===== verification/GateStage.thy ===== *)
theory GateStage imports Stages "HOL-Library.Multiset" begin

text \<open>
  The gate stage of orchestrator/daily.py (\<open>run_gate\<close>, \<open>_gate_handle\<close>, \<open>_gate_reject\<close>):
  every submitted decision is settled, whatever raises, and a ticket is never larger than
  the ask or the gate.
\<close>

section \<open>What one decision's handling may touch\<close>

definition erase :: "decision \<Rightarrow> decision" where
  "erase d = d\<lparr>d_status := Submitted\<rparr>"

text \<open>
  Only the decisions in \<open>I\<close> and their tickets: keys stay unique, decisions keep every column but
  the status, and all other decisions and tickets are untouched.
\<close>

definition touches :: "int set \<Rightarrow> db \<Rightarrow> db \<Rightarrow> bool" where
  "touches I s s' \<longleftrightarrow> db_wf s' \<and> map erase (decisions s') = map erase (decisions s) \<and>
     (\<forall>d. d_id d \<notin> I \<longrightarrow> (d \<in> set (decisions s') \<longleftrightarrow> d \<in> set (decisions s))) \<and>
     (\<forall>t. t_decision_id t \<notin> I \<longrightarrow> (t \<in> set (tickets s') \<longleftrightarrow> t \<in> set (tickets s)))"

text \<open>A ticket repeats its decision's symbol and side, and its side is no hold.\<close>

definition ticket_fits :: "decision \<Rightarrow> ticket \<Rightarrow> bool" where
  "ticket_fits d t \<longleftrightarrow> t_ticker t = d_ticker d \<and> t_side t = d_action d \<and> t_side t \<noteq> Hold"

definition tickets_match :: "db \<Rightarrow> bool" where
  "tickets_match s \<longleftrightarrow> (\<forall>t\<in>set (tickets s). \<forall>d\<in>set (decisions s). t_decision_id t = d_id d \<longrightarrow> ticket_fits d t)"

text \<open>The decision \<open>d\<close> is settled, and its open ticket, if any, is what the gate allows.\<close>

definition gated :: "('x, 'z) stage_ctx_scheme \<Rightarrow> time \<Rightarrow> decision \<Rightarrow> db \<Rightarrow> bool" where
  "gated C expires_at d s \<longleftrightarrow>
     (\<forall>d'\<in>set (decisions s). d_id d' = d_id d \<longrightarrow> d_status d' \<noteq> Submitted) \<and>
     (\<forall>t\<in>set (tickets s). t_decision_id t = d_id d \<longrightarrow> ticket_fits d t \<and>
        (t_status t = Open \<longrightarrow>
          (\<forall>d'\<in>set (decisions s). d_id d' = d_id d \<longrightarrow> d_status d' = Approved_st) \<and>
          t_max_qty t = gate_cap C d \<and> 1 \<le> gate_cap C d \<and> t_expires_at t = expires_at))"

section \<open>The steps as table updates\<close>

definition settle_decision :: "int \<Rightarrow> status \<Rightarrow> db \<Rightarrow> db" where
  "settle_decision i b s = s\<lparr>decisions := update_where (\<lambda>d. d_id d = i \<and> d_status d = Submitted)
     (\<lambda>d. d\<lparr>d_status := b\<rparr>) (decisions s)\<rparr>"

definition open_ticket_update :: "int \<Rightarrow> (ticket \<Rightarrow> ticket) \<Rightarrow> db \<Rightarrow> db" where
  "open_ticket_update i f s =
     s\<lparr>tickets := update_where (\<lambda>t. t_decision_id t = i \<and> t_status t = Open) f (tickets s)\<rparr>"

lemma try_settle:
  assumes "b \<in> {Approved_st, Rejected_st, Held}"
  shows "try_transition T_decisions (K_id_int i) Submitted b now [] None s =
    (Inr (rowcount (\<lambda>d. d_id d = i \<and> d_status d = Submitted) (decisions s) = 1), settle_decision i b s)"
  using assms
  by (subst try_transition_legal) (auto simp: legal_call_def EDGES_def VERSIONED_def Let_def settle_decision_def)

lemma try_approve:
  "try_transition T_decisions (K_id_int i) Submitted Approved_st now [] None =
    (\<lambda>s. (Inr (rowcount (\<lambda>d. d_id d = i \<and> d_status d = Submitted) (decisions s) = 1),
          settle_decision i Approved_st s))"
  by (rule ext) (simp add: try_settle)

lemma ticket_of_decision:
  assumes "db_wf s" and "t \<in> set (tickets s)"
  shows "update_where (\<lambda>u. t_id u = t_id t \<and> t_status u = Open) f (tickets s)
    = update_where (\<lambda>u. t_decision_id u = t_decision_id t \<and> t_status u = Open) f (tickets s)"
proof (rule update_where_cong)
  fix u assume "u \<in> set (tickets s)"
  with assms show "(t_id u = t_id t \<and> t_status u = Open) = (t_decision_id u = t_decision_id t \<and> t_status u = Open)"
    using unique_onD [of t_id "tickets s" u t] unique_onD [of t_decision_id "tickets s" u t]
    by (auto simp: db_wf_def)
qed

lemma try_expire_open:
  "try_transition T_tickets (K_id_str k) Open Expired now [] None s =
    (Inr (rowcount (\<lambda>t. t_id t = k \<and> t_status t = Open) (tickets s) = 1),
     s\<lparr>tickets := update_where (\<lambda>t. t_id t = k \<and> t_status t = Open) (\<lambda>t. t\<lparr>t_status := Expired\<rparr>) (tickets s)\<rparr>)"
  by (rule try_expire_ticket)

text \<open>The rejection: its open ticket closed first, then the decision.\<close>

lemma gate_reject_run:
  assumes "db_wf s"
  shows "\<exists>s'. gate_reject d why now s = (Inr (), s') \<and>
    same_rows (settle_decision (d_id d) Rejected_st (open_ticket_update (d_id d) (\<lambda>t. t\<lparr>t_status := Expired\<rparr>) s)) s'"
proof -
  let ?f = "\<lambda>t. t\<lparr>t_status := Expired\<rparr>"
  let ?s1 = "open_ticket_update (d_id d) ?f s"
  have close: "(case fetchone (\<lambda>t. t_decision_id t = d_id d \<and> t_status t = Open) (tickets s) of
      None \<Rightarrow> ret False
    | Some t \<Rightarrow> try_transition T_tickets (K_id_str (t_id t)) Open Expired now [] None) s
    = (Inr b, ?s1)" if "b = (fetchone (\<lambda>t. t_decision_id t = d_id d \<and> t_status t = Open) (tickets s) \<noteq> None)" for b
  proof (cases "fetchone (\<lambda>t. t_decision_id t = d_id d \<and> t_status t = Open) (tickets s)")
    case None
    then have "update_where (\<lambda>t. t_decision_id t = d_id d \<and> t_status t = Open) ?f (tickets s) = tickets s"
      by (intro update_where_none) (simp add: fetchone_None)
    with None that show ?thesis by (simp add: open_ticket_update_def)
  next
    case (Some t)
    from fetchone_SomeD [OF Some] have t: "t \<in> set (tickets s)" "t_decision_id t = d_id d" "t_status t = Open" by auto
    have "rowcount (\<lambda>u. t_id u = t_id t \<and> t_status u = Open) (tickets s) = 1"
      using assms t by (simp add: rowcount_key fetchone_unique db_wf_def)
    with Some that show ?thesis
      using ticket_of_decision [OF assms t(1), of ?f] t(2) by (simp add: try_expire_open open_ticket_update_def)
  qed
  show ?thesis
    by (simp add: gate_reject_def andthen_def close try_settle whenever_def same_rows_refl same_rows_event)
qed

section \<open>Each step touches only its decision\<close>

lemma erase_update [simp]: "erase (d\<lparr>d_status := b\<rparr>) = erase d"
  by (simp add: erase_def)

lemma touches_refl: "db_wf s \<Longrightarrow> touches {i} s s"
  by (simp add: touches_def)

lemma touches_trans: "touches {i} s s' \<Longrightarrow> touches {i} s' s'' \<Longrightarrow> touches {i} s s''"
  by (simp add: touches_def)

lemma touches_settle: "db_wf s \<Longrightarrow> touches {i} s (settle_decision i b s)"
proof -
  assume wf: "db_wf s"
  have "d \<in> set (update_where (\<lambda>d. d_id d = i \<and> d_status d = Submitted) (\<lambda>d. d\<lparr>d_status := b\<rparr>) (decisions s))
      \<longleftrightarrow> d \<in> set (decisions s)" if "d_id d \<noteq> i" for d
    by (rule update_where_other [where key = d_id and k = i]) (use that in simp_all)
  with wf show ?thesis
    by (simp add: touches_def settle_decision_def db_wf_def unique_on_update_where map_update_where_key)
qed

lemma touches_ticket:
  assumes "db_wf s" and "\<And>t. t_id (f t) = t_id t" and "\<And>t. t_decision_id (f t) = t_decision_id t"
  shows "touches {i} s (open_ticket_update i f s)"
proof -
  have "db_wf (open_ticket_update i f s)"
    using assms by (simp add: open_ticket_update_def db_wf_def unique_on_update_where)
  moreover have "t \<in> set (update_where (\<lambda>t. t_decision_id t = i \<and> t_status t = Open) f (tickets s))
      \<longleftrightarrow> t \<in> set (tickets s)" if "t_decision_id t \<noteq> i" for t
    by (rule update_where_other [where key = t_decision_id and k = i]) (use that assms(3) in simp_all)
  ultimately show ?thesis by (simp add: touches_def open_ticket_update_def)
qed

lemma touches_same: "same_rows s s' \<Longrightarrow> db_wf s \<Longrightarrow> touches {i} s s'"
  by (simp add: touches_def same_rows_def)

lemma settled_not_submitted:
  "b \<noteq> Submitted \<Longrightarrow> d \<in> set (decisions (settle_decision i b s)) \<Longrightarrow> d_id d = i \<Longrightarrow> d_status d \<noteq> Submitted"
proof -
  assume b: "b \<noteq> Submitted" and i: "d_id d = i" and "d \<in> set (decisions (settle_decision i b s))"
  then obtain y where y: "d = (if d_id y = i \<and> d_status y = Submitted then y\<lparr>d_status := b\<rparr> else y)"
    by (auto simp: settle_decision_def mem_update_where)
  then have "d_id y = i" using i by (simp split: if_splits)
  with y b show "d_status d \<noteq> Submitted" by (cases "d_status y = Submitted") simp_all
qed

section \<open>Handling one decision\<close>

definition fits_all :: "db \<Rightarrow> decision \<Rightarrow> bool" where
  "fits_all s d \<longleftrightarrow> (\<forall>t\<in>set (tickets s). t_decision_id t = d_id d \<longrightarrow> ticket_fits d t)"

lemma gated_same: "gated C e d s \<Longrightarrow> same_rows s s' \<Longrightarrow> gated C e d s'"
  by (simp only: gated_def same_rows_def)

lemma fits_all_update:
  assumes "\<And>t. t_decision_id (f t) = t_decision_id t" and "\<And>t. ticket_fits d (f t) = ticket_fits d t"
    and "fits_all s d"
  shows "fits_all (open_ticket_update i f s) d"
  using assms by (auto simp: fits_all_def open_ticket_update_def mem_update_where)

lemma fits_all_settle [simp]: "fits_all (settle_decision i b s) d = fits_all s d"
  by (simp add: fits_all_def settle_decision_def)

lemma tickets_settle [simp]: "tickets (settle_decision i b s) = tickets s"
  by (simp add: settle_decision_def)

lemma decisions_ticket_update [simp]: "decisions (open_ticket_update i f s) = decisions s"
  by (simp add: open_ticket_update_def)

text \<open>Three ways to end well: no open ticket, a ticket tuned to the cap, a ticket minted at it.\<close>

lemma gated_closed:
  assumes "fits_all s d" and "b \<noteq> Submitted"
    and "\<And>t. t \<in> set (tickets s) \<Longrightarrow> t_decision_id t = d_id d \<Longrightarrow> t_status t \<noteq> Open"
  shows "gated C e d (settle_decision (d_id d) b s)"
  using assms settled_not_submitted [OF assms(2)] by (simp add: gated_def fits_all_def)

lemma expired_not_open:
  assumes "t \<in> set (tickets (open_ticket_update i (\<lambda>t. t\<lparr>t_status := Expired\<rparr>) s))" and "t_decision_id t = i"
  shows "t_status t \<noteq> Open"
proof -
  from assms(1) obtain u where u: "t = (if t_decision_id u = i \<and> t_status u = Open then u\<lparr>t_status := Expired\<rparr> else u)"
    by (auto simp: open_ticket_update_def mem_update_where)
  then have "t_decision_id u = i" using assms(2) by (simp split: if_splits)
  with u show ?thesis by (cases "t_status u = Open") simp_all
qed

lemma gate_reject_gated:
  assumes "db_wf s" and "fits_all s d"
  shows "\<exists>s'. gate_reject d why now s = (Inr (), s') \<and> touches {d_id d} s s' \<and> gated C e d s'"
proof -
  let ?s1 = "open_ticket_update (d_id d) (\<lambda>t. t\<lparr>t_status := Expired\<rparr>) s"
  let ?s2 = "settle_decision (d_id d) Rejected_st ?s1"
  obtain s' where r: "gate_reject d why now s = (Inr (), s')" and sr: "same_rows ?s2 s'"
    using gate_reject_run [OF assms(1)] by blast
  have t1: "touches {d_id d} s ?s1" by (rule touches_ticket [OF assms(1)]) simp_all
  then have wf1: "db_wf ?s1" by (simp add: touches_def)
  have t2: "touches {d_id d} ?s1 ?s2" by (rule touches_settle [OF wf1])
  then have wf2: "db_wf ?s2" by (simp add: touches_def)
  have "fits_all ?s1 d" by (rule fits_all_update [OF _ _ assms(2)]) (simp_all add: ticket_fits_def)
  then have "gated C e d ?s2" by (rule gated_closed) (simp, rule expired_not_open)
  from gated_same [OF this sr] r touches_trans [OF t1 touches_trans [OF t2 touches_same [OF sr wf2]]]
  show ?thesis by blast
qed

text \<open>The decision's row, once approved.\<close>

lemma settled_approved:
  assumes "db_wf s" and "d \<in> set (decisions s)" and "d_status d = Submitted"
    and "d' \<in> set (decisions (settle_decision (d_id d) Approved_st s))" and "d_id d' = d_id d"
  shows "d_status d' = Approved_st"
proof -
  from assms(4) obtain y where y: "y \<in> set (decisions s)"
    "d' = (if d_id y = d_id d \<and> d_status y = Submitted then y\<lparr>d_status := Approved_st\<rparr> else y)"
    by (auto simp: settle_decision_def mem_update_where)
  then have "d_id y = d_id d" using assms(5) by (simp split: if_splits)
  then have "y = d" using unique_onD [of d_id "decisions s" y d] assms(1,2) y(1) by (simp add: db_wf_def)
  with y(2) assms(3) show ?thesis by simp
qed

lemma gated_tuned:
  assumes "db_wf s" and "d \<in> set (decisions s)" and "d_status d = Submitted" and "fits_all s d"
    and cap: "\<And>t. t \<in> set (tickets s) \<Longrightarrow> t_decision_id t = d_id d \<Longrightarrow> t_status t = Open \<Longrightarrow>
      t_max_qty t = gate_cap C d \<and> 1 \<le> gate_cap C d \<and> t_expires_at t = e"
  shows "gated C e d (settle_decision (d_id d) Approved_st s)"
  using assms settled_approved [OF assms(1-3)] settled_not_submitted [of Approved_st]
  by (simp add: gated_def fits_all_def)

definition tune :: "int \<Rightarrow> time \<Rightarrow> ticket \<Rightarrow> ticket" where
  "tune cap e t = t\<lparr>t_max_qty := cap, t_expires_at := e\<rparr>"

lemma tuned_open:
  assumes "t \<in> set (tickets (open_ticket_update i (tune cap e) s))" and "t_decision_id t = i" and "t_status t = Open"
  shows "t_max_qty t = cap \<and> t_expires_at t = e"
proof -
  from assms(1) obtain u where u: "t = (if t_decision_id u = i \<and> t_status u = Open then tune cap e u else u)"
    by (auto simp: open_ticket_update_def mem_update_where)
  then have "t_decision_id u = i" "t_status u = Open" using assms(2,3) by (simp_all add: tune_def split: if_splits)
  with u show ?thesis by (simp add: tune_def)
qed

lemma new_id_run: "\<exists>tid x'. new_id C (s, x) = (Inr tid, (s, x'))"
  by (auto simp: new_id_def on_port_def split: prod.splits)

lemma create_ticket_cases:
  "create_ticket tid i tk sd cap stp e now s = (r, s') \<Longrightarrow>
   (r = Inr () \<and> i \<notin> t_decision_id ` set (tickets s) \<and> tid \<notin> t_id ` set (tickets s) \<and> sd \<noteq> Hold \<and> s' = s\<lparr>tickets := tickets s @ [\<lparr>t_id = tid, t_decision_id = i,
        t_ticker = tk, t_side = sd, t_max_qty = cap, t_stop_price = Option.bind stp sql_real,
        t_expires_at = e, t_status = Open, t_created_at = now\<rparr>]\<rparr>) \<or>
   (\<exists>ex. r = Inl ex) \<and> s' = s"
  by (auto simp: create_ticket_def split: if_splits)

text \<open>The approval proper: the ticket is in place, the decision moves, the event is appended.\<close>

lemma gate_handle_cases:
  assumes wf: "db_wf s" and d: "d \<in> set (decisions s)" "d_status d = Submitted" and fits: "fits_all s d"
    and run: "gate_handle C now e d (s, x) = (r, (s', x'))"
  shows "(r = Inr () \<and> touches {d_id d} s s' \<and> gated C e d s') \<or> ((\<exists>ex. r = Inl ex) \<and> s' = s)"
proof (cases "d_action d = Hold")
  case True
  then have "t_decision_id t \<noteq> d_id d" if "t \<in> set (tickets s)" for t
    using fits that by (auto simp: fits_all_def ticket_fits_def)
  then have "gated C e d (settle_decision (d_id d) Held s)"
    using fits by (intro gated_closed) auto
  moreover have "r = Inr () \<and> s' = settle_decision (d_id d) Held s"
    using run True by (auto simp: gate_handle_def andthen_def on_db_def try_settle)
  ultimately show ?thesis using touches_settle [OF wf, of "d_id d" Held] by simp
next
  case False
  let ?ex = "fetchone (\<lambda>t. t_decision_id t = d_id d) (tickets s)"
  show ?thesis
  proof (cases "gate_cap C d < 1")
    case True
    define why where "why = (case sized C (inputs_for C (d_ticker d)) (action_str (d_action d)) of
                Rejected why \<Rightarrow> why | Approved _ _ _ \<Rightarrow> ''zero_qty'')"
    have "gate_handle C now e d (s, x) = on_db (gate_reject d why now) (s, x)"
      using False True by (simp add: gate_handle_def andthen_def on_db_def Let_def why_def)
    with run gate_reject_gated [OF wf fits, of why now C e] show ?thesis by (auto simp: on_db_def)
  next
    case cap: False
    have fin: "r = Inr () \<and> touches {d_id d} s s' \<and> gated C e d s'"
      if g: "gated C e d (settle_decision (d_id d) Approved_st s1)" and t: "touches {d_id d} s s1"
        and m: "(case on_db (\<lambda>s. (Inr (rowcount (\<lambda>d'. d_id d' = d_id d \<and> d_status d' = Submitted) (decisions s) = 1),
              settle_decision (d_id d) Approved_st s)) (s1, x1) of
            (Inl ex, w) \<Rightarrow> (Inl ex, w) | (Inr won, w) \<Rightarrow> on_db (whenever won (modify (append_event k p now))) w) = (r, (s', x'))"
      for s1 x1 k p
    proof -
      let ?s2 = "settle_decision (d_id d) Approved_st s1"
      have wf1: "db_wf s1" using t by (simp add: touches_def)
      have t2: "touches {d_id d} s1 ?s2" by (rule touches_settle [OF wf1])
      then have wf2: "db_wf ?s2" by (simp add: touches_def)
      have "r = Inr () \<and> same_rows ?s2 s'"
        using m by (auto simp: on_db_def whenever_def same_rows_refl same_rows_event split: if_splits)
      then show ?thesis
        using gated_same [OF g] touches_trans [OF t touches_trans [OF t2 touches_same [OF _ wf2]]] by blast
    qed
    show ?thesis
    proof (cases ?ex)
      case (Some t)
      from fetchone_SomeD [OF Some] have tk: "t \<in> set (tickets s)" "t_decision_id t = d_id d" by auto
      let ?s1 = "open_ticket_update (d_id d) (tune (gate_cap C d) e) s"
      have "retune_ticket (t_id t) (gate_cap C d) e s = ?s1"
        using ticket_of_decision [OF wf tk(1), of "tune (gate_cap C d) e"] tk(2)
        by (simp add: retune_ticket_def open_ticket_update_def tune_def [abs_def])
      then have m: "(case on_db (\<lambda>s. (Inr (rowcount (\<lambda>d'. d_id d' = d_id d \<and> d_status d' = Submitted) (decisions s) = 1),
              settle_decision (d_id d) Approved_st s)) (?s1, x) of
            (Inl ex, w) \<Rightarrow> (Inl ex, w) | (Inr won, w) \<Rightarrow> on_db (whenever won (modify (append_event ''gate_approved''
             [(''ticket_id'', PStr (t_id t)), (''ticker'', PStr (d_ticker d)),
              (''side'', PStr (action_str (d_action d))), (''max_qty'', PInt (gate_cap C d)),
              (''expires_hhmm'', PStr (cx_hhmm C e))] now))) w) = (r, (s', x'))"
        using run False cap Some
        by (simp add: gate_handle_def andthen_def on_db_def Let_def try_approve)
      have t1: "touches {d_id d} s ?s1" by (rule touches_ticket [OF wf]) (simp_all add: tune_def)
      then have wf1: "db_wf ?s1" by (simp add: touches_def)
      have f1: "fits_all ?s1 d"
        by (rule fits_all_update [OF _ _ fits]) (simp_all add: tune_def ticket_fits_def)
      have "gated C e d (settle_decision (d_id d) Approved_st ?s1)"
        by (rule gated_tuned [OF wf1 _ d(2) f1]) (use d(1) tuned_open cap in auto)
      from fin [OF this t1 m] show ?thesis by blast
    next
      case None
      obtain tid x1 where id: "new_id C (s, x) = (Inr tid, (s, x1))" using new_id_run [of C s x] by blast
      obtain rc s1 where cr: "create_ticket tid (d_id d) (d_ticker d) (d_action d) (gate_cap C d) (d_stop_price d) e now s = (rc, s1)"
        by fastforce
      from create_ticket_cases [OF cr] show ?thesis
      proof (elim disjE conjE exE)
        fix ex assume "rc = Inl ex" "s1 = s"
        then show ?thesis
          using run False cap None id cr by (auto simp: gate_handle_def andthen_def on_db_def Let_def)
      next
        let ?t = "\<lparr>t_id = tid, t_decision_id = d_id d, t_ticker = d_ticker d, t_side = d_action d,
          t_max_qty = gate_cap C d, t_stop_price = Option.bind (d_stop_price d) sql_real, t_expires_at = e, t_status = Open, t_created_at = now\<rparr>"
        assume rc: "rc = Inr ()" and free: "d_id d \<notin> t_decision_id ` set (tickets s)" "tid \<notin> t_id ` set (tickets s)"
          and s1: "s1 = s\<lparr>tickets := tickets s @ [?t]\<rparr>"
        have m: "(case on_db (\<lambda>s. (Inr (rowcount (\<lambda>d'. d_id d' = d_id d \<and> d_status d' = Submitted) (decisions s) = 1),
              settle_decision (d_id d) Approved_st s)) (s1, x1) of
            (Inl ex, w) \<Rightarrow> (Inl ex, w) | (Inr won, w) \<Rightarrow> on_db (whenever won (modify (append_event ''gate_approved''
             [(''ticket_id'', PStr tid), (''ticker'', PStr (d_ticker d)),
              (''side'', PStr (action_str (d_action d))), (''max_qty'', PInt (gate_cap C d)),
              (''expires_hhmm'', PStr (cx_hhmm C e))] now))) w) = (r, (s', x'))"
          using run False cap None id cr rc
          by (simp add: gate_handle_def andthen_def on_db_def Let_def try_approve)
        have wf1: "db_wf s1" using wf free by (auto simp: s1 db_wf_def unique_on_def)
        then have t1: "touches {d_id d} s s1" by (auto simp: touches_def s1)
        have "gated C e d (settle_decision (d_id d) Approved_st s1)"
        proof (rule gated_tuned [OF wf1 _ d(2)])
          show "d \<in> set (decisions s1)" using d(1) by (simp add: s1)
          show "fits_all s1 d" using fits False by (auto simp: fits_all_def s1 ticket_fits_def)
          show "t_max_qty t = gate_cap C d \<and> 1 \<le> gate_cap C d \<and> t_expires_at t = e"
            if "t \<in> set (tickets s1)" "t_decision_id t = d_id d" for t
            using that free(1) cap by (auto simp: s1 image_iff)
        qed
        from fin [OF this t1 m] show ?thesis by blast
      qed
    qed
  qed
qed

section \<open>The stage\<close>

lemma gate_one_run:
  assumes wf: "db_wf s" and d: "d \<in> set (decisions s)" "d_status d = Submitted" and fits: "fits_all s d"
  shows "\<exists>s' x'. gate_one C now e d (s, x) = (Inr (), (s', x')) \<and> touches {d_id d} s s' \<and> gated C e d s'"
proof -
  obtain r s1 x1 where h: "gate_handle C now e d (s, x) = (r, (s1, x1))" by (metis prod_cases3)
  from gate_handle_cases [OF wf d fits h] show ?thesis
  proof (elim disjE conjE exE)
    assume "r = Inr ()" "touches {d_id d} s s1" "gated C e d s1"
    with h show ?thesis by (simp add: gate_one_def catch_def)
  next
    fix ex assume "r = Inl ex" "s1 = s"
    with h gate_reject_gated [OF wf fits, of "''gate_error''" now C e] show ?thesis
      by (auto simp: gate_one_def catch_def on_db_def)
  qed
qed

lemma touches_union: "touches I s s' \<Longrightarrow> touches J s' s'' \<Longrightarrow> touches (I \<union> J) s s''"
  by (simp add: touches_def)

lemma gated_touches: "gated C e d s \<Longrightarrow> touches J s s' \<Longrightarrow> d_id d \<notin> J \<Longrightarrow> gated C e d s'"
  unfolding gated_def touches_def by metis

lemma fits_touches: "fits_all s d \<Longrightarrow> touches J s s' \<Longrightarrow> d_id d \<notin> J \<Longrightarrow> fits_all s' d"
  unfolding fits_all_def touches_def by metis

lemma gate_rows:
  assumes "db_wf s" and "distinct (map d_id rows)"
    and "\<forall>d\<in>set rows. d \<in> set (decisions s) \<and> d_status d = Submitted \<and> fits_all s d"
  shows "\<exists>s' x'. for_each (gate_one C now e) rows (s, x) = (Inr (), (s', x')) \<and>
    touches (d_id ` set rows) s s' \<and> (\<forall>d\<in>set rows. gated C e d s')"
  using assms
proof (induction rows arbitrary: s x)
  case Nil
  then show ?case by (simp add: touches_def)
next
  case (Cons d rows)
  obtain s1 x1 where one: "gate_one C now e d (s, x) = (Inr (), (s1, x1))"
    and t1: "touches {d_id d} s s1" and g1: "gated C e d s1"
    using gate_one_run [OF Cons.prems(1)] Cons.prems(3) by (metis list.set_intros(1))
  have ne: "d_id d \<notin> d_id ` set rows" using Cons.prems(2) by simp
  have rest: "\<forall>d'\<in>set rows. d' \<in> set (decisions s1) \<and> d_status d' = Submitted \<and> fits_all s1 d'"
  proof
    fix d' assume d': "d' \<in> set rows"
    with ne have "d_id d' \<notin> {d_id d}" by (auto simp: image_iff)
    with d' Cons.prems(3) fits_touches [OF _ t1] t1
    show "d' \<in> set (decisions s1) \<and> d_status d' = Submitted \<and> fits_all s1 d'"
      by (simp add: touches_def)
  qed
  have "db_wf s1" using t1 by (simp add: touches_def)
  from Cons.IH [OF this _ rest, of x1] Cons.prems(2) obtain s' x' where
    r: "for_each (gate_one C now e) rows (s1, x1) = (Inr (), (s', x'))"
    and t2: "touches (d_id ` set rows) s1 s'" and g2: "\<forall>d\<in>set rows. gated C e d s'" by auto
  have "touches (d_id ` set (d # rows)) s s'" using touches_union [OF t1 t2] by simp
  moreover have "for_each (gate_one C now e) (d # rows) (s, x) = (Inr (), (s', x'))"
    by (simp add: andthen_def one r)
  moreover have "\<forall>d'\<in>set (d # rows). gated C e d' s'" using g2 gated_touches [OF g1 t2 ne] by simp
  ultimately show ?case by blast
qed

lemma run_gate_run:
  assumes "db_wf s" and "tickets_match s" and "clock_now C (s, x) = (Inr now, (s, x1))"
  shows "\<exists>s' x'. run_gate C (s, x) = (Inr (), (s', x')) \<and>
    touches (d_id ` set (submitted_rows (cx_run_date C) s)) s s' \<and>
    (\<forall>d\<in>set (submitted_rows (cx_run_date C) s). gated C (now + TICKET_TTL_MIN * 60) d s')"
proof -
  let ?rows = "submitted_rows (cx_run_date C) s"
  have "mset (map d_id ?rows) = mset (map d_id (filter (\<lambda>d. d_run_date d = cx_run_date C \<and> d_status d = Submitted) (decisions s)))"
    by (simp add: submitted_rows_def)
  moreover have "distinct (map d_id (filter (\<lambda>d. d_run_date d = cx_run_date C \<and> d_status d = Submitted) (decisions s)))"
    using assms(1) by (simp add: db_wf_def unique_on_def distinct_map_filter)
  ultimately have "distinct (map d_id ?rows)" using mset_eq_imp_distinct_iff by metis
  moreover have "\<forall>d\<in>set ?rows. d \<in> set (decisions s) \<and> d_status d = Submitted \<and> fits_all s d"
    using assms(2) by (auto simp: submitted_rows_def tickets_match_def fits_all_def)
  ultimately obtain s' x' where "for_each (gate_one C now (now + TICKET_TTL_MIN * 60)) ?rows (s, x1) = (Inr (), (s', x'))"
    "touches (d_id ` set ?rows) s s'" "\<forall>d\<in>set ?rows. gated C (now + TICKET_TTL_MIN * 60) d s'"
    using gate_rows [where rows = ?rows and C = C and now = now and e = "now + TICKET_TTL_MIN * 60" and x = x1,
        OF assms(1)] by blast
  then show ?thesis by (simp add: run_gate_def andthen_def assms(3) on_db_def)
qed

text \<open>
  C23: the gate settles the day. Whatever the ticket ids, the market inputs and the errors
  met on the way, the stage returns; afterwards no decision of the day is still submitted;
  and a decision of another day, or one that was settled before, is exactly as it was.
\<close>

theorem gate_settles_the_day:
  assumes "db_wf s" and "tickets_match s"
  shows "\<exists>s' x'. run_gate C (s, x) = (Inr (), (s', x')) \<and>
    (\<forall>d\<in>set (decisions s'). d_run_date d = cx_run_date C \<longrightarrow> d_status d \<noteq> Submitted) \<and>
    (\<forall>d\<in>set (decisions s). d_run_date d \<noteq> cx_run_date C \<or> d_status d \<noteq> Submitted \<longrightarrow>
       d \<in> set (decisions s'))"
proof -
  let ?ids = "d_id ` set (submitted_rows (cx_run_date C) s)"
  obtain now x1 where "clock_now C (s, x) = (Inr now, (s, x1))" using clock_now_run [of C s x] by blast
  from run_gate_run [OF assms this] obtain s' x' where r: "run_gate C (s, x) = (Inr (), (s', x'))"
    and t: "touches ?ids s s'"
    and g: "\<forall>d\<in>set (submitted_rows (cx_run_date C) s). gated C (now + TICKET_TTL_MIN * 60) d s'" by blast
  have sub: "d \<in> set (submitted_rows (cx_run_date C) s) \<longleftrightarrow>
      d \<in> set (decisions s) \<and> d_run_date d = cx_run_date C \<and> d_status d = Submitted" for d
    by (auto simp: submitted_rows_def)
  have "d_status d \<noteq> Submitted" if d: "d \<in> set (decisions s')" "d_run_date d = cx_run_date C" for d
  proof (cases "d_id d \<in> ?ids")
    case True
    then obtain d0 where "d0 \<in> set (submitted_rows (cx_run_date C) s)" "d_id d = d_id d0" by blast
    with g d(1) show ?thesis unfolding gated_def by blast
  next
    case False
    with t d(1) have "d \<in> set (decisions s)" by (simp add: touches_def)
    with False d(2) sub show ?thesis by blast
  qed
  moreover have "d \<in> set (decisions s')"
    if d: "d \<in> set (decisions s)" "d_run_date d \<noteq> cx_run_date C \<or> d_status d \<noteq> Submitted" for d
  proof -
    have "d_id d \<notin> ?ids"
    proof
      assume "d_id d \<in> ?ids"
      then obtain d0 where d0: "d0 \<in> set (submitted_rows (cx_run_date C) s)" "d_id d = d_id d0" by blast
      have "unique_on d_id (decisions s)" using assms(1) by (simp add: db_wf_def)
      from unique_onD [OF this d(1) _ d0(2)] d0(1) sub have "d = d0" by blast
      with d(2) d0(1) sub show False by blast
    qed
    with t d(1) show ?thesis by (simp add: touches_def)
  qed
  ultimately show ?thesis using r by blast
qed

text \<open>
  C4: the gate never sizes up. After the stage, an open ticket of a decision that was
  submitted has the decision's symbol and side; its cap is at least one share, at most what
  was asked for and at most what the risk gate approves on the day's inputs; it expires 45
  minutes after the stage began; and its decision is approved.
\<close>

theorem gate_never_sizes_up:
  assumes "db_wf s" and "tickets_match s" and "clock_now C (s, x) = (Inr now, (s, x1))"
    and "run_gate C (s, x) = (r, (s', x'))"
    and "d \<in> set (submitted_rows (cx_run_date C) s)"
    and "t \<in> set (tickets s')" and "t_decision_id t = d_id d" and "t_status t = Open"
  shows "t_ticker t = d_ticker d \<and> t_side t = d_action d \<and> 1 \<le> t_max_qty t \<and> t_max_qty t \<le> d_qty d \<and>
    (\<exists>q pre sd. sized C (inputs_for C (d_ticker d)) (action_str (d_action d)) = Approved q pre sd \<and> t_max_qty t \<le> q) \<and>
    t_expires_at t = now + 45 * 60 \<and> status_of T_decisions (K_id_int (d_id d)) s' = Some Approved_st"
proof -
  from run_gate_run [OF assms(1-3)] assms(4,5) have
    t: "touches (d_id ` set (submitted_rows (cx_run_date C) s)) s s'"
    and g: "gated C (now + TICKET_TTL_MIN * 60) d s'" by auto
  have fit: "ticket_fits d t" and ap: "\<forall>d'\<in>set (decisions s'). d_id d' = d_id d \<longrightarrow> d_status d' = Approved_st"
    and cap: "t_max_qty t = gate_cap C d" "1 \<le> gate_cap C d" "t_expires_at t = now + TICKET_TTL_MIN * 60"
    using g assms(6-8) by (auto simp: gated_def)
  have "d_id d \<in> d_id ` set (decisions s)" using assms(5) by (auto simp: submitted_rows_def)
  also have "d_id ` set (decisions s) = d_id ` set (map erase (decisions s))"
    by (simp add: image_image erase_def)
  also have "\<dots> = d_id ` set (map erase (decisions s'))" using t by (simp only: touches_def)
  also have "\<dots> = d_id ` set (decisions s')" by (simp add: image_image erase_def)
  finally obtain d' where d': "fetchone (\<lambda>e. d_id e = d_id d) (decisions s') = Some d'"
    by (cases "fetchone (\<lambda>e. d_id e = d_id d) (decisions s')") (auto simp: fetchone_None)
  with ap fetchone_SomeD [OF d'] have "status_of T_decisions (K_id_int (d_id d)) s' = Some Approved_st" by simp
  moreover have "\<exists>q pre sd. sized C (inputs_for C (d_ticker d)) (action_str (d_action d)) = Approved q pre sd \<and>
      t_max_qty t \<le> q \<and> t_max_qty t \<le> d_qty d"
    using cap(1,2) by (auto simp: gate_cap_def split: verdict.splits)
  ultimately show ?thesis using fit cap by (auto simp: ticket_fits_def TICKET_TTL_MIN_def)
qed

text \<open>The golden day: NVDA, an ask of 80 against a gate of 66.\<close>

definition golden_ctx :: "unit stage_ctx" where
  "golden_ctx = \<lparr>now_port = (\<lambda>x. (60, x)), render_port = (\<lambda>_ _. Inr PNone), post_port = (\<lambda>_ x. (Inr (), x)),
     cx_run_date = ''2026-08-17'', cx_seats = [''fundamentals''], cx_inputs = [(''NVDA'', [])],
     cx_validate = (\<lambda>_. Inr golden_inputs), cx_turn = (\<lambda>_. None), cx_new_id = (\<lambda>x. (''tk-1'', x)),
     cx_hhmm = (\<lambda>_. ''12:00''), cx_sum = (\<lambda>_. Fin 0), cx_journals = None\<rparr>"

lemma one_decision_match: "tickets_match one_decision"
  by (simp add: tickets_match_def one_decision_def empty_db_def)

lemma golden_clock: "clock_now golden_ctx (s, x) = (Inr 60, (s, x))"
  by (simp add: clock_now_def on_port_def golden_ctx_def)

theorem gate_settles_the_day_witness:
  "\<exists>s' x'. run_gate golden_ctx (one_decision, ()) = (Inr (), (s', x')) \<and>
    (\<forall>d\<in>set (decisions s'). d_run_date d = ''2026-08-17'' \<longrightarrow> d_status d \<noteq> Submitted)"
  using gate_settles_the_day [OF one_decision_wf one_decision_match, of golden_ctx "()"]
  by (auto simp: golden_ctx_def)

theorem gate_never_sizes_up_witness:
  "\<exists>s' x'. run_gate golden_ctx (one_decision, ()) = (Inr (), (s', x')) \<and>
    (\<forall>t\<in>set (tickets s'). t_decision_id t = 1 \<longrightarrow> t_status t = Open \<longrightarrow> t_max_qty t \<le> 80)"
proof -
  obtain s' x' where r: "run_gate golden_ctx (one_decision, ()) = (Inr (), (s', x'))"
    using run_gate_run [OF one_decision_wf one_decision_match golden_clock] by blast
  obtain d where d: "d \<in> set (submitted_rows ''2026-08-17'' one_decision)" "d_id d = 1" "d_qty d = 80"
    by (simp add: submitted_rows_def one_decision_def)
  have "t_max_qty t \<le> 80" if "t \<in> set (tickets s')" "t_decision_id t = 1" "t_status t = Open" for t
    using gate_never_sizes_up [OF one_decision_wf one_decision_match golden_clock r, of d t] d that
    by (simp add: golden_ctx_def)
  with r show ?thesis by blast
qed

text \<open>
  A decision whose ticket was closed by an interrupted rejection (the ticket's
  compare-and-swap done, the decision's not) and which the gate approves on the resumed
  run: the guarded update finds no open ticket, yet the decision becomes approved. No
  order can then be placed for it and no sweep ever expires it.
\<close>

definition half_rejected :: db where
  "half_rejected = one_decision\<lparr>tickets := [golden_ticket\<lparr>t_status := Expired\<rparr>]\<rparr>"

lemma golden_sized: "sized golden_ctx i sd = Approved 66 66 ''buy''"
  using golden_size [of "\<lambda>_. Inr golden_inputs"] by (simp add: sized_def golden_ctx_def size_def)

lemma closed_ticket_still_approved:
  "\<exists>s'. run_gate golden_ctx (half_rejected, ()) = (Inr (), (s', ())) \<and>
    status_of T_decisions (K_id_int 1) s' = Some Approved_st \<and>
    (\<forall>t\<in>set (tickets s'). t_status t \<noteq> Open) \<and> expire_open_tickets now s' = (Inr [], s')"
proof -
  define s1 where "s1 = settle_decision 1 Approved_st half_rejected"
  define s2 where "s2 = append_event ''gate_approved''
     [(''ticket_id'', PStr ''tk-1''), (''ticker'', PStr ''NVDA''), (''side'', PStr ''buy''), (''max_qty'', PInt 66),
      (''expires_hhmm'', PStr ''12:00'')] 60 s1"
  have "submitted_rows ''2026-08-17'' half_rejected = decisions one_decision"
    by (simp add: submitted_rows_def half_rejected_def one_decision_def)
  moreover have "retune_ticket ''tk-1'' 66 e half_rejected = half_rejected" for e
    by (simp add: retune_ticket_def half_rejected_def golden_ticket_def update_where_def)
  moreover have "rowcount (\<lambda>d. d_id d = 1 \<and> d_status d = Submitted) (decisions half_rejected) = 1"
    by (simp add: half_rejected_def one_decision_def rowcount_def)
  moreover have "fetchone (\<lambda>t. t_decision_id t = 1) (tickets half_rejected) = Some (golden_ticket\<lparr>t_status := Expired\<rparr>)"
    by (simp add: half_rejected_def golden_ticket_def)
  moreover have "t_id (golden_ticket\<lparr>t_status := Expired\<rparr>) = ''tk-1''" by (simp add: golden_ticket_def)
  moreover have "cx_run_date golden_ctx = ''2026-08-17''" "cx_hhmm golden_ctx e = ''12:00''" for e
    by (simp_all add: golden_ctx_def)
  ultimately have "run_gate golden_ctx (half_rejected, ()) = (Inr (), (s2, ()))"
    by (simp add: run_gate_def andthen_def golden_clock on_db_def gate_one_def catch_def gate_handle_def
        gate_cap_def golden_sized Let_def try_approve one_decision_def s1_def [symmetric] s2_def)
  moreover have "db_wf half_rejected"
    using one_decision_wf by (simp add: half_rejected_def db_wf_def unique_on_def)
  then have "db_wf s2" by (simp add: s2_def s1_def append_event_wf touches_settle [unfolded touches_def])
  moreover have "status_of T_decisions (K_id_int 1) s2 = Some Approved_st" "\<forall>t\<in>set (tickets s2). t_status t \<noteq> Open"
    by (simp_all add: s2_def s1_def settle_decision_def half_rejected_def one_decision_def update_where_def)
  moreover have "sweep_spec now s2 = s2" "filter (dead now) (tickets s2) = []"
    by (auto intro!: no_dead_sweep_id simp: filter_empty_conv dead_def s2_def s1_def settle_decision_def half_rejected_def)
  ultimately show ?thesis using expire_open_tickets_run [of s2 now] by auto
qed

end
