(* ===== verification/StageProps.thy ===== *)
theory StageProps imports GateStage begin

text \<open>
  The other stages of orchestrator/daily.py: the stage wrapper, pre-gate, research,
  decision, execution and close. The default of every one of them is to hold.
\<close>

section \<open>Loops over writes\<close>

lemma for_each_modify: "for_each (\<lambda>x. modify (g x)) xs s = (Inr (), fold g xs s)"
  by (induction xs arbitrary: s) simp_all

lemma for_each_on_db_modify:
  "for_each (\<lambda>x. on_db (modify (g x))) xs (s, x) = (Inr (), (fold g xs s, x))"
  by (induction xs arbitrary: s) (simp_all add: andthen_def on_db_def)

section \<open>The stage wrapper\<close>

text \<open>A body that leaves the stage's own checkpoint alone and the keys unique.\<close>

definition leaves_checkpoint :: "row_key \<Rightarrow> ('x world, 'a) prog \<Rightarrow> bool" where
  "leaves_checkpoint k body \<longleftrightarrow> (\<forall>s x r s' x'. body (s, x) = (r, (s', x')) \<longrightarrow> db_wf s \<longrightarrow>
     db_wf s' \<and> status_of T_checkpoints k s' = status_of T_checkpoints k s)"

lemma open_checkpoint_wf: "db_wf s \<Longrightarrow> db_wf (open_checkpoint rd stage now s)"
  by (simp add: open_checkpoint_def db_wf_def insert_or_ignore_unique)

lemma open_checkpoint_status:
  "status_of T_checkpoints (K_checkpoint rd stage ''*'') (open_checkpoint rd stage now s) =
    (case status_of T_checkpoints (K_checkpoint rd stage ''*'') s of None \<Rightarrow> Some Pending | Some a \<Rightarrow> Some a)"
proof (cases "(rd, stage, ''*'') \<in> checkpoint_key ` set (checkpoints s)")
  case True
  then have "open_checkpoint rd stage now s = s"
    by (simp add: open_checkpoint_def insert_or_ignore_def checkpoint_key_def)
  moreover have "fetchone (\<lambda>c. checkpoint_key c = (rd, stage, ''*'')) (checkpoints s) \<noteq> None"
    using True by (auto simp: fetchone_None)
  ultimately show ?thesis by auto
next
  case False
  then have "fetchone (\<lambda>c. checkpoint_key c = (rd, stage, ''*'')) (checkpoints s) = None"
    by (auto simp: fetchone_None image_iff)
  with False show ?thesis
    by (simp add: open_checkpoint_def insert_or_ignore_def checkpoint_key_def fetchone_append)
qed

lemma legal_checkpoint:
  "legal_call T_checkpoints (K_checkpoint rd st tk) Pending Running [] None"
  "legal_call T_checkpoints (K_checkpoint rd st tk) Running Done [] None"
  by (simp_all add: legal_call_def EDGES_def VERSIONED_def)

text \<open>A checkpoint move from the status the row is in.\<close>

lemma checkpoint_move:
  assumes "db_wf s" and "status_of T_checkpoints (K_checkpoint rd st tk) s = Some a"
    and "legal_call T_checkpoints (K_checkpoint rd st tk) a b [] None"
  shows "\<exists>s'. try_transition T_checkpoints (K_checkpoint rd st tk) a b now [] None s = (Inr True, s') \<and>
    db_wf s' \<and> status_of T_checkpoints (K_checkpoint rd st tk) s' = Some b"
proof -
  obtain r s' where t: "try_transition T_checkpoints (K_checkpoint rd st tk) a b now [] None s = (r, s')"
    by fastforce
  have r: "r = Inr True"
    using try_transition_iff [OF assms(1), of T_checkpoints "K_checkpoint rd st tk" a b now "[]" None] assms(2,3)
    by (simp add: t VERSIONED_def del: status_of.simps)
  then have "status_of T_checkpoints (K_checkpoint rd st tk) s' = Some b"
    using try_transition_hit [OF assms(1), of T_checkpoints "K_checkpoint rd st tk" a b now "[]" None] t
    by (simp del: status_of.simps)
  moreover have "db_wf s'"
    using try_transition_wf [OF assms(1), of T_checkpoints "K_checkpoint rd st tk" a b now "[]" None] t by simp
  ultimately show ?thesis using t r by blast
qed

lemma run_stage_done:
  assumes "status_of T_checkpoints (stage_key C stage) s = Some Done"
  shows "\<exists>x'. run_stage C stage body (s, x) = (Inr None, (s, x'))"
proof -
  obtain now x1 where c: "clock_now C (s, x) = (Inr now, (s, x1))" using clock_now_run [of C s x] by blast
  from assms obtain r where "fetchone (\<lambda>c. checkpoint_key c = (cx_run_date C, stage, ''*'')) (checkpoints s) = Some r"
    by (auto simp: stage_key_def)
  from fetchone_SomeD [OF this] have "(cx_run_date C, stage, ''*'') \<in> checkpoint_key ` set (checkpoints s)"
    by (metis imageI)
  then have "open_checkpoint (cx_run_date C) stage now s = s"
    by (simp add: open_checkpoint_def insert_or_ignore_def checkpoint_key_def)
  with assms show ?thesis
    by (simp add: run_stage_def andthen_def c on_db_def del: status_of.simps)
qed

text \<open>
  Before the body, the checkpoint is running (or failed, from where nothing moves it).
\<close>

lemma run_stage_start:
  assumes "db_wf s" and "status_of T_checkpoints (stage_key C stage) s \<in> {None, Some Pending, Some Running}"
  shows "\<exists>s1 x1. db_wf s1 \<and> status_of T_checkpoints (stage_key C stage) s1 = Some Running \<and>
    (\<forall>body. run_stage C stage body (s, x) =
       andthen body (\<lambda>result.
       andthen (clock_now C) (\<lambda>now2.
       andthen (drain_outbox C now2) (\<lambda>_.
       andthen (on_db (try_transition T_checkpoints (stage_key C stage) Running Done now2 [] None)) (\<lambda>_.
       ret (Some result))))) (s1, x1))"
proof -
  obtain now x1 where c: "clock_now C (s, x) = (Inr now, (s, x1))" using clock_now_run [of C s x] by blast
  let ?s0 = "open_checkpoint (cx_run_date C) stage now s"
  have wf0: "db_wf ?s0" by (rule open_checkpoint_wf [OF assms(1)])
  have st0: "status_of T_checkpoints (stage_key C stage) ?s0 \<in> {Some Pending, Some Running}"
    using assms(2) by (auto simp: stage_key_def open_checkpoint_status simp del: status_of.simps)
  show ?thesis
  proof (cases "status_of T_checkpoints (stage_key C stage) ?s0 = Some Pending")
    case True
    from checkpoint_move [OF wf0 True [unfolded stage_key_def] legal_checkpoint(1), of now]
    obtain s1 where "try_transition T_checkpoints (stage_key C stage) Pending Running now [] None ?s0 = (Inr True, s1)"
      "db_wf s1" "status_of T_checkpoints (stage_key C stage) s1 = Some Running"
      unfolding stage_key_def by blast
    then show ?thesis using True
      by (intro exI [of _ s1] exI [of _ x1])
        (simp add: run_stage_def andthen_def c on_db_def del: status_of.simps)
  next
    case False
    with st0 have "status_of T_checkpoints (stage_key C stage) ?s0 = Some Running" by simp
    then show ?thesis using wf0
      by (intro exI [of _ ?s0] exI [of _ x1])
        (simp add: run_stage_def andthen_def c on_db_def del: status_of.simps)
  qed
qed

lemma drain_outbox_run:
  "\<exists>n s' x'. drain_outbox C now (s, x) = (Inr n, (s', x')) \<and> same_rows s s'"
  using drain_outbox_Inr [of C now "(s, x)"] drain_outbox_same [of "(s, x)" C now] by fastforce

text \<open>
  A stage runs to completion once. When its body returns, the checkpoint is done and
  any later run of the stage skips its body, returns \<open>None\<close> and writes nothing; when its
  body raises, the exception propagates and the checkpoint stays running, so the next run
  executes the body again.
\<close>

theorem stage_runs_once:
  assumes "db_wf s" and "status_of T_checkpoints (stage_key C stage) s \<in> {None, Some Pending, Some Running}"
    and "leaves_checkpoint (stage_key C stage) body"
  shows "\<exists>r s' x'. run_stage C stage body (s, x) = (r, (s', x')) \<and>
    (case r of
       Inr v \<Rightarrow> v \<noteq> None \<and> status_of T_checkpoints (stage_key C stage) s' = Some Done \<and>
         (\<forall>body' x2. \<exists>x3. run_stage C stage body' (s', x2) = (Inr (None :: 'b option), (s', x3)))
     | Inl e \<Rightarrow> status_of T_checkpoints (stage_key C stage) s' = Some Running)"
proof -
  obtain s1 x1 where wf1: "db_wf s1" and st1: "status_of T_checkpoints (stage_key C stage) s1 = Some Running"
    and run: "run_stage C stage body (s, x) =
       andthen body (\<lambda>result.
       andthen (clock_now C) (\<lambda>now2.
       andthen (drain_outbox C now2) (\<lambda>_.
       andthen (on_db (try_transition T_checkpoints (stage_key C stage) Running Done now2 [] None)) (\<lambda>_.
       ret (Some result))))) (s1, x1)"
    using run_stage_start [OF assms(1,2), of x] by blast
  obtain rb s2 x2 where b: "body (s1, x1) = (rb, (s2, x2))" by (metis prod_cases3)
  from assms(3) b wf1 st1 have wf2: "db_wf s2" and st2: "status_of T_checkpoints (stage_key C stage) s2 = Some Running"
    unfolding leaves_checkpoint_def by metis+
  show ?thesis
  proof (cases rb)
    case (Inl e)
    with run b st2 show ?thesis by (auto simp: andthen_def simp del: status_of.simps)
  next
    case (Inr v)
    obtain now2 x3 where c: "clock_now C (s2, x2) = (Inr now2, (s2, x3))" using clock_now_run [of C s2 x2] by blast
    obtain n s3 x4 where d: "drain_outbox C now2 (s2, x3) = (Inr n, (s3, x4))" and same: "same_rows s2 s3"
      using drain_outbox_run [of C now2 s2 x3] by blast
    have wf3: "db_wf s3" using same wf2 by (simp add: same_rows_def)
    have st3: "status_of T_checkpoints (stage_key C stage) s3 = Some Running"
      using same_rows_status [OF same] st2 by simp
    from checkpoint_move [OF wf3 st3 [unfolded stage_key_def] legal_checkpoint(2), of now2]
    obtain s4 where m: "try_transition T_checkpoints (stage_key C stage) Running Done now2 [] None s3 = (Inr True, s4)"
      and st4: "status_of T_checkpoints (stage_key C stage) s4 = Some Done"
      unfolding stage_key_def by blast
    have "run_stage C stage body (s, x) = (Inr (Some v), (s4, x4))"
      using Inr b by (simp add: run andthen_def c d on_db_def m del: status_of.simps)
    with st4 run_stage_done [OF st4] show ?thesis by (auto simp del: status_of.simps)
  qed
qed

text \<open>A one-line body, and a day that has not begun.\<close>

theorem stage_runs_once_witness:
  "\<exists>r s' x'. run_stage golden_ctx ''gate'' (ret (7::int)) (empty_db, ()) = (r, (s', x')) \<and>
    (case r of Inr v \<Rightarrow> v \<noteq> None | Inl e \<Rightarrow> False)"
proof -
  have "db_wf empty_db" by (simp add: db_wf_def empty_db_def unique_on_def)
  moreover have "status_of T_checkpoints (stage_key golden_ctx ''gate'') empty_db \<in> {None, Some Pending, Some Running}"
    by (simp add: stage_key_def empty_db_def)
  moreover have "leaves_checkpoint (stage_key golden_ctx ''gate'') (ret (7::int))"
    by (simp add: leaves_checkpoint_def)
  ultimately obtain r s' x' where r: "run_stage golden_ctx ''gate'' (ret (7::int)) (empty_db, ()) = (r, (s', x'))"
    and c: "case r of Inr v \<Rightarrow> v \<noteq> None \<and> status_of T_checkpoints (stage_key golden_ctx ''gate'') s' = Some Done \<and>
         (\<forall>body' x2. \<exists>x3. run_stage golden_ctx ''gate'' body' (s', x2) = (Inr (None :: int option), (s', x3)))
     | Inl e \<Rightarrow> status_of T_checkpoints (stage_key golden_ctx ''gate'') s' = Some Running"
    using stage_runs_once [of empty_db golden_ctx "''gate''" "ret (7::int)" "()"] by blast
  have "\<exists>v. r = Inr v"
    using r drain_outbox_run [of golden_ctx] clock_now_run [of golden_ctx]
    by (auto simp: run_stage_def andthen_def on_db_def golden_clock drain_outbox_def legal_checkpoint
        try_transition_legal stage_key_def split: prod.splits sum.splits option.splits if_splits)
  with r c show ?thesis by auto
qed

section \<open>Pre-gate\<close>

lemma size_Approved_pos: "size v i = Approved q pre sd \<Longrightarrow> 1 \<le> q"
  by (auto simp: size_def size_checked_def size_buy_def res_bind_def Let_def
      split: sum.splits if_splits)

lemma is_approved_qty: "is_approved (sized C i sd) \<longleftrightarrow> approved_qty (sized C i sd) \<noteq> 0"
  using size_Approved_pos [of "cx_validate C"] unfolding sized_def
  by (cases "size (cx_validate C) (Raw ((''side'', PStr sd) # filter (\<lambda>(k, _). k \<noteq> ''side'') i))") fastforce+

definition malformed :: "('x, 'z) stage_ctx_scheme \<Rightarrow> pydict \<Rightarrow> bool" where
  "malformed C i \<longleftrightarrow> sized C i ''buy'' = Rejected ''gate_error'' \<and> sized C i ''sell'' = Rejected ''gate_error''"

lemma pre_gate_one_run:
  "pre_gate_one C now ti acc s =
    (Inr (acc @ (if approved_qty (sized C (snd ti) ''buy'') \<noteq> 0 \<or> approved_qty (sized C (snd ti) ''sell'') \<noteq> 0
                 then [fst ti] else [])),
     if malformed C (snd ti) then alert_for ''gate_error'' (fst ti) now s else s)"
  by (simp add: pre_gate_one_def Let_def is_approved_qty malformed_def)

lemma pre_gate_loop:
  "\<exists>s'. fold_each (pre_gate_one C now) tis acc s =
     (Inr (acc @ map fst (filter (\<lambda>(t, b, sl). b \<noteq> 0 \<or> sl \<noteq> 0)
        (map (\<lambda>(t, i). (t, approved_qty (sized C i ''buy''), approved_qty (sized C i ''sell''))) tis))), s') \<and>
     same_rows s s' \<and>
     alert_codes s' = alert_codes s @ replicate (length (filter (\<lambda>ti. malformed C (snd ti)) tis)) (PStr ''gate_error'')"
proof (induction tis arbitrary: acc s)
  case (Cons ti tis)
  let ?s1 = "if malformed C (snd ti) then alert_for ''gate_error'' (fst ti) now s else s"
  obtain t i where ti: "ti = (t, i)" by fastforce
  have "same_rows s ?s1" by (simp add: same_rows_refl same_rows_alert)
  then show ?case
    using Cons.IH [of "acc @ (if approved_qty (sized C i ''buy'') \<noteq> 0 \<or> approved_qty (sized C i ''sell'') \<noteq> 0 then [t] else [])" ?s1]
    by (auto simp: andthen_def pre_gate_one_run ti intro: same_rows_trans)
qed (simp add: same_rows_refl)

lemma offer_row:
  "set (offered (offer rd now a s)) \<subseteq> insert \<lparr>f_run_date = rd, f_ticker = a, f_created_at = now\<rparr> (set (offered s))"
  "set (offered s) \<subseteq> set (offered (offer rd now a s))"
  "(rd, a) \<in> (\<lambda>f. (f_run_date f, f_ticker f)) ` set (offered (offer rd now a s))"
  using insert_or_ignore_key [of "\<lambda>f. (f_run_date f, f_ticker f)" "\<lparr>f_run_date = rd, f_ticker = a, f_created_at = now\<rparr>" "offered s"]
  by (simp_all add: offer_def insert_or_ignore_set insert_or_ignore_keeps)

lemma offer_only: "f \<in> set (offered (offer rd now a s)) \<Longrightarrow> f \<notin> set (offered s) \<Longrightarrow> f_run_date f = rd \<and> f_ticker f = a"
  using offer_row(1) [of rd now a s] by fastforce

lemma fold_offer_only:
  "f \<in> set (offered (fold (offer rd now) ts s)) \<Longrightarrow> f \<notin> set (offered s) \<Longrightarrow> f_run_date f = rd \<and> f_ticker f \<in> set ts"
proof (induction ts arbitrary: s)
  case (Cons a ts)
  then show ?case
    using offer_only [of f rd now a s] by (cases "f \<in> set (offered (offer rd now a s))") auto
qed simp

lemma fold_offer_keeps: "set (offered s) \<subseteq> set (offered (fold (offer rd now) ts s))"
proof (induction ts arbitrary: s)
  case (Cons a ts)
  from Cons.IH [of "offer rd now a s"] offer_row(2) [of s rd now a] show ?case by auto
qed simp

lemma fold_offer_all:
  "t \<in> set ts \<Longrightarrow> (rd, t) \<in> (\<lambda>f. (f_run_date f, f_ticker f)) ` set (offered (fold (offer rd now) ts s))"
proof (induction ts arbitrary: s)
  case (Cons a ts)
  show ?case
  proof (cases "t = a")
    case True
    with offer_row(3) [of rd a now s] fold_offer_keeps [of "offer rd now a s" rd now ts] show ?thesis by auto
  next
    case False
    with Cons show ?thesis by simp
  qed
qed simp

text \<open>
  What the desks are offered is what the snapshot shows. The pre-gate stage returns
  exactly the tickers \<open>run_pre_gate\<close> computes (so a resumed day that recomputes them
  disagrees in nothing), writes an \<open>offered\<close> row for each and for no other ticker, and
  raises one alert for each ticker whose two shapes were both refused as malformed.
\<close>

theorem pre_gate_offers_the_snapshot:
  "\<exists>s' x'. pre_gate_stage C (s, x) = (Inr (run_pre_gate C), (s', x')) \<and>
    (\<forall>t\<in>set (run_pre_gate C). \<exists>f\<in>set (offered s'). f_run_date f = cx_run_date C \<and> f_ticker f = t) \<and>
    (\<forall>f\<in>set (offered s'). f \<in> set (offered s) \<or> f_run_date f = cx_run_date C \<and> f_ticker f \<in> set (run_pre_gate C)) \<and>
    alert_codes s' = alert_codes s
      @ replicate (length (filter (\<lambda>ti. malformed C (snd ti)) (cx_inputs C))) (PStr ''gate_error'')"
proof -
  obtain now x1 where c: "clock_now C (s, x) = (Inr now, (s, x1))" using clock_now_run [of C s x] by blast
  obtain s1 where l: "fold_each (pre_gate_one C now) (cx_inputs C) [] s = (Inr (run_pre_gate C), s1)"
    and same: "same_rows s s1"
    and al: "alert_codes s1 = alert_codes s
      @ replicate (length (filter (\<lambda>ti. malformed C (snd ti)) (cx_inputs C))) (PStr ''gate_error'')"
    using pre_gate_loop [of C now "cx_inputs C" "[]" s] by (auto simp: run_pre_gate_def allowed_actions_def)
  let ?s2 = "fold (offer (cx_run_date C) now) (run_pre_gate C) s1"
  have "pre_gate_stage C (s, x) = (Inr (run_pre_gate C), (?s2, x1))"
    by (simp add: pre_gate_stage_def andthen_def c on_db_def l for_each_modify)
  moreover have "alert_codes (fold (offer rd n) ts s') = alert_codes s'" for rd n ts s'
    by (induction ts arbitrary: s') (simp_all add: offer_def alert_codes_def)
  moreover have "offered s1 = offered s" using same by (simp add: same_rows_def)
  ultimately show ?thesis
    using al fold_offer_only [of _ "cx_run_date C" now "run_pre_gate C" s1]
      fold_offer_all [of _ "run_pre_gate C" "cx_run_date C" now s1]
    by fastforce
qed

theorem pre_gate_offers_the_snapshot_witness:
  "\<exists>s' x'. pre_gate_stage golden_ctx (empty_db, ()) = (Inr [''NVDA''], (s', x')) \<and>
    (\<exists>f\<in>set (offered s'). f_run_date f = ''2026-08-17'' \<and> f_ticker f = ''NVDA'')"
proof -
  have a: "run_pre_gate golden_ctx = [''NVDA'']"
    by (simp add: run_pre_gate_def allowed_actions_def golden_sized) (simp add: golden_ctx_def)
  have "cx_run_date golden_ctx = ''2026-08-17''" by (simp add: golden_ctx_def)
  with a pre_gate_offers_the_snapshot [of golden_ctx empty_db "()"] show ?thesis by auto
qed

section \<open>Research\<close>

lemma fold_default_signals:
  "\<exists>new. signals (fold (add_default_signal rd now) ps s) = signals s @ new \<and>
     set new \<subseteq> default_signal rd now ` set ps \<and>
     (\<forall>p\<in>set ps. p \<in> set (covered rd (fold (add_default_signal rd now) ps s)))"
proof (induction ps arbitrary: s)
  case (Cons p ps)
  let ?s1 = "add_default_signal rd now p s"
  obtain new where new: "signals (fold (add_default_signal rd now) ps ?s1) = signals ?s1 @ new"
    "set new \<subseteq> default_signal rd now ` set ps"
    "\<forall>q\<in>set ps. q \<in> set (covered rd (fold (add_default_signal rd now) ps ?s1))" using Cons.IH [of ?s1] by blast
  obtain one where one: "signals ?s1 = signals s @ one" "set one \<subseteq> {default_signal rd now p}"
    by (cases "signal_key (default_signal rd now p) \<in> signal_key ` set (signals s)")
      (simp_all add: add_default_signal_def insert_or_ignore_def)
  have "signal_key (default_signal rd now p) \<in> signal_key ` set (signals ?s1)"
    using insert_or_ignore_key [of signal_key "default_signal rd now p" "signals s"]
    by (simp add: add_default_signal_def)
  then have "p \<in> set (covered rd ?s1)"
    by (auto simp: covered_def signal_key_def default_signal_def image_iff)
  then have "p \<in> set (covered rd (fold (add_default_signal rd now) ps ?s1))"
    using new(1) by (auto simp: covered_def)
  with new one show ?case by (intro exI [of _ "one @ new"]) auto
qed simp

text \<open>The stage without its turn: the rows it adds, and what they cover.\<close>

definition no_turn :: "('x, 'z) stage_ctx_scheme \<Rightarrow> ('x, 'z) stage_ctx_scheme" where
  "no_turn C = C\<lparr>cx_turn := (\<lambda>_. None)\<rparr>"

lemma no_turn_sel [simp]:
  "cx_run_date (no_turn C) = cx_run_date C" "cx_seats (no_turn C) = cx_seats C" "cx_turn (no_turn C) st = None"
  "clock_now (no_turn C) = clock_now C" "wanted_pairs (no_turn C) active = wanted_pairs C active"
  by (simp_all add: no_turn_def clock_now_def wanted_pairs_def)

lemma research_no_turn:
  assumes "cx_seats C \<noteq> []"
  shows "\<exists>s' x' new now. run_research (no_turn C) active (s, x) = (Inr (), (s', x')) \<and>
    signals s' = signals s @ new \<and> set new \<subseteq> range (default_signal (cx_run_date C) now) \<and>
    set (wanted_pairs C active) \<subseteq> set (covered (cx_run_date C) s')"
proof -
  obtain now x1 where c: "clock_now C (s, x) = (Inr now, (s, x1))" using clock_now_run [of C s x] by blast
  let ?ps = "filter (\<lambda>p. p \<notin> set (covered (cx_run_date C) s)) (wanted_pairs C active)"
  let ?s' = "fold (add_default_signal (cx_run_date C) now) ?ps s"
  obtain new where new: "signals ?s' = signals s @ new" "set new \<subseteq> default_signal (cx_run_date C) now ` set ?ps"
    "\<forall>p\<in>set ?ps. p \<in> set (covered (cx_run_date C) ?s')" using fold_default_signals by blast
  have "set (covered (cx_run_date C) s) \<subseteq> set (covered (cx_run_date C) ?s')"
    using new(1) by (auto simp: covered_def)
  with new(3) have "set (wanted_pairs C active) \<subseteq> set (covered (cx_run_date C) ?s')" by auto
  moreover have "run_research (no_turn C) active (s, x) = (Inr (), (?s', x1))"
    using assms by (simp add: run_research_def Let_def andthen_def on_db_def c for_each_on_db_modify)
  ultimately show ?thesis using new(1,2) by blast
qed

lemma research_after_turn:
  assumes "cx_seats C \<noteq> []" and "cx_turn C ''research'' = Some turn"
    and "\<not> set (wanted_pairs C active) \<subseteq> set (covered (cx_run_date C) s)" and "turn (s, x) = (Inr (), (s1, x1))"
  shows "run_research C active (s, x) = run_research (no_turn C) active (s1, x1)"
  using assms by (simp add: run_research_def Let_def andthen_def on_db_def)

lemma research_covered:
  assumes "set (wanted_pairs C active) \<subseteq> set (covered (cx_run_date C) s)"
  shows "run_research C active (s, x) = run_research (no_turn C) active (s, x)"
  using assms
  by (cases "cx_turn C ''research''") (simp_all add: run_research_def Let_def andthen_def on_db_def)

text \<open>
  Silence is neutral. When the research stage returns, every seat has a signal on every
  active ticker; the rows the stage itself added are neutral with confidence zero and
  carry no charter; and they were added after, never instead of, what the seats wrote. A
  day whose pairs are all covered already does not run the turn at all.
\<close>

theorem research_defaults_to_neutral:
  assumes "run_research C active (s, x) = (Inr (), (s', x'))"
  shows "set (wanted_pairs C active) \<subseteq> set (covered (cx_run_date C) s') \<and>
    (\<exists>s1 x1 new. (case cx_turn C ''research'' of
          Some turn \<Rightarrow> if set (wanted_pairs C active) \<subseteq> set (covered (cx_run_date C) s) then s1 = s
                        else turn (s, x) = (Inr (), (s1, x1))
        | None \<Rightarrow> s1 = s) \<and>
      signals s' = signals s1 @ new \<and>
      (\<forall>g\<in>set new. sg_direction g = Neutral \<and> sg_confidence g = 0 \<and> sg_charter g = ''none''))"
proof -
  have seats: "cx_seats C \<noteq> []" using assms by (auto simp: run_research_def)
  have fin: "set (wanted_pairs C active) \<subseteq> set (covered (cx_run_date C) s') \<and>
      (\<exists>new. signals s' = signals s1 @ new \<and>
      (\<forall>g\<in>set new. sg_direction g = Neutral \<and> sg_confidence g = 0 \<and> sg_charter g = ''none''))"
    if "run_research (no_turn C) active (s1, x1) = (Inr (), (s', x'))" for s1 x1
    using research_no_turn [OF seats, of active s1 x1] that by (fastforce simp: default_signal_def)
  show ?thesis
  proof (cases "cx_turn C ''research''")
    case None
    then have "run_research C active (s, x) = run_research (no_turn C) active (s, x)"
      by (simp add: run_research_def Let_def andthen_def on_db_def)
    with assms fin [of s x] None show ?thesis by auto
  next
    case (Some turn)
    show ?thesis
    proof (cases "set (wanted_pairs C active) \<subseteq> set (covered (cx_run_date C) s)")
      case True
      with assms research_covered [OF True] fin [of s x] Some show ?thesis by auto
    next
      case False
      obtain r s1 x1 where t: "turn (s, x) = (r, (s1, x1))" by (metis prod_cases3)
      have "r = Inr ()"
        using assms seats Some False t by (cases r) (auto simp: run_research_def Let_def andthen_def on_db_def)
      with t research_after_turn [OF seats Some False] assms fin [of s1 x1] Some False show ?thesis by auto
    qed
  qed
qed

theorem research_defaults_to_neutral_witness:
  "\<exists>s' x'. run_research golden_ctx [''NVDA''] (empty_db, ()) = (Inr (), (s', x')) \<and>
    (''fundamentals'', ''NVDA'') \<in> set (covered ''2026-08-17'' s')"
proof -
  have "cx_seats golden_ctx \<noteq> []" by (simp add: golden_ctx_def)
  from research_no_turn [OF this, of "[''NVDA'']" empty_db "()"] obtain s' x'
    where "run_research (no_turn golden_ctx) [''NVDA''] (empty_db, ()) = (Inr (), (s', x'))" by blast
  then have r: "run_research golden_ctx [''NVDA''] (empty_db, ()) = (Inr (), (s', x'))"
    by (simp add: no_turn_def golden_ctx_def)
  from research_defaults_to_neutral [OF r] r show ?thesis
    by (auto simp: wanted_pairs_def golden_ctx_def)
qed

section \<open>Decision\<close>

definition has_critique :: "date \<Rightarrow> db \<Rightarrow> string \<Rightarrow> bool" where
  "has_critique rd s t \<longleftrightarrow> (\<exists>c\<in>set (critiques s). cq_run_date c = rd \<and> cq_ticker c = t)"

definition add_critique :: "date \<Rightarrow> string \<Rightarrow> time \<Rightarrow> string \<Rightarrow> db \<Rightarrow> db" where
  "add_critique rd note now t s = s\<lparr>critiques := fst (insert_or_ignore (\<lambda>c. (cq_run_date c, cq_ticker c))
        (default_critique rd note now t) (critiques s))\<rparr>"

lemma fold_add_critique:
  "decisions (fold (add_critique rd note now) ts s) = decisions s \<and>
   alert_codes (fold (add_critique rd note now) ts s) = alert_codes s \<and>
   (has_critique rd s t \<or> t \<in> set ts \<longrightarrow> has_critique rd (fold (add_critique rd note now) ts s) t)"
proof (induction ts arbitrary: s)
  case (Cons a ts)
  have "has_critique rd (add_critique rd note now a s) t" if "has_critique rd s t \<or> t = a"
    using that insert_or_ignore_keeps [of "critiques s" "\<lambda>c. (cq_run_date c, cq_ticker c)" "default_critique rd note now a"]
      insert_or_ignore_key [of "\<lambda>c. (cq_run_date c, cq_ticker c)" "default_critique rd note now a" "critiques s"]
    by (fastforce simp: has_critique_def add_critique_def default_critique_def)
  then show ?case using Cons.IH [of "add_critique rd note now a s"]
    by (auto simp: add_critique_def alert_codes_def)
qed simp

lemma insert_default_critiques_run:
  "insert_default_critiques rd ts note now s = (Inr (), fold (add_critique rd note now) ts s)"
  by (simp add: insert_default_critiques_def add_critique_def [abs_def] for_each_modify)

definition hold_default :: "decision \<Rightarrow> bool" where
  "hold_default d \<longleftrightarrow> d_action d = Hold \<and> d_qty d = 0 \<and> d_status d = Submitted \<and> d_charter d = ''none''"

lemma default_decision_run:
  "default_decision rd now t s = (Inr (), if decided rd t s then s else
     (alert ''pm_timeout'' now s)\<lparr>decisions := decisions s @ [hold_decision rd now t (next_id d_id (decisions s))]\<rparr>)"
  by (simp add: default_decision_def whenever_def)

lemma default_decisions_run:
  "\<exists>s' new. for_each (\<lambda>t. on_db (default_decision rd now t)) ts (s, x) = (Inr (), (s', x)) \<and>
     decisions s' = decisions s @ new \<and> (\<forall>d\<in>set new. hold_default d \<and> d_run_date d = rd) \<and>
     (\<forall>t\<in>set ts. decided rd t s') \<and>
     alert_codes s' = alert_codes s @ replicate (length new) (PStr ''pm_timeout'')"
proof (induction ts arbitrary: s)
  case Nil
  show ?case by (intro exI [of _ s] exI [of _ "[]"]) simp
next
  case (Cons t ts)
  obtain s1 one where s1: "default_decision rd now t s = (Inr (), s1)" "decisions s1 = decisions s @ one"
    "\<forall>d\<in>set one. hold_default d \<and> d_run_date d = rd" "decided rd t s1"
    "alert_codes s1 = alert_codes s @ replicate (length one) (PStr ''pm_timeout'')"
  proof (cases "decided rd t s")
    case True
    then show ?thesis using that [of s "[]"] by (simp add: default_decision_run)
  next
    case False
    let ?d = "hold_decision rd now t (next_id d_id (decisions s))"
    have "alert_codes ((alert ''pm_timeout'' now s)\<lparr>decisions := decisions s @ [?d]\<rparr>) = alert_codes (alert ''pm_timeout'' now s)"
      by (simp add: alert_codes_def)
    then show ?thesis
      using False that [of "(alert ''pm_timeout'' now s)\<lparr>decisions := decisions s @ [?d]\<rparr>" "[?d]"]
      by (simp add: default_decision_run hold_default_def hold_decision_def decided_def)
  qed
  obtain s' new where s': "for_each (\<lambda>t. on_db (default_decision rd now t)) ts (s1, x) = (Inr (), (s', x))"
    "decisions s' = decisions s1 @ new" "\<forall>d\<in>set new. hold_default d \<and> d_run_date d = rd"
    "\<forall>t\<in>set ts. decided rd t s'" "alert_codes s' = alert_codes s1 @ replicate (length new) (PStr ''pm_timeout'')"
    using Cons.IH by blast
  have "decided rd t s'" using s1(4) s'(2) by (simp add: decided_def)
  then show ?case
    using s1 s' by (intro exI [of _ s'] exI [of _ "one @ new"])
      (auto simp: andthen_def on_db_pair replicate_add)
qed

text \<open>
  No decision is a hold. The PM's turn finds a critique on every active ticker (without
  one every submission would be refused); when the stage returns, every active ticker has a
  decision; the decisions the stage itself added are holds of zero shares that carry no
  charter; and each of them raised one \<open>pm_timeout\<close> alert.
\<close>

theorem decision_defaults_to_hold:
  assumes "run_decision C active (s, x) = (Inr (), (s', x'))"
  shows "(\<forall>t\<in>set active. decided (cx_run_date C) t s') \<and>
    (\<exists>s0 x0 s1 x1 new. (\<forall>t\<in>set active. has_critique (cx_run_date C) s0 t) \<and> decisions s0 = decisions s \<and>
      (case cx_turn C ''decision'' of Some turn \<Rightarrow> turn (s0, x0) = (Inr (), (s1, x1)) | None \<Rightarrow> s1 = s0) \<and>
      decisions s' = decisions s1 @ new \<and> (\<forall>d\<in>set new. hold_default d) \<and>
      alert_codes s' = alert_codes s1 @ replicate (length new) (PStr ''pm_timeout''))"
proof -
  obtain now x0 where c: "clock_now C (s, x) = (Inr now, (s, x0))" using clock_now_run [of C s x] by blast
  define s0 where "s0 = fold (add_critique (cx_run_date C) ''no_critic_seat'' now) active s"
  have crit: "\<forall>t\<in>set active. has_critique (cx_run_date C) s0 t" and dec: "decisions s0 = decisions s"
    using fold_add_critique by (auto simp: s0_def)
  obtain r s1 x1 where t: "(case cx_turn C ''decision'' of None \<Rightarrow> ret () | Some turn \<Rightarrow> turn) (s0, x0) = (r, (s1, x1))"
    by (metis prod_cases3)
  obtain now2 x2 where c2: "clock_now C (s1, x1) = (Inr now2, (s1, x2))" using clock_now_run [of C s1 x1] by blast
  have "run_decision C active (s, x) = andthen (case cx_turn C ''decision'' of None \<Rightarrow> ret () | Some turn \<Rightarrow> turn) (\<lambda>_.
     andthen (clock_now C) (\<lambda>now2. for_each (\<lambda>t. on_db (default_decision (cx_run_date C) now2 t)) active)) (s0, x0)"
    unfolding run_decision_def
    by (subst andthen_def) (simp add: c, subst andthen_def, simp add: on_db_pair insert_default_critiques_run s0_def)
  with assms t c2 have r: "r = Inr ()"
    and loop: "for_each (\<lambda>t. on_db (default_decision (cx_run_date C) now2 t)) active (s1, x2) = (Inr (), (s', x'))"
    by (auto simp: andthen_def split: sum.splits)
  from default_decisions_run [of "cx_run_date C" now2 active s1 x2] loop obtain new where
    new: "decisions s' = decisions s1 @ new" "\<forall>d\<in>set new. hold_default d"
      "\<forall>t\<in>set active. decided (cx_run_date C) t s'"
      "alert_codes s' = alert_codes s1 @ replicate (length new) (PStr ''pm_timeout'')" by auto
  from t r have "case cx_turn C ''decision'' of Some turn \<Rightarrow> turn (s0, x0) = (Inr (), (s1, x1)) | None \<Rightarrow> s1 = s0"
    by (auto split: option.splits)
  with crit dec new show ?thesis by blast
qed

theorem decision_defaults_to_hold_witness:
  "\<exists>s' x'. run_decision golden_ctx [''NVDA'', ''AAPL''] (one_decision, ()) = (Inr (), (s', x')) \<and>
    decided ''2026-08-17'' ''AAPL'' s'"
proof -
  have c: "clock_now golden_ctx (s, x) = (Inr 60, (s, x))" for s x by (rule golden_clock)
  have t: "cx_turn golden_ctx st = None" "cx_run_date golden_ctx = ''2026-08-17''" for st
    by (simp_all add: golden_ctx_def)
  obtain s' where r: "run_decision golden_ctx [''NVDA'', ''AAPL''] (one_decision, ()) = (Inr (), (s', ()))"
    using default_decisions_run [of "''2026-08-17''" 60 "[''NVDA'', ''AAPL'']"
      "fold (add_critique ''2026-08-17'' ''no_critic_seat'' 60) [''NVDA'', ''AAPL''] one_decision" "()"]
    by (auto simp: run_decision_def andthen_def on_db_pair insert_default_critiques_run c t)
  from decision_defaults_to_hold [OF r] r t show ?thesis by auto
qed

section \<open>Execution\<close>

lemma fold_alerts:
  "same_rows s (fold (\<lambda>t. alert c now) ts s) \<and>
   alert_codes (fold (\<lambda>t. alert c now) ts s) = alert_codes s @ replicate (length ts) (PStr c)"
proof (induction ts arbitrary: s)
  case (Cons t ts)
  from Cons.IH [of "alert c now s"] same_rows_trans [OF same_rows_alert] show ?case by auto
qed (simp add: same_rows_refl)

lemma alert_unexecuted_run:
  "\<exists>s' x'. alert_unexecuted_tickets C (s, x) = (Inr (), (s', x')) \<and> same_rows s s' \<and>
     alert_codes s' = alert_codes s @
       replicate (length (open_tickets_without_orders s)) (PStr ''ticket_open_after_exec'')"
proof -
  obtain now x1 where c: "clock_now C (s, x) = (Inr now, (s, x1))" using clock_now_run [of C s x] by blast
  show ?thesis
    using fold_alerts [of s "''ticket_open_after_exec''" now "open_tickets_without_orders s"]
    by (simp add: alert_unexecuted_tickets_def andthen_def c on_db_pair
        for_each_on_db_modify [where g = "\<lambda>t. alert ''ticket_open_after_exec'' now"])
qed

lemma sweep_ids_keep_closed:
  "t \<in> set (tickets (sweep_ids ts ds s)) \<Longrightarrow> t_status t = Open \<Longrightarrow> t \<in> set (tickets s)"
  by (auto simp: sweep_ids_def set_update_where)

text \<open>
  C32: a turn that placed nothing is never silent, and a hold day spends nothing. When the
  execution body returns, it has raised one alert for each ticket that is still open and
  has no order of its id, whatever the clock says and whatever other tickets' orders
  exist, and changed no row after the turn; and when no ticket is open at its start the
  turn is not run at all, so that no row of any workflow table changes.
\<close>

theorem execution_is_never_silent:
  assumes "db_wf s" and "execution_body C turn (s, x) = (Inr (), (s', x'))"
  shows "(\<exists>s1. same_rows s1 s' \<and> alert_codes s' = alert_codes s1 @
       replicate (length (open_tickets_without_orders s1)) (PStr ''ticket_open_after_exec'')) \<and>
    ((\<forall>t\<in>set (tickets s). t_status t \<noteq> Open) \<longrightarrow> same_rows s s' \<and> alert_codes s' = alert_codes s)"
proof -
  obtain now x1 where c: "clock_now C (s, x) = (Inr now, (s, x1))" using clock_now_run [of C s x] by blast
  let ?s1 = "sweep_spec now s"
  define mid where "mid = (case turn of None \<Rightarrow> ret ()
      | Some t \<Rightarrow> andthen (clock_now C) (\<lambda>now2. andthen (on_db (gets (open_tickets now2)))
          (\<lambda>ts. whenever (ts \<noteq> []) t)))"
  have run: "execution_body C turn (s, x) = andthen mid (\<lambda>_. alert_unexecuted_tickets C) (?s1, x1)"
    unfolding execution_body_def mid_def [symmetric]
    by (subst andthen_def) (simp add: c, subst andthen_def, simp add: on_db_pair expire_open_tickets_run [OF assms(1)])
  with assms(2) obtain s2 x2 where m: "mid (?s1, x1) = (Inr (), (s2, x2))"
    and a: "alert_unexecuted_tickets C (s2, x2) = (Inr (), (s', x'))" by (auto simp: andthen_Inr)
  from alert_unexecuted_run [of C s2 x2] a have same: "same_rows s2 s'"
    and al: "alert_codes s' = alert_codes s2 @
      replicate (length (open_tickets_without_orders s2)) (PStr ''ticket_open_after_exec'')" by auto
  have "same_rows s s' \<and> alert_codes s' = alert_codes s" if no: "\<forall>t\<in>set (tickets s). t_status t \<noteq> Open"
  proof -
    have "?s1 = s" by (rule no_dead_sweep_id) (use no in \<open>auto simp: dead_def\<close>)
    moreover have "open_tickets now2 s = []" for now2
      using no by (auto simp: open_tickets_def filter_empty_conv)
    ultimately have "s2 = s"
      using m clock_now_db by (fastforce simp: mid_def andthen_def on_db_pair whenever_def split: option.splits sum.splits prod.splits)
    moreover have "filter (\<lambda>t. t_status t = Open \<and>
        \<not> list_ex (\<lambda>q. o_client_order_id q = t_id t) (orders s)) (tickets s) = []"
      using no by (simp add: filter_empty_conv)
    then have "open_tickets_without_orders s = []" by (simp add: open_tickets_without_orders_def)
    ultimately show ?thesis using same al by simp
  qed
  with same al show ?thesis by blast
qed

theorem execution_is_never_silent_witness:
  "\<exists>s' x'. execution_body golden_ctx None (golden_db, ()) = (Inr (), (s', x')) \<and>
    (\<exists>s1. same_rows s1 s' \<and> alert_codes s' = alert_codes s1 @
       replicate (length (open_tickets_without_orders s1)) (PStr ''ticket_open_after_exec''))"
proof -
  obtain s' x' where r: "execution_body golden_ctx None (golden_db, ()) = (Inr (), (s', x'))"
    using alert_unexecuted_run [of golden_ctx "sweep_spec 60 golden_db" "()"]
    by (auto simp: execution_body_def andthen_def golden_clock on_db_pair expire_open_tickets_run [OF golden_db_wf])
  from execution_is_never_silent [OF golden_db_wf r] r show ?thesis by blast
qed

section \<open>Close\<close>

lemma contains_append: "contains pat xs \<Longrightarrow> contains pat (ys @ xs)"
  by (induction ys) auto

lemma contains_prefix: "contains pat (pat @ xs)"
proof (cases "pat @ xs")
  case (Cons a ys)
  then have "take (length pat) (a # ys) = pat" by (metis append_eq_conv_conj)
  with Cons show ?thesis by simp
qed simp

lemma contains_more: "contains pat xs \<Longrightarrow> contains pat (xs @ ys)"
proof (induction xs)
  case Nil
  then show ?case using contains_prefix [of "[]" ys] by simp
next
  case (Cons x xs)
  show ?case
  proof (cases "take (length pat) (x # xs) = pat")
    case True
    then have "length pat \<le> length (x # xs)" by (metis length_take min.cobounded1 min.absorb_iff2 min.commute)
    with True have "take (length pat) ((x # xs) @ ys) = pat" by (metis append_Nil2 diff_is_0_eq take0 take_append)
    then show ?thesis by simp
  next
    case False
    with Cons show ?thesis by simp
  qed
qed

text \<open>Seat \<open>a\<close> has its line for the day.\<close>

definition journaled :: "string \<Rightarrow> string \<Rightarrow> files \<Rightarrow> bool" where
  "journaled a rd f \<longleftrightarrow> (\<exists>old. f a = Some old \<and> contains (''## '' @ rd @ nl) old)"

lemma append_once_journaled: "journaled a rd (append_entry_once a rd txt f)"
proof -
  have "contains (''## '' @ rd @ nl) (entry_text rd txt)"
    using contains_append [OF contains_prefix [of "''## '' @ rd @ nl" "txt @ nl"], of nl]
    by (simp add: entry_text_def)
  moreover from this have "contains (''## '' @ rd @ nl) (old @ entry_text rd txt)" for old by (rule contains_append)
  ultimately show ?thesis
    by (auto simp: append_entry_once_def journaled_def append_entry_def split: option.splits)
qed

lemma append_once_keeps: "journaled b rd f \<Longrightarrow> journaled b rd (append_entry_once a rd txt f)"
  by (auto simp: append_entry_once_def journaled_def append_entry_def contains_more split: option.splits)

lemma append_once_done: "journaled a rd f \<Longrightarrow> append_entry_once a rd txt f = f"
  by (auto simp: append_entry_once_def journaled_def)

lemma fold_append_once:
  "(journaled b rd f \<or> b \<in> set seats \<longrightarrow> journaled b rd (fold (\<lambda>a. append_entry_once a rd (line a)) seats f))"
  by (induction seats arbitrary: f) (auto simp: append_once_keeps append_once_journaled)

lemma fold_append_done: "(\<forall>a\<in>set seats. journaled a rd f) \<Longrightarrow> fold (\<lambda>a. append_entry_once a rd (line a)) seats f = f"
  by (induction seats) (simp_all add: append_once_done)

lemma write_journals_twice:
  assumes "signal_agents rd s' = signal_agents rd s" and "fill_rows s' rd = fill_rows s rd"
  shows "write_journals line' rd s' (write_journals line rd s f) = write_journals line rd s f"
proof -
  let ?f1 = "fold (\<lambda>a. append_entry_once a rd (line a s)) (signal_agents rd s) f"
  let ?f2 = "append_entry_once ''pm'' rd (line ''pm'' s) ?f1"
  let ?f3 = "write_journals line rd s f"
  have "journaled a rd ?f1" if "a \<in> set (signal_agents rd s)" for a
    using fold_append_once [of a rd f "signal_agents rd s" "\<lambda>a. line a s"] that by blast
  then have "journaled a rd ?f2" if "a \<in> set (signal_agents rd s) \<or> a = ''pm''" for a
    using that append_once_keeps append_once_journaled by blast
  then have j: "journaled a rd ?f3" if "a \<in> set (signal_agents rd s) \<or> a = ''pm''" for a
    using that append_once_keeps by (auto simp: write_journals_def Let_def)
  have e: "fill_rows s rd \<noteq> [] \<Longrightarrow> journaled ''exec'' rd ?f3"
    by (simp add: write_journals_def Let_def append_once_journaled)
  have "fold (\<lambda>a. append_entry_once a rd (line' a s')) (signal_agents rd s) ?f3 = ?f3"
    by (rule fold_append_done) (use j in blast)
  moreover have "append_entry_once ''pm'' rd (line' ''pm'' s') ?f3 = ?f3"
    by (rule append_once_done) (use j in blast)
  moreover have "fill_rows s rd \<noteq> [] \<Longrightarrow> append_entry_once ''exec'' rd (line' ''exec'' s') ?f3 = ?f3"
    by (rule append_once_done [OF e])
  ultimately show ?thesis
    unfolding write_journals_def [of line' rd s'] Let_def assms by simp
qed

lemma run_close_run:
  "\<exists>now x1. clock_now C (s, x) = (Inr now, (s, x1)) \<and>
    run_close C line (s, x) =
     (let s1 = (if digest_posted (cx_run_date C) s then s else append_digest C now s)
      in (Inr (), (s1, case cx_journals C of None \<Rightarrow> x1
           | Some (get, put) \<Rightarrow> put (write_journals line (cx_run_date C) s1 (get x1)) x1)))"
proof -
  obtain now x1 where c: "clock_now C (s, x) = (Inr now, (s, x1))" using clock_now_run [of C s x] by blast
  then show ?thesis
    by (auto simp: run_close_def andthen_def on_db_pair whenever_def Let_def split: option.splits)
qed

lemma digest_posted_append: "digest_posted (cx_run_date C) (append_digest C now s)"
  by (simp add: digest_posted_def append_digest_def dget_def)

text \<open>
  The day closes once. After a close the digest of the day is in the outbox; closing
  again, at any later time and after anything that left the day's signals and fills as
  they were, appends no second digest and adds no second line to any seat's journal.
\<close>

theorem close_is_idempotent:
  assumes "run_close C line (s, x) = (r, (s', x'))"
  shows "r = Inr () \<and> digest_posted (cx_run_date C) s' \<and>
    fst (snd (run_close C line (s', x2))) = s' \<and>
    write_journals line (cx_run_date C) s' (write_journals line (cx_run_date C) s f)
      = write_journals line (cx_run_date C) s f"
proof -
  obtain now x1 where "run_close C line (s, x) =
     (let s1 = (if digest_posted (cx_run_date C) s then s else append_digest C now s)
      in (Inr (), (s1, case cx_journals C of None \<Rightarrow> x1
           | Some (get, put) \<Rightarrow> put (write_journals line (cx_run_date C) s1 (get x1)) x1)))"
    using run_close_run [of C s x line] by blast
  with assms have r: "r = Inr ()" and s': "s' = (if digest_posted (cx_run_date C) s then s else append_digest C now s)"
    by (simp_all add: Let_def)
  then have d: "digest_posted (cx_run_date C) s'" by (simp add: digest_posted_append)
  have "fst (snd (run_close C line (s', x2))) = s'"
    using run_close_run [of C s' x2 line] d by (auto simp: Let_def)
  moreover have "signal_agents (cx_run_date C) s' = signal_agents (cx_run_date C) s"
    "fill_rows s' (cx_run_date C) = fill_rows s (cx_run_date C)"
    by (simp_all add: s' append_digest_def signal_agents_def fill_rows_def order_of_day_def [abs_def])
  ultimately show ?thesis using r d write_journals_twice by blast
qed

theorem close_is_idempotent_witness:
  "fst (snd (run_close golden_ctx (\<lambda>_ _. []) (fst (snd (run_close golden_ctx (\<lambda>_ _. []) (golden_db, ()))), ())))
    = fst (snd (run_close golden_ctx (\<lambda>_ _. []) (golden_db, ())))"
  using close_is_idempotent [of golden_ctx "\<lambda>_ _. []" golden_db "()"] by (metis prod.collapse)

end
