(* ===== verification/FundProps.thy ===== *)
theory FundProps imports FundTools StageProps begin

text \<open>
  What the fund's tools promise: a refused call writes nothing; a decision that left
  \<open>submitted\<close> is irrevocable; a verdict and a reflection are written once; a brief shows
  what its seat is granted and names what it could not build; and no client, whatever it
  calls, moves a row off its state machine.
\<close>

section \<open>Running the handlers\<close>

lemma no_run [simp]: "no r s = (Inr (Inl r), s)" by (simp add: no_def)
lemma yes_run [simp]: "yes x s = (Inr (Inr x), s)" by (simp add: yes_def)

lemma parsed_Inl: "parsed caught (Inl e) f s = (if e \<in> set caught then (Inr (Inl (Invalid e)), s) else (Inl e, s))"
  by (simp add: parsed_def)

lemma parsed_Inr [simp]: "parsed caught (Inr m) f = f m"
  by (simp add: parsed_def)

lemma parsed_cases:
  assumes "parsed caught r f s = (x, s')"
  obtains (ok) m where "r = Inr m" and "f m s = (x, s')"
    | (bad) e where "r = Inl e" and "s' = s" and "x = Inr (Inl (Invalid e)) \<or> x = Inl e"
  using assms by (cases r) (auto simp: parsed_Inl split: if_splits)

section \<open>Decisions\<close>

lemma decision_args_InrD:
  assumes "decision_args V a rd = Inr m"
  shows "as_date V rd = Some (dm_run_date m)" "0 \<le> dm_qty m"
    "hold_means_zero (dm_action m) (dm_qty m) (dm_stop_price m)"
    "as_str V (dget a ''ticker'') = Some (dm_ticker m)"
  using assms unfolding decision_args_def parse_decision_def
  by (elim res_bindE; clarsimp simp: dkey_def dget_def split: option.splits; fail)+

lemma handle_submit_decision_cases:
  assumes "handle_submit_decision V seat a rd now ch mo s = (r, s')"
  obtains (kept) "s' = s" and "r \<noteq> Inr (Inr ())"
    | (written) m where "r = Inr (Inr ())" and "can seat ''submit_decision''" and "decision_args V a rd = Inr m"
        and "existing_status (decision_on rd (dm_ticker m) s) = None" and "critique_on rd (dm_ticker m) s"
        and "sql_int (dm_qty m) = Inr (dm_qty m)"
        and "s' = append_event ''decision'' (decision_event seat m) now (upsert_decision m (dm_qty m) ch mo now s)"
proof (cases "can seat ''submit_decision''")
  case False
  then show ?thesis using assms kept by (auto simp: handle_submit_decision_def)
next
  case True
  from assms have "parsed [ValidationError, KeyError, TypeError] (decision_args V a rd) (\<lambda>m.
        andthen (gets (decision_on rd (dm_ticker m))) (\<lambda>existing.
        case existing_status existing of
          Some st \<Rightarrow> no (Irrevocable st)
        | None \<Rightarrow>
            andthen (gets (critique_on rd (dm_ticker m))) (\<lambda>crit. if \<not> crit then no No_critique else
            andthen (lift_res (sql_int (dm_qty m))) (\<lambda>q.
            andthen (modify (upsert_decision m q ch mo now)) (\<lambda>_.
            andthen (modify (append_event ''decision'' (decision_event seat m) now)) (\<lambda>_. yes ())))))) s = (r, s')"
    using True by (simp add: handle_submit_decision_def)
  then show ?thesis
  proof (cases rule: parsed_cases)
    case (ok m)
    show ?thesis
    proof (cases "existing_status (decision_on rd (dm_ticker m) s) = None \<and> critique_on rd (dm_ticker m) s \<and>
        sql_int (dm_qty m) = Inr (dm_qty m)")
      case True
      then show ?thesis using ok \<open>can seat _\<close> written by simp
    next
      case False
      then show ?thesis using ok kept
        by (auto simp: sql_int_def andthen_def split: option.splits if_splits)
    qed
  qed (use kept in auto)
qed

lemma decision_on_iff: "decision_on rd tk s = None \<longleftrightarrow> (\<forall>d\<in>set (decisions s). \<not> (d_run_date d = rd \<and> d_ticker d = tk))"
  by (auto simp: decision_on_def fetchone_None)

lemma upsert_decision_rows:
  "d \<in> set (decisions s) \<Longrightarrow> \<not> (d_run_date d = dm_run_date m \<and> d_ticker d = dm_ticker m) \<Longrightarrow>
   d \<in> set (decisions (upsert_decision m q ch mo now s))"
  by (auto simp: upsert_decision_def mem_update_where)

text \<open>
  C9: a decision is irrevocable once it has left \<open>submitted\<close>. Whatever the PM submits, a
  decision that the gate has settled stays exactly as it was, and a refused call changes
  nothing at all. An accepted call leaves one submitted decision for the ticker, a zero
  quantity exactly for a hold and a stop only on a buy, and it is accepted only after a
  critique of that ticker and only from a seat that holds the capability.
\<close>

theorem decision_is_irrevocable:
  assumes wf: "db_wf s" and rd: "as_date V rd = Some rd"
    and run: "handle_submit_decision V seat a rd now ch mo s = (r, s')"
  shows "(\<forall>d\<in>set (decisions s). d_status d \<noteq> Submitted \<longrightarrow> d \<in> set (decisions s')) \<and>
    (r \<noteq> Inr (Inr ()) \<longrightarrow> s' = s) \<and>
    (r = Inr (Inr ()) \<longrightarrow> can seat ''submit_decision'' \<and>
       (\<exists>d\<in>set (decisions s'). d_run_date d = rd \<and> as_str V (dget a ''ticker'') = Some (d_ticker d) \<and>
          d_status d = Submitted \<and> d_created_at d = now \<and>
          hold_means_zero (d_action d) (d_qty d) (d_stop_price d) \<and> critique_on rd (d_ticker d) s))"
  using run
proof (cases rule: handle_submit_decision_cases)
  case (written m)
  note m = decision_args_InrD [OF written(3)]
  have d: "dm_run_date m = rd" using m(1) rd by simp
  let ?t = "upsert_decision m (dm_qty m) ch mo now s"
  have s': "decisions s' = decisions ?t" using written(7) by (simp add: append_event_def)
  have free: "d_status x = Submitted" if "x \<in> set (decisions s)" "d_run_date x = rd" "d_ticker x = dm_ticker m" for x
  proof -
    from wf have u: "unique_on (\<lambda>d. (d_run_date d, d_ticker d)) (decisions s)" by (simp add: db_wf_def)
    have "decision_on rd (dm_ticker m) s \<noteq> None" using that by (auto simp: decision_on_iff)
    then obtain y where y: "decision_on rd (dm_ticker m) s = Some y" by blast
    then have "y \<in> set (decisions s)" "d_run_date y = rd" "d_ticker y = dm_ticker m"
      by (auto simp: decision_on_def dest: fetchone_SomeD)
    then have "x = y" using unique_onD [OF u that(1)] that by simp
    with written(4) y show ?thesis by (simp add: existing_status_def split: if_splits)
  qed
  then have settled: "\<forall>x\<in>set (decisions s). d_status x \<noteq> Submitted \<longrightarrow> x \<in> set (decisions s')"
    unfolding s' using upsert_decision_rows [of _ s m "dm_qty m" ch mo now] d by metis
  have "\<exists>x\<in>set (decisions ?t). d_run_date x = rd \<and> d_ticker x = dm_ticker m \<and> d_status x = Submitted \<and> d_created_at x = now \<and>
      d_action x = dm_action m \<and> d_qty x = dm_qty m \<and> d_stop_price x = Option.bind (dm_stop_price m) sql_real"
  proof (cases "decision_on rd (dm_ticker m) s")
    case None
    then show ?thesis using d by (auto simp: upsert_decision_def new_decision_def)
  next
    case (Some y)
    then have y: "y \<in> set (decisions s)" "d_run_date y = rd" "d_ticker y = dm_ticker m"
      by (auto simp: decision_on_def dest: fetchone_SomeD)
    then have "rewritten m (dm_qty m) ch mo now y \<in> set (decisions ?t)"
      using d Some by (force simp: upsert_decision_def mem_update_where)
    moreover have "d_status y = Submitted" using free y by simp
    ultimately show ?thesis using y by (intro bexI [of _ "rewritten m (dm_qty m) ch mo now y"]) (simp_all add: rewritten_def)
  qed
  moreover have "hold_means_zero (dm_action m) (dm_qty m) (Option.bind (dm_stop_price m) sql_real)"
    using m(3) by (cases "dm_stop_price m") (auto simp: hold_means_zero_def)
  ultimately show ?thesis using settled written(1,2,5) m(4) unfolding s' by fastforce
qed auto

section \<open>Refusals\<close>

abbreviation accepted :: "'a answer res \<Rightarrow> bool" where
  "accepted r \<equiv> (case r of Inr (Inr _) \<Rightarrow> True | _ \<Rightarrow> False)"

lemma signal_refused: "handle_submit_signal V seat a rd now ch mo s = (r, s') \<Longrightarrow> \<not> accepted r \<Longrightarrow> s' = s"
  unfolding handle_submit_signal_def
  by (auto elim!: parsed_cases split: if_splits)

lemma decision_refused: "handle_submit_decision V seat a rd now ch mo s = (r, s') \<Longrightarrow> \<not> accepted r \<Longrightarrow> s' = s"
  by (erule handle_submit_decision_cases) auto

lemma write_spec_dropped: "\<not> has_spec sid (write_spec sid m now s) \<Longrightarrow> write_spec sid m now s = s"
  by (auto simp: write_spec_def has_spec_def spec_row_def split: if_splits)

lemma insert_spec_cases:
  assumes "parse_spec V a seat = Inr m" and "insert_strategy_spec H m now s = (r, t)"
  obtains (raised) e where "r = Inl e" and "t = s"
    | (dropped) sid where "r = Inr sid" and "\<not> has_spec sid t" and "t = s"
    | (ran) sid where "r = Inr sid" and "has_spec sid t" and "t = write_spec sid m now s"
proof -
  let ?sid = "spec_id_of H (model_dump m)"
  from assms(2) consider e where "r = Inl e" "t = s" | "r = Inr ?sid" "t = write_spec ?sid m now s"
    by (auto simp: insert_strategy_spec_run split: sum.splits)
  then show thesis
  proof cases
    case 2
    then show thesis using ran dropped write_spec_dropped [of ?sid m now s] by (cases "has_spec ?sid t") simp_all
  qed (rule raised)
qed

lemma handle_spec_cases:
  assumes "handle_submit_strategy_spec V H seat a now s = (r, s')"
  obtains (kept) "s' = s" and "\<not> accepted r"
    | (written) m sid dup where "r = Inr (Inr (sid, dup))" and "can seat ''submit_strategy_spec''"
        and "parse_spec V a seat = Inr m" and "has_spec sid (write_spec sid m now s)"
        and "dup = (length (strategy_specs (write_spec sid m now s)) = length (strategy_specs s))"
        and "s' = (if dup then write_spec sid m now s else append_event ''strategy_spec'' (spec_event seat sid m) now (write_spec sid m now s))"
proof (cases "can seat ''submit_strategy_spec''")
  case False
  then show ?thesis using assms kept by (auto simp: handle_submit_strategy_spec_def)
next
  case True
  show ?thesis
  proof (cases "parse_spec V a seat")
    case (Inl e)
    then show ?thesis using assms True kept by (auto simp: handle_submit_strategy_spec_def parsed_Inl split: if_splits)
  next
    case (Inr m)
    obtain q t where i: "insert_strategy_spec H m now s = (q, t)" by (metis surj_pair)
    from Inr i show ?thesis
    proof (cases rule: insert_spec_cases)
      case (raised e)
      then show ?thesis using assms True Inr i kept by (auto simp: handle_submit_strategy_spec_def andthen_def)
    next
      case (dropped sid)
      then show ?thesis using assms True Inr i kept by (auto simp: handle_submit_strategy_spec_def andthen_def)
    next
      case (ran sid)
      then show ?thesis using assms True Inr i written [of sid]
        by (auto simp: handle_submit_strategy_spec_def andthen_def whenever_def split: if_splits)
    qed
  qed
qed

lemma spec_refused: "handle_submit_strategy_spec V H seat a now s = (r, s') \<Longrightarrow> \<not> accepted r \<Longrightarrow> s' = s"
  by (erule handle_spec_cases) auto

text \<open>
  C40: a registered spec is on the record, and the tool says so only when it is. When the seat may register and the model accepts the
  payload, there are three outcomes. The tool answers with the content's id: then the spec is in the table and has been there before exactly when
  the answer says duplicate, which changes nothing; otherwise its row is the one row added, with its event. Or it answers that the spec was not
  written: then nothing changed, the spec is not in the table, and the cause is a turnover or capacity that is not a number, which the model lets
  through and the insertion drops. Or it raises on an integer beyond 64 bits, with nothing changed.
\<close>

theorem accepted_spec_is_written:
  assumes m: "parse_spec V a seat = Inr m" and can: "can seat ''submit_strategy_spec''"
    and run: "handle_submit_strategy_spec V H seat a now s = (r, s')"
  shows "let sid = spec_id_of H (model_dump m) in case r of
      Inr (Inr (i, dup)) \<Rightarrow> i = sid \<and> has_spec sid s' \<and> (dup \<longleftrightarrow> has_spec sid s) \<and>
        (if dup then s' = s else strategy_specs s' = strategy_specs s @ [spec_row sid m now] \<and>
           events s' = events (append_event ''strategy_spec'' (spec_event seat sid m) now s))
    | Inr (Inl why) \<Rightarrow> why = Spec_not_written sid \<and> s' = s \<and> \<not> has_spec sid s \<and>
        (ss_expected_turnover m = NaN \<or> ss_capacity_usd m = NaN)
    | Inl e \<Rightarrow> e = OverflowError \<and> s' = s \<and> (2 ^ 63 \<le> ss_search_budget m \<or> 2 ^ 63 \<le> ss_holding_period_d m)"
proof -
  let ?sid = "spec_id_of H (model_dump m)"
  obtain q t where i: "insert_strategy_spec H m now s = (q, t)" by (metis surj_pair)
  have pos: "0 < ss_search_budget m" "0 < ss_holding_period_d m" using parse_spec_InrD(8,9) [OF m] by simp_all
  have row: "spec_row_ok m \<longleftrightarrow> ss_expected_turnover m \<noteq> NaN \<and> ss_capacity_usd m \<noteq> NaN" by (rule parse_spec_row_ok [OF m])
  have written: "has_spec ?sid (write_spec ?sid m now s) \<longleftrightarrow> has_spec ?sid s \<or> spec_row_ok m"
    by (auto simp: write_spec_def has_spec_def spec_row_def)
  consider (ok) "q = Inr ?sid" "t = write_spec ?sid m now s"
    | (big) "q = Inl OverflowError" "t = s" "2 ^ 63 \<le> ss_search_budget m \<or> 2 ^ 63 \<le> ss_holding_period_d m"
    using i pos by (auto simp: insert_strategy_spec_run sql_int_def split: if_splits)
  then show ?thesis
  proof cases
    case ok
    then show ?thesis using run m can i row written
      by (auto simp: handle_submit_strategy_spec_def andthen_def whenever_def write_spec_def has_spec_def spec_row_def append_event_def Let_def
          split: if_splits)
  next
    case big
    then show ?thesis using run m can i by (auto simp: handle_submit_strategy_spec_def andthen_def)
  qed
qed

text \<open>A spec is registered; the same spec with a capacity that is no number is not, and the tool says so.\<close>

lemma golden_nan_parses: "parse_spec golden_pydantic (map (\<lambda>(k, v). (k, if k = ''capacity_usd'' then PFloat NaN else v)) golden_payload) ''quant'' =
   Inr (golden_spec\<lparr>ss_capacity_usd := NaN\<rparr>)"
  by code_simp

theorem accepted_spec_is_written_witness:
  "(\<exists>s'. handle_submit_strategy_spec golden_pydantic golden_hasher ''quant'' golden_payload 0 empty_db =
      (Inr (Inr (spec_id_of golden_hasher (model_dump golden_spec), False)), s') \<and> length (strategy_specs s') = 1)
   \<and> handle_submit_strategy_spec golden_pydantic golden_hasher ''quant''
       (map (\<lambda>(k, v). (k, if k = ''capacity_usd'' then PFloat NaN else v)) golden_payload) 0 empty_db =
      (Inr (Inl (Spec_not_written (spec_id_of golden_hasher (model_dump (golden_spec\<lparr>ss_capacity_usd := NaN\<rparr>))))), empty_db)"
proof -
  have c: "can ''quant'' ''submit_strategy_spec''" by code_simp
  have e: "\<not> has_spec sid empty_db" "strategy_specs empty_db = []" for sid by (simp_all add: has_spec_def empty_db_def)
  obtain r s' where 1: "handle_submit_strategy_spec golden_pydantic golden_hasher ''quant'' golden_payload 0 empty_db = (r, s')"
    by (rule prod.exhaust)
  obtain q t where 2: "handle_submit_strategy_spec golden_pydantic golden_hasher ''quant''
      (map (\<lambda>(k, v). (k, if k = ''capacity_usd'' then PFloat NaN else v)) golden_payload) 0 empty_db = (q, t)"
    by (rule prod.exhaust)
  have nan: "\<not> has_spec sid t" for sid
    using 2
  proof (cases rule: handle_spec_cases)
    case (written m i dup)
    with golden_nan_parses have "m = golden_spec\<lparr>ss_capacity_usd := NaN\<rparr>" by simp
    then have "write_spec i m 0 empty_db = empty_db" by (simp add: write_spec_def spec_row_ok_def)
    with written(4) e(1) show ?thesis by simp
  qed (use e in simp)
  show ?thesis
    unfolding 1 2 using accepted_spec_is_written [OF golden_spec_parses c 1] accepted_spec_is_written [OF golden_nan_parses c 2] e nan
    by (auto simp: Let_def golden_spec_def split: sum.splits prod.splits if_splits)
qed

lemma critique_args_spec:
  assumes "critique_args V a seat = Inr m"
  shows "as_str V (dget a ''spec_id'') = Some (cm_spec_id m)" "cm_seat m = seat"
    "objections_match_verdict (cm_verdict m) (cm_objections m)" "cm_verdict m \<in> set SPEC_VERDICT"
  using assms unfolding critique_args_def parse_critique_def
  by (elim res_bindE; clarsimp simp: dkey_def dget_def literal_Inr split: option.splits; fail)+

lemma handle_critique_cases:
  assumes "handle_submit_spec_critique V seat a now ch mo expected s = (r, s')"
  obtains (kept) "s' = s" and "\<not> accepted r"
    | (written) m shown where "r = Inr (Inr ())" and "can seat ''submit_spec_critique''" and "expected = Some shown"
        and "dget a ''spec_id'' = PStr shown" and "critique_args V a seat = Inr m" and "has_spec (cm_spec_id m) s"
        and "verdict_on (cm_spec_id m) s = None" and "{ch, mo} \<inter> {''none'', ''unknown''} = {}"
        and "s' = append_event ''spec_critique'' (critique_event seat m) now
               (s\<lparr>strategy_critiques := strategy_critiques s @ [critique_row m ch mo now]\<rparr>)"
proof (cases "can seat ''submit_spec_critique'' \<and> (\<exists>shown. expected = Some shown \<and> dget a ''spec_id'' = PStr shown)")
  case False
  then show ?thesis using assms kept by (cases expected) (auto simp: handle_submit_spec_critique_def split: if_splits)
next
  case True
  then obtain shown where sh: "can seat ''submit_spec_critique''" "expected = Some shown" "dget a ''spec_id'' = PStr shown" by blast
  show ?thesis
  proof (cases "critique_args V a seat")
    case (Inl e)
    then show ?thesis using assms sh kept by (auto simp: handle_submit_spec_critique_def parsed_Inl split: if_splits)
  next
    case (Inr m)
    have run: "andthen (gets (has_spec (cm_spec_id m))) (\<lambda>there. if \<not> there then no (Not_registered (cm_spec_id m)) else
          andthen (gets (verdict_on (cm_spec_id m))) (\<lambda>old. case old of Some c \<Rightarrow> no (Already_judged (sc_verdict c))
          | None \<Rightarrow>
              andthen (insert_critique (critique_row m ch mo now)) (\<lambda>_.
              andthen (modify (append_event ''spec_critique'' (critique_event seat m) now)) (\<lambda>_. yes ())))) s = (r, s')"
      using assms sh Inr by (simp add: handle_submit_spec_critique_def)
    show ?thesis
    proof (cases "has_spec (cm_spec_id m) s")
      case False
      then show ?thesis using run kept by auto
    next
      case there: True
      show ?thesis
      proof (cases "verdict_on (cm_spec_id m) s")
        case (Some c)
        then show ?thesis using run there kept by auto
      next
        case None
        show ?thesis
        proof (cases "{ch, mo} \<inter> {''none'', ''unknown''} = {}")
          case True
          then have "insert_critique (critique_row m ch mo now) s =
              (Inr (), s\<lparr>strategy_critiques := strategy_critiques s @ [critique_row m ch mo now]\<rparr>)"
            by (auto simp: insert_critique_def critique_row_def)
          then show ?thesis using run there None True written [OF _ sh(1,2,3) Inr] by (simp add: andthen_def)
        next
          case False
          then have "insert_critique (critique_row m ch mo now) s = (Inl IntegrityCheck, s)"
            by (auto simp: insert_critique_def critique_row_def)
          then show ?thesis using run there None kept by (auto simp: andthen_def)
        qed
      qed
    qed
  qed
qed

lemma critique_refused: "handle_submit_spec_critique V seat a now ch mo expected s = (r, s') \<Longrightarrow> \<not> accepted r \<Longrightarrow> s' = s"
  by (erule handle_critique_cases) auto

lemma handle_reflection_cases:
  assumes "handle_submit_reflection f seat a expected s = (r, s')" and u: "unique_on r_decision_id (resolutions s)"
  obtains (kept) "s' = s" and "\<not> accepted r"
    | (written) i frame prose where "r = Inr (Inr ())" and "can seat ''submit_reflection''" and "expected = Some i"
        and "dget a ''prose'' = PStr prose" and "reflection_frame f i s = Some frame"
        and "rowcount (unreflected i) (resolutions s) = 1" and "s' = snd (store_reflection i frame prose s)"
proof (cases "can seat ''submit_reflection'' \<and> (\<exists>i prose frame. expected = Some i \<and> dget a ''prose'' = PStr prose \<and>
    strip prose \<noteq> [] \<and> reflection_frame f i s = Some frame)")
  case False
  then show ?thesis using assms(1) kept
    by (auto simp: handle_submit_reflection_def andthen_def split: option.splits pyval.splits if_splits)
next
  case True
  then obtain i prose frame where c: "can seat ''submit_reflection''" "expected = Some i" "dget a ''prose'' = PStr prose"
    "strip prose \<noteq> []" "reflection_frame f i s = Some frame" by blast
  show ?thesis
  proof (cases "rowcount (unreflected i) (resolutions s) = 1")
    case True
    then show ?thesis using assms(1) c written [of i prose frame]
      by (auto simp: handle_submit_reflection_def andthen_def store_reflection_def)
  next
    case False
    with rowcount_unique [OF u, of "unreflected i" i] have z: "rowcount (unreflected i) (resolutions s) = 0"
      by (auto simp: unreflected_def split: if_splits)
    then show ?thesis using assms(1) c kept
      by (auto simp: handle_submit_reflection_def andthen_def store_reflection_def rowcount_0_update)
  qed
qed

lemma reflection_refused:
  "handle_submit_reflection f seat a expected s = (r, s') \<Longrightarrow> unique_on r_decision_id (resolutions s) \<Longrightarrow> \<not> accepted r \<Longrightarrow> s' = s"
  by (erule handle_reflection_cases) auto

lemma accepted_seat:
  "handle_submit_signal V seat a rd now ch mo s = (r, s') \<Longrightarrow> accepted r \<and> can seat ''submit_signal'' \<or> s' = s"
  using signal_refused [of V seat a rd now ch mo s r s'] by (cases "can seat ''submit_signal''") (auto simp: handle_submit_signal_def)

text \<open>
  C25: a refused call writes nothing. Whatever a seat submits, of whichever kind, and
  whatever the call raises, the database is the same afterwards unless the answer is an
  acceptance; and an acceptance is only given to a seat that holds the capability.
\<close>

theorem refused_calls_write_nothing:
  assumes "unique_on r_decision_id (resolutions s)"
  shows "(handle_submit_signal V seat a rd now ch mo s = (r1, s') \<longrightarrow>
        accepted r1 \<and> can seat ''submit_signal'' \<or> s' = s) \<and>
    (handle_submit_decision V seat a rd now ch mo s = (r2, s') \<longrightarrow>
        accepted r2 \<and> can seat ''submit_decision'' \<or> s' = s) \<and>
    (handle_submit_strategy_spec V H seat a now s = (r3, s') \<longrightarrow>
        accepted r3 \<and> can seat ''submit_strategy_spec'' \<or> s' = s) \<and>
    (handle_submit_spec_critique V seat a now ch mo expected s = (r4, s') \<longrightarrow>
        accepted r4 \<and> can seat ''submit_spec_critique'' \<or> s' = s) \<and>
    (handle_submit_reflection f seat a bound s = (r5, s') \<longrightarrow>
        accepted r5 \<and> can seat ''submit_reflection'' \<or> s' = s)"
proof (intro conjI impI)
  assume "handle_submit_signal V seat a rd now ch mo s = (r1, s')"
  then show "accepted r1 \<and> can seat ''submit_signal'' \<or> s' = s" by (rule accepted_seat)
next
  assume "handle_submit_decision V seat a rd now ch mo s = (r2, s')"
  then show "accepted r2 \<and> can seat ''submit_decision'' \<or> s' = s" by (cases rule: handle_submit_decision_cases) simp_all
next
  assume "handle_submit_strategy_spec V H seat a now s = (r3, s')"
  then show "accepted r3 \<and> can seat ''submit_strategy_spec'' \<or> s' = s" by (cases rule: handle_spec_cases) simp_all
next
  assume "handle_submit_spec_critique V seat a now ch mo expected s = (r4, s')"
  then show "accepted r4 \<and> can seat ''submit_spec_critique'' \<or> s' = s" by (cases rule: handle_critique_cases) simp_all
next
  assume "handle_submit_reflection f seat a bound s = (r5, s')"
  from this assms show "accepted r5 \<and> can seat ''submit_reflection'' \<or> s' = s" by (cases rule: handle_reflection_cases) simp_all
qed

section \<open>Verdicts and reflections\<close>

text \<open>
  A G1 verdict is written once, and only for the spec the turn was shown. A call
  leaves the verdicts as they were or adds one, whose spec is the one the turn is bound
  to, is registered and had no verdict, whose objections match its verdict, and which
  carries a real charter and model. Any later call for that spec is refused.
\<close>

theorem verdict_is_written_once:
  assumes law: "\<And>t. as_str V (PStr t) = Some t"
    and run: "handle_submit_spec_critique V seat a now ch mo expected s = (r, s')"
  shows "strategy_critiques s' = strategy_critiques s \<and> \<not> accepted r \<or>
    (\<exists>c. strategy_critiques s' = strategy_critiques s @ [c] \<and> expected = Some (sc_spec_id c) \<and> has_spec (sc_spec_id c) s \<and>
       verdict_on (sc_spec_id c) s = None \<and> objections_match_verdict (sc_verdict c) (sc_objections c) \<and>
       sc_charter c \<notin> {''none'', ''unknown''} \<and> sc_model c \<notin> {''none'', ''unknown''} \<and>
       (\<forall>seat2 a2 now2 ch2 mo2. \<not> accepted (fst (handle_submit_spec_critique V seat2 a2 now2 ch2 mo2 expected s'))))"
  using run
proof (cases rule: handle_critique_cases)
  case (written m shown)
  note m = critique_args_spec [OF written(5)]
  then have i: "cm_spec_id m = shown" using written(4) law by simp
  have there: "verdict_on shown s' \<noteq> None"
    using written(9) i by (auto simp: verdict_on_def fetchone_None critique_row_def append_event_def)
  have "\<not> accepted (fst (handle_submit_spec_critique V seat2 a2 now2 ch2 mo2 expected s'))" for seat2 a2 now2 ch2 mo2
  proof
    assume ok: "accepted (fst (handle_submit_spec_critique V seat2 a2 now2 ch2 mo2 expected s'))"
    obtain r2 s2 where run2: "handle_submit_spec_critique V seat2 a2 now2 ch2 mo2 expected s' = (r2, s2)" by (metis surj_pair)
    then show False
    proof (cases rule: handle_critique_cases)
      case (written m2 shown2)
      from critique_args_spec(1) [OF this(5)] this(3,4,7) law \<open>expected = Some shown\<close> there show False by simp
    qed (use ok run2 in simp)
  qed
  moreover have "strategy_critiques s' = strategy_critiques s @ [critique_row m ch mo now]"
    using written(9) by (simp add: append_event_def)
  ultimately show ?thesis using written(3,6,7,8) i m(3)
    by (intro disjI2 exI [of _ "critique_row m ch mo now"]) (auto simp: critique_row_def)
qed auto

text \<open>
  A reflection is written once, facts first. A call rewrites no reflection that is
  there and touches no decision but the one the turn is bound to; what it stores starts
  with the frame computed from the rows, whatever the seat wrote.
\<close>

theorem reflection_is_written_once:
  assumes u: "unique_on r_decision_id (resolutions s)"
    and run: "handle_submit_reflection f seat a expected s = (r, s')"
  shows "(\<forall>q\<in>set (resolutions s). r_reflection q \<noteq> None \<or> expected \<noteq> Some (r_decision_id q) \<longrightarrow> q \<in> set (resolutions s')) \<and>
    (accepted r \<longrightarrow> (\<exists>i q frame t. expected = Some i \<and> reflection_frame f i s = Some frame \<and> q \<in> set (resolutions s') \<and>
       r_decision_id q = i \<and> r_reflection q = Some t \<and> starts_with frame t))"
  using run u
proof (cases rule: handle_reflection_cases)
  case (written i frame prose)
  have s': "resolutions s' = update_where (unreflected i) (\<lambda>r. r\<lparr>r_reflection := Some (reflection_text frame prose)\<rparr>) (resolutions s)"
    using written(7) by (simp add: store_reflection_def)
  from written(6) obtain q where q: "q \<in> set (resolutions s)" "unreflected i q" using rowcount_pos [of "unreflected i" "resolutions s"] by auto
  obtain d0 r0 where "frame = frame_text f d0 r0 (signals_said d0 s)"
    using written(5) by (auto simp: reflection_frame_def split: prod.splits)
  then have "starts_with frame (reflection_text frame prose)" by (simp add: frame_text_starts)
  moreover have "q\<lparr>r_reflection := Some (reflection_text frame prose)\<rparr> \<in> set (resolutions s')"
    unfolding s' mem_update_where using q by (intro bexI [of _ q]) simp_all
  moreover have "x \<in> set (resolutions s')" if "x \<in> set (resolutions s)" "\<not> unreflected i x" for x
    unfolding s' mem_update_where using that by (intro bexI [of _ x]) simp_all
  ultimately show ?thesis using written(3,5) q(2) by (fastforce simp: unreflected_def)
qed auto

section \<open>Briefs\<close>

text \<open>A section never raises, and either was built or is named.\<close>

lemma brief_section_run:
  assumes "\<And>s x. \<exists>r x'. build (s, x) = (r, (s, x'))"
  shows "\<exists>v ms x'. brief_section name build d missing (s, x) = (Inr (v, ms), (s, x')) \<and>
    (ms = missing \<or> v = d \<and> (\<exists>e. ms = missing @ [(name, e)]))"
proof -
  obtain r x' where "build (s, x) = (r, (s, x'))" using assms by blast
  then show ?thesis by (cases r) (auto simp: brief_section_def andthen_def catch_def)
qed

lemma granted_run:
  assumes "\<And>s x. \<exists>r x'. build (s, x) = (r, (s, x'))"
  shows "\<exists>v ms x'. granted b name build d missing (s, x) = (Inr (v, ms), (s, x')) \<and> (v \<noteq> None) = b \<and>
    (ms = missing \<or> v = Some d \<and> (\<exists>e. ms = missing @ [(name, e)]))"
proof (cases b)
  case True
  obtain v ms x' where "brief_section name build d missing (s, x) = (Inr (v, ms), (s, x'))"
    "ms = missing \<or> v = d \<and> (\<exists>e. ms = missing @ [(name, e)])"
    using brief_section_run [OF assms, of name d missing s x] by blast
  with True show ?thesis by (auto simp: granted_def andthen_def)
qed (simp add: granted_def)

lemma snapshot_of_reads: "\<exists>r x'. snapshot_of prov (s, x) = (r, (s, x'))"
  by (cases prov) (auto simp: snapshot_of_def on_port_def split: prod.splits)

lemma journal_of_reads: "\<exists>r x'. journal_of jr seat (s, x) = (r, (s, x'))"
  by (cases jr) (auto simp: journal_of_def on_port_def andthen_def split: sum.splits)

lemma granted_weights:
  "granted b ''weights'' (on_db (weights_for seat)) [] m (s, x) = (Inr (
     let rows = latest_weights (if can seat ''read_signals'' then None else Some seat) s
     in if \<not> b then (None, m) else if rows = [] then (Some [], m @ [(''weights'', LookupError)]) else (Some rows, m)), (s, x))"
  by (simp add: granted_def brief_section_def weights_for_def on_db_pair andthen_def catch_def Let_def)

lemma granted_signals:
  "granted b ''signals'' (on_db (gets (signal_rows rd))) [] m (s, x) = (Inr (if b then Some (signal_rows rd s) else None, m), (s, x))"
  by (simp add: granted_def brief_section_def on_db_pair andthen_def catch_def)

lemma granted_actions:
  "granted b ''allowed actions'' (lift_res (allowed_of snap)) [] m (s, x) = (Inr (
     if \<not> b then (None, m) else case allowed_of snap of Inl e \<Rightarrow> (Some [], m @ [(''allowed actions'', e)]) | Inr d \<Rightarrow> (Some d, m)), (s, x))"
  by (simp add: granted_def brief_section_def andthen_def catch_def split: sum.split)

lemma granted_snapshot_unbound:
  "granted b ''account snapshot'' (snapshot_of None) [] [] (s, x) =
     (Inr (if b then (Some [], [(''account snapshot'', LookupError)]) else (None, [])), (s, x))"
  by (simp add: granted_def brief_section_def snapshot_of_def andthen_def catch_def)

text \<open>
  A stage brief shows a seat what it is granted and never pretends. The call reads
  only, and never raises. The account, the scoreboard, the signals and the share budget
  are in the brief exactly when the seat holds the capability; the signals are today's
  rows; a scoreboard without rows, and the account and the share budget on a server with
  no snapshot, are named as unavailable, the budget then being empty.
\<close>

theorem brief_shows_what_is_granted:
  "\<exists>ans x'. handle_get_stage_brief seat rd prov jr (s, x) = (Inr ans, (s, x')) \<and>
     (case ans of Inl e \<Rightarrow> \<not> can seat ''get_stage_brief''
      | Inr b \<Rightarrow> can seat ''get_stage_brief'' \<and> br_seat b = seat \<and> br_run_date b = rd \<and>
          (br_account b \<noteq> None \<longleftrightarrow> can seat ''read_account'') \<and> (br_weights b \<noteq> None \<longleftrightarrow> can seat ''read_weights'') \<and>
          br_signals b = (if can seat ''read_signals'' then Some (signal_rows rd s) else None) \<and>
          (br_allowed b \<noteq> None \<longleftrightarrow> can seat ''read_allowed_actions'') \<and>
          (br_weights b = Some [] \<longrightarrow> ''weights'' \<in> fst ` set (br_unavailable b)) \<and>
          (prov = None \<and> can seat ''read_account'' \<longrightarrow> ''account snapshot'' \<in> fst ` set (br_unavailable b)) \<and>
          (prov = None \<and> can seat ''read_allowed_actions'' \<longrightarrow>
             br_allowed b = Some [] \<and> ''allowed actions'' \<in> fst ` set (br_unavailable b)))"
proof (cases "can seat ''get_stage_brief''")
  case True
  let ?need = "can seat ''read_account'' \<or> can seat ''read_allowed_actions''"
  obtain sn m1 x1 where a: "granted ?need ''account snapshot'' (snapshot_of prov) [] [] (s, x) = (Inr (sn, m1), (s, x1))"
    using granted_run [of "snapshot_of prov" ?need "''account snapshot''" "[]" "[]" s x, OF snapshot_of_reads] by blast
  have u: "prov = None \<Longrightarrow> (sn, m1) = (if ?need then (Some [], [(''account snapshot'', LookupError)]) else (None, []))"
    using a granted_snapshot_unbound [of ?need s x] by auto
  obtain jn m2 x2 where j: "brief_section ''journal'' (journal_of jr seat) [] m1 (s, x1) = (Inr (jn, m2), (s, x2))"
    and m2: "set m1 \<subseteq> set m2"
    using brief_section_run [of "journal_of jr seat" "''journal''" "[]" m1 s x1, OF journal_of_reads] by fastforce
  have k: "''account snapshot'' \<in> fst ` set m2" if "prov = None" "?need"
    using u that m2 by (force simp: image_iff)
  let ?snap = "case sn of None \<Rightarrow> [] | Some d \<Rightarrow> d"
  have e: "prov = None \<Longrightarrow> allowed_of ?snap = Inl KeyError"
    using u by (auto simp: allowed_of_def dkey_def split: if_splits)
  let ?rows = "latest_weights (if can seat ''read_signals'' then None else Some seat) s"
  let ?W = "if \<not> can seat ''read_weights'' then (None, m2) else if ?rows = [] then (Some [], m2 @ [(''weights'', LookupError)]) else (Some ?rows, m2)"
  let ?A = "if \<not> can seat ''read_allowed_actions'' then (None, snd ?W)
    else case allowed_of ?snap of Inl e \<Rightarrow> (Some [], snd ?W @ [(''allowed actions'', e)]) | Inr d \<Rightarrow> (Some d, snd ?W)"
  let ?b = "\<lparr>br_run_date = rd, br_seat = seat, br_journal = jn,
     br_account = (if can seat ''read_account'' then Some (dget ?snap ''cash'',
        if truthy (dget ?snap ''positions'') then dget ?snap ''positions'' else PDict []) else None),
     br_weights = fst ?W, br_signals = (if can seat ''read_signals'' then Some (signal_rows rd s) else None), br_allowed = fst ?A,
     br_unavailable = snd ?A\<rparr>"
  have run: "handle_get_stage_brief seat rd prov jr (s, x) = (Inr (Inr ?b), (s, x2))"
    using True unfolding handle_get_stage_brief_def Let_def
    by (simp add: andthen_def a j granted_weights granted_signals granted_actions Let_def split_beta)
  have sub: "set m2 \<subseteq> set (snd ?W)" "set (snd ?W) \<subseteq> set (snd ?A)" by (auto split: sum.split)
  have "(fst ?W \<noteq> None) = can seat ''read_weights''" by simp
  moreover have "(fst ?A \<noteq> None) = can seat ''read_allowed_actions''" by (simp split: sum.split)
  moreover have "fst ?W = Some [] \<Longrightarrow> ''weights'' \<in> fst ` set (snd ?W)" by (auto split: if_splits)
  then have "fst ?W = Some [] \<Longrightarrow> ''weights'' \<in> fst ` set (snd ?A)" using image_mono [OF sub(2), of fst] by blast
  moreover have "prov = None \<Longrightarrow> ?need \<Longrightarrow> ''account snapshot'' \<in> fst ` set (snd ?A)"
    using k image_mono [OF order_trans [OF sub], of fst] by blast
  moreover have "prov = None \<Longrightarrow> can seat ''read_allowed_actions'' \<Longrightarrow> fst ?A = Some [] \<and> ''allowed actions'' \<in> fst ` set (snd ?A)"
    using e by simp
  ultimately show ?thesis using run True by (intro exI [of _ "Inr ?b"] exI [of _ x2]) simp
qed (simp add: handle_get_stage_brief_def)

section \<open>Every tool respects the state machines\<close>

lemma ev_parsed: "(\<And>m. ev.obeys (f m)) \<Longrightarrow> ev.obeys (parsed caught r f)"
  by (cases r) (auto simp: parsed_def no_def intro: ev.obeys_intros)

lemma ev_no: "ev.obeys (no r)" and ev_yes: "ev.obeys (yes x)"
  by (simp_all add: no_def yes_def ev.obeys_ret)

lemma ev_event: "ev.obeys (modify (append_event k p now))"
  by (intro ev.obeys_modify evolves_append_event)

text \<open>Writes to the tables without a state machine.\<close>

lemma evolves_free_tables:
  "decisions s' = decisions s \<Longrightarrow> tickets s' = tickets s \<Longrightarrow> orders s' = orders s \<Longrightarrow> checkpoints s' = checkpoints s \<Longrightarrow>
   worklist s' = worklist s \<Longrightarrow> strategies s' = strategies s \<Longrightarrow> strategy_specs s' = strategy_specs s \<Longrightarrow> events s' = events s \<Longrightarrow>
   evolves s s'"
  by (rule evolves_more_rows) (simp_all add: db_wf_def)

lemma ev_submit_signal: "ev.obeys (handle_submit_signal V seat a rd now ch mo)"
  unfolding handle_submit_signal_def
  by (intro ev.obeys_if ev_no ev_parsed ev.obeys_andthen ev_event ev_yes ev.obeys_modify evolves_free_tables)
     (simp_all add: upsert_signal_def)

lemma upsert_decision_wf: "db_wf s \<Longrightarrow> db_wf (upsert_decision m q ch mo now s)"
proof -
  assume wf: "db_wf s"
  show ?thesis
  proof (cases "decision_on (dm_run_date m) (dm_ticker m) s")
    case None
    then have "(dm_run_date m, dm_ticker m) \<notin> (\<lambda>d. (d_run_date d, d_ticker d)) ` set (decisions s)"
      by (auto simp: decision_on_iff)
    with wf None next_id_not_mem [of d_id "decisions s"] show ?thesis
      by (simp add: upsert_decision_def db_wf_def unique_on_def new_decision_def)
  next
    case (Some d)
    with wf show ?thesis by (simp add: upsert_decision_def db_wf_def unique_on_update_where rewritten_def)
  qed
qed

lemma evolves_upsert_decision: "evolves s (upsert_decision m q ch mo now s)"
proof (cases "decision_on (dm_run_date m) (dm_ticker m) s")
  case None
  show ?thesis using None by (intro evolves_more_rows upsert_decision_wf) (simp_all add: upsert_decision_def)
next
  case (Some d)
  have "status_of t k (upsert_decision m q ch mo now s) = status_of t k s" for t k
    using Some by (cases t; cases k) (simp_all add: upsert_decision_def fetchone_update_where rewritten_def option.map_comp comp_def
        if_distrib cong: if_cong)
  then show ?thesis using upsert_decision_wf by (intro evolves_same_status) simp_all
qed

lemma ev_submit_decision: "ev.obeys (handle_submit_decision V seat a rd now ch mo)"
  unfolding handle_submit_decision_def
  by (intro ev.obeys_if ev_no ev_parsed ev.obeys_andthen ev.obeys_option ev.obeys_gets ev.obeys_lift ev_event ev_yes ev.obeys_modify evolves_upsert_decision)

lemma ev_submit_strategy_spec: "ev.obeys (handle_submit_strategy_spec V H seat a now)"
  unfolding handle_submit_strategy_spec_def
  by (intro ev.obeys_if ev_no ev_parsed ev.obeys_andthen ev.obeys_gets ev.obeys_whenever ev_insert_strategy_spec ev_event ev_yes)

lemma ev_insert_critique: "ev.obeys (insert_critique c)"
  by (rule ev.obeysI) (simp add: insert_critique_def evolves_refl evolves_free_tables)

lemma ev_submit_spec_critique: "ev.obeys (handle_submit_spec_critique V seat a now ch mo expected)"
  unfolding handle_submit_spec_critique_def
  by (intro ev.obeys_if ev_no ev_parsed ev.obeys_andthen ev.obeys_option ev.obeys_gets ev_insert_critique ev_event ev_yes)

lemma ev_store_reflection: "ev.obeys (store_reflection i frame prose)"
  by (rule ev.obeysI) (simp add: store_reflection_def evolves_free_tables)

lemma ev_pyval_str: "ev.obeys m \<Longrightarrow> (\<And>t. ev.obeys (f t)) \<Longrightarrow>
   ev.obeys (case v of PStr t \<Rightarrow> f t | PNone \<Rightarrow> m | PBool x \<Rightarrow> m | PInt y \<Rightarrow> m | PFloat z \<Rightarrow> m | PList l \<Rightarrow> m | PDict d \<Rightarrow> m)"
  by (cases v) simp_all

lemma ev_submit_reflection: "ev.obeys (handle_submit_reflection f seat a expected)"
  unfolding handle_submit_reflection_def
  by (intro ev.obeys_if ev_no ev_pyval_str ev.obeys_option ev.obeys_gets ev.obeys_andthen ev_store_reflection ev_yes)

text \<open>The briefs read only, hence evolve any world.\<close>

lemma evw_no: "evw.obeys (no r)" and evw_yes: "evw.obeys (yes x)"
  by (simp_all add: no_def yes_def evw.obeys_ret)

lemma evw_section: "evw.obeys build \<Longrightarrow> evw.obeys (brief_section name build d missing)"
  unfolding brief_section_def by (intro evw.obeys_intros)

lemma evw_granted: "evw.obeys build \<Longrightarrow> evw.obeys (granted b name build d missing)"
  unfolding granted_def by (intro evw.obeys_if evw.obeys_andthen evw.obeys_prod evw_section evw.obeys_ret)

lemma evw_snapshot_of: "evw.obeys (snapshot_of prov)"
  unfolding snapshot_of_def by (intro evw.obeys_option evw.obeys_raise evw_on_port)

lemma evw_journal_of: "evw.obeys (journal_of jr seat)"
  unfolding journal_of_def by (intro evw.obeys_option evw.obeys_raise evw.obeys_andthen evw_on_port evw.obeys_ret)

lemma evw_weights_for: "evw.obeys (on_db (weights_for seat))"
  unfolding weights_for_def by (intro evw_on_db ev.obeys_intros)

lemma evw_get_stage_brief: "evw.obeys (handle_get_stage_brief seat rd prov jr)"
  unfolding handle_get_stage_brief_def Let_def
  by (intro evw.obeys_if evw_no evw_yes evw.obeys_andthen evw.obeys_prod evw_granted evw_section evw_snapshot_of evw_journal_of
      evw_weights_for evw_on_db ev.obeys_gets evw.obeys_lift)

lemma ev_queue: "ev.obeys (specs_awaiting_critique n)"
  unfolding specs_awaiting_critique_def refuse_orphaned_specs_def by (intro ev.obeys_intros)

lemma evw_get_spec_brief: "evw.obeys (handle_get_spec_brief seat jr)"
  unfolding handle_get_spec_brief_def
  by (intro evw.obeys_if evw_no evw_yes evw.obeys_andthen evw.obeys_sum evw.obeys_prod evw.obeys_catch evw.obeys_ret evw_on_db
      ev_queue evw_section evw_journal_of)

lemma evw_answered: "evw.obeys m \<Longrightarrow> evw.obeys (answered m f)"
  unfolding answered_def by (intro evw.obeys_andthen evw.obeys_ret)

lemma evw_server: "evw.obeys (server_conn S)" "evw.obeys (server_now S)" "evw.obeys (run_date_from_clock S)"
  unfolding server_conn_def server_now_def run_date_from_clock_def by (intro evw_on_port evw.obeys_andthen evw.obeys_ret)+

lemma evw_tools:
  assumes "(name, f) \<in> set (cap_tools S)"
  shows "evw.obeys (f a)"
proof -
  note i = evw.obeys_andthen evw_server evw_answered evw_on_db ev_submit_signal ev_submit_decision ev_submit_strategy_spec
    ev_submit_spec_critique ev_submit_reflection evw_get_stage_brief evw_get_spec_brief evw.obeys_ret evw.obeys_if ev.obeys_gets
  have "evw.obeys (submit_signal_tool S a)" "evw.obeys (submit_decision_tool S a)" "evw.obeys (submit_strategy_spec_tool S a)"
    "evw.obeys (submit_spec_critique_tool S a)" "evw.obeys (submit_reflection_tool S a)" "evw.obeys (get_stage_brief_tool S)"
    "evw.obeys (get_spec_brief_tool S)" "evw.obeys (list_open_tickets_tool S)"
    unfolding submit_signal_tool_def submit_decision_tool_def submit_strategy_spec_tool_def submit_spec_critique_tool_def
      submit_reflection_tool_def get_stage_brief_tool_def get_spec_brief_tool_def list_open_tickets_tool_def
    by (intro i)+
  then show ?thesis using assms by (auto simp: cap_tools_def)
qed

lemma evw_call_tool: "evw.obeys (call_tool S name a)"
proof (cases "build_fund_server S")
  case (Inr ts)
  have "evw.obeys (f a)" if "map_of ts name = Some f" for f
  proof -
    from map_of_SomeD [OF that] Inr have "(name, f) \<in> set (cap_tools S)" by (auto simp: build_fund_server_def split: if_splits)
    then show ?thesis by (rule evw_tools)
  qed
  then show ?thesis using Inr
    by (cases "map_of ts name") (auto simp: call_tool_def intro!: evw.obeys_ret evw.obeys_catch evw.obeys_andthen)
qed (simp add: call_tool_def evw.obeys_raise)

lemma evw_seat_turn: "evw.obeys (seat_turn n S client past)"
  by (induction n arbitrary: past) (auto intro!: evw.obeys_ret evw.obeys_andthen evw_call_tool split: option.split prod.split)

section \<open>Concrete runs\<close>

definition critiqued_db :: db where
  "critiqued_db = empty_db\<lparr>critiques := [\<lparr>cq_run_date = ''2026-08-17'', cq_ticker = ''NVDA'', cq_verdict = ''clear'', cq_objections = [],
     cq_note = [], cq_charter = ''none'', cq_model = ''none'', cq_created_at = 0\<rparr>],
     decisions := [\<lparr>d_id = 1, d_run_date = ''2026-08-17'', d_ticker = ''AMD'', d_action = Buy, d_qty = 5, d_thesis = [],
       d_invalidation = [], d_stop_price = None, d_charter = ''v1'', d_model = ''m'', d_status = Executed, d_created_at = 0\<rparr>],
     resolutions := [\<lparr>r_decision_id = 1, r_horizon_days = 5, r_realized_return = Fin 0, r_alpha_vs_spy = Fin 0, r_invalidated = 0,
       r_reflection = None, r_resolved_at = 0\<rparr>]\<rparr>"

definition buy_call :: pydict where
  "buy_call = [(''ticker'', PStr ''NVDA''), (''action'', PStr ''buy''), (''qty'', PInt 5), (''thesis'', PStr ''up''), (''invalidation'', PStr ''down'')]"

lemma critiqued_db_wf: "db_wf critiqued_db"
  by (simp add: critiqued_db_def empty_db_def db_wf_def unique_on_def)

theorem decision_is_irrevocable_witness:
  "\<exists>s'. handle_submit_decision golden_pydantic ''pm'' buy_call ''2026-08-17'' 60 ''v1'' ''m'' critiqued_db = (Inr (Inr ()), s') \<and>
     set (decisions critiqued_db) \<subseteq> set (decisions s') \<and>
     (\<exists>d\<in>set (decisions s'). d_ticker d = ''NVDA'' \<and> d_status d = Submitted)"
proof -
  let ?p = "handle_submit_decision golden_pydantic ''pm'' buy_call ''2026-08-17'' 60 ''v1'' ''m'' critiqued_db"
  have "fst ?p = Inr (Inr ())" by code_simp
  then obtain s' where run: "?p = (Inr (Inr ()), s')" by (metis surjective_pairing)
  have "as_date golden_pydantic ''2026-08-17'' = Some ''2026-08-17''" by (simp add: golden_pydantic_def)
  from decision_is_irrevocable [OF critiqued_db_wf this run]
  have "\<forall>d\<in>set (decisions critiqued_db). d_status d \<noteq> Submitted \<longrightarrow> d \<in> set (decisions s')"
    "\<exists>d\<in>set (decisions s'). d_ticker d = ''NVDA'' \<and> d_status d = Submitted"
    by (auto simp: golden_pydantic_def buy_call_def dget_def)
  with run show ?thesis by (auto simp: critiqued_db_def)
qed

theorem refused_calls_write_nothing_witness:
  "\<exists>r s'. handle_submit_decision golden_pydantic ''analyst'' buy_call ''2026-08-17'' 60 ''v1'' ''m'' critiqued_db = (r, s') \<and> s' = critiqued_db"
proof -
  obtain r s' where run: "handle_submit_decision golden_pydantic ''analyst'' buy_call ''2026-08-17'' 60 ''v1'' ''m'' critiqued_db = (r, s')"
    by (metis surj_pair)
  have "\<not> can ''analyst'' ''submit_decision''" by code_simp
  moreover have "unique_on r_decision_id (resolutions critiqued_db)" by (simp add: critiqued_db_def empty_db_def unique_on_def)
  ultimately show ?thesis
    using run refused_calls_write_nothing [of critiqued_db golden_pydantic "''analyst''" buy_call "''2026-08-17''" 60 "''v1''" "''m''" _ s' r] by blast
qed

definition registered_db :: db where
  "registered_db = empty_db\<lparr>strategy_specs := [\<lparr>sp_spec_id = ''spec_1'', sp_fields = [], sp_created_at = 0\<rparr>]\<rparr>"

theorem verdict_is_written_once_witness:
  "\<exists>s' c. handle_submit_spec_critique golden_pydantic ''critic'' [(''spec_id'', PStr ''spec_1''), (''verdict'', PStr ''clear'')] 60 ''v1'' ''m''
      (Some ''spec_1'') registered_db = (Inr (Inr ()), s') \<and> strategy_critiques s' = [c] \<and> sc_spec_id c = ''spec_1''"
proof -
  let ?p = "handle_submit_spec_critique golden_pydantic ''critic'' [(''spec_id'', PStr ''spec_1''), (''verdict'', PStr ''clear'')] 60 ''v1'' ''m''
      (Some ''spec_1'') registered_db"
  have "fst ?p = Inr (Inr ())" by code_simp
  then obtain s' where run: "?p = (Inr (Inr ()), s')" by (metis surjective_pairing)
  have "as_str golden_pydantic (PStr t) = Some t" for t by (simp add: golden_pydantic_def)
  from verdict_is_written_once [OF this run] run show ?thesis by (auto simp: registered_db_def empty_db_def)
qed

theorem reflection_is_written_once_witness:
  "\<exists>s' q. handle_submit_reflection (\<lambda>_. ''+0.00'') ''reflect'' [(''prose'', PStr ''wait longer'')] (Some 1) critiqued_db = (Inr (Inr ()), s') \<and>
     q \<in> set (resolutions s') \<and> r_reflection q \<noteq> None"
proof -
  let ?p = "handle_submit_reflection (\<lambda>_. ''+0.00'') ''reflect'' [(''prose'', PStr ''wait longer'')] (Some 1) critiqued_db"
  have "fst ?p = Inr (Inr ())" by code_simp
  then obtain s' where run: "?p = (Inr (Inr ()), s')" by (metis surjective_pairing)
  have "unique_on r_decision_id (resolutions critiqued_db)" by (simp add: critiqued_db_def empty_db_def unique_on_def)
  from reflection_is_written_once [OF this run] run show ?thesis by fastforce
qed

theorem brief_shows_what_is_granted_witness:
  "\<exists>b x'. handle_get_stage_brief ''pm'' ''2026-08-17'' None None (critiqued_db, ()) = (Inr (Inr b), (critiqued_db, x')) \<and>
     br_allowed b = Some [] \<and> ''allowed actions'' \<in> fst ` set (br_unavailable b)"
proof -
  have "can ''pm'' ''get_stage_brief''" "can ''pm'' ''read_allowed_actions''" by code_simp+
  moreover obtain ans x' where "handle_get_stage_brief ''pm'' ''2026-08-17'' None None (critiqued_db, ()) = (Inr ans, (critiqued_db, x'))"
    and "case ans of Inl e \<Rightarrow> \<not> can ''pm'' ''get_stage_brief''
      | Inr b \<Rightarrow> can ''pm'' ''read_allowed_actions'' \<longrightarrow> br_allowed b = Some [] \<and> ''allowed actions'' \<in> fst ` set (br_unavailable b)"
    using brief_shows_what_is_granted [of "''pm''" "''2026-08-17''" None None critiqued_db "()"]
    by (fastforce split: sum.splits)
  ultimately show ?thesis by (cases ans) simp_all
qed

end
