(* ===== verification/ReconcileProps.thy ===== *)
theory ReconcileProps imports Reconcile begin

text \<open>
  What reconciliation may do to the books: only what the broker's answer says, to the order
  asked about and the decision behind it. Each claim is a relation on worlds that every
  operation respects (Prog's locale \<open>evolution\<close>), instantiated here three times.
\<close>

section \<open>The books follow the broker\<close>

text \<open>
  The only status changes: the order \<open>coid\<close> and its ticket's decision, into a status of
  \<open>allowed_st\<close>. Tickets are untouched.
\<close>

definition mirrors :: "string \<Rightarrow> status set \<Rightarrow> db \<Rightarrow> db \<Rightarrow> bool" where
  "mirrors coid allowed_st s s' \<longleftrightarrow> tickets s' = tickets s \<and> (db_wf s \<longrightarrow> db_wf s' \<and>
     (\<forall>t k. status_of t k s' = status_of t k s \<or>
        (\<exists>b\<in>allowed_st. status_of t k s' = Some b \<and>
          (t = T_orders \<and> k = K_client_order_id coid
           \<or> t = T_decisions \<and> (\<exists>i. k = K_id_int i \<and> decision_of_ticket coid s = Some i)))))"

lemma decision_of_ticket_tickets: "tickets s' = tickets s \<Longrightarrow> decision_of_ticket coid s' = decision_of_ticket coid s"
  by (simp add: decision_of_ticket_def)

lemma mirrors_trans:
  assumes "mirrors c A s s'" and "mirrors c A s' s''"
  shows "mirrors c A s s''"
proof -
  have t: "tickets s' = tickets s" "tickets s'' = tickets s" using assms by (simp_all add: mirrors_def)
  note d = decision_of_ticket_tickets [OF t(1)]
  show ?thesis
    using assms unfolding mirrors_def t d by metis
qed

lemma mirrors_refl: "mirrors c A s s"
  by (simp add: mirrors_def)

interpretation mi: evolution "mirrors c A" for c A
  by unfold_locales (auto intro: mirrors_refl mirrors_trans)

definition mirrors_fst :: "string \<Rightarrow> status set \<Rightarrow> 'x world \<Rightarrow> 'x world \<Rightarrow> bool" where
  "mirrors_fst c A w w' \<longleftrightarrow> mirrors c A (fst w) (fst w')"

interpretation miw: evolution "mirrors_fst c A" for c A
  by unfold_locales (auto simp: mirrors_fst_def intro: mirrors_refl mirrors_trans)

lemma miw_on_db: "mi.obeys c A m \<Longrightarrow> miw.obeys c A (on_db m)"
  unfolding mi.obeys_def miw.obeys_def mirrors_fst_def on_db_def
  by (metis (no_types, lifting) case_prod_beta fst_conv snd_conv)

lemma miw_on_port: "miw.obeys c A (on_port m)"
  by (auto simp: miw.obeys_def mirrors_fst_def on_port_def mirrors_refl split: prod.splits)

lemma mirrors_same: "same_rows s s' \<Longrightarrow> mirrors c A s s'"
proof -
  assume same: "same_rows s s'"
  then have "tickets s' = tickets s" "db_wf s \<longrightarrow> db_wf s'" by (simp_all add: same_rows_def)
  with same_rows_status [OF same] show ?thesis by (simp add: mirrors_def del: status_of.simps)
qed

lemma mi_modify_same: "(\<And>s. same_rows s (f s)) \<Longrightarrow> mi.obeys c A (modify f)"
  by (simp add: mi.obeys_modify mirrors_same)

lemma mi_alert: "mi.obeys c A (modify (alert code now))"
  by (rule mi_modify_same) (rule same_rows_alert)

lemma mi_fill_event: "mi.obeys c A (modify (fill_event row n avg now))"
  by (rule mi_modify_same) (simp add: fill_event_def same_rows_event)

lemma fetchone_update_keep:
  assumes "\<And>r. key (f r) = key r" and "\<And>r. st (f r) = st r"
  shows "map_option st (fetchone (\<lambda>r. key r = k) (update_where P f xs)) = map_option st (fetchone (\<lambda>r. key r = k) xs)"
  by (induction xs) (simp_all add: update_where_def assms)

lemma mi_record_fill: "mi.obeys c A (record_fill coid n avg cl)"
proof (rule mi.obeysI)
  fix s
  have "status_of t k (s\<lparr>orders := update_where (\<lambda>q. o_client_order_id q = coid)
        (\<lambda>q. q\<lparr>o_filled_qty := m, o_filled_avg_price := sql_real avg,
               o_closed_at := (case cl of None \<Rightarrow> o_closed_at q | Some t \<Rightarrow> Some t)\<rparr>) (orders s)\<rparr>) = status_of t k s" for t k m
    by (cases t; cases k) (simp_all add: fetchone_update_keep)
  then show "mirrors c A s (snd (record_fill coid n avg cl s))"
    by (auto simp: record_fill_def mirrors_def sql_int_def db_wf_def unique_on_update_where
        simp del: status_of.simps)
qed

lemma try_transition_tickets: "tbl \<noteq> T_tickets \<Longrightarrow> tickets (snd (try_transition tbl k a b now x v s)) = tickets s"
proof (cases "legal_call tbl k a b x v")
  case True
  assume "tbl \<noteq> T_tickets"
  with True show ?thesis by (simp add: try_transition_legal) (cases tbl; cases k; simp add: Let_def)
qed (use try_transition_illegal [of tbl k a b x v now s] in auto)

lemma mirrors_cas:
  assumes "b \<in> A" and "tbl = T_orders \<and> k = K_client_order_id c \<or>
    tbl = T_decisions \<and> (\<exists>i. k = K_id_int i \<and> decision_of_ticket c s = Some i)"
  shows "mirrors c A s (snd (try_transition tbl k a b now x v s))"
proof -
  have "tbl \<noteq> T_tickets" using assms(2) by auto
  then show ?thesis
    using assms try_transition_tickets [of tbl k a b now x v s]
    by (auto simp: mirrors_def try_transition_wf status_of_try_transition simp del: status_of.simps)
qed

lemma mi_cas_order: "b \<in> A \<Longrightarrow> mi.obeys c A (cas_order c a b now)"
  by (simp add: mi.obeys_def mirrors_cas)

lemma mi_on_decision:
  assumes "b \<in> A" and "\<And>m. mi.obeys c A (f m)" and "mi.obeys c A g"
  shows "mi.obeys c A (andthen (gets (decision_of_ticket c)) (\<lambda>t.
     case t of None \<Rightarrow> g | Some i \<Rightarrow> andthen (cas_decision i a b now) f))"
proof (rule mi.obeys_andthen_gets)
  fix s
  show "mirrors c A s (snd ((case decision_of_ticket c s of None \<Rightarrow> g
      | Some i \<Rightarrow> andthen (cas_decision i a b now) f) s))"
  proof (cases "decision_of_ticket c s")
    case None
    then show ?thesis using mi.obeysD [OF assms(3)] by simp
  next
    case (Some i)
    obtain r s1 where t: "cas_decision i a b now s = (r, s1)" by fastforce
    have "mirrors c A s s1"
      using mirrors_cas [OF assms(1), of T_decisions "K_id_int i" c s a now "[]" None] Some t by simp
    then show ?thesis
      using Some t mi.obeysD [OF assms(2)] mirrors_trans by (cases r) (auto simp: andthen_def)
  qed
qed

section \<open>What an answer allows\<close>

definition told :: "pydict \<Rightarrow> status set" where
  "told d = (let st = dget d ''status'' in
     if st = PStr ''filled'' then {Filled, Executed}
     else if st = PStr ''partially_filled'' then {Partially_filled}
     else case dead_status st of
        Inr (Some b) \<Rightarrow> (case dead_fill d of Inr None \<Rightarrow> {b, Failed} | Inr (Some _) \<Rightarrow> {b, Executed} | Inl _ \<Rightarrow> {})
      | _ \<Rightarrow> {})"

lemmas mi_steps = mi.obeys_intros mi_alert mi_fill_event mi_record_fill

lemma mi_executed:
  "Executed \<in> A \<Longrightarrow> mi.obeys c A (andthen (gets (decision_of_ticket c)) (\<lambda>t. case t of None \<Rightarrow> ret ()
       | Some i \<Rightarrow> andthen (cas_decision i Approved_st Executed now)
           (\<lambda>dm. whenever (\<not> dm) (modify (alert ''fill_on_unapproved_decision'' now)))))"
  by (rule mi_on_decision, assumption) (intro mi_steps)+

lemma mi_apply_order: "mi.obeys (o_client_order_id row) (told d) (apply_order row d now)"
proof -
  consider (f) "dget d ''status'' = PStr ''filled''" | (p) "dget d ''status'' = PStr ''partially_filled''"
    | (n) "dget d ''status'' \<noteq> PStr ''filled''" "dget d ''status'' \<noteq> PStr ''partially_filled''" by blast
  then show ?thesis
  proof cases
    case f
    then have "told d = {Filled, Executed}" by (simp add: told_def)
    with f show ?thesis unfolding apply_order_def Let_def
      by simp (intro mi_executed mi_cas_order mi_steps; simp)
  next
    case p
    then have "told d = {Partially_filled}" by (simp add: told_def)
    with p show ?thesis unfolding apply_order_def Let_def
      by simp (intro mi_cas_order mi_steps; simp)
  qed (simp add: apply_order_def Let_def mi_steps)
qed

lemma mi_decision_step:
  "b \<in> A \<Longrightarrow> decision_of_ticket c s = t \<Longrightarrow>
   mirrors c A s (snd ((case t of None \<Rightarrow> ret False | Some i \<Rightarrow> cas_decision i Approved_st b now) s))"
  by (cases t) (auto simp: mirrors_refl intro!: mirrors_cas)

lemma mi_close_dead:
  assumes "b \<in> A" and "fill = None \<Longrightarrow> Failed \<in> A" and "fill \<noteq> None \<Longrightarrow> Executed \<in> A"
  shows "mi.obeys (o_client_order_id row) A (close_dead row cur b fill now)"
proof -
  let ?c = "o_client_order_id row"
  have two: "mirrors ?c A s (snd (andthen (case t of None \<Rightarrow> ret False | Some i \<Rightarrow> cas_decision i Approved_st x now)
       (\<lambda>_. modify (alert code now)) s))" if "x \<in> A" "decision_of_ticket ?c s = t" for x t s code
  proof -
    obtain r s1 where m: "(case t of None \<Rightarrow> ret False | Some i \<Rightarrow> cas_decision i Approved_st x now) s = (r, s1)" by fastforce
    have "mirrors ?c A s s1" using mi_decision_step [OF that, of now] m by simp
    moreover have "mirrors ?c A s1 (alert code now s1)" by (rule mirrors_same [OF same_rows_alert])
    ultimately show ?thesis using m mirrors_trans by (cases r) (auto simp: andthen_def)
  qed
  have fev: "mirrors ?c A s (fill_event row n avg now s)" for s n avg
    by (rule mirrors_same) (simp add: fill_event_def same_rows_event)
  have "mi.obeys ?c A (andthen (gets (decision_of_ticket ?c)) (\<lambda>t. case fill of
           None \<Rightarrow> andthen (case t of None \<Rightarrow> ret False | Some i \<Rightarrow> cas_decision i Approved_st Failed now)
             (\<lambda>_. modify (alert ''order_unfilled_at_cap'' now))
         | Some (n, avg) \<Rightarrow> andthen (modify (fill_event row n avg now)) (\<lambda>_.
             andthen (case t of None \<Rightarrow> ret False | Some i \<Rightarrow> cas_decision i Approved_st Executed now) (\<lambda>_.
             modify (alert ''order_partial_then_dead'' now)))))"
  proof (rule mi.obeys_andthen_gets)
    fix s
    show "mirrors ?c A s (snd ((case fill of
           None \<Rightarrow> andthen (case decision_of_ticket ?c s of None \<Rightarrow> ret False | Some i \<Rightarrow> cas_decision i Approved_st Failed now)
             (\<lambda>_. modify (alert ''order_unfilled_at_cap'' now))
         | Some (n, avg) \<Rightarrow> andthen (modify (fill_event row n avg now)) (\<lambda>_.
             andthen (case decision_of_ticket ?c s of None \<Rightarrow> ret False | Some i \<Rightarrow> cas_decision i Approved_st Executed now) (\<lambda>_.
             modify (alert ''order_partial_then_dead'' now)))) s))"
    proof (cases fill)
      case None
      with two [OF assms(2) refl] show ?thesis by simp
    next
      case (Some na)
      obtain n avg where na: "na = (n, avg)" by fastforce
      have "decision_of_ticket ?c (fill_event row n avg now s) = decision_of_ticket ?c s"
        by (rule decision_of_ticket_tickets) (simp add: fill_event_def)
      from two [OF assms(3) this] Some have "mirrors ?c A (fill_event row n avg now s)
          (snd (andthen (case decision_of_ticket ?c s of None \<Rightarrow> ret False | Some i \<Rightarrow> cas_decision i Approved_st Executed now)
             (\<lambda>_. modify (alert ''order_partial_then_dead'' now)) (fill_event row n avg now s)))" by simp
      with mirrors_trans [OF fev] Some na show ?thesis by simp
    qed
  qed
  note inner = this
  show ?thesis
    unfolding close_dead_def Let_def
    by (intro mi.obeys_andthen mi.obeys_whenever mi.obeys_ret mi_cas_order assms(1) inner)
      (auto intro!: mi_record_fill mi.obeys_ret split: option.split)
qed

lemma miw_unreconciled: "miw.obeys c A (unreconciled now)"
  by (intro miw.obeys_intros miw_on_db mi_alert)

lemma miw_timeout_answer: "miw.obeys (o_client_order_id row) (told d) (timeout_answer row now d)"
proof (cases "dget d ''status'' = PStr ''filled'' \<or> dget d ''status'' = PStr ''partially_filled''")
  case True
  then show ?thesis
    by (simp add: timeout_answer_def) (intro miw.obeys_catch miw_on_db mi_apply_order miw_unreconciled)
next
  case False
  have close: "miw.obeys (o_client_order_id row) (told d) (on_db (close_dead row q b fill now))"
    if "dead_status (dget d ''status'') = Inr (Some b)" "dead_fill d = Inr fill" for q b fill
    by (intro miw_on_db mi_close_dead) (use that False in \<open>auto simp: told_def split: option.splits\<close>)
  show ?thesis
  proof (cases "dead_status (dget d ''status'')")
    case (Inl e)
    with False show ?thesis by (simp add: timeout_answer_def miw.obeys_intros)
  next
    case (Inr ob)
    show ?thesis
    proof (cases ob)
      case None
      with Inr False show ?thesis by (simp add: timeout_answer_def miw_unreconciled)
    next
      case (Some b)
      with Inr False show ?thesis
        by (simp add: timeout_answer_def Let_def)
          (intro miw.obeys_andthen miw_on_db mi.obeys_gets miw.obeys_option miw.obeys_if miw_unreconciled,
            auto split: sum.splits intro!: miw_unreconciled close)
    qed
  qed
qed


text \<open>What the re-query after the cancel answers; \<open>None\<close> is no usable answer.\<close>

definition requery :: "'x broker \<Rightarrow> string \<Rightarrow> 'x \<Rightarrow> pydict option" where
  "requery B coid x = (case bk_lookup B of None \<Rightarrow> None
     | Some f \<Rightarrow> (case fst (f coid (snd (bk_cancel B coid x))) of
         Inr (Some (kv # d)) \<Rightarrow> Some (kv # d) | _ \<Rightarrow> None))"

section \<open>The numbers\<close>

text \<open>What the books hold of each order, and the fills they announce.\<close>

definition ledger :: "db \<Rightarrow> (string \<times> string \<times> string \<times> int \<times> int \<times> pyfloat option) list" where
  "ledger s = map (\<lambda>q. (o_client_order_id q, o_symbol q, o_side q, o_qty q, o_filled_qty q, o_filled_avg_price q)) (orders s)"

definition fill_lines :: "db \<Rightarrow> pydict list" where
  "fill_lines s = map e_payload (filter (\<lambda>e. e_kind e = ''fill'') (events s))"

definition refilled :: "string \<Rightarrow> int \<Rightarrow> pyfloat \<Rightarrow> (string \<times> string \<times> string \<times> int \<times> int \<times> pyfloat option) list
    \<Rightarrow> (string \<times> string \<times> string \<times> int \<times> int \<times> pyfloat option) list" where
  "refilled coid n avg = map (\<lambda>(i, sym, side, qty, fq, fa). if i = coid then (i, sym, side, qty, n, sql_real avg) else (i, sym, side, qty, fq, fa))"

text \<open>The fill an answer states: a whole, positive number of shares at a price that is not at or below zero; and an answer without one.\<close>

definition says_filled :: "pydict \<Rightarrow> int \<Rightarrow> pyfloat \<Rightarrow> bool" where
  "says_filled d n avg \<longleftrightarrow> 0 < n \<and> \<not> fle avg (Fin 0)
     \<and> (\<exists>v. map_of d ''filled_qty'' = Some v \<and> float_of v = Inr (Fin (of_int n)))
     \<and> (\<exists>v. map_of d ''filled_avg_price'' = Some v \<and> float_of v = Inr avg)"

definition says_unfilled :: "pydict \<Rightarrow> bool" where
  "says_unfilled d \<longleftrightarrow> dget d ''filled_qty'' \<in> {PNone, PStr []} \<or> float_of (dget d ''filled_qty'') = Inr (Fin 0)"

lemma parse_fill_says: "parse_fill d = Inr (n, avg) \<Longrightarrow> says_filled d n avg"
  by (auto simp: parse_fill_def res_bind_Inr says_filled_def dkey_def not_le split: if_splits option.splits)

lemma dead_fill_says: "dead_fill d = Inr (Some (n, avg)) \<Longrightarrow> says_filled d n avg" "dead_fill d = Inr None \<Longrightarrow> says_unfilled d"
  unfolding dead_fill_def Let_def
  by (auto simp: res_bind_Inr says_unfilled_def feq_def intro: parse_fill_says split: if_splits)

abbreviation order_status :: "string \<Rightarrow> db \<Rightarrow> status option" where
  "order_status coid s \<equiv> status_of T_orders (K_client_order_id coid) s"

text \<open>Nothing but statuses of other rows and events of other kinds.\<close>

definition keeps :: "string \<Rightarrow> db \<Rightarrow> db \<Rightarrow> bool" where
  "keeps coid s s' \<longleftrightarrow> ledger s' = ledger s \<and> fill_lines s' = fill_lines s \<and> order_status coid s' = order_status coid s \<and> db_wf s'"

definition keeps_wf :: "string \<Rightarrow> db \<Rightarrow> db \<Rightarrow> bool" where
  "keeps_wf coid s s' \<longleftrightarrow> (db_wf s \<longrightarrow> keeps coid s s')"

interpretation kp: evolution "keeps_wf c" for c
  by unfold_locales (auto simp: keeps_wf_def keeps_def)

lemma keeps_alert: "db_wf s \<Longrightarrow> keeps c s (alert code now s)"
  using same_rows_status [OF same_rows_alert] append_alert_wf
  by (simp add: keeps_def ledger_def fill_lines_def append_alert_def del: status_of.simps)

lemma kp_alert: "kp.obeys c (modify (alert code now))"
  by (rule kp.obeys_modify) (simp add: keeps_wf_def keeps_alert)

lemma try_transition_lines: "fill_lines (snd (try_transition t k a b now x v s)) = fill_lines s"
proof (cases "legal_call t k a b x v")
  case True
  then show ?thesis by (simp add: try_transition_legal) (cases t; cases k; simp add: fill_lines_def Let_def)
qed (use try_transition_illegal [of t k a b x v now s] in auto)

lemma ledger_update_where:
  "(\<And>q. (o_client_order_id (f q), o_symbol (f q), o_side (f q), o_qty (f q), o_filled_qty (f q), o_filled_avg_price (f q)) =
     (o_client_order_id q, o_symbol q, o_side q, o_qty q, o_filled_qty q, o_filled_avg_price q)) \<Longrightarrow>
   ledger (s\<lparr>orders := update_where P f (orders s)\<rparr>) = ledger s"
  by (simp add: ledger_def update_where_def)

lemma try_transition_ledger: "ledger (snd (try_transition t k a b now x v s)) = ledger s"
proof (cases "legal_call t k a b x v")
  case True
  then show ?thesis by (simp add: try_transition_legal) (cases t; cases k; simp add: ledger_def update_where_def Let_def)
qed (use try_transition_illegal [of t k a b x v now s] in auto)

lemma kp_cas_decision: "kp.obeys c (cas_decision i a b now)"
  by (rule kp.obeysI)
    (simp add: keeps_wf_def keeps_def try_transition_ledger try_transition_lines try_transition_wf status_of_try_transition del: status_of.simps)

lemma cas_order_cases:
  assumes "db_wf s" and "cas_order c a b now s = (r, s')"
  obtains (won) "r = Inr True" and "order_status c s = Some a" and "order_status c s' = Some b" and "db_wf s'"
      and "ledger s' = ledger s" and "fill_lines s' = fill_lines s" and "a \<noteq> b"
    | (lost) "r \<noteq> Inr True" and "s' = s"
proof (cases "r = Inr True")
  case True
  with assms have t: "fst (cas_order c a b now s) = Inr True" "s' = snd (cas_order c a b now s)" by simp_all
  then have "legal_call T_orders (K_client_order_id c) a b [] None" "order_status c s = Some a"
    using try_transition_iff [OF assms(1)] by auto
  moreover from this(1) have "a \<noteq> b" by (auto simp: legal_call_def EDGES_def)
  ultimately show ?thesis using True won t try_transition_hit [OF assms(1) t(1)] try_transition_wf [OF assms(1)]
    by (simp add: try_transition_ledger try_transition_lines del: status_of.simps)
next
  case False
  with assms lost try_transition_miss [OF assms(1), of T_orders "K_client_order_id c" a b now "[]" None] show ?thesis by simp
qed

lemma record_fill_cases:
  assumes "db_wf s" and "record_fill c n avg cl s = (r, s')"
  obtains (raised) e where "r = Inl e" and "s' = s"
    | (wrote) "r = Inr ()" and "ledger s' = refilled c n avg (ledger s)" and "fill_lines s' = fill_lines s"
        and "order_status c s' = order_status c s" and "db_wf s'"
proof -
  have m: "mirrors c {} s s'" using mi.obeysD [OF mi_record_fill [of c "{}" c n avg cl], of s] assms(2) by simp
  then have w: "db_wf s'" and st: "order_status c s' = order_status c s"
    using assms(1) by (simp_all add: mirrors_def del: status_of.simps)
  show ?thesis
  proof (cases "r")
    case (Inr u)
    then have "ledger s' = refilled c n avg (ledger s) \<and> fill_lines s' = fill_lines s"
      using assms(2) by (auto simp: record_fill_def sql_int_def ledger_def refilled_def update_where_def fill_lines_def split: if_splits)
    with Inr w st wrote show ?thesis by simp
  qed (use assms(2) raised in \<open>auto simp: record_fill_def split: sum.splits\<close>)
qed

text \<open>
  What closing an order out may leave: nothing of the order changed; the numbers of the answer's fill are in its row, and announced once if
  and only if its status closed; or, on an answer without a fill, it is dead and nothing else.
\<close>

definition fill_line :: "order \<Rightarrow> int \<Rightarrow> pyfloat \<Rightarrow> pydict" where
  "fill_line row n avg = [(''ticker'', PStr (o_symbol row)), (''side'', PStr (o_side row)), (''filled_qty'', PInt n),
     (''filled_avg_price'', PFloat avg), (''ticket_id'', PStr (o_client_order_id row))]"

definition booked :: "order \<Rightarrow> pydict \<Rightarrow> db \<Rightarrow> db \<Rightarrow> bool" where
  "booked row d s s' \<longleftrightarrow> (let c = o_client_order_id row in
     ledger s' = ledger s \<and> fill_lines s' = fill_lines s \<and> order_status c s' = order_status c s
     \<or> (\<exists>n avg. says_filled d n avg \<and> ledger s' = refilled c n avg (ledger s) \<and> fill_lines s' = fill_lines s @
          (if order_status c s' = order_status c s \<or> order_status c s' = Some Partially_filled then [] else [fill_line row n avg]))
     \<or> says_unfilled d \<and> ledger s' = ledger s \<and> fill_lines s' = fill_lines s \<and> order_status c s' \<in> {Some Canceled, Some Rejected_st})"

lemma booked_same: "booked row d s s"
  by (simp add: booked_def)

lemma booked_keeps: "booked row d s s1 \<Longrightarrow> keeps (o_client_order_id row) s1 s2 \<Longrightarrow> booked row d s s2"
  by (simp add: booked_def keeps_def Let_def del: status_of.simps)

lemma booked_recorded:
  assumes "says_filled d n avg" and "ledger s1 = refilled (o_client_order_id row) n avg (ledger s)" and "fill_lines s1 = fill_lines s"
    and "order_status (o_client_order_id row) s1 = order_status (o_client_order_id row) s \<or>
      order_status (o_client_order_id row) s1 = Some Partially_filled"
  shows "booked row d s s1"
  using assms by (auto simp: booked_def Let_def simp del: status_of.simps)

lemma booked_announced:
  assumes "says_filled d n avg" and "ledger s1 = refilled (o_client_order_id row) n avg (ledger s)" and "fill_lines s1 = fill_lines s"
    and "order_status (o_client_order_id row) s1 = Some b" and "order_status (o_client_order_id row) s \<noteq> Some b" and "b \<noteq> Partially_filled"
    and "db_wf s1" and "kp.obeys (o_client_order_id row) rest"
  shows "booked row d s (snd (andthen (modify (fill_event row n avg now)) (\<lambda>_. rest) s1))"
proof -
  let ?s2 = "fill_event row n avg now s1"
  have st: "order_status (o_client_order_id row) ?s2 = Some b"
    using assms(4) same_rows_status [OF same_rows_event [of s1 "''fill''"]] by (simp add: fill_event_def del: status_of.simps)
  have v: "ledger ?s2 = ledger s1" "fill_lines ?s2 = fill_lines s1 @ [fill_line row n avg]" "db_wf ?s2"
    using assms(7) by (simp_all add: fill_event_def ledger_def fill_lines_def fill_line_def append_event_wf)
  have "booked row d s ?s2" using assms(1-6) st v by (auto simp: booked_def Let_def simp del: status_of.simps)
  moreover have "keeps (o_client_order_id row) ?s2 (snd (rest ?s2))" using kp.obeysD [OF assms(8)] v(3) by (simp add: keeps_wf_def)
  ultimately show ?thesis by (simp add: booked_keeps)
qed

lemma kp_decision_of:
  "kp.obeys c (andthen (gets (decision_of_ticket k)) (\<lambda>t. case t of None \<Rightarrow> ret ()
     | Some i \<Rightarrow> andthen (cas_decision i a b now) (\<lambda>dm. whenever (\<not> dm) (modify (alert code now)))))"
  by (intro kp.obeys_intros kp_cas_decision kp_alert)

lemma booked_partial:
  assumes wf: "db_wf s" and p: "dget d ''status'' = PStr ''partially_filled''" and run: "apply_order row d now s = (r, s')"
  shows "booked row d s s'"
proof (cases "parse_fill d")
  case (Inl e)
  then show ?thesis using p run by (simp add: apply_order_def Let_def booked_same)
next
  case (Inr na)
  let ?c = "o_client_order_id row"
  obtain n avg where na: "na = (n, avg)" by fastforce
  then have says: "says_filled d n avg" using parse_fill_says Inr by simp
  obtain r1 s1 where r1: "record_fill ?c n avg None s = (r1, s1)" by fastforce
  from wf r1 show ?thesis
  proof (cases rule: record_fill_cases)
    case (raised e)
    then show ?thesis using p run Inr na r1 by (simp add: apply_order_def Let_def andthen_def booked_same)
  next
    case wrote
    obtain r2 s2 where r2: "cas_order ?c Submitted Partially_filled now s1 = (r2, s2)" by fastforce
    have "booked row d s s2 \<and> db_wf s2"
      using \<open>db_wf s1\<close> r2 by (cases rule: cas_order_cases)
        (use wrote in \<open>auto intro!: booked_recorded [OF says] simp del: status_of.simps\<close>)
    moreover have "s' = s2 \<or> s' = alert ''partial_fill_manual_review'' now s2"
      using p run Inr na r1 wrote(1) r2 by (cases r2) (simp_all add: apply_order_def Let_def andthen_def whenever_def split: if_splits)
    ultimately show ?thesis using booked_keeps [OF _ keeps_alert] by auto
  qed
qed

text \<open>The two attempts to close a live order.\<close>

lemma cas_filled_cases:
  assumes "db_wf s" and "andthen (cas_order c Submitted Filled now) (\<lambda>m. if m then ret True else cas_order c Partially_filled Filled now) s = (r, s')"
  obtains (won) "r = Inr True" and "order_status c s \<noteq> Some Filled" and "order_status c s' = Some Filled" and "db_wf s'"
      and "ledger s' = ledger s" and "fill_lines s' = fill_lines s"
    | (lost) "r \<noteq> Inr True" and "s' = s"
proof -
  obtain r1 s1 where 1: "cas_order c Submitted Filled now s = (r1, s1)" by fastforce
  from assms(1) 1 show ?thesis
  proof (cases rule: cas_order_cases)
    case won
    then show ?thesis using assms(2) 1 that(1) by (simp add: andthen_def del: status_of.simps)
  next
    case lost
    consider e where "r = Inl e" "s' = s" | "cas_order c Partially_filled Filled now s = (r, s')"
      using assms(2) 1 lost by (cases r1) (auto simp: andthen_def)
    then show ?thesis
    proof cases
      case 2
      from assms(1) 2 show ?thesis by (cases rule: cas_order_cases) (use that in \<open>auto simp del: status_of.simps\<close>)
    qed (use that in auto)
  qed
qed

lemma booked_filled:
  assumes wf: "db_wf s" and f: "dget d ''status'' = PStr ''filled''" and run: "apply_order row d now s = (r, s')"
  shows "booked row d s s'"
proof (cases "parse_fill d")
  case (Inl e)
  then show ?thesis using f run by (simp add: apply_order_def Let_def booked_same)
next
  case (Inr na)
  let ?c = "o_client_order_id row"
  let ?close = "andthen (cas_order ?c Submitted Filled now) (\<lambda>m. if m then ret True else cas_order ?c Partially_filled Filled now)"
  let ?rest = "andthen (gets (decision_of_ticket ?c)) (\<lambda>t. case t of None \<Rightarrow> ret ()
     | Some i \<Rightarrow> andthen (cas_decision i Approved_st Executed now) (\<lambda>dm. whenever (\<not> dm) (modify (alert ''fill_on_unapproved_decision'' now))))"
  obtain n avg where na: "na = (n, avg)" by fastforce
  then have says: "says_filled d n avg" using parse_fill_says Inr by simp
  have ap: "apply_order row d now = andthen (record_fill ?c n avg (Some now)) (\<lambda>_. andthen ?close (\<lambda>moved.
      andthen (whenever moved (andthen (modify (fill_event row n avg now)) (\<lambda>_. ?rest))) (\<lambda>_. ret moved)))"
    using f Inr na by (simp add: apply_order_def Let_def andthen_assoc)
  obtain r1 s1 where r1: "record_fill ?c n avg (Some now) s = (r1, s1)" by fastforce
  from wf r1 show ?thesis
  proof (cases rule: record_fill_cases)
    case (raised e)
    then show ?thesis using run r1 by (simp add: ap andthen_def booked_same)
  next
    case wrote
    obtain r2 s2 where r2: "?close s1 = (r2, s2)" by fastforce
    have "andthen ?close (\<lambda>moved. andthen (whenever moved (andthen (modify (fill_event row n avg now)) (\<lambda>_. ?rest))) (\<lambda>_. ret moved)) s1
        = (r, s')" using run r1 wrote(1) by (simp only: ap andthen_run(2))
    from andthen_won [OF this r2]
    have s': "s' = (if r2 = Inr True then snd (andthen (modify (fill_event row n avg now)) (\<lambda>_. ?rest) s2) else s2)" .
    from \<open>db_wf s1\<close> r2 show ?thesis
    proof (cases rule: cas_filled_cases)
      case won
      then have "booked row d s (snd (andthen (modify (fill_event row n avg now)) (\<lambda>_. ?rest) s2))"
        using wrote by (intro booked_announced [OF says, of _ _ _ Filled] kp_decision_of) (simp_all del: status_of.simps)
      then show ?thesis using s' won(1) by simp
    next
      case lost
      then show ?thesis using s' wrote by (simp add: booked_recorded [OF says] del: status_of.simps)
    qed
  qed
qed

lemma booked_apply_order: "db_wf s \<Longrightarrow> apply_order row d now s = (r, s') \<Longrightarrow> booked row d s s'"
  using booked_partial [of s d row now r s'] booked_filled [of s d row now r s']
  by (cases "dget d ''status'' \<in> {PStr ''filled'', PStr ''partially_filled''}") (auto simp: apply_order_def Let_def booked_same)

lemma kp_dead_decision:
  "kp.obeys c (andthen (case t of None \<Rightarrow> ret False | Some i \<Rightarrow> cas_decision i a b now) (\<lambda>_. modify (alert code now)))"
  by (intro kp.obeys_intros kp_cas_decision kp_alert)

lemma booked_close_unfilled:
  assumes wf: "db_wf s" and b: "b \<in> {Canceled, Rejected_st}" and says: "says_unfilled d"
    and run: "close_dead row cur b None now s = (r, s')"
  shows "booked row d s s'"
proof -
  let ?c = "o_client_order_id row"
  let ?f = "andthen (gets (decision_of_ticket ?c)) (\<lambda>t. andthen (case t of None \<Rightarrow> ret False | Some i \<Rightarrow> cas_decision i Approved_st Failed now)
     (\<lambda>_. modify (alert ''order_unfilled_at_cap'' now)))"
  obtain r1 s1 where r1: "cas_order ?c (o_status cur) b now s = (r1, s1)" by fastforce
  have "andthen (cas_order ?c (o_status cur) b now) (\<lambda>won. andthen (whenever won ?f) (\<lambda>_. ret False)) s = (r, s')"
    using run by (simp add: close_dead_def Let_def)
  from andthen_won [OF this r1] have s': "s' = (if r1 = Inr True then snd (?f s1) else s1)" .
  from wf r1 show ?thesis
  proof (cases rule: cas_order_cases)
    case won
    then have "booked row d s s1" using b says by (auto simp: booked_def Let_def simp del: status_of.simps)
    moreover have "kp.obeys ?c ?f" by (intro kp.obeys_andthen kp.obeys_gets kp_dead_decision)
    then have "keeps ?c s1 (snd (?f s1))" using kp.obeysD \<open>db_wf s1\<close> by (force simp: keeps_wf_def)
    ultimately show ?thesis using s' won(1) booked_keeps by simp
  qed (use s' in \<open>simp add: booked_same\<close>)
qed

lemma booked_close_filled:
  assumes wf: "db_wf s" and b: "b \<in> {Canceled, Rejected_st}" and says: "says_filled d n avg"
    and run: "close_dead row cur b (Some (n, avg)) now s = (r, s')"
  shows "booked row d s s'"
proof -
  let ?c = "o_client_order_id row"
  let ?rest = "\<lambda>t. andthen (case t of None \<Rightarrow> ret False | Some i \<Rightarrow> cas_decision i Approved_st Executed now)
     (\<lambda>_. modify (alert ''order_partial_then_dead'' now))"
  let ?f = "andthen (gets (decision_of_ticket ?c)) (\<lambda>t. andthen (modify (fill_event row n avg now)) (\<lambda>_. ?rest t))"
  have cl: "close_dead row cur b (Some (n, avg)) now = andthen (record_fill ?c n avg (Some now)) (\<lambda>_.
      andthen (cas_order ?c (o_status cur) b now) (\<lambda>won. andthen (whenever won ?f) (\<lambda>_. ret False)))"
    by (simp add: close_dead_def Let_def)
  obtain r1 s1 where r1: "record_fill ?c n avg (Some now) s = (r1, s1)" by fastforce
  from wf r1 show ?thesis
  proof (cases rule: record_fill_cases)
    case (raised e)
    then show ?thesis using run r1 by (simp add: cl andthen_def booked_same)
  next
    case wrote
    obtain r2 s2 where r2: "cas_order ?c (o_status cur) b now s1 = (r2, s2)" by fastforce
    have "andthen (cas_order ?c (o_status cur) b now) (\<lambda>won. andthen (whenever won ?f) (\<lambda>_. ret False)) s1 = (r, s')"
      using run r1 wrote(1) by (simp only: cl andthen_run(2))
    from andthen_won [OF this r2] have s': "s' = (if r2 = Inr True then snd (?f s2) else s2)" .
    from \<open>db_wf s1\<close> r2 show ?thesis
    proof (cases rule: cas_order_cases)
      case won
      then have "booked row d s (snd (andthen (modify (fill_event row n avg now)) (\<lambda>_. ?rest (decision_of_ticket ?c s2)) s2))"
        using wrote b by (intro booked_announced [OF says, of _ _ _ b] kp_dead_decision) (auto simp del: status_of.simps)
      then show ?thesis using s' won(1) by simp
    next
      case lost
      then show ?thesis using s' wrote by (simp add: booked_recorded [OF says] del: status_of.simps)
    qed
  qed
qed

lemma booked_close_dead:
  "db_wf s \<Longrightarrow> b \<in> {Canceled, Rejected_st} \<Longrightarrow> dead_fill d = Inr fill \<Longrightarrow> close_dead row cur b fill now s = (r, s') \<Longrightarrow> booked row d s s'"
  using booked_close_unfilled [of s b d row cur now r s'] booked_close_filled [of s b d _ _ row cur now r s'] dead_fill_says
  by (cases fill) fastforce+

lemma dead_status_range: "dead_status v = Inr (Some b) \<Longrightarrow> b \<in> {Canceled, Rejected_st}"
  by (cases v) (auto simp: CONFIRMED_DEAD_def split: if_splits)

lemma unreconciled_run: "unreconciled now (s, x) = (Inr False, (alert ''order_unreconciled'' now s, x))"
  by (simp add: andthen_def on_db_def)

lemma booked_unreconciled: "db_wf s \<Longrightarrow> booked row d s (alert code now s)"
  using booked_keeps [OF booked_same keeps_alert] .

lemma booked_timeout_answer:
  assumes wf: "db_wf s" and run: "timeout_answer row now d (s, x) = (r, (s', x'))"
  shows "booked row d s s'"
proof (cases "dget d ''status'' = PStr ''filled'' \<or> dget d ''status'' = PStr ''partially_filled''")
  case True
  obtain r1 s1 where a: "apply_order row d now s = (r1, s1)" by fastforce
  note b = booked_apply_order [OF wf a]
  have "db_wf s1" using mi.obeysD [OF mi_apply_order [of row d now], of s] wf a by (simp add: mirrors_def)
  then show ?thesis using run True a b booked_keeps [OF b keeps_alert]
    by (cases r1) (auto simp: timeout_answer_def catch_def on_db_def unreconciled_run)
next
  case False
  then show ?thesis
    using run booked_same booked_unreconciled [OF wf] booked_close_dead [OF wf dead_status_range]
    by (auto simp: timeout_answer_def Let_def andthen_def on_db_def split: sum.splits option.splits if_splits prod.splits)
qed

lemma timeout_close_run:
  obtains x' where "timeout_close B row now (s, x) =
    (case requery B (o_client_order_id row) x of None \<Rightarrow> unreconciled now | Some d \<Rightarrow> timeout_answer row now d) (s, x')"
proof -
  let ?c = "o_client_order_id row"
  obtain rc x1 where c: "bk_cancel B ?c x = (rc, x1)" by fastforce
  have cancel: "catch (on_port (bk_cancel B ?c)) (\<lambda>_. ret ()) (s, x) = (Inr (), (s, x1))"
    by (cases rc) (simp_all add: catch_def on_port_def c)
  obtain x2 where q: "catch (andthen (get_order B ?c)
       (\<lambda>a. case a of Some (kv # d) \<Rightarrow> ret (Some (kv # d)) | _ \<Rightarrow> raise ValueError)) (\<lambda>_. ret None) (s, x1)
     = (Inr (requery B ?c x), (s, x2))"
  proof (cases "bk_lookup B")
    case None
    then show ?thesis using that by (simp add: catch_def andthen_def get_order_def requery_def)
  next
    case (Some f)
    obtain a y where a: "f ?c x1 = (a, y)" by fastforce
    show ?thesis
      by (rule that [of y], cases a)
        (auto simp: catch_def andthen_def get_order_def requery_def on_port_def Some c a
          split: option.splits list.splits)
  qed
  show thesis
    by (rule that [of x2]) (use cancel q in \<open>simp add: timeout_close_def andthen_def split: option.split\<close>)
qed

text \<open>
  C11: the books claim nothing the broker has not confirmed, neither a status nor a share. Whatever the cancel
  and the re-query do, closing an order out at the cap moves no status but the order's and
  its decision's, and only where the re-query's answer takes them: filled and executed on
  a fill, canceled or rejected on a confirmed death, with the decision executed when
  shares were bought and failed when none were, and nothing at all when the broker did not
  answer, answered with another status, or with fill numbers that do not parse. Of the numbers there are three outcomes. Nothing of the order
  changed and no fill was announced. Or the answer states a fill, and exactly its number of shares and its price
  are in the order's row, every other row and column as it was; and a fill with these numbers was announced, once, if the
  order's status closed, and none if it did not. Or the answer states that there was no fill, the order is dead, and nothing else was written.
\<close>

theorem books_follow_the_broker:
  assumes wf: "db_wf s" and run: "timeout_close B row now (s, x) = (r, (s', x'))" and c: "c = o_client_order_id row"
  shows "mirrors c (case requery B c x of None \<Rightarrow> {} | Some d \<Rightarrow> told d) s s' \<and>
    (ledger s' = ledger s \<and> fill_lines s' = fill_lines s \<and> order_status c s' = order_status c s
     \<or> (\<exists>d n avg. requery B c x = Some d \<and> says_filled d n avg \<and> ledger s' = refilled c n avg (ledger s) \<and>
          fill_lines s' = fill_lines s @
            (if order_status c s' = order_status c s \<or> order_status c s' = Some Partially_filled then []
             else [[(''ticker'', PStr (o_symbol row)), (''side'', PStr (o_side row)), (''filled_qty'', PInt n),
                    (''filled_avg_price'', PFloat avg), (''ticket_id'', PStr c)]]))
     \<or> (\<exists>d. requery B c x = Some d \<and> says_unfilled d \<and> ledger s' = ledger s \<and> fill_lines s' = fill_lines s \<and>
          order_status c s' \<in> {Some Canceled, Some Rejected_st}))"
proof -
  obtain y where y: "(case requery B c x of None \<Rightarrow> unreconciled now | Some d \<Rightarrow> timeout_answer row now d) (s, y) = (r, (s', x'))"
    using timeout_close_run [of B row now s x] run c by metis
  show ?thesis
  proof (cases "requery B c x")
    case None
    have "mirrors c {} s (fst (snd (unreconciled now (s, y))))"
      using miw.obeysD [OF miw_unreconciled, of c "{}" "(s, y)" now] by (simp add: mirrors_fst_def)
    then show ?thesis using y None keeps_alert [OF wf, of c "''order_unreconciled''" now]
      by (simp add: unreconciled_run keeps_def del: status_of.simps)
  next
    case (Some d)
    have "mirrors c (told d) s (fst (snd (timeout_answer row now d (s, y))))"
      using miw.obeysD [OF miw_timeout_answer, of row d "(s, y)" now] by (simp add: mirrors_fst_def c)
    moreover have "booked row d s s'" using booked_timeout_answer [OF wf, of row now d y r s' x'] y Some by simp
    note this [unfolded booked_def Let_def fill_line_def, folded c]
    ultimately show ?thesis using y Some by (simp del: status_of.simps split del: if_split)
  qed
qed

text \<open>The order of 80 shares is canceled at the cap after 30 of them were bought: the books say 30.\<close>

definition lost_order :: order where
  "lost_order = \<lparr>o_client_order_id = ''tk-1'', o_alpaca_order_id = None, o_symbol = ''NVDA'', o_side = ''buy'',
     o_qty = 80, o_status = Submitted, o_filled_qty = 0, o_filled_avg_price = None, o_submitted_at = 0, o_closed_at = None\<rparr>"

definition broken_off :: pydict where
  "broken_off = [(''status'', PStr ''canceled''), (''filled_qty'', PFloat (Fin 30)), (''filled_avg_price'', PFloat (Fin 217))]"

definition dead_broker :: "unit broker" where
  "dead_broker = \<lparr>bk_lookup = Some (\<lambda>_ x. (Inr (Some broken_off), x)), bk_cancel = (\<lambda>_ x. (Inr (), x)), bk_positions = None,
     bk_orders = None, bk_real_text = (\<lambda>_. []), bk_str = (\<lambda>_. [])\<rparr>"

theorem books_follow_the_broker_witness:
  "\<exists>r s'. timeout_close dead_broker lost_order 60 (golden_db\<lparr>orders := [lost_order]\<rparr>, ()) = (r, (s', ())) \<and>
     order_status ''tk-1'' s' = Some Canceled \<and> ledger s' = [(''tk-1'', ''NVDA'', ''buy'', 80, 30, Some (Fin 217))] \<and> length (fill_lines s') = 1"
proof -
  let ?s = "golden_db\<lparr>orders := [lost_order]\<rparr>"
  obtain r s' where run: "timeout_close dead_broker lost_order 60 (?s, ()) = (r, (s', ()))" by (metis surj_pair unit.exhaust)
  have wf: "db_wf ?s" using golden_db_wf by (simp add: db_wf_def lost_order_def unique_on_def golden_db_def golden_ticket_def)
  have c: "''tk-1'' = o_client_order_id lost_order" by (simp add: lost_order_def)
  have q: "requery dead_broker ''tk-1'' () = Some broken_off" by (simp add: requery_def dead_broker_def broken_off_def)
  have u: "\<not> says_unfilled broken_off" and d: "says_filled broken_off n avg \<Longrightarrow> n = 30 \<and> avg = Fin 217" for n avg
    by (simp_all add: says_unfilled_def says_filled_def broken_off_def dget_def)
  have st: "order_status ''tk-1'' (fst (snd (timeout_close dead_broker lost_order 60 (?s, ())))) = Some Canceled" by code_simp
  then have st: "order_status ''tk-1'' s' = Some Canceled" unfolding run by simp
  moreover have "order_status ''tk-1'' ?s = Some Submitted" "ledger ?s = [(''tk-1'', ''NVDA'', ''buy'', 80, 0, None)]" "fill_lines ?s = []"
    by (simp_all add: ledger_def lost_order_def fill_lines_def golden_db_def empty_db_def)
  ultimately show ?thesis
    using books_follow_the_broker [OF wf run c] run q u by (auto simp: refilled_def sql_real_def simp del: status_of.simps dest!: d)
qed

section \<open>A malformed payload\<close>

lemma returns_try_transition: "legal_call t k a b ex v \<Longrightarrow> returns (try_transition t k a b now ex v)"
  by (rule returnsI) (simp add: try_transition_legal)

lemma legal_mirror:
  "legal_call T_orders (K_client_order_id c) Submitted Filled [] None"
  "legal_call T_orders (K_client_order_id c) Partially_filled Filled [] None"
  "legal_call T_orders (K_client_order_id c) Submitted Partially_filled [] None"
  "legal_call T_decisions (K_id_int i) Approved_st Executed [] None"
  "legal_call T_decisions (K_id_int i) Approved_st Failed [] None"
  "legal_call T_tickets (K_id_str c) Open Consumed [] None"
  by (auto simp: legal_call_def EDGES_def VERSIONED_def)

lemma parsed_then_returns:
  assumes "andthen (lift_res r) (\<lambda>(n, avg). andthen (record_fill c n avg cl) (\<lambda>_. m n avg)) s = (Inl e, s')"
    and "\<And>n avg. returns (m n avg)"
  shows "s' = s"
proof (cases r)
  case (Inr p)
  obtain n avg where p: "p = (n, avg)" by fastforce
  show ?thesis
  proof (cases "sql_int n")
    case (Inr k)
    have "\<exists>s1. record_fill c n avg cl s = (Inr (), s1)" by (simp add: record_fill_def Inr)
    then obtain s1 where "m n avg s1 = (Inl e, s')"
      using assms(1) \<open>r = Inr p\<close> p by (auto simp: andthen_def)
    then show ?thesis using returnsD [OF assms(2), of n avg s1] by auto
  qed (use assms(1) Inr p in \<open>simp add: record_fill_def andthen_def\<close>)
qed (use assms(1) in simp)

text \<open>
  A payload that does not parse commits nothing. When mirroring a broker order raises,
  the database is the one before the call: the fill numbers are read before anything is
  written.
\<close>

theorem malformed_fill_commits_nothing:
  assumes "apply_order row d now s = (Inl e, s')"
  shows "s' = s"
proof (rule ccontr)
  assume ne: "s' \<noteq> s"
  note r = returns_intros returns_try_transition legal_mirror
  consider (f) "dget d ''status'' = PStr ''filled''" | (p) "dget d ''status'' = PStr ''partially_filled''"
    | (n) "dget d ''status'' \<noteq> PStr ''filled''" "dget d ''status'' \<noteq> PStr ''partially_filled''" by blast
  then show False
  proof cases
    case f
    with assms have run: "andthen (lift_res (parse_fill d)) (\<lambda>(n, avg).
        andthen (record_fill (o_client_order_id row) n avg (Some now)) (\<lambda>_.
        andthen (cas_order (o_client_order_id row) Submitted Filled now) (\<lambda>m1.
        andthen (if m1 then ret True else cas_order (o_client_order_id row) Partially_filled Filled now) (\<lambda>moved.
        andthen (whenever moved
          (andthen (modify (fill_event row n avg now)) (\<lambda>_.
           andthen (gets (decision_of_ticket (o_client_order_id row))) (\<lambda>t.
           case t of None \<Rightarrow> ret ()
           | Some i \<Rightarrow> andthen (cas_decision i Approved_st Executed now) (\<lambda>dm.
               whenever (\<not> dm) (modify (alert ''fill_on_unapproved_decision'' now))))))) (\<lambda>_.
        ret moved))))) s = (Inl e, s')"
      by (simp add: apply_order_def Let_def)
    have "s' = s" by (rule parsed_then_returns [OF run]) (intro r)
    with ne show False ..
  next
    case p
    with assms have run: "andthen (lift_res (parse_fill d)) (\<lambda>(n, avg).
        andthen (record_fill (o_client_order_id row) n avg None) (\<lambda>_.
        andthen (cas_order (o_client_order_id row) Submitted Partially_filled now) (\<lambda>m.
        andthen (whenever m (modify (alert ''partial_fill_manual_review'' now))) (\<lambda>_.
        ret False)))) s = (Inl e, s')"
      by (simp add: apply_order_def Let_def)
    have "s' = s" by (rule parsed_then_returns [OF run]) (intro r)
    with ne show False ..
  qed (use assms in \<open>simp add: apply_order_def Let_def\<close>)
qed

definition bad_fill :: pydict where
  "bad_fill = [(''status'', PStr ''filled''), (''filled_qty'', PStr ''x''), (''filled_avg_price'', PInt 1)]"

definition gold_order :: order where
  "gold_order = \<lparr>o_client_order_id = ''t1'', o_alpaca_order_id = None, o_symbol = ''NVDA'', o_side = ''buy'',
     o_qty = 5, o_status = Submitted, o_filled_qty = 0, o_filled_avg_price = None, o_submitted_at = 0,
     o_closed_at = None\<rparr>"

theorem malformed_fill_commits_nothing_witness:
  "\<exists>e. apply_order gold_order bad_fill 0 golden_db = (Inl e, golden_db)"
proof -
  have "fst (apply_order gold_order bad_fill 0 golden_db) = Inl ValueError"
    by code_simp
  then show ?thesis
    using malformed_fill_commits_nothing [of gold_order bad_fill 0 golden_db ValueError]
    by (metis prod.collapse)
qed

section \<open>Polling is bounded\<close>

lemma fadd_three: "0 \<le> k \<Longrightarrow> k < 100 \<Longrightarrow> fadd (Fin (of_int (3 * k))) (Fin 3) = Fin (of_int (3 * (k + 1)))"
proof -
  assume k: "0 \<le> k" "k < 100"
  have "(3::int) * (k + 1) < 2 ^ 53" using k by simp
  then have "rnd (of_int (3 * (k + 1))) = Fin (of_int (3 * (k + 1)))" using k by (intro rnd_of_int) simp
  then show ?thesis by (simp add: algebra_simps)
qed

lemma poll_loop_enough:
  assumes "0 \<le> k" "k \<le> 30" "31 - k \<le> int fuel"
  shows "fst (poll_loop fuel P B sleep (Fin 3) (Fin 90) (Fin (of_int (3 * k))) st w) \<noteq> Inr None"
  using assms
proof (induction fuel arbitrary: k st w)
  case (Suc fuel)
  show ?case
  proof (cases "30 \<le> k")
    case True
    with Suc.prems have k: "k = 30" by simp
    show ?thesis
      by (auto simp: k andthen_def fle_def feq_def split: prod.splits sum.splits if_splits)
  next
    case False
    have w: "fadd (Fin (of_int (3 * k))) (Fin 3) = Fin (of_int (3 * (k + 1)))"
      by (rule fadd_three) (use Suc.prems False in auto)
    have ih: "fst (poll_loop fuel P B sleep (Fin 3) (Fin 90) (Fin (of_int (3 * (k + 1)))) st' w') \<noteq> Inr None" for st' w'
      by (rule Suc.IH) (use Suc.prems False in auto)
    from w have r: "rnd (3 * rat_of_int k + 3) = Fin (3 * rat_of_int k + 3)" by simp
    show ?thesis
      using ih by (auto simp: andthen_def r split: prod.splits sum.splits if_splits)
  qed
qed simp

text \<open>
  Polling is bounded. With the defaults (every 3 seconds, 90 at most) the loop ends
  within 31 rounds whatever the broker answers, so that a stage always comes back, with a
  count or with the exception that ended it.
\<close>

theorem polling_is_bounded:
  "fst (reconcile_orders P B sleep (Fin 3) (Fin 90) poll_fuel w) \<noteq> Inr None"
proof -
  have "poll_loop 32 P B sleep (Fin 3) (Fin 90) (Fin 0) st w \<noteq> (Inr None, w')" for st w'
    using poll_loop_enough [of 0 32 P B sleep st w] by auto
  then show ?thesis
    by (auto simp: reconcile_orders_def poll_fuel_def andthen_def fle_def feq_def split: prod.splits sum.splits option.splits)
qed


section \<open>Recovering lost orders\<close>

text \<open>An order that records what a ticket authorizes, not yet polled.\<close>

definition records_ticket :: "ticket \<Rightarrow> order \<Rightarrow> bool" where
  "records_ticket t q \<longleftrightarrow> o_client_order_id q = t_id t \<and> o_symbol q = t_ticker t \<and> o_side q = action_str (t_side t) \<and>
     1 \<le> o_qty q \<and> o_qty q \<le> t_max_qty t \<and> o_status q = Submitted \<and> o_filled_qty q = 0"

text \<open>
  What recovery may do: add orders for tickets that were open, consume such tickets once
  their order is in the books, and write alerts.
\<close>

definition recovers :: "db \<Rightarrow> db \<Rightarrow> bool" where
  "recovers s s' \<longleftrightarrow> decisions s' = decisions s \<and>
     (\<exists>new. orders s' = orders s @ new \<and>
        (\<forall>q\<in>set new. \<exists>t\<in>set (tickets s). t_status t = Open \<and> records_ticket t q)) \<and>
     list_all2 (\<lambda>t t'. t' = t \<or> (t_status t = Open \<and> t' = t\<lparr>t_status := Consumed\<rparr> \<and>
        t_id t \<in> o_client_order_id ` set (orders s'))) (tickets s) (tickets s')"

lemma recovers_refl: "recovers s s"
  by (simp add: recovers_def list_all2_same)

lemma recovers_same: "recovers s s1 \<Longrightarrow> same_rows s1 s2 \<Longrightarrow> recovers s s2"
  by (simp add: recovers_def same_rows_def)

lemma recovers_insert:
  assumes "recovers s s1" and "t \<in> set (tickets s)" "t_status t = Open" "records_ticket t row"
    and "insert_order row s1 = (Inr ins, s2)"
  shows "recovers s s2 \<and> (ins \<longrightarrow> o_client_order_id row \<in> o_client_order_id ` set (orders s2))"
proof (cases ins)
  case True
  with assms(5) have s2: "s2 = s1\<lparr>orders := orders s1 @ [row]\<rparr>"
    by (simp add: insert_order_def split: if_splits)
  from assms(1) obtain new where new: "orders s1 = orders s @ new"
    "\<forall>q\<in>set new. \<exists>t\<in>set (tickets s). t_status t = Open \<and> records_ticket t q"
    and d: "decisions s1 = decisions s"
    and l: "list_all2 (\<lambda>t t'. t' = t \<or> (t_status t = Open \<and> t' = t\<lparr>t_status := Consumed\<rparr> \<and>
        t_id t \<in> o_client_order_id ` set (orders s1))) (tickets s) (tickets s1)"
    unfolding recovers_def by blast
  have "list_all2 (\<lambda>t t'. t' = t \<or> (t_status t = Open \<and> t' = t\<lparr>t_status := Consumed\<rparr> \<and>
        t_id t \<in> o_client_order_id ` set (orders s2))) (tickets s) (tickets s1)"
    by (rule list_all2_mono [OF l]) (auto simp: s2)
  moreover have "\<exists>new. orders s2 = orders s @ new \<and> (\<forall>q\<in>set new. \<exists>t\<in>set (tickets s). t_status t = Open \<and> records_ticket t q)"
    by (rule exI [of _ "new @ [row]"]) (use new assms(2-4) s2 in auto)
  ultimately have "recovers s s2" by (simp add: recovers_def s2 d)
  then show ?thesis by (simp add: s2)
qed (use assms in \<open>auto simp: insert_order_def split: if_splits\<close>)

lemma recovers_consume:
  assumes "recovers s s1" and "k \<in> o_client_order_id ` set (orders s1)"
  shows "recovers s (snd (try_transition T_tickets (K_id_str k) Open Consumed now [] None s1))"
proof -
  have l: "list_all2 (\<lambda>t t'. t' = t \<or> (t_status t = Open \<and> t' = t\<lparr>t_status := Consumed\<rparr> \<and>
        t_id t \<in> o_client_order_id ` set (orders s1))) (tickets s) (tickets s1)"
    using assms(1) by (simp add: recovers_def)
  have "list_all2 (\<lambda>t t'. t' = t \<or> (t_status t = Open \<and> t' = t\<lparr>t_status := Consumed\<rparr> \<and>
        t_id t \<in> o_client_order_id ` set (orders s1))) (tickets s)
      (update_where (\<lambda>t. t_id t = k \<and> t_status t = Open) (\<lambda>t. t\<lparr>t_status := Consumed\<rparr>) (tickets s1))"
    unfolding update_where_def list_all2_map2
    by (rule list_all2_mono [OF l]) (use assms(2) in auto)
  then show ?thesis
    using assms(1) by (simp add: try_transition_legal [OF legal_mirror(6)] recovers_def Let_def)
qed

lemma recoverable_qty_bounds: "recoverable_qty d t = Some q \<Longrightarrow> 1 \<le> q \<and> q \<le> t_max_qty t"
  by (auto simp: recoverable_qty_def split: option.splits if_splits)

lemma get_order_db: "get_order B coid (s, x) = (r, (s', x')) \<Longrightarrow> s' = s"
  by (auto simp: get_order_def on_port_def split: option.splits prod.splits)

text \<open>The writes for a ticket the broker holds an order for.\<close>

lemma recover_write_recovers:
  assumes "recovers s s1" and t: "t \<in> set (tickets s)" "t_status t = Open"
    and q: "recoverable_qty d t = Some q"
  shows "recovers s (snd (andthen (lift_res (sql_text real_text (dget d ''id''))) (\<lambda>bid.
               andthen (lift_res (sql_int q)) (\<lambda>_.
               andthen (insert_order (submitted_order (t_id t) bid t q now)) (\<lambda>ins.
               if \<not> ins then andthen (modify (alert_for ''order_recovery_unwritable'' (t_ticker t) now)) (\<lambda>_. ret n)
               else andthen (try_transition T_tickets (K_id_str (t_id t)) Open Consumed now [] None) (\<lambda>won.
                 if won then andthen (modify (alert_for ''order_recovered'' (t_ticker t) now)) (\<lambda>_. ret (n + 1))
                 else ret n)))) s1))"
proof (cases "sql_text real_text (dget d ''id'')"; cases "sql_int q")
  fix bid k
  assume b: "sql_text real_text (dget d ''id'') = Inr bid" and k: "sql_int q = Inr k"
  let ?row = "submitted_order (t_id t) bid t q now"
  show ?thesis
  proof (cases "fst (insert_order ?row s1)")
    case (Inl e)
    then have "insert_order ?row s1 = (Inl e, s1)" by (auto simp: insert_order_def split: if_splits)
    then show ?thesis using b k assms(1) by (simp add: andthen_def)
  next
    case (Inr ins)
    then obtain s2 where i: "insert_order ?row s1 = (Inr ins, s2)" by (metis prod.collapse)
  have "records_ticket t ?row" using recoverable_qty_bounds [OF q] by (simp add: records_ticket_def submitted_order_def)
  from recovers_insert [OF assms(1) t this i]
  have r: "recovers s s2" and ids: "ins \<Longrightarrow> t_id t \<in> o_client_order_id ` set (orders s2)"
    by (auto simp: submitted_order_def)
  show ?thesis
  proof (cases ins)
    case False
    then show ?thesis using b k i recovers_same [OF r same_rows_alert] by (simp add: andthen_def)
  next
    case True
    obtain won s3 where w: "try_transition T_tickets (K_id_str (t_id t)) Open Consumed now [] None s2 = (Inr won, s3)"
      using returnsD [OF returns_try_transition [OF legal_mirror(6)]] by blast
    have "recovers s s3" using recovers_consume [OF r ids [OF True], of now] w by simp
    then show ?thesis using b k i w True recovers_same [OF _ same_rows_alert] by (simp add: andthen_def)
  qed
  qed
qed (use assms(1) in simp_all)

lemma recover_one_recovers:
  assumes r: "recovers s s1" and t: "t \<in> set (tickets s)" "t_status t = Open"
  shows "\<exists>n' s2 x2. recover_one B now t n (s1, x) = (Inr n', (s2, x2)) \<and> recovers s s2"
proof -
  have alerted: "\<exists>n' s3 x3. on_db (andthen (modify (alert_for c k now)) (\<lambda>_. ret n)) (s2, x2) = (Inr n', (s3, x3)) \<and> recovers s s3"
    if "recovers s s2" for c k s2 x2
    using recovers_same [OF that same_rows_alert] by (simp add: on_db_pair)
  obtain a s0 x1 where g: "get_order B (t_id t) (s1, x) = (a, (s0, x1))" by (metis prod_cases3)
  then have g: "get_order B (t_id t) (s1, x) = (a, (s1, x1))" using get_order_db [OF g] by simp
  consider (raises) e where "a = Inl e" | (nothing) "a = Inr None \<or> a = Inr (Some [])"
    | (found) kv d where "a = Inr (Some (kv # d))" by (metis obj_sumE option.exhaust neq_Nil_conv)
  then show ?thesis
  proof cases
    case raises
    then show ?thesis using g alerted [OF r] by (simp add: recover_one_def catch_def andthen_def)
  next
    case nothing
    then show ?thesis using g r by (auto simp: recover_one_def catch_def andthen_def)
  next
    case found
    show ?thesis
    proof (cases "recoverable_qty (kv # d) t")
      case None
      then show ?thesis using found g alerted [OF r] by (auto simp: recover_one_def catch_def andthen_def on_db_pair)
    next
      case (Some q)
      let ?m = "andthen (lift_res (sql_text (bk_real_text B) (dget (kv # d) ''id''))) (\<lambda>bid.
               andthen (lift_res (sql_int q)) (\<lambda>_.
               andthen (insert_order (submitted_order (t_id t) bid t q now)) (\<lambda>ins.
               if \<not> ins then andthen (modify (alert_for ''order_recovery_unwritable'' (t_ticker t) now)) (\<lambda>_. ret n)
               else andthen (try_transition T_tickets (K_id_str (t_id t)) Open Consumed now [] None) (\<lambda>won.
                 if won then andthen (modify (alert_for ''order_recovered'' (t_ticker t) now)) (\<lambda>_. ret (n + 1))
                 else ret n))))"
      obtain b s2 where m: "?m s1 = (b, s2)" by fastforce
      have "recovers s s2" using recover_write_recovers [OF r t Some] m by (metis snd_conv)
      have "recover_one B now t n (s1, x) = (case b of
           Inl _ \<Rightarrow> on_db (andthen (modify (alert_for ''order_recovery_failed'' (t_ticker t) now)) (\<lambda>_. ret n)) (s2, x1)
         | Inr n' \<Rightarrow> (Inr n', (s2, x1)))"
        unfolding recover_one_def catch_def andthen_def [of "get_order B (t_id t)"] g found
        using Some m by (simp add: on_db_pair split: sum.split)
      then show ?thesis using alerted [OF \<open>recovers s s2\<close>] \<open>recovers s s2\<close> by (cases b) simp_all
    qed
  qed
qed

lemma recover_fold_recovers:
  assumes "recovers s s1" and "\<forall>t\<in>set ts. t \<in> set (tickets s) \<and> t_status t = Open"
  shows "\<exists>n' s2 x2. fold_each (recover_one B now) ts n (s1, x) = (Inr n', (s2, x2)) \<and> recovers s s2"
  using assms
proof (induction ts arbitrary: n s1 x)
  case (Cons t ts)
  obtain n1 s2 x2 where o1: "recover_one B now t n (s1, x) = (Inr n1, (s2, x2))" and "recovers s s2"
    using recover_one_recovers [OF Cons.prems(1)] Cons.prems(2) by (metis list.set_intros(1))
  with Cons.IH [of s2 n1 x2] Cons.prems(2) show ?case by (simp add: andthen_def)
qed simp

text \<open>
  C12: recovery records only what the gate authorized. Whatever the broker answers, the
  pass comes back; every order it adds is for a ticket that was open, repeats its id,
  symbol and side, is for one to \<open>max_qty\<close> shares, and is recorded as submitted with
  nothing filled; a ticket is consumed only when its order is in the books; no decision
  is touched, and no other row.
\<close>

theorem recovery_is_authorized:
  "\<exists>n s' x'. recover_lost_orders P B (s, x) = (Inr n, (s', x')) \<and> recovers s s'"
proof (cases "bk_lookup B")
  case None
  then show ?thesis by (simp add: recover_lost_orders_def recovers_refl)
next
  case (Some f)
  obtain now x1 where c: "clock_now P (s, x) = (Inr now, (s, x1))" using clock_now_run [of P s x] by blast
  have "\<forall>t\<in>set (open_tickets_without_orders s). t \<in> set (tickets s) \<and> t_status t = Open"
    by (simp add: open_tickets_without_orders_def)
  from recover_fold_recovers [OF recovers_refl this, of B now 0 x1] show ?thesis
    using Some c by (auto simp: recover_lost_orders_def andthen_def on_db_pair)
qed

end
