(* ===== verification/RuntimeProps.thy ===== *)
theory RuntimeProps imports Runtime ReconcileProps begin

text \<open>
  What stands between a seat and the broker: the order gate never raises and lets a
  broker mutation through only when an open ticket authorizes it; the recorder is
  idempotent; the wait for the servers ends.
\<close>

section \<open>The gate\<close>

lemma deny_hook_run:
  "\<exists>s' x'. deny_hook P conn reply (s, x) = (Inr reply, (s', x')) \<and> same_rows s s' \<and>
     ((\<forall>y. fst (conn y) = Inr ()) \<longrightarrow> alert_codes s' = alert_codes s @ [PStr ''order_gate_denied''])"
proof -
  obtain r x1 where c: "cached conn x = (r, x1)" by (metis surj_pair)
  have ok: "r = Inr ()" if open_ok: "\<forall>y. fst (conn y) = Inr ()"
  proof (cases "snd x")
    case False
    obtain u y where "conn (fst x) = (u, y)" by (metis surj_pair)
    moreover from this have "u = Inr ()" using open_ok by (metis fst_conv)
    ultimately show ?thesis using c False by (simp add: cached_def)
  qed (use c in \<open>simp add: cached_def\<close>)
  show ?thesis
  proof (cases r)
    case (Inl e)
    then show ?thesis using c ok
      by (auto simp: deny_hook_def andthen_def catch_def on_port_def same_rows_refl)
  next
    case (Inr u)
    obtain now x2 where "clock_now P (s, x1) = (Inr now, (s, x2))" using clock_now_run [of P s x1] by blast
    then show ?thesis using c Inr same_rows_alert
      by (auto simp: deny_hook_def andthen_def catch_def on_port_def on_db_pair)
  qed
qed

text \<open>The verbs that need no ticket: everything outside the broker, and its reads.\<close>

lemma policy_place: "starts_with PLACE_PREFIX tool \<Longrightarrow> starts_with BROKER_PREFIX tool \<Longrightarrow> broker_verb_policy tool = Gated"
  by (simp add: broker_verb_policy_def GATED_PREFIXES_def)

lemma policy_Gated: "broker_verb_policy tool = Gated \<Longrightarrow> starts_with PLACE_PREFIX tool"
  by (auto simp: broker_verb_policy_def GATED_PREFIXES_def split: if_splits)

text \<open>An accepted order names a ticket of the store, unique or not.\<close>

lemma validate_order_authorizes:
  assumes "validate_order s (PDict d) now = Inr OK"
  shows "authorized s d now"
proof -
  from assms obtain coid where c: "dget d ''client_order_id'' = PStr coid" "coid \<noteq> []"
    by (auto simp: validate_order_def split: pyval.splits if_splits)
  with assms obtain t where g: "get_ticket s coid = Some t"
    by (auto simp: validate_order_def split: option.splits)
  then have "t \<in> set (tickets s)" "t_id t = coid"
    by (auto simp: get_ticket_def dest: fetchone_SomeD)
  moreover have "ticket_covers t d now"
    using validate_order_at [OF c g, of now] assms by simp
  ultimately show ?thesis using c unfolding authorized_def by (intro bexI [of _ t]) simp_all
qed

text \<open>What a gated call is answered before the denial is recorded.\<close>

lemma gated_answer:
  "\<exists>reply x'. catch (andthen (on_port (cached conn)) (\<lambda>_. andthen (clock_now P) (\<lambda>now.
       andthen (on_db (gets (\<lambda>s. validate_order s ti now))) (\<lambda>r. andthen (lift_res r) (\<lambda>why. ret (Denied_order why))))))
      (\<lambda>e. ret (Denied_error e)) (s, x) = (Inr reply, (s, x')) \<and> reply \<noteq> Proceed \<and>
     (reply = Denied_order OK \<longrightarrow> (\<exists>now x1. now = fst (now_port P x1) \<and> validate_order s ti now = Inr OK))"
proof -
  obtain r x1 where c: "cached conn x = (r, x1)" by (metis surj_pair)
  show ?thesis
  proof (cases r)
    case (Inl e)
    then show ?thesis using c by (simp add: andthen_def catch_def on_port_def)
  next
    case (Inr u)
    obtain now x2 where t: "now_port P x1 = (now, x2)" by (metis surj_pair)
    then have "clock_now P (s, x1) = (Inr now, (s, x2))" by (simp add: clock_now_def on_port_def)
    moreover have "\<exists>now x1. now = fst (now_port P x1) \<and> validate_order s ti now = Inr OK" if "validate_order s ti now = Inr OK"
      using that t by (metis fst_conv)
    ultimately show ?thesis using c Inr
      by (cases "validate_order s ti now") (simp_all add: andthen_def catch_def on_port_def on_db_pair)
  qed
qed

text \<open>
  C5: the order gate fails closed. It answers every call, whatever the connection does; it
  changes no order, ticket or decision; a denial is on the record whenever the database
  can be reached. It lets a call through only if the tool is none of the broker's, is one
  of its reads, or is a placement that an open, live ticket authorizes at the time the
  gate reads the clock. Every other broker verb is denied.
\<close>

theorem order_gate_fails_closed:
  "\<exists>reply s' x'. order_gate P f conn d (s, x) = (Inr reply, (s', x')) \<and> same_rows s s' \<and>
     (reply = Proceed \<longrightarrow>
        \<not> starts_with BROKER_PREFIX (tool_of f d) \<or> starts_with READ_PREFIX (tool_of f d) \<or> tool_of f d \<in> set READ_VERBS \<or>
        starts_with PLACE_PREFIX (tool_of f d) \<and>
        (\<exists>q now x1. now = fst (now_port P x1) \<and> dget d ''tool_input'' = PDict q \<and> authorized s q now)) \<and>
     (reply \<noteq> Proceed \<longrightarrow> (\<forall>y. fst (conn y) = Inr ()) \<longrightarrow>
        alert_codes s' = alert_codes s @ [PStr ''order_gate_denied''])"
proof (cases "broker_verb_policy (tool_of f d)")
  case Allow
  then have "\<not> starts_with BROKER_PREFIX (tool_of f d) \<or> starts_with READ_PREFIX (tool_of f d) \<or> tool_of f d \<in> set READ_VERBS"
    by (auto simp: broker_verb_policy_def split: if_splits)
  with Allow show ?thesis by (auto simp: order_gate_def same_rows_refl)
next
  case Deny
  then show ?thesis using deny_hook_run [of P conn _ s x] by (simp add: order_gate_def Let_def) blast
next
  case Gated
  obtain reply x1 where a: "catch (andthen (on_port (cached conn)) (\<lambda>_. andthen (clock_now P) (\<lambda>now.
       andthen (on_db (gets (\<lambda>s. validate_order s (dget d ''tool_input'') now))) (\<lambda>r. andthen (lift_res r) (\<lambda>why. ret (Denied_order why))))))
      (\<lambda>e. ret (Denied_error e)) (s, x) = (Inr reply, (s, x1))" "reply \<noteq> Proceed"
    "reply = Denied_order OK \<Longrightarrow> \<exists>now x1. now = fst (now_port P x1) \<and> validate_order s (dget d ''tool_input'') now = Inr OK"
    using gated_answer [of conn P "dget d ''tool_input''" s x] by blast
  have run: "order_gate P f conn d (s, x) =
      (if reply = Denied_order OK then ret Proceed else deny_hook P conn reply) (s, x1)"
    unfolding order_gate_def Let_def Gated verb_policy.case andthen_def [of "catch _ _"] a(1) by simp
  show ?thesis
  proof (cases "reply = Denied_order OK")
    case True
    with a(3) obtain now x2 where v: "now = fst (now_port P x2)" "validate_order s (dget d ''tool_input'') now = Inr OK" by blast
    from v(2) obtain q where q: "dget d ''tool_input'' = PDict q" by (auto simp: validate_order_def split: pyval.splits)
    have "authorized s q now" using v(2) q validate_order_authorizes by simp
    with v q have "\<exists>q now x1. now = fst (now_port P x1) \<and> dget d ''tool_input'' = PDict q \<and> authorized s q now" by blast
    with policy_Gated [OF Gated] run True show ?thesis by (simp add: same_rows_refl)
  next
    case False
    with run deny_hook_run [of P conn reply s x1] a(2) show ?thesis by auto
  qed
qed

text \<open>A clock that stands at one minute, for the hook.\<close>

definition golden_hook_ports :: "(unit conn_state) ports" where
  "golden_hook_ports = \<lparr>now_port = (\<lambda>x. (60, x)), render_port = (\<lambda>_ _. Inr PNone), post_port = (\<lambda>_ x. (Inr (), x))\<rparr>"

theorem order_gate_fails_closed_witness:
  "\<exists>s' x' q now. order_gate golden_hook_ports (\<lambda>_. []) (\<lambda>x. (Inr (), x))
       [(''tool_name'', PStr ''mcp__alpaca__place_stock_order''), (''tool_input'', order_for golden_ticket 80)]
       (golden_db, ((), False)) = (Inr Proceed, (s', x')) \<and>
     order_for golden_ticket 80 = PDict q \<and> authorized golden_db q now"
proof -
  let ?d = "[(''tool_name'', PStr ''mcp__alpaca__place_stock_order''), (''tool_input'', order_for golden_ticket 80)]"
  let ?P = "golden_hook_ports" and ?c = "\<lambda>x. (Inr (), x) :: unit res \<times> unit"
  have "fst (order_gate ?P (\<lambda>_. []) ?c ?d (golden_db, ((), False))) = Inr Proceed" by code_simp
  moreover have "\<not> (\<not> starts_with BROKER_PREFIX (tool_of (\<lambda>_. []) ?d) \<or> starts_with READ_PREFIX (tool_of (\<lambda>_. []) ?d) \<or>
      tool_of (\<lambda>_. []) ?d \<in> set READ_VERBS)" by code_simp
  ultimately show ?thesis
    using order_gate_fails_closed [of ?P "\<lambda>_. []" ?c ?d golden_db "((), False)"]
    by (auto simp: dget_def)
qed

section \<open>The recorder\<close>

definition no_order :: "string \<Rightarrow> status \<Rightarrow> db \<Rightarrow> bool" where
  "no_order c a s \<longleftrightarrow> (c, a) \<notin> set (map (\<lambda>q. (o_client_order_id q, o_status q)) (orders s))"

definition no_ticket :: "string \<Rightarrow> status \<Rightarrow> db \<Rightarrow> bool" where
  "no_ticket c a s \<longleftrightarrow> (c, a) \<notin> set (map (\<lambda>t. (t_id t, t_status t)) (tickets s))"

lemma update_where_leaves:
  "(\<And>r. P r \<Longrightarrow> \<not> Q (f r)) \<Longrightarrow> (\<And>r. \<not> P r \<Longrightarrow> \<not> Q r) \<Longrightarrow> r \<in> set (update_where P f xs) \<Longrightarrow> \<not> Q r"
  unfolding mem_update_where by (metis (full_types))

lemma pair_not_in: "(\<And>x. x \<in> set xs \<Longrightarrow> \<not> (f x = c \<and> g x = a)) \<Longrightarrow> (c, a) \<notin> set (map (\<lambda>x. (f x, g x)) xs)"
  by auto

lemma rowcount_none: "(\<And>r. r \<in> set xs \<Longrightarrow> \<not> P r) \<Longrightarrow> rowcount P xs = 0"
  by (auto simp: rowcount_def filter_empty_conv)

lemma cas_order_miss: "no_order c Submitted s \<Longrightarrow> cas_order c Submitted Filled now s = (Inr False, s)"
proof -
  assume "no_order c Submitted s"
  then have "fst (cas_update T_orders (K_client_order_id c) Submitted Filled now [] None s) = 0"
    unfolding no_order_def by (auto simp: Let_def intro!: rowcount_none)
  from this cas_update_miss [OF this] show ?thesis
    unfolding try_transition_legal [OF legal_mirror(1)] by (simp only:) simp
qed

lemma cas_ticket_miss: "no_ticket c Open s \<Longrightarrow> try_transition T_tickets (K_id_str c) Open Consumed now [] None s = (Inr False, s)"
proof -
  assume "no_ticket c Open s"
  then have "fst (cas_update T_tickets (K_id_str c) Open Consumed now [] None s) = 0"
    unfolding no_ticket_def by (auto simp: Let_def intro!: rowcount_none)
  from this cas_update_miss [OF this] show ?thesis
    unfolding try_transition_legal [OF legal_mirror(6)] by (simp only:) simp
qed

text \<open>What the recorder needs of a world to find its own work done.\<close>

definition order_keys :: "db \<Rightarrow> (string \<times> string option) set" where
  "order_keys s = set (map (\<lambda>q. (o_client_order_id q, o_alpaca_order_id q)) (orders s))"

lemma cas_order_after:
  assumes "cas_order c Submitted Filled now s = (Inr won, s')"
  shows "no_order c Submitted s' \<and> tickets s' = tickets s \<and> order_keys s' = order_keys s"
proof -
  have o: "orders s' = update_where (\<lambda>q. o_client_order_id q = c \<and> o_status q = Submitted) (\<lambda>q. q\<lparr>o_status := Filled\<rparr>) (orders s)"
    and t: "tickets s' = tickets s"
    using assms by (auto simp: try_transition_legal [OF legal_mirror(1)] Let_def)
  have "order_keys s' = order_keys s"
    unfolding order_keys_def o by (subst map_update_where_key) simp_all
  moreover have "\<not> (o_client_order_id q = c \<and> o_status q = Submitted)" if "q \<in> set (orders s')" for q
    using update_where_leaves [OF _ _ that [unfolded o], of "\<lambda>q. o_client_order_id q = c \<and> o_status q = Submitted"] by simp
  then have "no_order c Submitted s'" unfolding no_order_def by (rule pair_not_in)
  ultimately show ?thesis using t by simp
qed

lemma cas_ticket_after:
  assumes "try_transition T_tickets (K_id_str c) Open Consumed now [] None s = (Inr won, s')"
  shows "no_ticket c Open s' \<and> orders s' = orders s"
proof -
  have t: "tickets s' = update_where (\<lambda>t. t_id t = c \<and> t_status t = Open) (\<lambda>t. t\<lparr>t_status := Consumed\<rparr>) (tickets s)"
    and o: "orders s' = orders s"
    using assms by (auto simp: try_transition_legal [OF legal_mirror(6)] Let_def)
  have "\<not> (t_id k = c \<and> t_status k = Open)" if "k \<in> set (tickets s')" for k
    using update_where_leaves [OF _ _ that [unfolded t], of "\<lambda>t. t_id t = c \<and> t_status t = Open"] by simp
  then have "no_ticket c Open s'" unfolding no_ticket_def by (rule pair_not_in)
  with o show ?thesis by simp
qed

lemma insert_order_again:
  assumes "insert_order row s = (Inr ins, s1)" and "order_keys s1 \<subseteq> order_keys s2"
    and "(o_client_order_id row', o_alpaca_order_id row') = (o_client_order_id row, o_alpaca_order_id row)"
  shows "insert_order row' s2 = (Inr False, s2)"
proof -
  have "\<exists>k\<in>order_keys s1. fst k = o_client_order_id row \<or>
      (o_alpaca_order_id row \<noteq> None \<and> snd k = o_alpaca_order_id row)"
    using assms(1) by (auto simp: insert_order_def order_keys_def list_ex_iff split: if_splits)
  then have "\<exists>k\<in>order_keys s2. fst k = o_client_order_id row \<or>
      (o_alpaca_order_id row \<noteq> None \<and> snd k = o_alpaca_order_id row)"
    using assms(2) by blast
  then show ?thesis using assms(3) by (auto simp: insert_order_def order_keys_def list_ex_iff)
qed

lemma insert_placed_again:
  assumes "insert_placed rt c d now s = (Inr (), s1)" and "order_keys s1 \<subseteq> order_keys s2"
  shows "insert_placed rt c d later s2 = (Inr (), s2)"
proof -
  let ?sy = "res_bind (dkey d ''symbol'') (sql_text rt)" and ?sd = "res_bind (dkey d ''side'') (sql_text rt)"
  let ?q = "res_bind (res_bind (dkey d ''qty'') int_of) sql_int" and ?b = "sql_text rt (dget d ''id'')"
  from assms(1) obtain sy sd q b where v: "?sy = Inr sy" "?sd = Inr sd" "?q = Inr q" "?b = Inr b"
    by (cases ?sy; cases ?sd; cases ?q; cases ?b) (simp_all add: insert_placed_def andthen_def)
  show ?thesis
  proof (cases sy; cases sd)
    fix y z assume yz: "sy = Some y" "sd = Some z"
    let ?row = "\<lambda>t. \<lparr>o_client_order_id = c, o_alpaca_order_id = b, o_symbol = y, o_side = z, o_qty = q,
       o_status = Submitted, o_filled_qty = 0, o_filled_avg_price = None, o_submitted_at = t, o_closed_at = None\<rparr>"
    obtain r s0 where i: "insert_order (?row now) s = (r, s0)" by (metis surj_pair)
    with assms(1) v yz have "\<exists>ins. r = Inr ins" "s0 = s1"
      by (cases r; simp add: insert_placed_def andthen_def)+
    then obtain ins where "insert_order (?row now) s = (Inr ins, s1)" using i by blast
    from insert_order_again [OF this assms(2), of "?row later"]
    show ?thesis using v yz by (simp add: insert_placed_def andthen_def)
  qed (use v in \<open>simp_all add: insert_placed_def andthen_def\<close>)
qed

lemma record_fill_keeps:
  "record_fill c n avg cl s = (Inr (), s') \<Longrightarrow>
   (no_order k a s' = no_order k a s) \<and> (no_ticket k a s' = no_ticket k a s) \<and> order_keys s' = order_keys s"
  by (auto simp: record_fill_def no_order_def no_ticket_def order_keys_def map_update_where_key
      simp del: set_map split: sum.splits)

text \<open>
  What follows the insertion leaves, when it does not raise, a world where nothing is
  left to do: the ticket is not open, and the order is not waiting for a fill that parses.
\<close>

lemma decision_cas_keeps:
  "cas_decision i Approved_st Executed now s = (r, s') \<Longrightarrow>
   orders s' = orders s \<and> tickets s' = tickets s"
  using try_transition_legal [OF legal_mirror(4), of i now s] by (auto simp: Let_def)


lemma placed_fill_after:
  assumes run: "placed_fill c d n avg now s = (Inr (), s')"
  shows "no_order c Submitted s' \<and> (no_ticket c Open s \<longrightarrow> no_ticket c Open s') \<and> order_keys s' = order_keys s"
proof -
  obtain r s1 where c1: "cas_order c Submitted Filled now s = (r, s1)" by (metis surj_pair)
  with run obtain won where r: "r = Inr won" by (cases r) (simp_all add: placed_fill_def andthen_def)
  from cas_order_after [OF c1 [unfolded r]]
  have k: "no_order c Submitted s1" "tickets s1 = tickets s" "order_keys s1 = order_keys s" by auto
  show ?thesis
  proof (cases won)
    case False
    with run c1 r have "s' = s1" by (simp add: placed_fill_def andthen_def)
    with k show ?thesis by (simp add: no_ticket_def)
  next
    case True
    obtain u s2 where f: "record_fill c n avg (Some now) s1 = (u, s2)" by (metis surj_pair)
    with run c1 r True have u: "u = Inr ()" by (cases u) (simp_all add: placed_fill_def andthen_def)
    let ?s3 = "append_event ''fill'' [(''ticker'', dget d ''symbol''), (''side'', dget d ''side''),
          (''filled_qty'', PInt n), (''filled_avg_price'', PFloat avg), (''ticket_id'', PStr c)] now s2"
    have s3: "s' = ?s3 \<or> (\<exists>i r'. cas_decision i Approved_st Executed now ?s3 = (r', s'))"
      using run c1 r True f u
      by (auto simp: placed_fill_def andthen_def split: option.splits prod.splits sum.splits)
    have "orders s' = orders s2 \<and> tickets s' = tickets s2"
      using s3 decision_cas_keeps by fastforce
    with record_fill_keeps [OF f [unfolded u]] k show ?thesis
      by (simp add: no_order_def no_ticket_def order_keys_def del: set_map)
  qed
qed

text \<open>
  Recording is idempotent. When the hook has recorded a placement without raising,
  recording the same response again, at any later time, changes nothing: no second order,
  no second fill event, no ticket or decision moved twice.
\<close>

theorem recording_is_idempotent:
  assumes run: "record_placed rt d now s = (Inr (), s')"
  shows "record_placed rt d later s' = (Inr (), s')"
proof -
  let ?c = "sql_text rt (dget d ''client_order_id'')"
  from run obtain co where c: "?c = Inr co" by (cases ?c) (simp_all add: record_placed_def andthen_def)
  show ?thesis
  proof (cases co)
    case None
    then show ?thesis using run c by (simp add: record_placed_def andthen_def)
  next
    case (Some coid)
    obtain r1 s1 where i: "insert_placed rt coid d now s = (r1, s1)" by (metis surj_pair)
    with run c Some have r1: "r1 = Inr ()" by (cases r1) (simp_all add: record_placed_def andthen_def)
    obtain w s2 where t: "try_transition T_tickets (K_id_str coid) Open Consumed now [] None s1 = (Inr w, s2)"
      using returnsD [OF returns_try_transition [OF legal_mirror(6)]] by blast
    from cas_ticket_after [OF t] have k2: "no_ticket coid Open s2" "order_keys s2 = order_keys s1"
      by (simp_all add: order_keys_def)
    let ?fin = "\<lambda>now. if dget d ''status'' = PStr ''filled''
      then andthen (lift_res (hook_parse_fill d)) (\<lambda>f. case f of None \<Rightarrow> ret () | Some (n, avg) \<Rightarrow> placed_fill coid d n avg now)
      else ret ()"
    from run c Some i r1 t have fin: "?fin now s2 = (Inr (), s')"
      by (simp add: record_placed_def andthen_def)
    have k: "no_ticket coid Open s' \<and> order_keys s' = order_keys s2 \<and> ?fin later s' = (Inr (), s')"
    proof (cases "dget d ''status'' = PStr ''filled''")
      case True
      then obtain f where f: "hook_parse_fill d = Inr f" using fin by (cases "hook_parse_fill d") simp_all
      show ?thesis
      proof (cases f)
        case None
        then show ?thesis using fin True f k2 by simp
      next
        case (Some na)
        obtain n avg where na: "na = (n, avg)" by fastforce
        from fin True f Some na have "placed_fill coid d n avg now s2 = (Inr (), s')" by simp
        from placed_fill_after [OF this] k2 True f Some na cas_order_miss [of coid s' later]
        show ?thesis by (simp add: placed_fill_def andthen_def)
      qed
    qed (use fin k2 in simp)
    have "insert_placed rt coid d later s' = (Inr (), s')"
      using insert_placed_again [OF i [unfolded r1]] k k2(2) by simp
    with k cas_ticket_miss [of coid s' later] c Some show ?thesis
      by (simp add: record_placed_def andthen_def)
  qed
qed

text \<open>A placement acknowledged, on the golden ticket.\<close>

definition accepted_order :: pydict where
  "accepted_order = [(''client_order_id'', PStr ''tk-1''), (''id'', PStr ''b1''), (''symbol'', PStr ''NVDA''),
     (''side'', PStr ''buy''), (''qty'', PInt 5), (''status'', PStr ''accepted'')]"

theorem recording_is_idempotent_witness:
  "\<exists>s'. record_placed (\<lambda>_. []) accepted_order 60 golden_db = (Inr (), s') \<and> length (orders s') = 1 \<and>
     record_placed (\<lambda>_. []) accepted_order 120 s' = (Inr (), s')"
proof -
  let ?p = "record_placed (\<lambda>_. []) accepted_order 60 golden_db"
  have "fst ?p = Inr ()" "length (orders (snd ?p)) = 1" by code_simp+
  moreover obtain s' where "?p = (fst ?p, s')" by (metis surjective_pairing)
  ultimately have p: "?p = (Inr (), s')" "length (orders s') = 1" by (metis snd_conv)+
  with recording_is_idempotent [OF p(1), of 120] show ?thesis by blast
qed

text \<open>
  What the recorder gets wrong: it does not look at the row count of its \<open>INSERT OR IGNORE\<close>.
  A response whose broker id is in the books already leaves no order row, and the ticket
  is consumed all the same, out of reach of the pass that recovers lost orders. And a
  filled quantity that is not a number raises out of the hook.
\<close>

definition colliding_db :: db where
  "colliding_db = golden_db\<lparr>orders := [gold_order\<lparr>o_alpaca_order_id := Some ''b1''\<rparr>]\<rparr>"

lemma recorder_consumes_without_a_row:
  "map o_client_order_id (orders (snd (record_placed (\<lambda>_. []) accepted_order 60 colliding_db))) = [''t1'']"
  "map t_status (tickets (snd (record_placed (\<lambda>_. []) accepted_order 60 colliding_db))) = [Consumed]"
  "open_tickets_without_orders (snd (record_placed (\<lambda>_. []) accepted_order 60 colliding_db)) = []"
  by code_simp+

lemma hook_parse_fill_raises:
  "hook_parse_fill [(''filled_qty'', PFloat NaN), (''filled_avg_price'', PInt 1)] = Inl ValueError"
  by code_simp

section \<open>The turn\<close>

fun waited_after :: "nat \<Rightarrow> pyfloat \<Rightarrow> pyfloat" where
  "waited_after 0 x = x"
| "waited_after (Suc n) x = waited_after n (fadd x (Fin (1 / 2)))"

lemma await_bounded:
  "fle (Fin 30) (waited_after k el) \<Longrightarrow> k < fuel \<Longrightarrow>
   fst (await_servers fuel st sl req (Fin 30) (Fin (1 / 2)) el w) \<noteq> Inr None"
proof (induction fuel arbitrary: k el w)
  case (Suc fuel)
  show ?case
  proof (cases "fle (Fin 30) el")
    case True
    then show ?thesis by (auto simp: andthen_def split: prod.splits sum.splits if_splits)
  next
    case False
    with Suc.prems obtain j where k: "k = Suc j" by (cases k) simp_all
    with Suc.prems have "fst (await_servers fuel st sl req (Fin 30) (Fin (1 / 2)) (fadd el (Fin (1 / 2))) w') \<noteq> Inr None" for w'
      by (intro Suc.IH [of j]) simp_all
    then show ?thesis by (auto simp: andthen_def split: prod.splits sum.splits if_splits)
  qed
qed simp

lemma waited_halves: "i + int k \<le> 2 ^ 50 \<Longrightarrow> 0 \<le> i \<Longrightarrow> waited_after k (Fin (of_int i / 2)) = Fin (of_int (i + int k) / 2)"
proof (induction k arbitrary: i)
  case (Suc k)
  have "(of_int i / 2 + 1 / 2 :: rat) = of_int (i + 1) / 2" by (simp add: field_simps)
  moreover have "rnd (of_int (i + 1) / 2) = Fin (of_int (i + 1) / 2)"
    using Suc.prems by (intro rnd_half) simp_all
  ultimately have "fadd (Fin (of_int i / 2)) (Fin (1 / 2)) = Fin (of_int (i + 1) / 2)" by (simp only: fadd.simps)
  then show ?case using Suc.IH [of "i + 1"] Suc.prems by (simp add: add_ac del: fadd.simps)
qed simp

lemma waited_enough: "fle (Fin 30) (waited_after 60 (Fin 0))"
  using waited_halves [of 0 60] by simp

text \<open>The turn's wait always ends: with the servers connected, or with a violation.\<close>

lemma await_ends: "fst (await_servers turn_fuel st sl req (Fin 30) (Fin (1 / 2)) (Fin 0) w) \<noteq> Inr None"
  by (rule await_bounded [OF waited_enough]) (simp add: turn_fuel_def)

text \<open>A turn that passes used tools, only those of the two servers, and tried to place with a ticket open.\<close>

lemma check_tool_calls_ok:
  "check_tool_calls names n = Inr () \<longleftrightarrow> names \<noteq> [] \<and>
     (\<forall>t\<in>set names. \<exists>p\<in>set ALLOWED_TOOL_PREFIXES. starts_with p t) \<and>
     (0 < n \<longrightarrow> (\<exists>t\<in>set names. starts_with PLACE_PREFIX t))"
  by (auto simp: check_tool_calls_def filter_empty_conv list_ex_iff)

end
