(* ===== verification/Protection.thy ===== *)
theory Protection imports Reconcile begin

text \<open>
  state/protection.py, the log of what was seen protecting a position, and
  orchestrator/protection.py, the two checks of the end of the day: every held position is
  protected as it was promised, and every recorded holding is still held. What a check
  says is a value of \<open>finding\<close>; the prose of its alert is left out.
\<close>

section \<open>Reading the broker's values\<close>

definition STOP_TYPES :: "string list" where
  "STOP_TYPES = [''stop'', ''stop_limit'', ''trailing_stop'']"

definition CLOSING_SIDE :: "(string \<times> string) list" where
  "CLOSING_SIDE = [(''long'', ''sell'')]"

fun normalized :: "pyval \<Rightarrow> string option" where
  "normalized (PStr t) = (if strip t = [] then None else Some (lower (strip t)))"
| "normalized _ = None"

text \<open>\<open>float(value)\<close> with \<open>TypeError\<close> and \<open>ValueError\<close> caught; an int beyond the doubles
  still raises \<open>OverflowError\<close>.\<close>

definition try_float :: "pyval \<Rightarrow> pyfloat option res" where
  "try_float v = (case float_of v of Inr x \<Rightarrow> Inr (Some x)
     | Inl e \<Rightarrow> if e = TypeError \<or> e = ValueError then Inr None else Inl e)"

fun whole_share :: "pyfloat \<Rightarrow> int option" where
  "whole_share (Fin q) = (if q = of_int \<lfloor>q\<rfloor> \<and> 0 < q then Some \<lfloor>q\<rfloor> else None)"
| "whole_share _ = None"

definition qty_of :: "pyval \<Rightarrow> int option res" where
  "qty_of v = (if (\<exists>b. v = PBool b) then Inr None
     else res_bind (try_float v) (\<lambda>x. Inr (case x of None \<Rightarrow> None | Some n \<Rightarrow> whole_share n)))"

definition price_of :: "pyval \<Rightarrow> pyfloat option res" where
  "price_of v = (if v = PNone \<or> (\<exists>b. v = PBool b) then Inr None
     else res_bind (try_float v) (\<lambda>x. Inr (case x of None \<Rightarrow> None
       | Some n \<Rightarrow> if flt (Fin 0) n then Some n else None)))"

lemma is_PBool_code [simp]:
  "(\<exists>b. PNone = PBool b) = False" "(\<exists>b. PInt n = PBool b) = False" "(\<exists>b. PFloat x = PBool b) = False"
  "(\<exists>b. PStr t = PBool b) = False" "(\<exists>b. PList xs = PBool b) = False" "(\<exists>b. PDict d = PBool b) = False"
  "(\<exists>b. PBool c = PBool b) = True"
  by auto

text \<open>\<open>str(v)\<close>\<close>

definition py_str :: "'x broker \<Rightarrow> pyval \<Rightarrow> string" where
  "py_str B v = (case v of PStr t \<Rightarrow> t | _ \<Rightarrow> bk_str B v)"

section \<open>The protection log\<close>

definition protective :: "pydict \<Rightarrow> bool" where
  "protective d \<longleftrightarrow> (case normalized (dget d ''type'') of None \<Rightarrow> False | Some t \<Rightarrow> t \<in> set STOP_TYPES) \<and>
     (case normalized (dget d ''side'') of None \<Rightarrow> False | Some t \<Rightarrow> t \<in> snd ` set CLOSING_SIDE)"

text \<open>\<open>INSERT OR IGNORE INTO protection\<close>: ignored when the id is taken or a key is null.\<close>

definition insert_observation :: "'x broker \<Rightarrow> pydict \<Rightarrow> pyval \<Rightarrow> int \<Rightarrow> time \<Rightarrow> (db, bool) prog" where
  "insert_observation B d sy0 qty now =
     andthen (lift_res (price_of (dget d ''stop_price''))) (\<lambda>price.
     andthen (lift_res (sql_text (bk_real_text B) sy0)) (\<lambda>symb.
     andthen (lift_res (sql_int qty)) (\<lambda>n.
     andthen (lift_res (sql_text (bk_real_text B) (dget d ''id''))) (\<lambda>aid.
     andthen (lift_res (sql_text (bk_real_text B) (dget d ''client_order_id''))) (\<lambda>coid.
     andthen (lift_res (sql_text (bk_real_text B) (dget d ''expires_at''))) (\<lambda>ex s.
       case (symb, aid) of
         (Some sy, Some ai) \<Rightarrow>
           (let rid = (py_str B (dget d ''id''), now) in
            if list_ex (\<lambda>r. p_id r = rid \<or> (p_alpaca_order_id r, p_observed_at r) = (ai, now)) (protection s)
            then (Inr False, s)
            else (Inr True, s\<lparr>protection := protection s @ [\<lparr>p_id = rid, p_symbol = sy, p_qty = n, p_stop_price = price,
                    p_alpaca_order_id = ai, p_client_order_id = coid, p_broker_expires_at = ex, p_observed_at = now\<rparr>]\<rparr>))
       | _ \<Rightarrow> (Inr False, s)))))))"

definition log_one :: "'x broker \<Rightarrow> time \<Rightarrow> pyval \<Rightarrow> (string \<times> time) list \<Rightarrow> (db, (string \<times> time) list) prog" where
  "log_one B now v written =
     (case v of PDict d \<Rightarrow>
        if \<not> protective d then ret written
        else andthen (lift_res (qty_of (dget d ''qty''))) (\<lambda>qty.
          case qty of None \<Rightarrow> ret written
          | Some n \<Rightarrow>
              if \<not> truthy (dget d ''id'') \<or> \<not> truthy (dget d ''symbol'') then ret written
              else andthen (insert_observation B d (dget d ''symbol'') n now) (\<lambda>ins.
                ret (if ins then written @ [(py_str B (dget d ''id''), now)] else written)))
      | _ \<Rightarrow> raise AttributeError)"

definition log_observed :: "'x broker \<Rightarrow> pyval list \<Rightarrow> time \<Rightarrow> (db, (string \<times> time) list) prog" where
  "log_observed B os now = fold_each (log_one B now) os []"

section \<open>Is every position protected?\<close>

fun covering_qty :: "'x broker \<Rightarrow> pyval list \<Rightarrow> string \<Rightarrow> string \<Rightarrow> int \<Rightarrow> int option res" where
  "covering_qty B [] symb closing acc0 = Inr (Some acc0)"
| "covering_qty B (v # os) symb closing acc0 =
     (case v of PDict d \<Rightarrow>
        if (if truthy (dget d ''symbol'') then py_str B (dget d ''symbol'') else []) \<noteq> symb
        then covering_qty B os symb closing acc0
        else (case (normalized (dget d ''side''), normalized (dget d ''type'')) of
          (Some sd, Some ty) \<Rightarrow>
            if sd \<noteq> closing \<or> ty \<notin> set STOP_TYPES then covering_qty B os symb closing acc0
            else res_bind (qty_of (dget d ''qty'')) (\<lambda>n. case n of None \<Rightarrow> Inr None
              | Some k \<Rightarrow> covering_qty B os symb closing (acc0 + k))
        | _ \<Rightarrow> Inr None)
      | _ \<Rightarrow> Inr None)"

text \<open>\<open>None\<close> is \<open>_UNKNOWN\<close>, \<open>Some None\<close> a buy without a stop.\<close>

definition promised_stop :: "db \<Rightarrow> string \<Rightarrow> pyfloat option option" where
  "promised_stop s symb =
     (case sort_key (\<lambda>qt. - o_submitted_at (fst qt))
        (concat (map (\<lambda>q. map (Pair q) (filter (\<lambda>t. t_id t = o_client_order_id q) (tickets s)))
          (filter (\<lambda>q. o_symbol q = symb \<and> o_side q = ''buy'' \<and> (o_status q = Filled \<or> 0 < o_filled_qty q)) (orders s)))) of
        [] \<Rightarrow> None | (q, t) # _ \<Rightarrow> Some (t_stop_price t))"

datatype finding = Position_unreadable | Cover_unreadable int | No_provenance int
  | Exposed "pyfloat" int int

definition pos_dict :: "pyval \<Rightarrow> pydict" where
  "pos_dict v = (case v of PDict d \<Rightarrow> d | _ \<Rightarrow> [])"

definition pos_symbol :: "'x broker \<Rightarrow> pydict \<Rightarrow> string" where
  "pos_symbol B d = (if truthy (dget d ''symbol'') then py_str B (dget d ''symbol'') else ''?'')"

definition pos_closing :: "'x broker \<Rightarrow> pydict \<Rightarrow> string option" where
  "pos_closing B d = map_of CLOSING_SIDE
     (lower (if truthy (dget d ''side'') then py_str B (dget d ''side'') else []))"

definition evaluate_one :: "'x broker \<Rightarrow> db \<Rightarrow> pyval list \<Rightarrow> pydict \<Rightarrow> finding option res" where
  "evaluate_one B s os d =
     res_bind (qty_of (dget d ''qty'')) (\<lambda>held.
     case (held, pos_closing B d) of
       (Some h, Some closing) \<Rightarrow>
         res_bind (covering_qty B os (pos_symbol B d) closing 0) (\<lambda>covered.
         Inr (case covered of None \<Rightarrow> Some (Cover_unreadable h)
           | Some c \<Rightarrow> if h \<le> c then None
              else (case promised_stop s (pos_symbol B d) of
                 None \<Rightarrow> Some (No_provenance h)
               | Some None \<Rightarrow> None
               | Some (Some p) \<Rightarrow> Some (Exposed p c h))))
     | _ \<Rightarrow> Inr (Some Position_unreadable))"

fun evaluate :: "'x broker \<Rightarrow> db \<Rightarrow> pyval list \<Rightarrow> pyval list \<Rightarrow> (string \<times> finding) list res" where
  "evaluate B s [] os = Inr []"
| "evaluate B s (v # ps) os =
     res_bind (evaluate_one B s os (pos_dict v)) (\<lambda>f.
     res_bind (evaluate B s ps os) (\<lambda>fs.
     Inr (case f of None \<Rightarrow> fs | Some x \<Rightarrow> (pos_symbol B (pos_dict v), x) # fs)))"

definition RETRY_S :: pyfloat where "RETRY_S = Fin 3"

definition read_port :: "('x \<Rightarrow> 'a res \<times> 'x) option \<Rightarrow> ('x world, 'a) prog" where
  "read_port f = (case f of None \<Rightarrow> raise AttributeError | Some g \<Rightarrow> on_port g)"

text \<open>One snapshot: the positions given, the orders read now, and what is wrong.\<close>

definition assess :: "'x broker \<Rightarrow> pyval list \<Rightarrow> ('x world, pyval list \<times> (string \<times> finding) list) prog" where
  "assess B ps = andthen (read_port (bk_orders B)) (\<lambda>os.
     andthen (on_db (gets (\<lambda>s. evaluate B s ps os))) (\<lambda>r.
     andthen (lift_res r) (\<lambda>problems. ret (os, problems))))"

text \<open>The second look: both sides are read again; \<open>None\<close> when no position is left.\<close>

definition reassess :: "'x broker \<Rightarrow> ('x world, (pyval list \<times> (string \<times> finding) list) option) prog" where
  "reassess B = andthen (read_port (bk_positions B)) (\<lambda>ps. if ps = [] then ret None
     else andthen (assess B ps) (\<lambda>op. ret (Some op)))"

text \<open>\<open>try: m except: return unverified(...)\<close>: \<open>None\<close> is the early return.\<close>

definition or_alert :: "string \<Rightarrow> time \<Rightarrow> ('x world, 'a) prog \<Rightarrow> ('x world, 'a option) prog" where
  "or_alert code now m =
     catch (andthen m (\<lambda>y. ret (Some y))) (\<lambda>_. andthen (on_db (modify (alert code now))) (\<lambda>_. ret None))"

definition report_problems :: "'x broker \<Rightarrow> pyval list \<Rightarrow> (string \<times> finding) list \<Rightarrow> time \<Rightarrow> ('x world, int) prog" where
  "report_problems B seen problems now =
     andthen (for_each (\<lambda>p. on_db (modify (alert_for ''unprotected_position'' (fst p) now))) problems) (\<lambda>_.
     catch (andthen (on_db (log_observed B seen now)) (\<lambda>_. ret (int (length problems))))
       (\<lambda>_. andthen (on_db (modify (alert ''protection_log_unwritten'' now))) (\<lambda>_. ret (int (length problems) + 1))))"

definition assert_positions_protected :: "'x broker option \<Rightarrow> (pyfloat \<Rightarrow> 'x \<Rightarrow> unit res \<times> 'x) \<Rightarrow> time
    \<Rightarrow> ('x world, int) prog" where
  "assert_positions_protected broker nap now =
     (case broker of None \<Rightarrow> andthen (on_db (modify (alert ''protection_unverified'' now))) (\<lambda>_. ret 1)
      | Some B \<Rightarrow>
        andthen (or_alert ''protection_unverified'' now (read_port (bk_positions B))) (\<lambda>r0.
        case r0 of None \<Rightarrow> ret 1 | Some ps \<Rightarrow>
        if ps = [] then ret 0 else
        andthen (or_alert ''protection_unverified'' now (assess B ps)) (\<lambda>r1.
        case r1 of None \<Rightarrow> ret 1 | Some (os, problems) \<Rightarrow>
        if problems = [] then report_problems B os problems now else
        andthen (on_port (nap RETRY_S)) (\<lambda>_.
        andthen (or_alert ''protection_unverified'' now (reassess B)) (\<lambda>r2.
        case r2 of None \<Rightarrow> ret 1 | Some None \<Rightarrow> ret 0
        | Some (Some (os2, problems2)) \<Rightarrow> report_problems B os2 problems2 now)))))"

section \<open>Is every recorded holding still held?\<close>

definition signed_fill :: "order \<Rightarrow> int" where
  "signed_fill q = (if o_side q = ''buy'' then o_filled_qty q else - o_filled_qty q)"

definition recorded_holdings :: "db \<Rightarrow> (string \<times> int) list" where
  "recorded_holdings s = fold (\<lambda>q net. AList.update (o_symbol q)
       ((case map_of net (o_symbol q) of None \<Rightarrow> 0 | Some n \<Rightarrow> n) + signed_fill q) net)
     (filter (\<lambda>q. 0 < o_filled_qty q) (orders s)) []"

fun held_by_symbol :: "'x broker \<Rightarrow> pyval list \<Rightarrow> (string \<times> int) list \<Rightarrow> (string \<times> int) list option res" where
  "held_by_symbol B [] out = Inr (Some out)"
| "held_by_symbol B (v # ps) out =
     (let d = pos_dict v; symb = dget d ''symbol'' in
      res_bind (qty_of (dget d ''qty'')) (\<lambda>q. case q of None \<Rightarrow> Inr None | Some n \<Rightarrow>
        if \<not> truthy symb then Inr None
        else held_by_symbol B ps (AList.update (py_str B symb)
          ((case map_of out (py_str B symb) of None \<Rightarrow> 0 | Some k \<Rightarrow> k) + n) out)))"

text \<open>The last event that carries an \<open>accounting\<close> of the symbol.\<close>

definition accounting_of :: "string \<Rightarrow> event \<Rightarrow> pydict option" where
  "accounting_of symb e = (case dget (e_payload e) ''accounting'' of
     PDict a \<Rightarrow> if e_kind e = ''alert'' \<and> dget a ''symbol'' = PStr symb then Some a else None
   | _ \<Rightarrow> None)"

definition last_accounting :: "string \<Rightarrow> db \<Rightarrow> pydict" where
  "last_accounting symb s =
     (case sort_key (\<lambda>e. - e_id e) (filter (\<lambda>e. accounting_of symb e \<noteq> None) (events s)) of
        [] \<Rightarrow> [] | e # _ \<Rightarrow> the (accounting_of symb e))"

text \<open>The numbers and the flag an accounting carries; this module wrote them.\<close>

definition acct_recorded :: "pydict \<Rightarrow> int option" where
  "acct_recorded a = (case dget a ''recorded'' of PInt n \<Rightarrow> Some n | _ \<Rightarrow> None)"

definition acct_held :: "pydict \<Rightarrow> int" where
  "acct_held a = (case dget a ''held'' of PInt n \<Rightarrow> n | _ \<Rightarrow> 0)"

definition acct_cleared :: "pydict \<Rightarrow> bool" where
  "acct_cleared a = (case map_of a ''cleared'' of None \<Rightarrow> True | Some v \<Rightarrow> truthy v)"

definition accounting_alert :: "string \<Rightarrow> pydict \<Rightarrow> bool \<Rightarrow> time \<Rightarrow> db \<Rightarrow> db" where
  "accounting_alert symb a clears now =
     append_alert ''accounting_shortfall'' [(''accounting'', PDict a)] (Some symb) clears now"

definition account_one :: "time \<Rightarrow> (string \<times> int) list \<Rightarrow> (string \<times> int) list \<Rightarrow> string \<Rightarrow> int \<Rightarrow> (db, int) prog" where
  "account_one now recorded held symb appended =
     (let have = (case map_of held symb of None \<Rightarrow> 0 | Some n \<Rightarrow> n); want = the (map_of recorded symb) in
      andthen (gets (last_accounting symb)) (\<lambda>last.
      if want \<le> have then
        (if \<not> acct_cleared last
         then andthen (modify (accounting_alert symb [(''symbol'', PStr symb), (''cleared'', PBool True)] True now)) (\<lambda>_.
              ret (appended + 1))
         else ret appended)
      else if (case acct_recorded last of None \<Rightarrow> False
               | Some standing \<Rightarrow> standing \<le> want \<and> standing - acct_held last = want - have)
      then ret appended
      else andthen (modify (accounting_alert symb [(''symbol'', PStr symb), (''recorded'', PInt want),
             (''held'', PInt have), (''cleared'', PBool False)] False now)) (\<lambda>_. ret (appended + 1))))"

definition short_of :: "(string \<times> int) list \<Rightarrow> (string \<times> int) list option \<Rightarrow> bool" where
  "short_of recorded held = (case held of None \<Rightarrow> True
     | Some h \<Rightarrow> list_ex (\<lambda>(symb, q). (case map_of h symb of None \<Rightarrow> 0 | Some n \<Rightarrow> n) < q) recorded)"

definition read_held :: "'x broker \<Rightarrow> ('x world, (string \<times> int) list option) prog" where
  "read_held B = andthen (read_port (bk_positions B)) (\<lambda>ps. lift_res (held_by_symbol B ps []))"

definition settle_accounts :: "time \<Rightarrow> (string \<times> int) list \<Rightarrow> (string \<times> int) list option \<Rightarrow> ('x world, int) prog" where
  "settle_accounts now recorded held =
     (case held of None \<Rightarrow> andthen (on_db (modify (alert ''accounting_unverified'' now))) (\<lambda>_. ret 1)
      | Some h \<Rightarrow> on_db (fold_each (account_one now recorded h) (sort (map fst recorded)) 0))"

definition assert_positions_accounted :: "'x broker option \<Rightarrow> (pyfloat \<Rightarrow> 'x \<Rightarrow> unit res \<times> 'x) \<Rightarrow> time
    \<Rightarrow> ('x world, int) prog" where
  "assert_positions_accounted broker nap now =
     andthen (on_db (gets (\<lambda>s. filter (\<lambda>(_, q). 0 < q) (recorded_holdings s)))) (\<lambda>recorded.
     if recorded = [] then ret 0 else
     case broker of None \<Rightarrow> andthen (on_db (modify (alert ''accounting_unverified'' now))) (\<lambda>_. ret 1)
     | Some B \<Rightarrow>
       andthen (or_alert ''accounting_unverified'' now (read_held B)) (\<lambda>r0.
       case r0 of None \<Rightarrow> ret 1 | Some held \<Rightarrow>
       if \<not> short_of recorded held then settle_accounts now recorded held
       else andthen (on_port (nap RETRY_S)) (\<lambda>_.
         andthen (or_alert ''accounting_unverified'' now (read_held B)) (\<lambda>r1.
         case r1 of None \<Rightarrow> ret 1 | Some held2 \<Rightarrow> settle_accounts now recorded held2))))"

end
