(* ===== verification/ProtectionProps.thy ===== *)
theory ProtectionProps imports Protection begin

text \<open>
  What the end-of-day checks promise: a silent check means every position is protected as
  it was promised, a finding is an alert, and a standing accounting gap is said once.
\<close>

section \<open>What cover is\<close>

text \<open>The shares of a symbol under live stop orders, without the order of the checks.\<close>

definition stops_symbol :: "'x broker \<Rightarrow> string \<Rightarrow> string \<Rightarrow> pydict \<Rightarrow> bool" where
  "stops_symbol B symb closing d \<longleftrightarrow>
     (if truthy (dget d ''symbol'') then py_str B (dget d ''symbol'') else []) = symb \<and>
     normalized (dget d ''side'') = Some closing \<and> normalized (dget d ''type'') \<in> Some ` set STOP_TYPES"

definition shares_of :: "pydict \<Rightarrow> int" where
  "shares_of d = (case qty_of (dget d ''qty'') of Inr (Some k) \<Rightarrow> k | _ \<Rightarrow> 0)"

definition stopped_shares :: "'x broker \<Rightarrow> pyval list \<Rightarrow> string \<Rightarrow> string \<Rightarrow> int" where
  "stopped_shares B os symb closing =
     sum_list (map shares_of (filter (stops_symbol B symb closing) (map pos_dict os)))"

lemma covering_qty_sum:
  "covering_qty B os symb closing n = Inr (Some c) \<Longrightarrow> c = n + stopped_shares B os symb closing"
proof (induction os arbitrary: n)
  case (Cons v os)
  from Cons.prems obtain d where v: "v = PDict d" by (cases v) (auto simp: Let_def)
  show ?case
  proof (cases "(if truthy (dget d ''symbol'') then py_str B (dget d ''symbol'') else []) = symb")
    case False
    then have "\<not> stops_symbol B symb closing d" by (simp add: stops_symbol_def)
    then show ?thesis using Cons False v by (simp add: stopped_shares_def pos_dict_def)
  next
    case True
    with Cons.prems v obtain sd ty where n: "normalized (dget d ''side'') = Some sd" "normalized (dget d ''type'') = Some ty"
      by (auto split: option.splits)
    show ?thesis
    proof (cases "sd = closing \<and> ty \<in> set STOP_TYPES")
      case False
      then have "\<not> stops_symbol B symb closing d" using n by (auto simp: stops_symbol_def)
      then show ?thesis using Cons False v True n by (auto simp: stopped_shares_def pos_dict_def)
    next
      case m: True
      then have st: "stops_symbol B symb closing d" using n True by (simp add: stops_symbol_def)
      from Cons.prems v True n m obtain k where k: "qty_of (dget d ''qty'') = Inr (Some k)"
        and c: "covering_qty B os symb closing (n + k) = Inr (Some c)"
        by (auto simp: res_bind_Inr split: option.splits)
      from Cons.IH [OF c] st v k show ?thesis by (simp add: stopped_shares_def pos_dict_def shares_of_def)
    qed
  qed
qed (simp add: stopped_shares_def)

text \<open>The position's stop orders cover it, or the buy that opened it promised no stop.\<close>

definition as_promised :: "'x broker \<Rightarrow> db \<Rightarrow> pyval list \<Rightarrow> pydict \<Rightarrow> bool" where
  "as_promised B s os d \<longleftrightarrow> (\<exists>h closing. qty_of (dget d ''qty'') = Inr (Some h) \<and> pos_closing B d = Some closing \<and>
     (h \<le> stopped_shares B os (pos_symbol B d) closing \<or> promised_stop s (pos_symbol B d) = Some None))"

lemma evaluate_one_None: "evaluate_one B s os d = Inr None \<Longrightarrow> as_promised B s os d"
proof -
  assume e: "evaluate_one B s os d = Inr None"
  then obtain held where q: "qty_of (dget d ''qty'') = Inr held"
    by (auto simp: evaluate_one_def res_bind_Inr)
  from e q obtain h where h: "held = Some h" by (cases held) (auto simp: evaluate_one_def)
  from e q h obtain closing where cl: "pos_closing B d = Some closing"
    by (cases "pos_closing B d") (auto simp: evaluate_one_def)
  from e q h cl obtain cov where cov: "covering_qty B os (pos_symbol B d) closing 0 = Inr cov"
    by (auto simp: evaluate_one_def res_bind_Inr)
  from e q h cl cov obtain c where c: "cov = Some c" by (cases cov) (auto simp: evaluate_one_def)
  have "c = stopped_shares B os (pos_symbol B d) closing"
    using covering_qty_sum [of B os _ closing 0 c] cov c by simp
  with e q h cl cov c show ?thesis
    by (cases "promised_stop s (pos_symbol B d)"; cases "h \<le> c")
      (auto simp: evaluate_one_def as_promised_def split: option.splits)
qed

lemma evaluate_Nil: "evaluate B s ps os = Inr [] \<Longrightarrow> \<forall>v\<in>set ps. as_promised B s os (pos_dict v)"
  by (induction ps) (auto simp: res_bind_Inr evaluate_one_None split: option.splits)

section \<open>A finding is an alert\<close>

text \<open>The operation appends as many alerts as it counts, when it comes back.\<close>

definition alerts_counted :: "(db, int) prog \<Rightarrow> bool" where
  "alerts_counted m \<longleftrightarrow> (\<forall>s n s'. m s = (Inr n, s') \<longrightarrow>
     (\<exists>cs. alert_codes s' = alert_codes s @ cs \<and> n = int (length cs)))"

definition alerts_counted_fst :: "('x world, int) prog \<Rightarrow> bool" where
  "alerts_counted_fst m \<longleftrightarrow> (\<forall>s x n s' x'. m (s, x) = (Inr n, (s', x')) \<longrightarrow>
     (\<exists>cs. alert_codes s' = alert_codes s @ cs \<and> n = int (length cs)))"

definition no_alert :: "('x world, 'a) prog \<Rightarrow> bool" where
  "no_alert m \<longleftrightarrow> (\<forall>s x. fst (snd (m (s, x))) = s)"

lemma no_alert_read: "no_alert (read_port f)"
  by (auto simp: no_alert_def read_port_def on_port_def split: option.splits prod.splits)

lemma no_alert_andthen: "no_alert m \<Longrightarrow> (\<And>y. no_alert (f y)) \<Longrightarrow> no_alert (andthen m f)"
  unfolding no_alert_def andthen_def
  by (auto split: prod.splits sum.splits) (metis fst_conv snd_conv)+

lemma no_alert_ret: "no_alert (ret y)" "no_alert (lift_res r)" "no_alert (raise e)" "no_alert (on_db (gets f))"
  by (simp_all add: no_alert_def on_db_pair)

lemma no_alert_port: "no_alert (on_port f)"
  by (auto simp: no_alert_def on_port_def split: prod.splits)

lemma no_alert_run: "no_alert m \<Longrightarrow> \<exists>r x'. m (s, x) = (r, (s, x'))"
  unfolding no_alert_def by (metis prod.collapse)

lemma assess_no_alert: "no_alert (assess B ps)"
  unfolding assess_def by (intro no_alert_andthen no_alert_ret no_alert_read)

lemma read_held_no_alert: "no_alert (read_held B)"
  unfolding read_held_def by (intro no_alert_andthen no_alert_ret no_alert_read)

text \<open>Running a read that may fail: its value, or the alert.\<close>

lemma or_alert_run:
  assumes "no_alert m"
  shows "(\<exists>y x'. m (s, x) = (Inr y, (s, x')) \<and> or_alert code now m (s, x) = (Inr (Some y), (s, x')))
    \<or> (\<exists>e x'. m (s, x) = (Inl e, (s, x')) \<and> or_alert code now m (s, x) = (Inr None, (alert code now s, x')))"
proof -
  obtain r x' where m: "m (s, x) = (r, (s, x'))" using no_alert_run [OF assms] by blast
  then show ?thesis by (cases r) (simp_all add: or_alert_def catch_def andthen_def on_db_pair)
qed

lemma alert_codes_alerts:
  "for_each (\<lambda>p. on_db (modify (alert_for c (g p) now))) ps (s, x) = (r, (s', x')) \<Longrightarrow>
   r = Inr () \<and> x' = x \<and> alert_codes s' = alert_codes s @ map (\<lambda>_. PStr c) ps"
  by (induction ps arbitrary: s) (auto simp: andthen_def on_db_pair)

lemma log_one_codes: "alert_codes (snd (log_one B now v ws s)) = alert_codes s"
  by (auto simp: log_one_def insert_observation_def andthen_def alert_codes_def Let_def
      split: pyval.splits option.splits sum.splits prod.splits if_splits)

lemma log_observed_codes: "alert_codes (snd (log_observed B os now s)) = alert_codes s"
proof -
  have "alert_codes (snd (fold_each (log_one B now) os ws s)) = alert_codes s" for ws
  proof (induction os arbitrary: ws s)
    case (Cons v os)
    then show ?case using log_one_codes [of B now v ws s]
      by (auto simp: andthen_def split: prod.splits sum.splits)
  qed simp
  then show ?thesis by (simp add: log_observed_def)
qed

lemma report_counted:
  "\<exists>n s' x'. report_problems B seen problems now (s, x) = (Inr n, (s', x')) \<and> x' = x \<and>
     (\<exists>cs. alert_codes s' = alert_codes s @ cs \<and> n = int (length cs)) \<and> (n = 0 \<longrightarrow> problems = [])"
proof -
  obtain r s1 x1 where f: "for_each (\<lambda>p. on_db (modify (alert_for ''unprotected_position'' (fst p) now))) problems (s, x) = (r, (s1, x1))"
    by (metis prod_cases3)
  from alert_codes_alerts [OF this] have r: "r = Inr ()" "x1 = x"
    and c: "alert_codes s1 = alert_codes s @ map (\<lambda>_. PStr ''unprotected_position'') problems" by auto
  obtain b s2 where l: "log_observed B seen now s1 = (b, s2)" by fastforce
  have "alert_codes s2 = alert_codes s1" using log_observed_codes [of B seen now s1] l by simp
  then show ?thesis using f r c l
    by (cases b) (simp_all add: report_problems_def andthen_def catch_def on_db_pair)
qed


lemma assess_run:
  assumes "assess B ps (s, x) = (Inr (os, problems), (s, x'))"
  shows "fst (read_port (bk_orders B) (s, x)) = Inr os \<and> evaluate B s ps os = Inr problems"
proof -
  obtain r x1 where r: "read_port (bk_orders B) (s, x) = (r, (s, x1))"
    using no_alert_run [OF no_alert_read [of "bk_orders B"], of s x] by blast
  show ?thesis
  proof (cases r)
    case (Inr os')
    with assms r show ?thesis
      by (cases "evaluate B s ps os'") (auto simp: assess_def andthen_def on_db_pair)
  qed (use assms r in \<open>simp add: assess_def andthen_def\<close>)
qed

text \<open>The state in which a silent check leaves the account: what was read, and what it says.\<close>

definition all_as_promised :: "'x broker \<Rightarrow> db \<Rightarrow> bool" where
  "all_as_promised B s \<longleftrightarrow> (\<exists>ps xp. fst (read_port (bk_positions B) (s, xp)) = Inr ps \<and>
     (ps = [] \<or> (\<exists>os xo. fst (read_port (bk_orders B) (s, xo)) = Inr os \<and>
        (\<forall>v\<in>set ps. as_promised B s os (pos_dict v)))))"

lemma all_as_promised_empty:
  "read_port (bk_positions B) (s, y) = (Inr [], w) \<Longrightarrow> all_as_promised B s"
  unfolding all_as_promised_def by (metis fst_conv)

lemma all_as_promised_assess:
  "read_port (bk_positions B) (s, y) = (Inr ps, w) \<Longrightarrow> assess B ps (s, y') = (Inr (os, []), (s, y'')) \<Longrightarrow>
   all_as_promised B s"
  unfolding all_as_promised_def using assess_run evaluate_Nil by (metis fst_conv)

lemma reassess_no_alert: "no_alert (reassess B)"
  unfolding reassess_def
  by (intro no_alert_andthen no_alert_read) (simp add: no_alert_ret no_alert_andthen assess_no_alert)

lemma reassess_run:
  assumes "reassess B (s, x) = (Inr r, (s, x'))" and "r = None \<or> r = Some (os, [])"
  shows "all_as_promised B s"
proof -
  obtain rp x1 where p: "read_port (bk_positions B) (s, x) = (rp, (s, x1))"
    using no_alert_run [OF no_alert_read [of "bk_positions B"], of s x] by blast
  with assms(1) obtain ps where ps: "rp = Inr ps"
    by (cases rp) (auto simp: reassess_def andthen_def)
  show ?thesis
  proof (cases "ps = []")
    case True
    with p ps show ?thesis by (auto intro: all_as_promised_empty)
  next
    case False
    obtain ra x2 where a: "assess B ps (s, x1) = (ra, (s, x2))"
      using no_alert_run [OF assess_no_alert [of B ps], of s x1] by blast
    with assms p ps False have "ra = Inr (os, [])"
      by (cases ra) (auto simp: reassess_def andthen_def)
    with p ps a show ?thesis by (auto intro: all_as_promised_assess)
  qed
qed

text \<open>
  C10: a silent check means protected positions. The check raises one alert for every
  finding it counts; when it counts none, it read the positions, and either there were
  none or it read the live orders and every position is covered by stop orders on its
  symbol, or was opened by a buy that promised no stop. A number, a side or an order that
  cannot be read is a finding, and so is a broker that does not answer.
\<close>

theorem silent_means_protected:
  assumes run: "assert_positions_protected (Some B) nap now (s, x) = (Inr n, (s', x'))"
  shows "(\<exists>cs. alert_codes s' = alert_codes s @ cs \<and> n = int (length cs)) \<and>
    (n = 0 \<longrightarrow> all_as_promised B s)"
proof -
  let ?code = "''protection_unverified''"
  note steps = assert_positions_protected_def andthen_def on_db_pair
  have unv: ?thesis if "n = 1" "s' = alert ?code now s"
    using that by (auto intro: exI [of _ "[PStr ?code]"])
  have rep: ?thesis if "report_problems B os problems now (s, y) = (Inr n, (s', x'))"
      "problems = [] \<Longrightarrow> all_as_promised B s" for os problems y
    using report_counted [of B os problems now s y] that by auto
  have quiet: ?thesis if "n = 0" "s' = s" "all_as_promised B s" using that by simp
  from or_alert_run [OF no_alert_read [of "bk_positions B"], of s x ?code now] show ?thesis
  proof (elim disjE exE conjE)
    fix ps x1 assume p: "read_port (bk_positions B) (s, x) = (Inr ps, (s, x1))"
      "or_alert ?code now (read_port (bk_positions B)) (s, x) = (Inr (Some ps), (s, x1))"
    from or_alert_run [OF assess_no_alert [of B ps], of s x1 ?code now] show ?thesis
    proof (elim disjE exE conjE)
      fix op x2 assume a: "assess B ps (s, x1) = (Inr op, (s, x2))"
        "or_alert ?code now (assess B ps) (s, x1) = (Inr (Some op), (s, x2))"
      obtain os problems where op: "op = (os, problems)" by fastforce
      obtain rn x3 where nap: "on_port (nap RETRY_S) (s, x2) = (rn, (s, x3))"
        using no_alert_run [OF no_alert_port [of "nap RETRY_S"], of s x2] by blast
      consider "ps = []" | "ps \<noteq> []" "problems = []" | e where "ps \<noteq> []" "problems \<noteq> []" "rn = Inl e"
        | "ps \<noteq> []" "problems \<noteq> []" "rn = Inr ()" by (cases rn) auto
      then show ?thesis
      proof cases
        case 1
        with run p have "n = 0" "s' = s" by (simp_all add: steps)
        then show ?thesis by (rule quiet) (use p 1 in \<open>auto intro: all_as_promised_empty\<close>)
      next
        case 2
        with run p a op have "report_problems B os problems now (s, x2) = (Inr n, (s', x'))"
          by (simp add: steps)
        then show ?thesis by (rule rep) (use p a op 2 in \<open>auto intro: all_as_promised_assess\<close>)
      next
        case 3
        with run p a op nap show ?thesis by (simp add: steps)
      next
        case 4
        note sofar = run p a op nap 4
        from or_alert_run [OF reassess_no_alert [of B], of s x3 ?code now] show ?thesis
        proof (elim disjE exE conjE)
          fix r x4 assume m: "reassess B (s, x3) = (Inr r, (s, x4))"
            "or_alert ?code now (reassess B) (s, x3) = (Inr (Some r), (s, x4))"
          show ?thesis
          proof (cases r)
            case None
            with sofar m have "n = 0" "s' = s" by (simp_all add: steps)
            then show ?thesis by (rule quiet) (use m None in \<open>auto intro: reassess_run\<close>)
          next
            case (Some op2)
            obtain os2 problems2 where "op2 = (os2, problems2)" by fastforce
            with sofar m Some have "report_problems B os2 problems2 now (s, x4) = (Inr n, (s', x'))"
              by (simp add: steps)
            then show ?thesis
              by (rule rep) (use m Some \<open>op2 = _\<close> in \<open>auto intro: reassess_run\<close>)
          qed
        qed (use sofar unv in \<open>simp add: steps\<close>)
      qed
    qed (use run p unv quiet in \<open>auto simp: steps intro: all_as_promised_empty split: if_splits\<close>)
  qed (use run unv in \<open>simp add: steps\<close>)
qed


section \<open>A gap is said once\<close>

lemma sort_key_last_first:
  "(\<And>y. y \<in> set xs \<Longrightarrow> f x < f y) \<Longrightarrow> sort_key f (xs @ [x]) = x # sort_key (f :: 'a \<Rightarrow> 'b :: linorder) xs"
proof (induction xs)
  case (Cons a xs)
  then have "\<not> f a \<le> f x" by (simp add: not_le)
  with Cons show ?case by simp
qed simp

lemma last_accounting_alert:
  assumes "dget a ''symbol'' = PStr symb'"
  shows "last_accounting symb (accounting_alert symb' a c now s) = (if symb = symb' then a else last_accounting symb s)"
proof -
  let ?e = "\<lparr>e_id = next_id e_id (events s), e_kind = ''alert'',
     e_payload = alert_body ''accounting_shortfall'' [(''accounting'', PDict a)] (Some symb') c, e_created_at = now, e_posted_at = None\<rparr>"
  have ev: "events (accounting_alert symb' a c now s) = events s @ [?e]"
    by (simp add: accounting_alert_def append_alert_def)
  have acc: "accounting_of symb ?e = (if symb = symb' then Some a else None)"
    using assms by (simp add: accounting_of_def alert_body_def dget_def)
  have new: "e_id y < e_id ?e" if "y \<in> set (events s)" for y
    using next_id_fresh [OF that] by simp
  obtain e where e: "e = ?e" by blast
  note ev = ev [folded e] and acc = acc [folded e] and new = new [folded e]
  have "sort_key (\<lambda>e. - e_id e) (filter (\<lambda>e. accounting_of symb e \<noteq> None) (events s) @ [e])
      = e # sort_key (\<lambda>e. - e_id e) (filter (\<lambda>e. accounting_of symb e \<noteq> None) (events s))"
    by (rule sort_key_last_first) (auto intro: new)
  then show ?thesis using acc by (cases "symb = symb'") (simp_all add: last_accounting_def ev)
qed

text \<open>What the last word on a symbol already says of recorded and held shares.\<close>

definition already_said :: "db \<Rightarrow> string \<Rightarrow> int \<Rightarrow> int \<Rightarrow> bool" where
  "already_said s symb want have_q \<longleftrightarrow> (let a = last_accounting symb s in
     if want \<le> have_q then acct_cleared a
     else (\<exists>r. acct_recorded a = Some r \<and> r \<le> want \<and> r - acct_held a = want - have_q))"

definition held_of :: "(string \<times> int) list \<Rightarrow> string \<Rightarrow> int" where
  "held_of held symb = (case map_of held symb of None \<Rightarrow> 0 | Some n \<Rightarrow> n)"

lemma account_one_said:
  "already_said s symb (the (map_of R symb)) (held_of H symb) \<Longrightarrow> account_one now R H symb n s = (Inr n, s)"
  unfolding account_one_def already_said_def held_of_def [symmetric] Let_def
  by (cases "the (map_of R symb) \<le> held_of H symb") auto

lemma already_said_alert:
  assumes "already_said s k w h" "dget a ''symbol'' = PStr symb" "symb \<noteq> k"
  shows "already_said (accounting_alert symb a c now s) k w h"
  using assms by (simp add: already_said_def last_accounting_alert)

lemma account_one_says:
  "\<exists>n' s' cs. account_one now R H symb n s = (Inr n', s') \<and>
     already_said s' symb (the (map_of R symb)) (held_of H symb) \<and> orders s' = orders s \<and>
     (\<forall>k. already_said s k (the (map_of R k)) (held_of H k) \<longrightarrow> already_said s' k (the (map_of R k)) (held_of H k)) \<and>
     alert_codes s' = alert_codes s @ cs \<and> n' = n + int (length cs)"
proof (cases "already_said s symb (the (map_of R symb)) (held_of H symb)")
  case True
  then show ?thesis using account_one_said by auto
next
  case False
  let ?w = "the (map_of R symb)" and ?h = "held_of H symb"
  let ?a = "if ?w \<le> ?h then [(''symbol'', PStr symb), (''cleared'', PBool True)]
     else [(''symbol'', PStr symb), (''recorded'', PInt ?w), (''held'', PInt ?h), (''cleared'', PBool False)]"
  let ?s = "accounting_alert symb ?a (?w \<le> ?h) now s"
  have a: "dget ?a ''symbol'' = PStr symb" by (simp add: dget_def)
  have run: "account_one now R H symb n s = (Inr (n + 1), ?s)"
    using False unfolding account_one_def already_said_def held_of_def [symmetric] Let_def
    by (cases "?w \<le> ?h"; cases "acct_recorded (last_accounting symb s)") auto
  have "already_said ?s symb ?w ?h"
    unfolding already_said_def last_accounting_alert [OF a]
    by (simp add: Let_def acct_cleared_def acct_recorded_def acct_held_def dget_def)
  moreover have "already_said ?s k (the (map_of R k)) (held_of H k)"
    if "already_said s k (the (map_of R k)) (held_of H k)" for k
    using already_said_alert [OF that a] False that by (cases "k = symb") auto
  moreover have "alert_codes ?s = alert_codes s @ [PStr ''accounting_shortfall'']" "orders ?s = orders s"
    by (simp_all add: accounting_alert_def)
  ultimately show ?thesis using run by (intro exI [of _ "n + 1"] exI [of _ ?s] exI [of _ "[PStr ''accounting_shortfall'']"]) simp
qed

lemma account_fold:
  "\<exists>n' s' cs. fold_each (account_one now R H) ks n s = (Inr n', s') \<and> orders s' = orders s \<and>
     (\<forall>k. k \<in> set ks \<or> already_said s k (the (map_of R k)) (held_of H k) \<longrightarrow> already_said s' k (the (map_of R k)) (held_of H k)) \<and>
     alert_codes s' = alert_codes s @ cs \<and> n' = n + int (length cs)"
proof (induction ks arbitrary: n s)
  case (Cons k ks)
  obtain n1 s1 c1 where one: "account_one now R H k n s = (Inr n1, s1)"
    "already_said s1 k (the (map_of R k)) (held_of H k)" "orders s1 = orders s"
    "\<forall>k. already_said s k (the (map_of R k)) (held_of H k) \<longrightarrow> already_said s1 k (the (map_of R k)) (held_of H k)"
    "alert_codes s1 = alert_codes s @ c1" "n1 = n + int (length c1)"
    using account_one_says [of now R H k n s] by blast
  obtain n2 s2 c2 where two: "fold_each (account_one now R H) ks n1 s1 = (Inr n2, s2)" "orders s2 = orders s1"
    "\<forall>k. k \<in> set ks \<or> already_said s1 k (the (map_of R k)) (held_of H k) \<longrightarrow> already_said s2 k (the (map_of R k)) (held_of H k)"
    "alert_codes s2 = alert_codes s1 @ c2" "n2 = n1 + int (length c2)"
    using Cons.IH [of n1 s1] by blast
  show ?case
    by (rule exI [of _ n2], rule exI [of _ s2], rule exI [of _ "c1 @ c2"])
      (use one two in \<open>auto simp: andthen_def\<close>)
qed simp

lemma account_fold_said:
  "\<forall>k\<in>set ks. already_said s k (the (map_of R k)) (held_of H k) \<Longrightarrow>
   fold_each (account_one now R H) ks n s = (Inr n, s)"
  by (induction ks) (simp_all add: andthen_def account_one_said)

text \<open>The shares the fund's orders account for, of the symbols it holds any of.\<close>

definition recorded_book :: "db \<Rightarrow> (string \<times> int) list" where
  "recorded_book s = filter (\<lambda>(_, q). 0 < q) (recorded_holdings s)"

text \<open>
  C31: an accounting gap is said once, and none goes unsaid. With a broker that lists
  readable positions, the check raises one alert for every finding it counts, and after it
  the last word on every recorded symbol is true: that the books and the broker agree, or
  the gap between them with nothing written off since. Asked again while nothing changed,
  at any later time, it says nothing and writes nothing.
\<close>

theorem accounting_gap_said_once:
  assumes "bk_positions B = Some (\<lambda>x. (Inr ps, x))" "held_by_symbol B ps [] = Inr (Some H)"
    and run: "assert_positions_accounted (Some B) (\<lambda>_ x. (Inr (), x)) now (s, x) = (Inr n, (s', x'))"
  shows "(\<exists>cs. alert_codes s' = alert_codes s @ cs \<and> n = int (length cs)) \<and>
    (\<forall>(k, q)\<in>set (recorded_book s). already_said s' k (the (map_of (recorded_book s) k)) (held_of H k)) \<and>
    assert_positions_accounted (Some B) (\<lambda>_ x. (Inr (), x)) later (s', x') = (Inr 0, (s', x'))"
proof -
  let ?R = "recorded_book s"
  have rh: "read_held B (s0, y) = (Inr (Some H), (s0, y))" for s0 :: db and y
    by (simp add: read_held_def read_port_def assms(1,2) on_port_def andthen_def)
  have settle: "assert_positions_accounted (Some B) (\<lambda>_ x. (Inr (), x)) t (s0, y) =
     (if recorded_book s0 = [] then (Inr 0, (s0, y))
      else case fold_each (account_one t (recorded_book s0) H) (sort (map fst (recorded_book s0))) 0 s0 of (r, s1) \<Rightarrow> (r, (s1, y)))" for t s0 y
    by (simp add: assert_positions_accounted_def recorded_book_def [symmetric] andthen_def on_db_pair
        or_alert_def catch_def rh on_port_def settle_accounts_def)
  obtain n1 s1 cs where f: "fold_each (account_one now ?R H) (sort (map fst ?R)) 0 s = (Inr n1, s1)"
    "orders s1 = orders s"
    "\<forall>k. k \<in> set (sort (map fst ?R)) \<or> already_said s k (the (map_of ?R k)) (held_of H k) \<longrightarrow> already_said s1 k (the (map_of ?R k)) (held_of H k)"
    "alert_codes s1 = alert_codes s @ cs" "n1 = 0 + int (length cs)"
    using account_fold [of now ?R H "sort (map fst ?R)" 0 s] by blast
  show ?thesis
  proof (cases "?R = []")
    case True
    then show ?thesis using run by (simp add: settle)
  next
    case False
    with run f have r: "n = n1" "s' = s1" "x' = x" by (simp_all add: settle)
    have R: "recorded_book s1 = ?R" using f(2) by (simp add: recorded_book_def recorded_holdings_def)
    have said: "\<forall>k\<in>set (sort (map fst ?R)). already_said s1 k (the (map_of ?R k)) (held_of H k)"
      using f(3) by blast
    have "assert_positions_accounted (Some B) (\<lambda>_ x. (Inr (), x)) later (s1, x) = (Inr 0, (s1, x))"
      using account_fold_said [OF said, of later 0] False by (simp add: settle R)
    then show ?thesis using r f said by auto
  qed
qed


section \<open>At a concrete account\<close>

text \<open>Five shares held, five under a stop; then a broker that lists no position at all.\<close>

definition held_nvda :: pyval where
  "held_nvda = PDict [(''symbol'', PStr ''NVDA''), (''side'', PStr ''long''), (''qty'', PInt 5)]"

definition stop_nvda :: pyval where
  "stop_nvda = PDict [(''id'', PStr ''b1''), (''symbol'', PStr ''NVDA''), (''side'', PStr ''sell''),
     (''type'', PStr ''stop''), (''qty'', PInt 5)]"

definition calm_broker :: "pyval list \<Rightarrow> unit broker" where
  "calm_broker ps = \<lparr>bk_lookup = None, bk_cancel = (\<lambda>_ x. (Inl AttributeError, x)),
     bk_positions = Some (\<lambda>x. (Inr ps, x)), bk_orders = Some (\<lambda>x. (Inr [stop_nvda], x)),
     bk_real_text = (\<lambda>_. []), bk_str = (\<lambda>_. [])\<rparr>"

definition filled_buy :: db where
  "filled_buy = golden_db\<lparr>orders := [\<lparr>o_client_order_id = ''t1'', o_alpaca_order_id = None, o_symbol = ''NVDA'',
     o_side = ''buy'', o_qty = 5, o_status = Filled, o_filled_qty = 5, o_filled_avg_price = None,
     o_submitted_at = 0, o_closed_at = Some 0\<rparr>]\<rparr>"

theorem silent_means_protected_witness: "all_as_promised (calm_broker [held_nvda]) golden_db"
proof -
  let ?p = "assert_positions_protected (Some (calm_broker [held_nvda])) (\<lambda>_ x. (Inr (), x)) 0 (golden_db, ())"
  have "fst ?p = Inr 0"
    by code_simp
  then obtain s' x' where "?p = (Inr 0, (s', x'))" by (metis prod.collapse)
  from silent_means_protected [OF this] show ?thesis by simp
qed

theorem accounting_gap_said_once_witness:
  "\<exists>s' x' n. assert_positions_accounted (Some (calm_broker [])) (\<lambda>_ x. (Inr (), x)) 0 (filled_buy, ()) = (Inr n, (s', x'))
     \<and> n = 1 \<and> assert_positions_accounted (Some (calm_broker [])) (\<lambda>_ x. (Inr (), x)) 60 (s', x') = (Inr 0, (s', x'))"
proof -
  let ?p = "assert_positions_accounted (Some (calm_broker [])) (\<lambda>_ x. (Inr (), x)) 0 (filled_buy, ())"
  have "fst ?p = Inr 1"
    by code_simp
  then obtain s' x' where p: "?p = (Inr 1, (s', x'))" by (metis prod.collapse)
  have "bk_positions (calm_broker []) = Some (\<lambda>x. (Inr [], x))" "held_by_symbol (calm_broker []) [] [] = Inr (Some [])"
    by (simp_all add: calm_broker_def)
  from accounting_gap_said_once [OF this p, of 60] p show ?thesis by blast
qed

end
