(* ===== verification/Day.thy ===== *)
theory Day imports StageProps ReconcileProps ProtectionProps begin

text \<open>
  The whole trading day (orchestrator/daily.py's \<open>run_day\<close>): the stages in their order,
  reconciliation among them, the two checks, the close. The property that spans the
  components: whatever the agents' turns, the broker, the clock and Slack do, a day moves
  rows along the edges of their machines only.
\<close>

section \<open>The day\<close>

text \<open>\<open>broker=None\<close>: every method is missing.\<close>

definition no_broker :: "'x broker" where
  "no_broker = \<lparr>bk_lookup = None, bk_cancel = (\<lambda>_ x. (Inl AttributeError, x)), bk_positions = None,
     bk_orders = None, bk_real_text = (\<lambda>_. []), bk_str = (\<lambda>_. [])\<rparr>"

definition run_day :: "('x, 'z) stage_ctx_scheme \<Rightarrow> (string \<Rightarrow> db \<Rightarrow> string) \<Rightarrow> ('x world, unit) prog option
    \<Rightarrow> 'x broker option \<Rightarrow> (pyfloat \<Rightarrow> 'x \<Rightarrow> unit res \<times> 'x) \<Rightarrow> ('x world, unit) prog" where
  "run_day C line execution_turn broker sleep =
     andthen (run_stage C ''pre_gate'' (pre_gate_stage C)) (\<lambda>pg.
     (let active = (case pg of None \<Rightarrow> run_pre_gate C | Some ts \<Rightarrow> ts) in
     andthen (run_stage C ''research'' (run_research C active)) (\<lambda>_.
     andthen (run_stage C ''decision'' (run_decision C active)) (\<lambda>_.
     andthen (run_stage C ''gate'' (run_gate C)) (\<lambda>_.
     andthen (run_execution C (case execution_turn of None \<Rightarrow> cx_turn C ''execution'' | Some t \<Rightarrow> Some t)) (\<lambda>_.
     andthen (run_stage C ''reconciliation'' (reconcile_stage C
        (case broker of None \<Rightarrow> no_broker | Some B \<Rightarrow> B) sleep (Fin 3) (Fin 90) poll_fuel)) (\<lambda>_.
     andthen (clock_now C) (\<lambda>now.
     andthen (assert_positions_protected broker sleep now) (\<lambda>n1.
     andthen (assert_positions_accounted broker sleep now) (\<lambda>n2.
     andthen (if n1 + n2 \<noteq> 0 then andthen (drain_outbox C now) (\<lambda>_. ret ()) else ret ()) (\<lambda>_.
     andthen (run_stage C ''close'' (run_close C line)) (\<lambda>_. ret ()))))))))))))"

section \<open>Every operation of the day evolves the database\<close>

lemma ev_modify_same: "(\<And>s. same_rows s (f s)) \<Longrightarrow> ev.obeys (modify f)"
  by (simp add: ev.obeys_modify same_rows_evolves)

lemma ev_alert: "ev.obeys (modify (alert_for c k now))" "ev.obeys (modify (alert c now))"
  "ev.obeys (modify (append_event kd p now))"
  by (rule ev_modify_same, simp add: same_rows_alert same_rows_event)+

lemma evolves_side_tables:
  assumes "\<And>s. decisions (f s) = decisions s" "\<And>s. tickets (f s) = tickets s" "\<And>s. orders (f s) = orders s"
    "\<And>s. checkpoints (f s) = checkpoints s" "\<And>s. worklist (f s) = worklist s" "\<And>s. strategies (f s) = strategies s"
    "\<And>s. events (f s) = events s" "\<And>s. strategy_specs (f s) = strategy_specs s"
  shows "ev.obeys (modify f)"
proof (rule ev.obeys_modify)
  fix s
  have "status_of t k (f s) = status_of t k s" for t k by (cases t; cases k) (simp_all add: assms)
  then show "evolves s (f s)" by (intro evolves_same_status) (simp_all add: db_wf_def assms del: status_of.simps)
qed

lemmas ev_steps = ev.obeys_intros ev_try_transition ev_alert ev_sweep

lemma ev_open_checkpoint: "ev.obeys (modify (open_checkpoint rd st now))"
proof (rule ev.obeys_modify)
  fix s
  show "evolves s (open_checkpoint rd st now s)"
    by (rule evolves_more_rows)
      (auto simp: open_checkpoint_def db_wf_def insert_or_ignore_unique, auto simp: insert_or_ignore_def)
qed

lemma evw_run_stage: "evw.obeys body \<Longrightarrow> evw.obeys (run_stage C stage body)"
  unfolding run_stage_def
  by (intro evw.obeys_intros evw_on_db evw_clock_now evw_drain_outbox ev_open_checkpoint ev_try_transition ev.obeys_gets)

lemma evw_pre_gate_stage: "evw.obeys (pre_gate_stage C)"
proof -
  have "ev.obeys (pre_gate_one C now ti acc)" for now ti acc
    unfolding pre_gate_one_def Let_def by (intro ev_steps)
  moreover have "ev.obeys (modify (offer rd now k))" for rd now k
    by (rule evolves_side_tables) (simp_all add: offer_def)
  ultimately show ?thesis
    unfolding pre_gate_stage_def by (intro evw.obeys_intros evw_on_db evw_clock_now ev.obeys_intros)
qed

definition turns_evolve :: "('x, 'z) stage_ctx_scheme \<Rightarrow> bool" where
  "turns_evolve C \<longleftrightarrow> (\<forall>stage turn. cx_turn C stage = Some turn \<longrightarrow> evw.obeys turn)"

lemma evw_turn: "turns_evolve C \<Longrightarrow> evw.obeys (case cx_turn C st of None \<Rightarrow> ret () | Some t \<Rightarrow> whenever b t)"
  "turns_evolve C \<Longrightarrow> evw.obeys (case cx_turn C st of None \<Rightarrow> ret () | Some t \<Rightarrow> t)"
  by (auto simp: turns_evolve_def evw.obeys_ret evw.obeys_whenever split: option.split)

lemma evw_run_research: "turns_evolve C \<Longrightarrow> evw.obeys (run_research C active)"
proof -
  assume t: "turns_evolve C"
  have "ev.obeys (modify (add_default_signal rd now p))" for rd now p
    by (rule evolves_side_tables) (simp_all add: add_default_signal_def)
  then show ?thesis
    unfolding run_research_def Let_def
    by (intro evw.obeys_if evw.obeys_raise evw.obeys_andthen evw.obeys_for_each evw_on_db ev.obeys_gets evw_clock_now
        evw_turn [OF t])
qed

lemma ev_default_decision: "ev.obeys (default_decision rd now k)"
proof -
  have "evolves s (s\<lparr>decisions := decisions s @ [hold_decision rd now k (next_id d_id (decisions s))]\<rparr>)"
    if "\<not> decided rd k s" for s
  proof (rule evolves_more_rows)
    assume "db_wf s"
    then show "db_wf (s\<lparr>decisions := decisions s @ [hold_decision rd now k (next_id d_id (decisions s))]\<rparr>)"
      using that unique_on_next_id [of d_id "decisions s" "hold_decision rd now k (next_id d_id (decisions s))"]
      by (auto simp: db_wf_def unique_on_def decided_def hold_decision_def list_ex_iff)
  qed auto
  note ins = this
  have "evolves s (alert c now s\<lparr>decisions := decisions s @ [hold_decision rd now k (next_id d_id (decisions s))]\<rparr>)"
    if "\<not> decided rd k s" for s c
    using evolves_trans [OF evolves_append_alert ins [of "alert c now s"]] that
    by (simp add: decided_def)
  then show ?thesis
    by (auto simp: default_decision_def ev.obeys_def whenever_def evolves_refl)
qed

lemma evw_run_decision: "turns_evolve C \<Longrightarrow> evw.obeys (run_decision C active)"
proof -
  assume t: "turns_evolve C"
  have "ev.obeys (insert_default_critiques rd ks why now)" for rd ks why now
    unfolding insert_default_critiques_def
    by (intro ev.obeys_for_each evolves_side_tables) simp_all
  then show ?thesis
    unfolding run_decision_def
    by (intro evw.obeys_andthen evw.obeys_for_each evw_on_db evw_clock_now ev_default_decision evw_turn [OF t])
qed


lemma ev_create_ticket: "ev.obeys (create_ticket i d sy sd cap stop ex now)"
proof (rule ev.obeysI)
  fix s
  show "evolves s (snd (create_ticket i d sy sd cap stop ex now s))"
    by (auto simp: create_ticket_def evolves_refl intro!: evolves_more_rows)
      (auto simp: db_wf_def unique_on_def)
qed

lemma ev_retune: "ev.obeys (modify (retune_ticket tid cap ex))"
proof (rule ev.obeys_modify)
  fix s
  have "status_of t k (retune_ticket tid cap ex s) = status_of t k s" for t k
    by (cases t; cases k) (simp_all add: retune_ticket_def fetchone_update_keep)
  then show "evolves s (retune_ticket tid cap ex s)"
    by (intro evolves_same_status)
      (simp_all add: retune_ticket_def db_wf_def unique_on_update_where del: status_of.simps)
qed

lemma ev_gate_reject: "ev.obeys (gate_reject d why now)"
  unfolding gate_reject_def by (intro ev_steps)

lemma evw_new_id: "evw.obeys (new_id C)"
  by (simp add: new_id_def evw_on_port)

lemma evw_gate_one: "evw.obeys (gate_one C now ex d)"
  unfolding gate_one_def gate_handle_def Let_def
  by (intro evw.obeys_intros evw_on_db evw_new_id ev_gate_reject ev_create_ticket ev_retune ev_steps)

lemma evw_run_gate: "evw.obeys (run_gate C)"
  unfolding run_gate_def
  by (intro evw.obeys_andthen evw.obeys_for_each evw_on_db evw_clock_now evw_gate_one ev.obeys_gets)

lemma evw_run_execution:
  assumes "\<And>t. turn = Some t \<Longrightarrow> evw.obeys t"
  shows "evw.obeys (run_execution C turn)"
proof -
  have "evw.obeys (execution_body C turn)"
    unfolding execution_body_def alert_unexecuted_tickets_def
    by (cases turn) (use assms in \<open>auto intro!: evw.obeys_intros evw_on_db evw_clock_now ev_steps\<close>)
  then show ?thesis
    unfolding run_execution_def by (intro evw.obeys_andthen evw_run_stage evw.obeys_ret)
qed

section \<open>Reconciliation, the checks and the close\<close>

lemma ev_record_fill: "ev.obeys (record_fill c n avg cl)"
proof (rule ev.obeysI)
  fix s
  have "mirrors c {} s (snd (record_fill c n avg cl s))" using mi.obeysD [OF mi_record_fill] .
  then show "evolves s (snd (record_fill c n avg cl s))"
    by (auto simp: mirrors_def evolves_def moved_refl)
qed

lemmas ev_order_steps = ev_steps ev_record_fill ev_modify_same same_rows_event same_rows_alert

lemma ev_fill_event: "ev.obeys (modify (fill_event row n avg now))"
  by (rule ev_modify_same) (simp add: fill_event_def same_rows_event)

lemma ev_apply_order: "ev.obeys (apply_order row d now)"
  unfolding apply_order_def Let_def
  by (intro ev.obeys_intros ev_try_transition ev_alert ev_record_fill ev_fill_event)

lemma ev_close_dead: "ev.obeys (close_dead row cur b fill now)"
  unfolding close_dead_def Let_def
  by (intro ev.obeys_intros ev_try_transition ev_alert ev_record_fill ev_fill_event)

lemma evw_get_order: "evw.obeys (get_order B c)"
  by (auto simp: get_order_def evw.obeys_raise evw_on_port split: option.split)

lemma evw_timeout_close: "evw.obeys (timeout_close B row now)"
  unfolding timeout_close_def timeout_answer_def Let_def
  by (intro evw.obeys_intros evw_on_db evw_on_port evw_get_order ev_alert ev_apply_order ev_close_dead ev.obeys_gets)

lemma evw_poll_one: "evw.obeys (poll_one B now row st)"
proof (rule evw.obeysI)
  fix w
  let ?m = "andthen (get_order B (o_client_order_id row)) (\<lambda>a. case a of
             Some (kv # d) \<Rightarrow> andthen (on_db (apply_order row (kv # d) now)) (\<lambda>m. ret (m, dget (kv # d) ''status''))
           | _ \<Rightarrow> ret (False, PNone))"
  have "evw.obeys ?m"
    by (intro evw.obeys_andthen evw_get_order)
      (auto intro!: evw.obeys_intros evw_on_db ev_apply_order split: option.split list.split)
  from evw.obeysD [OF this, of w] show "evolves_fst w (snd (poll_one B now row st w))"
    by (auto simp: poll_one_def Let_def split: prod.splits sum.splits)
qed

lemma evw_poll_loop: "evw.obeys (poll_loop fuel P B sleep poll_s max_wait_s waited st)"
proof (induction fuel arbitrary: waited st)
  case (Suc fuel)
  then show ?case
    by (auto intro!: evw.obeys_intros evw_on_db ev.obeys_gets evw_clock_now evw_poll_one evw_on_port)
qed (simp add: evw.obeys_ret)

lemma evw_reconcile_orders: "evw.obeys (reconcile_orders P B sleep poll_s max_wait_s fuel)"
  unfolding reconcile_orders_def
  by (intro evw.obeys_if evw.obeys_raise evw.obeys_andthen evw_poll_loop evw.obeys_option evw.obeys_sum evw.obeys_ret
      evw_clock_now evw.obeys_fold_each evw.obeys_prod_app evw.obeys_for_each evw_on_db ev_alert evw_timeout_close)

lemma ev_insert_order: "ev.obeys (insert_order row)"
proof (rule ev.obeysI)
  fix s
  show "evolves s (snd (insert_order row s))"
    by (auto simp: insert_order_def evolves_refl list_ex_iff intro!: evolves_more_rows)
      (auto simp: db_wf_def unique_on_def)
qed

lemma evw_recover_one: "evw.obeys (recover_one B now t n)"
  unfolding recover_one_def Let_def
  by (intro evw.obeys_catch evw.obeys_andthen evw_get_order evw_on_db evw.obeys_option evw.obeys_list evw.obeys_ret
      ev.obeys_andthen ev.obeys_lift ev.obeys_if ev.obeys_ret ev_insert_order ev_try_transition ev_alert)

lemma evw_reconcile_stage: "evw.obeys (reconcile_stage P B sleep poll_s max_wait_s fuel)"
  unfolding reconcile_stage_def recover_lost_orders_def
  by (intro evw.obeys_andthen evw.obeys_if evw.obeys_ret evw_clock_now evw_on_db ev.obeys_gets evw.obeys_fold_each
      evw_recover_one evw_reconcile_orders)


lemma ev_log_observed: "ev.obeys (log_observed B os now)"
proof -
  have "ev.obeys (insert_observation B d sy q t)" for d sy q t
  proof (rule ev.obeysI)
    fix s
    show "evolves s (snd (insert_observation B d sy q t s))"
      by (auto simp: insert_observation_def andthen_def Let_def evolves_refl split: sum.splits option.splits prod.splits
          intro!: evolves_more_rows) (auto simp: db_wf_def)
  qed
  then have "ev.obeys (log_one B t v ws)" for t v ws
    by (cases v) (auto simp: log_one_def intro!: ev.obeys_intros)
  then show ?thesis unfolding log_observed_def by (intro ev.obeys_fold_each)
qed

lemma evw_read_port: "evw.obeys (read_port f)"
  by (auto simp: read_port_def evw.obeys_raise evw_on_port split: option.split)

lemma evw_or_alert: "evw.obeys m \<Longrightarrow> evw.obeys (or_alert c now m)"
  unfolding or_alert_def by (intro evw.obeys_catch evw.obeys_andthen evw.obeys_ret evw_on_db ev_alert)

lemma evw_assess: "evw.obeys (assess B ps)"
  unfolding assess_def by (intro evw.obeys_andthen evw_read_port evw_on_db ev.obeys_gets evw.obeys_lift evw.obeys_ret)

lemma evw_reassess: "evw.obeys (reassess B)"
  unfolding reassess_def by (intro evw.obeys_andthen evw_read_port evw.obeys_if evw_assess evw.obeys_ret)

lemma evw_protected: "evw.obeys (assert_positions_protected broker nap now)"
  unfolding assert_positions_protected_def report_problems_def
  by (intro evw.obeys_intros evw_on_db evw_on_port ev_alert evw_or_alert evw_read_port evw_assess evw_reassess ev_log_observed)

lemma evw_accounted: "evw.obeys (assert_positions_accounted broker nap now)"
proof -
  have "ev.obeys (account_one t R H k n)" for t R H k n
    unfolding account_one_def Let_def accounting_alert_def
    by (intro ev.obeys_andthen ev.obeys_if ev.obeys_gets ev.obeys_ret ev_modify_same same_rows_alert)
  then show ?thesis
    unfolding assert_positions_accounted_def settle_accounts_def read_held_def
    by (intro evw.obeys_intros evw_on_db evw_on_port ev.obeys_gets ev_alert evw_or_alert evw_read_port ev.obeys_fold_each)
qed

lemma evw_run_close: "evw.obeys (run_close C line)"
proof -
  have "evw.obeys (modify (\<lambda>(s :: db, x). (s, f s x)))" for f :: "db \<Rightarrow> 'x \<Rightarrow> 'x"
    by (rule evw.obeys_modify) (auto simp: evolves_fst_def evolves_refl)
  moreover have "ev.obeys (modify (append_digest C now))" for now
    by (rule ev_modify_same) (simp add: append_digest_def same_rows_event)
  ultimately show ?thesis
    unfolding run_close_def
    by (intro evw.obeys_andthen evw_on_db ev.obeys_gets evw_clock_now ev.obeys_whenever evw.obeys_option evw.obeys_ret evw.obeys_prod)
qed

lemma evw_run_day:
  assumes "turns_evolve C" and "\<And>t. turn = Some t \<Longrightarrow> evw.obeys t"
  shows "evw.obeys (run_day C line turn broker sleep)"
proof -
  have "evw.obeys t" if "(case turn of None \<Rightarrow> cx_turn C ''execution'' | Some t \<Rightarrow> Some t) = Some t" for t
    using assms that by (auto simp: turns_evolve_def split: option.splits)
  note ex = evw_run_execution [OF this]
  show ?thesis
    unfolding run_day_def Let_def
    by (intro evw.obeys_andthen evw_run_stage evw_pre_gate_stage evw_run_research evw_run_decision evw_run_gate ex
        evw_reconcile_stage evw_clock_now evw_protected evw_accounted evw.obeys_if evw_drain_outbox evw_run_close
        evw.obeys_ret assms(1))
qed

end
