(* ===== verification/Agents.thy ===== *)
theory Agents imports FundProps RuntimeProps Day begin

text \<open>
  The agents in the loop. A turn of a seat is any sequence of calls its client makes: of
  the fund's own tools, and, for the seat that trades, of broker tools between the order
  gate and the order recorder (agents/seats.py attaches the two hooks to every tool call).
  Whatever the clients choose to call, the day moves rows along their state machines only.
\<close>

section \<open>A broker tool between its hooks\<close>

definition gated_call :: "('x conn_state, 'z) ports_scheme \<Rightarrow> (pyval \<Rightarrow> string) \<Rightarrow> (pyfloat \<Rightarrow> string)
    \<Rightarrow> (string \<Rightarrow> pyval option) \<Rightarrow> ('x \<Rightarrow> unit res \<times> 'x) \<Rightarrow> (pydict \<Rightarrow> 'x conn_state \<Rightarrow> pyval res \<times> 'x conn_state)
    \<Rightarrow> pydict \<Rightarrow> ('x conn_state world, unit) prog" where
  "gated_call P f rt json_loads conn exec_tool d =
     andthen (order_gate P f conn d) (\<lambda>reply.
       if reply = Proceed
       then andthen (on_port (exec_tool d)) (\<lambda>resp. record_order P f rt json_loads conn ((''tool_response'', resp) # d))
       else ret ())"

lemma evw_order_gate: "evw.obeys (order_gate P f conn d)"
proof -
  have d: "evw.obeys (deny_hook P conn reply)" for reply
    unfolding deny_hook_def
    by (intro evw.obeys_catch evw.obeys_andthen evw_on_port evw_clock_now evw_on_db ev_alert evw.obeys_ret)
  show ?thesis
  proof (cases "broker_verb_policy (tool_of f d)")
    case Gated
    show ?thesis unfolding order_gate_def Let_def Gated verb_policy.case
      by (intro evw.obeys_catch evw.obeys_andthen evw.obeys_if evw_on_port evw_clock_now evw_on_db ev.obeys_gets evw.obeys_lift
          evw.obeys_ret d)
  qed (simp_all add: order_gate_def Let_def d evw.obeys_ret)
qed

lemma ev_record_placed: "ev.obeys (record_placed rt d now)"
proof -
  have "ev.obeys (insert_placed rt c d now)" for c
    unfolding insert_placed_def
    by (intro ev.obeys_andthen ev.obeys_lift ev.obeys_prod ev.obeys_option ev.obeys_ret ev_insert_order)
  moreover have "ev.obeys (placed_fill c d n avg now)" for c n avg
    unfolding placed_fill_def
    by (intro ev.obeys_andthen ev.obeys_whenever ev_try_transition ev_record_fill ev_event ev.obeys_gets ev.obeys_option ev.obeys_ret)
  ultimately show ?thesis unfolding record_placed_def
    by (intro ev.obeys_andthen ev.obeys_lift ev.obeys_option ev.obeys_ret ev_try_transition ev.obeys_if ev.obeys_prod)
qed

lemma evw_record_order: "evw.obeys (record_order P f rt jl conn d)"
  unfolding record_order_def
  by (intro evw.obeys_if evw.obeys_option evw.obeys_ret evw.obeys_andthen evw_on_port evw_clock_now evw_on_db ev_record_placed)

lemma evw_gated_call: "evw.obeys (gated_call P f rt jl conn ex d)"
  unfolding gated_call_def
  by (intro evw.obeys_andthen evw.obeys_if evw.obeys_ret evw_on_port evw_order_gate evw_record_order)

section \<open>Turns\<close>

text \<open>Turns built of calls: one seat's fund tools, gated broker calls, one after the other, and failures caught.\<close>

inductive agent_turn :: "('x conn_state world, unit) prog \<Rightarrow> bool" where
  fund: "agent_turn (seat_turn n S client past)"
| broker: "agent_turn (gated_call (P :: ('x conn_state) ports) f rt jl conn ex d)"
| nothing: "agent_turn (ret ())"
| failing: "agent_turn (raise e)"
| outside: "agent_turn (on_port m)"
| seq: "agent_turn m \<Longrightarrow> agent_turn m' \<Longrightarrow> agent_turn (andthen m (\<lambda>_. m'))"
| guarded: "agent_turn m \<Longrightarrow> agent_turn m' \<Longrightarrow> agent_turn (catch m (\<lambda>_. m'))"

lemma agent_turn_obeys: "agent_turn m \<Longrightarrow> evw.obeys m"
proof (induction rule: agent_turn.induct)
  case (fund n S client past)
  show ?case by (rule evw_seat_turn)
next
  case (broker P f rt jl conn ex d)
  show ?case by (rule evw_gated_call)
qed (auto intro: evw.obeys_intros evw_on_port)

text \<open>
  C1: agents cannot bend the day. Let every turn of the day, the execution turn among
  them, be made of calls of the fund's tools and of gated broker calls, in whatever number
  and order and with whatever arguments the agents choose. Then, run on well-keyed tables, a
  whole day keeps the keys unique and every row, whatever the broker, the clock, the
  renderer, Slack and the payload models answer and whatever raises where; a row's status
  only moves along its machine, and a row in a terminal status is never moved again.
\<close>

theorem agents_cannot_bend_the_day:
  assumes turns: "\<And>stage t. cx_turn C stage = Some t \<Longrightarrow> agent_turn t" and "\<And>t. turn = Some t \<Longrightarrow> agent_turn t"
    and "db_wf s"
    and run: "run_day C line turn broker sleep (s, x) = (r, (s', x'))"
    and "status_of t k s = Some a"
  shows "db_wf s' \<and> (\<exists>b. status_of t k s' = Some b \<and> moved t a b \<and> (terminal t a \<longrightarrow> b = a))"
proof -
  have "turns_evolve C" using turns agent_turn_obeys by (auto simp: turns_evolve_def)
  then have "evw.obeys (run_day C line turn broker sleep)"
    by (rule evw_run_day) (use assms(2) agent_turn_obeys in auto)
  from evw.obeysD [OF this, of "(s, x)"] have "evolves s s'" using run by (simp add: evolves_fst_def)
  then obtain b where "db_wf s'" "status_of t k s' = Some b" "moved t a b"
    using assms(3,5) unfolding evolves_def by blast
  then show ?thesis using moved_terminal by blast
qed

text \<open>A day on which the analyst signals and the PM tries to rewrite a settled decision.\<close>

definition golden_server :: "string \<Rightarrow> (unit conn_state) fund_server" where
  "golden_server seat = \<lparr>fs_seat = seat, fs_connect = (\<lambda>x. (Inr (), x)), fs_now = (\<lambda>x. (60, x)), fs_run_date = (\<lambda>_. ''2026-08-17''),
     fs_snapshot = None, fs_journals = None, fs_charter = ''v1'', fs_model = ''m'', fs_decision_id = None, fs_spec_id = None,
     fs_pydantic = golden_pydantic, fs_hasher = golden_hasher, fs_signed2 = (\<lambda>_. [])\<rparr>"

definition golden_client :: client where
  "golden_client past = (if past = [] then Some (''submit_signal'', [(''ticker'', PStr ''NVDA''), (''direction'', PStr ''bullish''),
     (''confidence'', PInt 70), (''summary'', PStr ''up'')]) else None)"

definition agent_ctx :: "(unit conn_state) stage_ctx" where
  "agent_ctx = \<lparr>now_port = (\<lambda>x. (60, x)), render_port = (\<lambda>_ _. Inr PNone), post_port = (\<lambda>_ x. (Inr (), x)),
     cx_run_date = ''2026-08-17'', cx_seats = [''analyst''], cx_inputs = [(''NVDA'', [])],
     cx_validate = (\<lambda>_. Inr golden_inputs),
     cx_turn = (\<lambda>st. if st = ''research'' then Some (seat_turn 2 (golden_server ''analyst'') golden_client []) else None),
     cx_new_id = (\<lambda>x. (''tk-1'', x)), cx_hhmm = (\<lambda>_. ''12:00''), cx_sum = (\<lambda>_. Fin 0), cx_journals = None\<rparr>"

theorem agents_cannot_bend_the_day_witness:
  "db_wf (fst (snd (run_day agent_ctx (\<lambda>_ _. []) None None (\<lambda>_ x. (Inr (), x)) (one_decision, ((), False)))))"
proof -
  have t: "agent_turn t" if "cx_turn agent_ctx stage = Some t" for stage t
    using that by (auto simp: agent_ctx_def fund split: if_splits)
  obtain r s' x' where run: "run_day agent_ctx (\<lambda>_ _. []) None None (\<lambda>_ x. (Inr (), x)) (one_decision, ((), False)) = (r, (s', x'))"
    by (metis prod_cases3)
  from agents_cannot_bend_the_day [OF t _ one_decision_wf run one_decision_submitted] run show ?thesis by simp
qed

end
