(* ===== verification/Backtest.thy ===== *)
theory Backtest imports FundServer begin

text \<open>
  fundbt/costs.py, fundbt/registry.py, fundbt/run_backtest.py and the handler of the
  \<open>run_backtest\<close> tool in agents/tools/fund_server.py: what may be run, what is logged,
  and what is spent. The price frames and the statistics computed on them (pandas, numpy)
  are a record of parameters.
\<close>

section \<open>Costs\<close>

definition COST_FLOORS_BPS :: "(string \<times> pyfloat) list" where
  "COST_FLOORS_BPS = [(''mega_large'', Fin 5), (''mid'', Fin 15), (''small'', Fin 40), (''micro'', Fin 100)]"

definition STRESS_MULTIPLIERS :: "pyfloat list" where
  "STRESS_MULTIPLIERS = [Fin 1, Fin 2, Fin 3]"

definition floor_for :: "pyval \<Rightarrow> pyfloat res" where
  "floor_for bucket = (case bucket of
      PStr b \<Rightarrow> (case map_of COST_FLOORS_BPS b of None \<Rightarrow> Inl KeyError | Some x \<Rightarrow> Inr x)
    | PList _ \<Rightarrow> Inl TypeError | PDict _ \<Rightarrow> Inl TypeError | _ \<Rightarrow> Inl KeyError)"

section \<open>The trial registry\<close>

definition reg_get :: "string \<Rightarrow> db \<Rightarrow> pydict option" where
  "reg_get rkey s = map_option tr_stats (fetchone (\<lambda>t. tr_run_key t = rkey) (trial_registry s))"

text \<open>\<open>INSERT OR IGNORE\<close> covers the primary key; a spec that is not registered raises.\<close>

definition reg_log :: "trial \<Rightarrow> (db, unit) prog" where
  "reg_log t = andthen (lift_res (sql_int (tr_seed t))) (\<lambda>_ s.
     if list_ex (\<lambda>u. tr_run_key u = tr_run_key t) (trial_registry s) then (Inr (), s)
     else if \<not> has_spec (tr_spec_id t) s then (Inl IntegrityForeignKey, s)
     else (Inr (), s\<lparr>trial_registry := trial_registry s @ [t]\<rparr>))"

definition family_n :: "string \<Rightarrow> db \<Rightarrow> nat" where
  "family_n family s = length (filter (\<lambda>t. tr_family t = family) (trial_registry s))"

definition spec_trial_count :: "string \<Rightarrow> db \<Rightarrow> nat" where
  "spec_trial_count sid s = length (filter (\<lambda>t. tr_spec_id t = sid) (trial_registry s))"

text \<open>The Sharpe ratios of a family, and their sample variance (numpy's, a parameter).\<close>

fun as_sharpe :: "pyval \<Rightarrow> pyfloat list res" where
  "as_sharpe (PInt n) = res_bind (float_of_int n) (\<lambda>x. Inr [x])"
| "as_sharpe (PBool b) = Inr [Fin (of_bool b)]"
| "as_sharpe (PFloat x) = Inr [x]"
| "as_sharpe _ = Inr []"

fun concat_res :: "('a \<Rightarrow> 'b list res) \<Rightarrow> 'a list \<Rightarrow> 'b list res" where
  "concat_res f [] = Inr []"
| "concat_res f (x # xs) = res_bind (f x) (\<lambda>ys. res_bind (concat_res f xs) (\<lambda>zs. Inr (ys @ zs)))"

definition family_sharpe_variance :: "(pyfloat list \<Rightarrow> pyfloat) \<Rightarrow> string \<Rightarrow> db \<Rightarrow> pyfloat res" where
  "family_sharpe_variance var1 family s =
     res_bind (concat_res (\<lambda>t. as_sharpe (dget (tr_stats t) ''per_period_sharpe'')) (filter (\<lambda>t. tr_family t = family) (trial_registry s)))
       (\<lambda>srs. Inr (if length srs < 2 then Fin 0 else var1 srs))"

text \<open>
  \<open>consume_holdout\<close>: a taken primary key is the answer False, a foreign key that does not
  resolve raises.
\<close>

definition consume_holdout :: "holdout \<Rightarrow> (db, bool) prog" where
  "consume_holdout h s =
     (if list_ex (\<lambda>g. h_spec_id g = h_spec_id h) (holdout_evaluations s) then (Inr False, s)
      else if \<not> has_spec (h_spec_id h) s \<or> \<not> list_ex (\<lambda>t. tr_run_key t = h_run_key h) (trial_registry s)
      then (Inl IntegrityForeignKey, s)
      else (Inr True, s\<lparr>holdout_evaluations := holdout_evaluations s @ [h]\<rparr>))"

section \<open>Parameters and ranges\<close>

text \<open>\<open>a, b, c = v\<close>\<close>

definition unpack3 :: "pyval \<Rightarrow> (pyval \<times> pyval \<times> pyval) res" where
  "unpack3 v = (case (case v of PList xs \<Rightarrow> Inr xs | PStr t \<Rightarrow> Inr (map (\<lambda>c. PStr [c]) t)
        | PDict d \<Rightarrow> Inr (map (PStr \<circ> fst) d) | _ \<Rightarrow> Inl TypeError) of
      Inl e \<Rightarrow> Inl e | Inr [a, b, c] \<Rightarrow> Inr (a, b, c) | Inr _ \<Rightarrow> Inl ValueError)"

text \<open>\<open>x <= y\<close> for numbers and for strings; numbers compare by value.\<close>

definition py_le :: "pyval \<Rightarrow> pyval \<Rightarrow> bool res" where
  "py_le x y = (case (num_val x, num_val y) of (Some a, Some b) \<Rightarrow> Inr (fle a b)
     | _ \<Rightarrow> (case (x, y) of (PStr s, PStr t) \<Rightarrow> Inr (s \<le> t) | _ \<Rightarrow> Inl TypeError))"

text \<open>\<open>lo <= v <= hi\<close>\<close>

definition between :: "pyval \<Rightarrow> pyval \<Rightarrow> pyval \<Rightarrow> bool res" where
  "between lo v hi = res_bind (py_le lo v) (\<lambda>b. if b then py_le v hi else Inr False)"

fun plain_number :: "pyval \<Rightarrow> bool" where
  "plain_number (PInt _) = True"
| "plain_number (PFloat _) = True"
| "plain_number _ = False"

definition check_one_param :: "pydict \<Rightarrow> string \<times> pyval \<Rightarrow> string option" where
  "check_one_param ranges pv = (let (p, v) = pv in case unpack3 (dget ranges p) of
      Inl _ \<Rightarrow> Some (''bad_range:'' @ p)
    | Inr (lo, hi, step) \<Rightarrow>
        if \<not> (plain_number lo \<and> plain_number hi \<and> plain_number step) then Some (''bad_range:'' @ p)
        else (case between lo v hi of Inl _ \<Rightarrow> Some (''param_type:'' @ p)
          | Inr inside \<Rightarrow> if inside then None else Some (''param_out_of_range:'' @ p)))"

fun first_some :: "('a \<Rightarrow> 'b option) \<Rightarrow> 'a list \<Rightarrow> 'b option" where
  "first_some f [] = None"
| "first_some f (x # xs) = (case f x of None \<Rightarrow> first_some f xs | Some y \<Rightarrow> Some y)"

definition check_params :: "pydict \<Rightarrow> pydict \<Rightarrow> string option" where
  "check_params params ranges =
     (case first_some (\<lambda>(p, _). if map_of ranges p = None then Some (''undeclared_param:'' @ p) else None) params of
        Some r \<Rightarrow> Some r
      | None \<Rightarrow> (case first_some (\<lambda>(p, _). if map_of params p = None then Some (''missing_param:'' @ p) else None) ranges of
          Some r \<Rightarrow> Some r
        | None \<Rightarrow> first_some (check_one_param ranges) params))"

section \<open>The engine\<close>

definition ENGINE_VERSION :: string where "ENGINE_VERSION = ''pandas-1.0''"
definition TRADING_DAYS :: nat where "TRADING_DAYS = 252"
definition HOLDOUT_MONTHS :: int where "HOLDOUT_MONTHS = 18"

record 'c engine =
  en_rules :: "string list"
  en_snapshot_hash :: "'c \<Rightarrow> string"
  en_has_nan :: "'c \<Rightarrow> bool"
  en_visible :: "int \<Rightarrow> 'c \<Rightarrow> 'c"
  en_len :: "'c \<Rightarrow> nat"
  en_stats :: "string \<Rightarrow> pydict \<Rightarrow> pydict \<Rightarrow> 'c \<Rightarrow> pyfloat list \<Rightarrow> nat \<Rightarrow> pyfloat \<Rightarrow> pydict res"
  en_holdout :: "string \<Rightarrow> pydict \<Rightarrow> int \<Rightarrow> 'c \<Rightarrow> pyfloat \<Rightarrow> pydict res"
  en_var :: "pyfloat list \<Rightarrow> pyfloat"
  en_hasher :: hasher

definition bt_error :: "string \<Rightarrow> ('w, 'a) prog" where
  "bt_error why = raise (BacktestError why)"

text \<open>A column of the spec that is a string, a dictionary or an int.\<close>

definition spec_str :: "pydict \<Rightarrow> string \<Rightarrow> string res" where
  "spec_str d k = res_bind (dkey d k) (\<lambda>v. case v of PStr t \<Rightarrow> Inr t | _ \<Rightarrow> Inl TypeError)"

definition spec_dict :: "pydict \<Rightarrow> string \<Rightarrow> pydict res" where
  "spec_dict d k = res_bind (dkey d k) (\<lambda>v. case v of PDict t \<Rightarrow> Inr t | _ \<Rightarrow> Inl TypeError)"

definition spec_int :: "pydict \<Rightarrow> string \<Rightarrow> int res" where
  "spec_int d k = res_bind (dkey d k) (\<lambda>v. case v of PInt t \<Rightarrow> Inr t | _ \<Rightarrow> Inl TypeError)"

definition engine_param :: "pydict \<Rightarrow> string \<times> pyval \<Rightarrow> unit res" where
  "engine_param ranges pv = (let (p, v) = pv in case map_of ranges p of
      None \<Rightarrow> Inl (BacktestError (''undeclared_param:'' @ p))
    | Some r \<Rightarrow> res_bind (unpack3 r) (\<lambda>(lo, hi, _). res_bind (between lo v hi) (\<lambda>inside.
        if inside then Inr () else Inl (BacktestError (''param_out_of_range:'' @ p)))))"

fun each_res :: "('a \<Rightarrow> unit res) \<Rightarrow> 'a list \<Rightarrow> unit res" where
  "each_res f [] = Inr ()"
| "each_res f (x # xs) = res_bind (f x) (\<lambda>_. each_res f xs)"

definition trial_of :: "string \<Rightarrow> string \<Rightarrow> string \<Rightarrow> string \<Rightarrow> string \<Rightarrow> string \<Rightarrow> int \<Rightarrow> string \<Rightarrow> pydict \<Rightarrow> bool \<Rightarrow> time \<Rightarrow> trial" where
  "trial_of rkey sid family cfg dhash version seed seat stats is_holdout now =
     \<lparr>tr_run_key = rkey, tr_spec_id = sid, tr_family = family, tr_config_hash = cfg, tr_snapshot_hash = dhash,
      tr_engine_version = version, tr_seed = seed, tr_seat = seat, tr_stats = stats, tr_is_holdout = is_holdout, tr_created_at = now\<rparr>"

definition REJECTED_STATS :: pydict where
  "REJECTED_STATS = [(''rejected'', PStr ''budget_exhausted'')]"

definition result_of :: "string \<Rightarrow> string \<Rightarrow> string \<Rightarrow> string \<Rightarrow> nat \<Rightarrow> pydict \<Rightarrow> pydict" where
  "result_of rkey sid cfg dhash n stats =
     [(''run_key'', PStr rkey), (''spec_id'', PStr sid), (''config_hash'', PStr cfg), (''data_snapshot_hash'', PStr dhash),
      (''n_trials_family'', PInt (int n))] @ stats @ [(''cached'', PBool False)]"

text \<open>\<open>{**cached, "cached": True}\<close>\<close>

definition cached_result :: "pydict \<Rightarrow> pydict" where
  "cached_result stats = AList.update ''cached'' (PBool True) stats"

definition run_backtest :: "'c engine \<Rightarrow> pydict \<Rightarrow> pydict \<Rightarrow> 'c \<Rightarrow> string \<Rightarrow> time \<Rightarrow> int \<Rightarrow> int \<Rightarrow> (db, pydict) prog" where
  "run_backtest E spec params close seat now seed holdout_months =
     andthen (lift_res (spec_dict spec ''signal_rule'')) (\<lambda>rule. andthen (lift_res (spec_str rule ''name'')) (\<lambda>rule_name.
     if rule_name \<notin> set (en_rules E) then bt_error ''unknown_rule'' else
     andthen (lift_res (spec_dict spec ''param_ranges'')) (\<lambda>ranges.
     andthen (lift_res (each_res (engine_param ranges) params)) (\<lambda>_.
     andthen (lift_res (spec_str spec ''spec_id'')) (\<lambda>sid.
     let cfg = config_hash (en_hasher E) sid params; dhash = en_snapshot_hash E close;
         rkey = run_key_of (en_hasher E) cfg dhash ENGINE_VERSION seed
     in andthen (gets (reg_get rkey)) (\<lambda>cached. case cached of Some stats \<Rightarrow> ret (cached_result stats) | None \<Rightarrow>
     andthen (gets (spec_trial_count sid)) (\<lambda>count. andthen (lift_res (spec_int spec ''search_budget'')) (\<lambda>budget.
     if budget \<le> int count
     then andthen (lift_res (spec_str spec ''family'')) (\<lambda>family. andthen (reg_log (trial_of rkey sid family cfg dhash ENGINE_VERSION seed seat REJECTED_STATS False now))
            (\<lambda>_. bt_error ''budget_exhausted''))
     else if en_has_nan E close then bt_error ''nan_in_close'' else
     let visible = en_visible E holdout_months close in
     if en_len E visible < TRADING_DAYS * 2 then bt_error ''insufficient_data'' else
     andthen (lift_res (res_bind (dkey spec ''liquidity_bucket'') floor_for)) (\<lambda>floor.
     andthen (lift_res (spec_str spec ''family'')) (\<lambda>family.
     andthen (gets (family_n family)) (\<lambda>n. andthen (gets (family_sharpe_variance (en_var E) family)) (\<lambda>var. andthen (lift_res var) (\<lambda>v.
     andthen (lift_res (en_stats E rule_name params ranges visible (map (fmul floor) STRESS_MULTIPLIERS) (n + 1) v)) (\<lambda>stats.
     let result = result_of rkey sid cfg dhash (n + 1) stats
     in andthen (reg_log (trial_of rkey sid family cfg dhash ENGINE_VERSION seed seat result False now)) (\<lambda>_. ret result)))))))))))))))"

section \<open>The holdout\<close>

definition holdout_passed :: "pydict \<Rightarrow> bool" where
  "holdout_passed detail = (case num_val (dget detail ''holdout_sharpe'') of Some x \<Rightarrow> isfinite x \<and> flt (Fin 0) x | None \<Rightarrow> False)"

definition evaluate_holdout :: "'c engine \<Rightarrow> pydict \<Rightarrow> pydict \<Rightarrow> 'c \<Rightarrow> time \<Rightarrow> int \<Rightarrow> (db, pydict) prog" where
  "evaluate_holdout E spec params close now holdout_months =
     andthen (lift_res (res_bind (dkey spec ''liquidity_bucket'') floor_for)) (\<lambda>floor.
     andthen (lift_res (spec_dict spec ''signal_rule'')) (\<lambda>rule. andthen (lift_res (spec_str rule ''name'')) (\<lambda>rule_name.
     if rule_name \<notin> set (en_rules E) then raise KeyError else
     andthen (lift_res (en_holdout E rule_name params holdout_months close floor)) (\<lambda>detail.
     andthen (lift_res (spec_str spec ''spec_id'')) (\<lambda>sid. andthen (lift_res (spec_str spec ''family'')) (\<lambda>family.
     let cfg = config_hash (en_hasher E) sid params; dhash = en_snapshot_hash E close;
         rkey = run_key_of (en_hasher E) cfg dhash (ENGINE_VERSION @ ''+holdout'') 0
     in andthen (reg_log (trial_of rkey sid family cfg dhash (ENGINE_VERSION @ ''+holdout'') 0 ''orchestrator'' detail True now)) (\<lambda>_.
        andthen (catch (consume_holdout \<lparr>h_spec_id = sid, h_run_key = rkey, h_passed = holdout_passed detail, h_detail = detail,
              h_created_at = now\<rparr>)
            (\<lambda>e. if e = IntegrityForeignKey then bt_error ''holdout_wiring_error'' else raise e)) (\<lambda>fresh.
        if fresh then ret detail else bt_error ''holdout_already_consumed''))))))))"

section \<open>The tool's handler\<close>

definition BACKTESTABLE :: "status list" where
  "BACKTESTABLE = [SPEC, BACKTEST]"

definition budget_event :: "string \<Rightarrow> spec \<Rightarrow> pydict" where
  "budget_event seat p = [(''seat'', PStr seat), (''spec_id'', PStr (sp_spec_id p)), (''family'', dget (sp_fields p) ''family''),
     (''search_budget'', dget (sp_fields p) ''search_budget'')]"

definition spec_as_dict :: "spec \<Rightarrow> pydict" where
  "spec_as_dict p = (''spec_id'', PStr (sp_spec_id p)) # sp_fields p @ [(''created_at'', PInt (sp_created_at p))]"

definition rule_known :: "string list \<Rightarrow> spec \<Rightarrow> bool" where
  "rule_known rules p = (case dget (sp_fields p) ''signal_rule'' of
      PDict d \<Rightarrow> (case dget d ''name'' of PStr n \<Rightarrow> n \<in> set rules | _ \<Rightarrow> False) | _ \<Rightarrow> False)"

text \<open>
  The run itself: a refusal of the engine, with the event of an exhausted budget; a cached
  rejection, which carries no run key; or a result, after which the lifecycle moves.
\<close>

definition backtest_run :: "'c engine \<Rightarrow> string \<Rightarrow> backtest_request \<Rightarrow> time \<Rightarrow> 'c \<Rightarrow> spec \<Rightarrow> strategy \<Rightarrow> (db, pydict answer) prog" where
  "backtest_run E seat req now close p st =
     andthen (catch (andthen (run_backtest E (spec_as_dict p) (bq_params req) close seat now (bq_seed req) HOLDOUT_MONTHS) (\<lambda>r. ret (Inr r)))
         (\<lambda>e. case e of BacktestError why \<Rightarrow>
               andthen (whenever (why = ''budget_exhausted'') (modify (append_event ''budget_exhausted'' (budget_event seat p) now)))
                 (\<lambda>_. no (Backtest_refused why))
             | _ \<Rightarrow> raise e)) (\<lambda>ran. case ran of Inl r \<Rightarrow> no r
       | Inr result \<Rightarrow>
         if map_of result ''run_key'' = None then no (Backtest_refused ''cached rejection'') else
         catch (andthen (advance_to_backtest (sp_spec_id p) (st_state_version st) now) (\<lambda>_. yes result))
           (\<lambda>e. if e = StaleTransition \<or> e = IllegalTransition then no (Lifecycle_moved (sp_spec_id p)) else raise e))"

definition backtest_body :: "pydantic \<Rightarrow> 'c engine \<Rightarrow> string \<Rightarrow> pydict \<Rightarrow> time \<Rightarrow> 'c res \<Rightarrow> (db, pydict answer) prog" where
  "backtest_body V E seat a now close_provider =
     parsed [ValidationError, TypeError] (parse_request V a) (\<lambda>req.
       andthen (gets (\<lambda>s. (fetchone (\<lambda>p. sp_spec_id p = bq_spec_id req) (strategy_specs s), lifecycle (bq_spec_id req) s))) (\<lambda>row.
       case row of (None, _) \<Rightarrow> no (Not_registered (bq_spec_id req))
       | (Some p, None) \<Rightarrow> no (No_lifecycle (bq_spec_id req))
       | (Some p, Some st) \<Rightarrow>
           if st_state st \<notin> set BACKTESTABLE then no (Wrong_state (st_state st))
           else if \<not> rule_known (en_rules E) p then no Unknown_rule
           else (case check_params (bq_params req) (case dget (sp_fields p) ''param_ranges'' of PDict d \<Rightarrow> d | _ \<Rightarrow> []) of
               Some bad \<Rightarrow> no (Bad_params bad)
             | None \<Rightarrow> (case close_provider of
                 Inl e \<Rightarrow> if e = LookupError then no No_data else raise e
               | Inr close \<Rightarrow> backtest_run E seat req now close p st))))"

definition handle_run_backtest :: "pydantic \<Rightarrow> 'c engine \<Rightarrow> string \<Rightarrow> pydict \<Rightarrow> time \<Rightarrow> 'c res \<Rightarrow> (db, pydict answer) prog" where
  "handle_run_backtest V E seat a now close_provider =
     (if \<not> can seat ''run_backtest'' then no (Not_granted ''run_backtest'') else backtest_body V E seat a now close_provider)"

text \<open>No seat holds the capability: the handler is served to nobody.\<close>

lemma run_backtest_not_granted: "\<not> can seat ''run_backtest''"
  by (auto simp: can_def SEAT_CAPS_def)

end
