(* ===== verification/BacktestProps.thy ===== *)
theory BacktestProps imports Backtest StageProps FundProps begin

text \<open>
  What the trial registry is worth: a spec is run no more often than its budget, a result
  that was returned is on the record and is returned again unchanged, and the holdout of a
  spec is evaluated once.
\<close>

section \<open>Logging\<close>

lemma reg_log_cases:
  assumes "reg_log t s = (r, s')"
  obtains (raised) e where "r = Inl e" and "s' = s"
    | (known) "r = Inr ()" and "s' = s" and "reg_get (tr_run_key t) s \<noteq> None"
    | (added) "r = Inr ()" and "reg_get (tr_run_key t) s = None" and "s' = s\<lparr>trial_registry := trial_registry s @ [t]\<rparr>"
proof (cases "sql_int (tr_seed t)")
  case (Inl e)
  then show ?thesis using assms raised by (auto simp: reg_log_def)
next
  case (Inr k)
  have g: "reg_get (tr_run_key t) s = None \<longleftrightarrow> \<not> list_ex (\<lambda>u. tr_run_key u = tr_run_key t) (trial_registry s)"
    by (auto simp: reg_get_def fetchone_None list_ex_iff)
  show ?thesis
    using assms Inr raised known added unfolding g
    by (auto simp: reg_log_def split: if_splits)
qed

lemma reg_get_append: "reg_get k s = None \<Longrightarrow> tr_run_key t = k \<Longrightarrow>
   reg_get k (s\<lparr>trial_registry := trial_registry s @ [t]\<rparr>) = Some (tr_stats t)"
  by (simp add: reg_get_def fetchone_append)

text \<open>The spec's runs: the trials that are neither a holdout nor a logged rejection.\<close>

definition is_run :: "string \<Rightarrow> trial \<Rightarrow> bool" where
  "is_run sid t \<longleftrightarrow> tr_spec_id t = sid \<and> \<not> tr_is_holdout t \<and> tr_stats t \<noteq> REJECTED_STATS"

definition runs_of :: "string \<Rightarrow> db \<Rightarrow> nat" where
  "runs_of sid s = length (filter (is_run sid) (trial_registry s))"

lemma runs_le_trials: "runs_of sid s \<le> spec_trial_count sid s"
proof -
  have "filter (is_run sid) (trial_registry s) = filter (\<lambda>t. \<not> tr_is_holdout t \<and> tr_stats t \<noteq> REJECTED_STATS)
      (filter (\<lambda>t. tr_spec_id t = sid) (trial_registry s))"
    by (auto simp: is_run_def fun_eq_iff intro!: arg_cong [where f = "\<lambda>p. filter p _"])
  then show ?thesis unfolding runs_of_def spec_trial_count_def by (metis length_filter_le)
qed

lemma bt_error_stepE: "bt_error why w = (q, w') \<Longrightarrow> (q = Inl (BacktestError why) \<Longrightarrow> w' = w \<Longrightarrow> P) \<Longrightarrow> P"
  by (auto simp: bt_error_def raise_def)

lemma reg_log_stepE:
  assumes "andthen (reg_log t) f w = (q, w')"
  obtains e where "q = Inl e" and "w' = w"
    | "reg_get (tr_run_key t) w \<noteq> None" and "f () w = (q, w')"
    | "reg_get (tr_run_key t) w = None" and "f () (w\<lparr>trial_registry := trial_registry w @ [t]\<rparr>) = (q, w')"
proof -
  obtain x u where l: "reg_log t w = (x, u)" by (metis surj_pair)
  then show ?thesis
    by (cases rule: reg_log_cases) (use assms that in \<open>auto simp: andthen_def l\<close>)
qed

lemmas registry_elims = step_elims bt_error_stepE reg_log_stepE

text \<open>What one call of the engine does to the database and answers.\<close>

lemma run_backtest_cases:
  assumes "run_backtest E spec params close seat now seed months s = (r, s')" and "spec_str spec ''spec_id'' = Inr sid"
  defines "rkey \<equiv> run_key_of (en_hasher E) (config_hash (en_hasher E) sid params) (en_snapshot_hash E close) ENGINE_VERSION seed"
  obtains (raised) e where "r = Inl e" and "s' = s"
    | (cached) stats where "reg_get rkey s = Some stats" and "r = Inr (cached_result stats)" and "s' = s"
    | (rejected) family budget t where "spec_int spec ''search_budget'' = Inr budget" and "budget \<le> int (spec_trial_count sid s)"
        and "r = Inl (BacktestError ''budget_exhausted'')" and "t = trial_of rkey sid family (config_hash (en_hasher E) sid params)
           (en_snapshot_hash E close) ENGINE_VERSION seed seat REJECTED_STATS False now"
        and "s' = s\<lparr>trial_registry := trial_registry s @ [t]\<rparr>" and "reg_get rkey s = None"
    | (ran) family budget stats t where "spec_int spec ''search_budget'' = Inr budget" and "int (spec_trial_count sid s) < budget"
        and "reg_get rkey s = None" and "r = Inr (tr_stats t)"
        and "t = trial_of rkey sid family (config_hash (en_hasher E) sid params) (en_snapshot_hash E close) ENGINE_VERSION seed seat
           (result_of rkey sid (config_hash (en_hasher E) sid params) (en_snapshot_hash E close) (family_n family s + 1) stats) False now"
        and "s' = s\<lparr>trial_registry := trial_registry s @ [t]\<rparr>"
proof -
  have run: "run_backtest E spec params close seat now seed months s = (r, s')" by (rule assms(1))
  show ?thesis
    apply (insert run [unfolded run_backtest_def Let_def] assms(2))
    apply (elim registry_elims; (rule raised, assumption, assumption | (simp add: trial_of_def; fail))?)
    subgoal for _ _ _ _ _ budget family
      by (rule rejected [of budget _ family, OF _ _ _ refl]) (simp_all add: rkey_def trial_of_def)
    subgoal for _ _ _ _ _ budget _ family _ stats
      by (rule ran [of budget _ family stats, OF _ _ _ _ refl]) (simp_all add: rkey_def trial_of_def)
    subgoal for _ _ _ _ _ stats by (rule cached [of stats]) (simp_all add: rkey_def)
    done
qed


section \<open>The holdout\<close>

lemma consume_stepE:
  assumes "andthen (catch (consume_holdout h) (\<lambda>e. if e = IntegrityForeignKey then bt_error why else raise e)) f w = (q, w')"
  obtains "list_ex (\<lambda>g. h_spec_id g = h_spec_id h) (holdout_evaluations w)" and "f False w = (q, w')"
    | e where "q = Inl e" and "w' = w"
    | "\<not> list_ex (\<lambda>g. h_spec_id g = h_spec_id h) (holdout_evaluations w)"
      and "f True (w\<lparr>holdout_evaluations := holdout_evaluations w @ [h]\<rparr>) = (q, w')"
  using assms by (auto simp: andthen_def catch_def consume_holdout_def bt_error_def raise_def split: if_splits)

lemma holdouts_of_trials: "holdout_evaluations (s\<lparr>trial_registry := ts\<rparr>) = holdout_evaluations s"
  by simp

lemma no_trials: "s' = s \<Longrightarrow> s' = s\<lparr>trial_registry := trial_registry s @ []\<rparr>"
  by simp

text \<open>
  An evaluation adds holdout trials only, and a holdout row exactly when it returns, which
  it does only on a spec that has none.
\<close>

lemma evaluate_holdout_cases:
  assumes "evaluate_holdout E spec params close now months s = (r, s')" and "spec_str spec ''spec_id'' = Inr sid"
  obtains (raised) e ts where "s' = s\<lparr>trial_registry := trial_registry s @ ts\<rparr>" and "r = Inl e" and "\<forall>t\<in>set ts. tr_is_holdout t"
    | (fresh) d h ts where "s' = s\<lparr>trial_registry := trial_registry s @ ts, holdout_evaluations := holdout_evaluations s @ [h]\<rparr>"
        and "r = Inr d" and "\<forall>t\<in>set ts. tr_is_holdout t" and "h_spec_id h = sid" and "h_detail h = d"
        and "\<not> list_ex (\<lambda>g. h_spec_id g = sid) (holdout_evaluations s)"
proof -
  have run: "evaluate_holdout E spec params close now months s = (r, s')" by (rule assms(1))
  show ?thesis
    apply (insert run [unfolded evaluate_holdout_def Let_def] assms(2))
    apply (elim registry_elims consume_stepE;
        (rule raised [where ts = "[]"], erule no_trials, assumption, simp (no_asm); fail
          | rule raised [where ts = "[_]"], assumption, assumption, simp (no_asm) add: trial_of_def; fail | erule FalseE | erule notE, rule TrueI)?)
    subgoal by (rule fresh [where ts = "[]"]) (simp_all, simp_all?)
    subgoal
      apply (simp only: holdouts_of_trials)
      apply (rule fresh [where ts = "[_]"], assumption, assumption)
      by (simp_all add: trial_of_def)
    done
qed


section \<open>Sequences of calls\<close>

text \<open>
  What the fund calls over the life of its specs: runs and holdout evaluations, each of the
  spec that \<open>book\<close> registers under an id.
\<close>

datatype 'c bt_call =
    Run string pydict 'c string time int int
  | Holdout string pydict 'c time int

primrec bt_step :: "'c engine \<Rightarrow> (string \<Rightarrow> pydict) \<Rightarrow> 'c bt_call \<Rightarrow> db \<Rightarrow> db" where
  "bt_step E book (Run i params close seat now seed months) s = snd (run_backtest E (book i) params close seat now seed months s)"
| "bt_step E book (Holdout i params close now months) s = snd (evaluate_holdout E (book i) params close now months s)"

definition book_ok :: "(string \<Rightarrow> pydict) \<Rightarrow> bool" where
  "book_ok book \<longleftrightarrow> (\<forall>i. spec_str (book i) ''spec_id'' = Inr i)"

lemma runs_of_append [simp]:
  "runs_of sid (s\<lparr>trial_registry := trial_registry s @ ts\<rparr>) = runs_of sid s + length (filter (is_run sid) ts)"
  by (simp add: runs_of_def)

lemma runs_of_holdout [simp]: "runs_of sid (s\<lparr>holdout_evaluations := hs\<rparr>) = runs_of sid s"
  by (simp add: runs_of_def)

lemma no_holdout_run: "\<forall>t\<in>set ts. tr_is_holdout t \<Longrightarrow> filter (is_run sid) ts = []"
  by (auto simp: filter_empty_conv is_run_def)

lemma bt_step_runs:
  assumes "book_ok book" and "spec_int (book sid) ''search_budget'' = Inr budget"
  shows "runs_of sid (bt_step E book c s) \<le> max (runs_of sid s) (nat budget)"
proof (cases c)
  case (Run i params close seat now seed months)
  obtain r s' where run: "run_backtest E (book i) params close seat now seed months s = (r, s')" by (metis surj_pair)
  have id: "spec_str (book i) ''spec_id'' = Inr i" using assms(1) by (simp add: book_ok_def)
  show ?thesis
    using run id
  proof (cases rule: run_backtest_cases)
    case (rejected family budget' t)
    then show ?thesis using Run run by (simp add: is_run_def trial_of_def)
  next
    case (ran family budget' stats t)
    then show ?thesis using Run run assms(2) runs_le_trials [of sid s] by (auto simp: is_run_def trial_of_def)
  qed (use Run run in auto)
next
  case (Holdout i params close now months)
  obtain r s' where run: "evaluate_holdout E (book i) params close now months s = (r, s')" by (metis surj_pair)
  have id: "spec_str (book i) ''spec_id'' = Inr i" using assms(1) by (simp add: book_ok_def)
  show ?thesis
    using run id by (cases rule: evaluate_holdout_cases) (simp_all add: Holdout run no_holdout_run)
qed

text \<open>
  C15: the search budget holds. Whatever is called, in whatever order and for whatever
  specs, a spec never has more runs on record than its budget: neither the logged
  rejections nor the holdout trials, which also spend it, make room for another.
\<close>

theorem budget_is_never_exceeded:
  assumes "book_ok book" and "spec_int (book sid) ''search_budget'' = Inr budget" and "runs_of sid s \<le> nat budget"
  shows "runs_of sid (fold (bt_step E book) calls s) \<le> nat budget"
  using assms(3)
proof (induction calls arbitrary: s)
  case (Cons c calls)
  have "runs_of sid (bt_step E book c s) \<le> nat budget"
    using bt_step_runs [OF assms(1,2), of E c s] Cons.prems by simp
  then show ?case using Cons.IH by simp
qed simp


lemma run_backtest_valid:
  assumes "run_backtest E spec params close seat now seed months s = (Inr res, s')"
  obtains rule name ranges sid where "spec_dict spec ''signal_rule'' = Inr rule" and "spec_str rule ''name'' = Inr name"
    and "name \<in> set (en_rules E)" and "spec_dict spec ''param_ranges'' = Inr ranges" and "each_res (engine_param ranges) params = Inr ()"
    and "spec_str spec ''spec_id'' = Inr sid"
  apply (insert assms [unfolded run_backtest_def Let_def] that)
  by (elim lift_stepE if_stepE; simp add: bt_error_def raise_def)

text \<open>
  C38: every result is on the record. What a run returns is the stats logged under its key,
  the log only grows, and the same run asked again, by any seat and at any time, returns
  the logged stats marked as cached and writes nothing.
\<close>

theorem every_result_is_logged:
  assumes "run_backtest E spec params close seat now seed months s = (Inr res, s')" and "spec_str spec ''spec_id'' = Inr sid"
  shows "\<exists>stats new. reg_get (run_key_of (en_hasher E) (config_hash (en_hasher E) sid params) (en_snapshot_hash E close) ENGINE_VERSION seed) s'
      = Some stats \<and> (res = stats \<or> res = cached_result stats) \<and> trial_registry s' = trial_registry s @ new \<and>
    (\<forall>seat' now' months'. run_backtest E spec params close seat' now' seed months' s' = (Inr (cached_result stats), s'))"
proof -
  obtain rule name ranges where v: "spec_dict spec ''signal_rule'' = Inr rule" "spec_str rule ''name'' = Inr name"
    "name \<in> set (en_rules E)" "spec_dict spec ''param_ranges'' = Inr ranges" "each_res (engine_param ranges) params = Inr ()"
    using run_backtest_valid [OF assms(1)] by metis
  let ?k = "run_key_of (en_hasher E) (config_hash (en_hasher E) sid params) (en_snapshot_hash E close) ENGINE_VERSION seed"
  have again: "run_backtest E spec params close seat' now' seed months' s' = (Inr (cached_result stats), s')"
    if "reg_get ?k s' = Some stats" for stats seat' now' months'
    using v that assms(2) by (simp add: run_backtest_def Let_def)
  show ?thesis
    using assms
  proof (cases rule: run_backtest_cases)
    case (cached stats)
    then show ?thesis using again [of stats] by (intro exI [of _ stats] exI [of _ "[]"]) simp
  next
    case (ran family budget stats t)
    have g: "reg_get ?k s' = Some (tr_stats t)"
      unfolding ran(6) by (rule reg_get_append) (use ran in \<open>simp_all add: trial_of_def\<close>)
    then show ?thesis using again [OF g] ran by (intro exI [of _ "tr_stats t"] exI [of _ "[t]"]) simp
  qed simp_all
qed

text \<open>A second call that is refused for the budget is answered from the log instead of raising.\<close>

lemma exhausted_is_cached:
  assumes "run_backtest E spec params close seat now seed months s = (Inl (BacktestError ''budget_exhausted''), s')"
    and "spec_str spec ''spec_id'' = Inr sid" and "trial_registry s' \<noteq> trial_registry s"
    and "spec_dict spec ''signal_rule'' = Inr rule" and "spec_str rule ''name'' = Inr name" and "name \<in> set (en_rules E)"
    and "spec_dict spec ''param_ranges'' = Inr ranges" and "each_res (engine_param ranges) params = Inr ()"
  shows "run_backtest E spec params close seat now seed months s' = (Inr (cached_result REJECTED_STATS), s')"
  using assms(1,2)
proof (cases rule: run_backtest_cases)
  case (rejected family budget t)
  have "reg_get (run_key_of (en_hasher E) (config_hash (en_hasher E) sid params) (en_snapshot_hash E close) ENGINE_VERSION seed) s'
      = Some (tr_stats t)"
    unfolding rejected(5) by (rule reg_get_append) (use rejected in \<open>simp_all add: trial_of_def\<close>)
  then show ?thesis using rejected(4) assms(2,4-) by (simp add: run_backtest_def Let_def trial_of_def)
qed (use assms(3) in auto)

section \<open>The holdout is touched once\<close>

definition holdout_rows :: "string \<Rightarrow> db \<Rightarrow> holdout list" where
  "holdout_rows sid s = filter (\<lambda>h. h_spec_id h = sid) (holdout_evaluations s)"

lemma bt_step_holdout:
  assumes "book_ok book" and "holdout_rows sid s \<noteq> []"
  shows "holdout_rows sid (bt_step E book c s) = holdout_rows sid s"
proof (cases c)
  case (Run i params close seat now seed months)
  obtain r s' where run: "run_backtest E (book i) params close seat now seed months s = (r, s')" by (metis surj_pair)
  have id: "spec_str (book i) ''spec_id'' = Inr i" using assms(1) by (simp add: book_ok_def)
  show ?thesis using run id by (cases rule: run_backtest_cases) (simp_all add: Run run holdout_rows_def)
next
  case (Holdout i params close now months)
  obtain r s' where run: "evaluate_holdout E (book i) params close now months s = (r, s')" by (metis surj_pair)
  have id: "spec_str (book i) ''spec_id'' = Inr i" using assms(1) by (simp add: book_ok_def)
  show ?thesis
    using run id
  proof (cases rule: evaluate_holdout_cases)
    case (fresh d h ts)
    then have "h_spec_id h \<noteq> sid" using assms(2) by (auto simp: holdout_rows_def filter_empty_conv list_ex_iff)
    then show ?thesis using Holdout run fresh by (simp add: holdout_rows_def)
  qed (simp add: Holdout run holdout_rows_def)
qed

text \<open>
  C19: the holdout is touched once. When an evaluation returns, the spec had no holdout row
  and has one afterwards, with the returned detail. From then on, through any calls in
  any order, that row stays the only one, and every further evaluation of the spec, with
  whatever parameters, prices and window, raises.
\<close>

theorem holdout_is_touched_once:
  assumes "book_ok book" and "evaluate_holdout E (book sid) params close now months s = (Inr d, s1)"
  shows "holdout_rows sid s = [] \<and> (\<exists>h. h_detail h = d \<and> holdout_rows sid (fold (bt_step E book) calls s1) = [h]) \<and>
    (\<exists>e. fst (evaluate_holdout E (book sid) params' close' now' months' (fold (bt_step E book) calls s1)) = Inl e)"
proof -
  have id: "spec_str (book sid) ''spec_id'' = Inr sid" using assms(1) by (simp add: book_ok_def)
  obtain h where h: "holdout_rows sid s = []" "h_detail h = d" "holdout_rows sid s1 = [h]"
    using assms(2) id by (cases rule: evaluate_holdout_cases) (auto simp: holdout_rows_def filter_empty_conv list_ex_iff)
  have keep: "holdout_rows sid (fold (bt_step E book) calls u) = holdout_rows sid u" if "holdout_rows sid u \<noteq> []" for u
    using that by (induction calls arbitrary: u) (simp_all add: bt_step_holdout [OF assms(1)])
  let ?u = "fold (bt_step E book) calls s1"
  have u: "holdout_rows sid ?u = [h]" using keep h(3) by simp
  obtain r u' where run: "evaluate_holdout E (book sid) params' close' now' months' ?u = (r, u')" by (metis surj_pair)
  have "\<exists>e. r = Inl e"
    using run id
  proof (cases rule: evaluate_holdout_cases)
    case (fresh d' h' ts)
    from fresh(6) have "holdout_rows sid ?u = []" unfolding holdout_rows_def filter_empty_conv list_ex_iff by blast
    then show ?thesis using u by simp
  qed simp
  then show ?thesis using h u run by auto
qed


section \<open>The tool\<close>

lemma strategies_cas: "\<exists>rows. snd (cas_update T_strategies (K_strategy_id k) a b now x v s) = s\<lparr>strategies := rows\<rparr>"
  by (simp add: Let_def exI)

lemma advance_effect:
  assumes "db_wf s" and "advance_to_backtest sid v now s = (r, s')"
  shows "(\<exists>b. r = Inr b) \<and> status_of T_strategies (K_strategy_id sid) s' = Some BACKTEST \<and> (\<exists>rows. s' = s\<lparr>strategies := rows\<rparr>) \<or>
    (\<exists>e. r = Inl e) \<and> s' = s"
proof (cases "lifecycle sid s")
  case None
  then show ?thesis using assms(2) by (auto simp: advance_to_backtest_def raise_def)
next
  case (Some t)
  show ?thesis
  proof (cases "st_state t = BACKTEST")
    case True
    then have "s' = s" "r = Inr False" using Some assms(2) by (simp_all add: advance_to_backtest_def)
    moreover have "s = s\<lparr>strategies := strategies s\<rparr>" by simp
    ultimately show ?thesis using Some True by (auto simp: lifecycle_def intro!: exI [of _ "strategies s"])
  next
    case False
    obtain q u where q: "try_transition T_strategies (K_strategy_id sid) (st_state t) BACKTEST now [] (Some v) s = (q, u)" by (metis surj_pair)
    have eff: "(r, s') = (case q of Inl e \<Rightarrow> (Inl e, u) | Inr b \<Rightarrow> if b then (Inr True, u) else (Inl StaleTransition, u))"
      using assms(2) Some False q by (auto simp: advance_to_backtest_def andthen_def transition_def split: sum.splits bool.splits)
    show ?thesis
    proof (cases "q = Inr True")
      case True
      have "status_of T_strategies (K_strategy_id sid) u = Some BACKTEST" using try_transition_hit [OF assms(1)] q True by (metis fst_conv snd_conv)
      moreover have "\<exists>rows. u = s\<lparr>strategies := rows\<rparr>"
        using q True strategies_cas [of sid "st_state t" BACKTEST now "[]" "Some v" s] try_transition_Inr_legal [of T_strategies "K_strategy_id sid"]
        by (metis fst_conv snd_conv try_transition_legal)
      ultimately show ?thesis using eff True by auto
    next
      case no: False
      have "u = s" using try_transition_miss [OF assms(1)] q no by (metis fst_conv snd_conv)
      then show ?thesis using eff no by (auto split: sum.splits if_splits)
    qed
  qed
qed

lemma spec_as_dict_id [simp]: "spec_str (spec_as_dict p) ''spec_id'' = Inr (sp_spec_id p)"
  by (simp add: spec_str_def spec_as_dict_def dkey_def)

lemma run_backtest_frame:
  assumes "run_backtest E spec params close seat now seed months s = (r, s')" and "spec_str spec ''spec_id'' = Inr sid"
  shows "\<exists>new. s' = s\<lparr>trial_registry := trial_registry s @ new\<rparr>"
  using assms by (cases rule: run_backtest_cases) (auto intro: exI [of _ "[]"])

lemma db_wf_trials [simp]: "db_wf (s\<lparr>trial_registry := ts\<rparr>) = db_wf s"
  by (simp add: db_wf_def)

text \<open>What the run leaves: trials and events added, and the lifecycle row of an accepted run in BACKTEST.\<close>

definition ran_ok :: "string \<Rightarrow> db \<Rightarrow> pydict answer res \<Rightarrow> db \<Rightarrow> bool" where
  "ran_ok sid s r s' \<longleftrightarrow>
     (\<exists>new evs. s' = s\<lparr>trial_registry := trial_registry s @ new, events := events s @ evs, strategies := strategies s'\<rparr> \<and>
        (accepted r \<longrightarrow> evs = [])) \<and>
     (\<not> accepted r \<longrightarrow> strategies s' = strategies s) \<and>
     (accepted r \<longrightarrow> status_of T_strategies (K_strategy_id sid) s' = Some BACKTEST)"

lemma ran_ok_unchanged: "\<not> accepted r \<Longrightarrow> ran_ok sid s r s"
  by (auto simp: ran_ok_def intro!: exI [of _ "[]"])

lemma backtest_run_effect:
  assumes "db_wf s" and "backtest_run E seat req now close p st s = (r, s')"
  shows "ran_ok (sp_spec_id p) s r s'"
proof -
  obtain q u where run: "run_backtest E (spec_as_dict p) (bq_params req) close seat now (bq_seed req) HOLDOUT_MONTHS s = (q, u)"
    by (metis surj_pair)
  then obtain new where u: "u = s\<lparr>trial_registry := trial_registry s @ new\<rparr>" using run_backtest_frame by fastforce
  have ok: "ran_ok (sp_spec_id p) s x (u\<lparr>events := events u @ evs\<rparr>)" if "\<not> accepted x" for x evs
    using that u by (auto simp: ran_ok_def intro!: exI [of _ new] exI [of _ evs])
  show ?thesis
  proof (cases q)
    case (Inl e)
    have "\<exists>evs. s' = u\<lparr>events := events u @ evs\<rparr> \<and> \<not> accepted r"
      using assms(2) run Inl
      by (cases e) (auto simp: backtest_run_def andthen_def catch_def raise_def no_def whenever_def append_event_def modify_def ret_def
          intro: exI [of _ "[]"] split: if_splits)
    then show ?thesis using ok by blast
  next
    case (Inr result)
    show ?thesis
    proof (cases "map_of result ''run_key''")
      case None
      then have "s' = u\<lparr>events := events u @ []\<rparr>" "\<not> accepted r"
        using assms(2) run Inr by (auto simp: backtest_run_def andthen_def catch_def no_def ret_def)
      then show ?thesis using ok by blast
    next
      case (Some k)
      obtain x v where a: "advance_to_backtest (sp_spec_id p) (st_state_version st) now u = (x, v)" by (metis surj_pair)
      have "db_wf u" using assms(1) u by simp
      from advance_effect [OF this a] show ?thesis
      proof (elim disjE conjE exE)
        fix b rows assume b: "x = Inr b" "status_of T_strategies (K_strategy_id (sp_spec_id p)) v = Some BACKTEST" "v = u\<lparr>strategies := rows\<rparr>"
        have "s' = v" "accepted r" using assms(2) run Inr Some a b(1) by (auto simp: backtest_run_def andthen_def catch_def yes_def ret_def)
        then show ?thesis using b(2,3) u by (auto simp: ran_ok_def intro!: exI [of _ new])
      next
        fix e assume e: "x = Inl e" "v = u"
        have "s' = u\<lparr>events := events u @ []\<rparr>" "\<not> accepted r"
          using assms(2) run Inr Some a e by (auto simp: backtest_run_def andthen_def catch_def no_def ret_def raise_def split: if_splits)
        then show ?thesis using ok by blast
      qed
    qed
  qed
qed

text \<open>
  The tool moves a spec one way. Whatever a seat asks and however the engine answers,
  the call adds trials and events and touches nothing but the lifecycle rows; an answer
  that is not a result leaves those too, and a result is given only for a spec that was
  registered in SPEC or BACKTEST, which is in BACKTEST afterwards.
\<close>

theorem backtest_moves_one_way:
  assumes "db_wf s" and "backtest_body V E seat a now provider s = (r, s')"
  shows "(\<exists>new evs. s' = s\<lparr>trial_registry := trial_registry s @ new, events := events s @ evs, strategies := strategies s'\<rparr>) \<and>
    (\<not> accepted r \<longrightarrow> strategies s' = strategies s) \<and>
    (accepted r \<longrightarrow> (\<exists>req. parse_request V a = Inr req \<and> events s' = events s \<and>
       status_of T_strategies (K_strategy_id (bq_spec_id req)) s \<in> {Some SPEC, Some BACKTEST} \<and>
       status_of T_strategies (K_strategy_id (bq_spec_id req)) s' = Some BACKTEST))"
proof -
  have "\<not> accepted r \<and> s' = s \<or> (\<exists>req p st close. parse_request V a = Inr req \<and>
      fetchone (\<lambda>p. sp_spec_id p = bq_spec_id req) (strategy_specs s) = Some p \<and> lifecycle (bq_spec_id req) s = Some st \<and>
      st_state st \<in> {SPEC, BACKTEST} \<and> backtest_run E seat req now close p st s = (r, s'))"
    using assms(2) unfolding backtest_body_def
  proof (cases rule: parsed_cases)
    case (ok req)
    then show ?thesis
      by (auto simp: no_def BACKTESTABLE_def raise_def split: option.splits if_splits sum.splits)
  qed auto
  then show ?thesis
  proof (elim disjE exE conjE)
    assume "\<not> accepted r" "s' = s"
    then show ?thesis using ran_ok_unchanged [of r "[]" s] by (auto simp: ran_ok_def)
  next
    fix req p st close
    assume h: "parse_request V a = Inr req" "fetchone (\<lambda>p. sp_spec_id p = bq_spec_id req) (strategy_specs s) = Some p"
      "lifecycle (bq_spec_id req) s = Some st" "st_state st \<in> {SPEC, BACKTEST}" "backtest_run E seat req now close p st s = (r, s')"
    have "sp_spec_id p = bq_spec_id req" using fetchone_SomeD [OF h(2)] by simp
    with backtest_run_effect [OF assms(1) h(5)] have ok: "ran_ok (bq_spec_id req) s r s'" by simp
    have "status_of T_strategies (K_strategy_id (bq_spec_id req)) s \<in> {Some SPEC, Some BACKTEST}"
      using h(3,4) by (auto simp: lifecycle_def)
    moreover have "events s' = events s" if "accepted r"
    proof -
      obtain new where "s' = s\<lparr>trial_registry := trial_registry s @ new, events := events s @ [], strategies := strategies s'\<rparr>"
        using ok [unfolded ran_ok_def] \<open>accepted r\<close> by auto
      from arg_cong [OF this, of events] show ?thesis by simp
    qed
    ultimately show ?thesis using ok h(1) unfolding ran_ok_def by blast
  qed
qed


section \<open>Witnesses\<close>

definition toy_engine :: "nat engine" where
  "toy_engine = \<lparr>en_rules = [''dip_buyer''], en_snapshot_hash = (\<lambda>_. ''d''), en_has_nan = (\<lambda>_. False), en_visible = (\<lambda>_ c. c),
     en_len = (\<lambda>c. c), en_stats = (\<lambda>_ _ _ _ _ _ _. Inr [(''per_period_sharpe'', PFloat (Fin 0))]),
     en_holdout = (\<lambda>_ _ _ _ _. Inr [(''holdout_sharpe'', PFloat (Fin 1))]), en_var = (\<lambda>_. Fin 0),
     en_hasher = \<lparr>hs_repr = (\<lambda>_. ''0.5''), hs_sha = List.filter (\<lambda>c. c \<in> set ''0123456789'')\<rparr>\<rparr>"

definition toy_book :: "string \<Rightarrow> pydict" where
  "toy_book i = (''spec_id'', PStr i) # golden_payload"

definition toy_db :: db where
  "toy_db = empty_db\<lparr>strategy_specs := [\<lparr>sp_spec_id = ''s'', sp_fields = golden_payload, sp_created_at = 0\<rparr>],
     strategies := [lifecycle_row ''s'' 0]\<rparr>"

definition dip :: "int \<Rightarrow> pydict" where
  "dip n = [(''dip_days'', PInt n)]"

lemma toy_book_ok: "book_ok toy_book"
  by (simp add: book_ok_def toy_book_def spec_str_def dkey_def)

lemma toy_budget: "spec_int (toy_book i) ''search_budget'' = Inr 2"
  by (simp add: toy_book_def spec_int_def dkey_def golden_payload_def)

theorem budget_is_never_exceeded_witness:
  "let calls = map (\<lambda>n. Run ''s'' (dip n) 600 ''quant'' n 0 18) [3, 4, 5]; s = fold (bt_step toy_engine toy_book) calls toy_db
   in length (trial_registry s) = 3 \<and> runs_of ''s'' s \<le> 2"
proof -
  let ?calls = "map (\<lambda>n. Run ''s'' (dip n) 600 ''quant'' n 0 18) [3, 4, 5]"
  have "length (trial_registry (fold (bt_step toy_engine toy_book) ?calls toy_db)) = 3" by code_simp
  then show ?thesis
    using budget_is_never_exceeded [OF toy_book_ok toy_budget, of "''s''" toy_db toy_engine ?calls]
    by (simp add: runs_of_def toy_db_def empty_db_def Let_def)
qed


theorem every_result_is_logged_witness:
  "\<exists>res s'. run_backtest toy_engine (toy_book ''s'') (dip 3) 600 ''quant'' 60 0 18 toy_db = (Inr res, s') \<and>
     (\<exists>stats. run_backtest toy_engine (toy_book ''s'') (dip 3) 600 ''critic'' 90 0 18 s' = (Inr (cached_result stats), s'))"
proof -
  let ?p = "run_backtest toy_engine (toy_book ''s'') (dip 3) 600 ''quant'' 60 0 18 toy_db"
  have "case fst ?p of Inr _ \<Rightarrow> True | Inl _ \<Rightarrow> False" by code_simp
  then obtain res s' where run: "?p = (Inr res, s')" by (cases ?p) (auto split: sum.splits)
  have "spec_str (toy_book ''s'') ''spec_id'' = Inr ''s''" by (simp add: toy_book_def spec_str_def dkey_def)
  from every_result_is_logged [OF run this] show ?thesis using run by blast
qed

theorem holdout_is_touched_once_witness:
  "\<exists>d s1. evaluate_holdout toy_engine (toy_book ''s'') (dip 3) 600 60 18 toy_db = (Inr d, s1) \<and>
     (\<exists>e. fst (evaluate_holdout toy_engine (toy_book ''s'') (dip 4) 700 90 6
        (fold (bt_step toy_engine toy_book) [Run ''s'' (dip 3) 600 ''quant'' 70 0 18] s1)) = Inl e)"
proof -
  let ?p = "evaluate_holdout toy_engine (toy_book ''s'') (dip 3) 600 60 18 toy_db"
  have "case fst ?p of Inr _ \<Rightarrow> True | Inl _ \<Rightarrow> False" by code_simp
  then obtain d s1 where run: "?p = (Inr d, s1)" by (cases ?p) (auto split: sum.splits)
  from holdout_is_touched_once [OF toy_book_ok this, of "[Run ''s'' (dip 3) 600 ''quant'' 70 0 18]" "dip 4" 700 90 6] run
  show ?thesis by blast
qed

theorem backtest_moves_one_way_witness:
  "\<exists>r s'. backtest_body golden_pydantic toy_engine ''quant'' [(''spec_id'', PStr ''s''), (''params'', PDict (dip 3))] 60 (Inr 600) toy_db = (r, s') \<and>
     accepted r \<and> status_of T_strategies (K_strategy_id ''s'') s' = Some BACKTEST"
proof -
  let ?p = "backtest_body golden_pydantic toy_engine ''quant'' [(''spec_id'', PStr ''s''), (''params'', PDict (dip 3))] 60 (Inr 600) toy_db"
  have a: "accepted (fst ?p)" by code_simp
  have wf: "db_wf toy_db" by (simp add: db_wf_def toy_db_def empty_db_def unique_on_def)
  obtain r s' where run: "?p = (r, s')" by (metis surj_pair)
  from backtest_moves_one_way [OF wf this] a run
  obtain req where req: "parse_request golden_pydantic [(''spec_id'', PStr ''s''), (''params'', PDict (dip 3))] = Inr req"
    and moved: "status_of T_strategies (K_strategy_id (bq_spec_id req)) s' = Some BACKTEST" by (metis fst_conv)
  have "bq_spec_id req = ''s''" using req by (auto simp: parse_request_def golden_pydantic_def fld_def need_def ensure_def)
  then show ?thesis using run a moved by auto
qed

end
