(* ===== verification/StratGate.thy ===== *)
theory StratGate imports Backtest begin

text \<open>
  stratgate/gate.py: the statistical gate G2 over the stats of a backtest and the gate G3
  over the holdout, on Python values, with the exceptions that a value of the wrong type
  raises. The text of a limit is left out of a check.
\<close>

section \<open>Arithmetic on Python numbers\<close>

definition num_of :: "pyval \<Rightarrow> pyfloat res" where
  "num_of v = (case num_val v of Some x \<Rightarrow> Inr x | None \<Rightarrow> Inl TypeError)"

text \<open>Comparisons between numbers are exact.\<close>

definition num_ge :: "pyval \<Rightarrow> pyfloat \<Rightarrow> bool res" where
  "num_ge v c = res_bind (num_of v) (\<lambda>x. Inr (fle c x))"

definition num_gt :: "pyval \<Rightarrow> pyfloat \<Rightarrow> bool res" where
  "num_gt v c = res_bind (num_of v) (\<lambda>x. Inr (flt c x))"

definition num_le :: "pyval \<Rightarrow> pyfloat \<Rightarrow> bool res" where
  "num_le v c = res_bind (num_of v) (\<lambda>x. Inr (fle x c))"

fun as_int_val :: "pyval \<Rightarrow> int option" where
  "as_int_val (PInt n) = Some n"
| "as_int_val (PBool b) = Some (of_bool b)"
| "as_int_val _ = None"

definition py_sub :: "pyval \<Rightarrow> pyval \<Rightarrow> pyval res" where
  "py_sub x y = (if num_val x = None \<or> num_val y = None then Inl TypeError else
     case (as_int_val x, as_int_val y) of
      (Some a, Some b) \<Rightarrow> Inr (PInt (a - b))
    | _ \<Rightarrow> res_bind (float_of x) (\<lambda>a. res_bind (float_of y) (\<lambda>b. Inr (PFloat (fsub a b)))))"

text \<open>The quotient of two ints is rounded once, and raises when it is out of range.\<close>

definition py_truediv :: "pyval \<Rightarrow> pyval \<Rightarrow> pyfloat res" where
  "py_truediv x y = (if num_val x = None \<or> num_val y = None then Inl TypeError else
     case (as_int_val x, as_int_val y) of
      (Some a, Some b) \<Rightarrow> if b = 0 then Inl ZeroDivisionError
        else (case rnd (of_int a / of_int b) of Fin q \<Rightarrow> Inr (Fin q) | _ \<Rightarrow> Inl OverflowError)
    | _ \<Rightarrow> res_bind (float_of x) (\<lambda>a. res_bind (float_of y) (\<lambda>b. fdiv a b)))"

text \<open>\<open>round(x, 4)\<close>: the nearest multiple of a ten-thousandth, then the nearest double.\<close>

fun round4 :: "pyfloat \<Rightarrow> pyfloat" where
  "round4 (Fin q) = rnd (of_int (rhe (q * 10000)) / 10000)"
| "round4 x = x"

section \<open>Thresholds, checks, verdicts\<close>

record g2_thresholds =
  min_trades :: int
  min_span_years :: pyfloat
  min_sharpe_floor_costs :: pyfloat
  min_sharpe_2x_costs :: pyfloat
  min_sharpe_3x_costs :: pyfloat
  min_deflated_sharpe :: pyfloat
  min_wfe :: pyfloat
  hard_reject_wfe :: pyfloat
  max_drawdown :: pyfloat
  max_cost_share :: pyfloat
  max_neighbor_sharpe_loss :: pyfloat

definition G2Thresholds :: g2_thresholds where
  "G2Thresholds = \<lparr>min_trades = 100, min_span_years = Fin 8, min_sharpe_floor_costs = Fin (1 / 2), min_sharpe_2x_costs = rnd (3 / 10),
     min_sharpe_3x_costs = Fin 0, min_deflated_sharpe = rnd (95 / 100), min_wfe = Fin (1 / 2), hard_reject_wfe = rnd (3 / 10),
     max_drawdown = Fin (1 / 4), max_cost_share = Fin (1 / 2), max_neighbor_sharpe_loss = rnd (4 / 10)\<rparr>"

record g3_thresholds =
  min_holdout_sharpe :: pyfloat
  min_holdout_vs_wf_ratio :: pyfloat
  min_nonnegative_regimes :: int

definition G3Thresholds :: g3_thresholds where
  "G3Thresholds = \<lparr>min_holdout_sharpe = Fin 0, min_holdout_vs_wf_ratio = Fin (1 / 2), min_nonnegative_regimes = 2\<rparr>"

record check =
  ck_name :: string
  ck_ok :: bool
  ck_value :: pyval

record verdict2 =
  vd_passed :: bool
  vd_reason :: string
  vd_checks :: "check list"

definition gate_error2 :: "string \<Rightarrow> verdict2" where
  "gate_error2 name = \<lparr>vd_passed = False, vd_reason = ''gate_error'', vd_checks = [\<lparr>ck_name = name, ck_ok = False, ck_value = PNone\<rparr>]\<rparr>"

definition settle :: "check list \<Rightarrow> verdict2" where
  "settle checks = (let failed = filter (\<lambda>c. \<not> ck_ok c) checks
     in \<lparr>vd_passed = (failed = []), vd_reason = (case failed of [] \<Rightarrow> ''pass'' | c # _ \<Rightarrow> ck_name c), vd_checks = checks\<rparr>)"

definition G2_REQUIRED :: "string list" where
  "G2_REQUIRED = [''n_trades'', ''span_years'', ''net_sharpe'', ''net_sharpe_2x'', ''net_sharpe_3x'', ''deflated_sharpe'',
     ''wfe'', ''max_drawdown'', ''cost_share'', ''param_neighbors'']"

definition bad_num :: "pyval \<Rightarrow> bool" where
  "bad_num v = (case v of PNone \<Rightarrow> True | PFloat x \<Rightarrow> \<not> isfinite x | _ \<Rightarrow> False)"

section \<open>G2\<close>

definition missing_stat :: "pydict \<Rightarrow> string \<Rightarrow> bool" where
  "missing_stat stats k \<longleftrightarrow> map_of stats k = None \<or> k \<noteq> ''param_neighbors'' \<and> bad_num (dget stats k)"

text \<open>The walk over the neighbours: the first bad one, or the worst relative loss of Sharpe.\<close>

datatype walk = Bad_neighbor string string | Worst pyfloat

definition sharpe_loss :: "pyval \<Rightarrow> pyval \<Rightarrow> pyfloat res" where
  "sharpe_loss base sr = res_bind (py_sub base sr) (\<lambda>d. py_truediv d base)"

fun side_loop :: "pyval \<Rightarrow> string \<Rightarrow> pyfloat \<Rightarrow> pydict \<Rightarrow> walk res" where
  "side_loop base p w [] = Inr (Worst w)"
| "side_loop base p w ((side, sr) # rest) =
     (if bad_num sr then Inr (Bad_neighbor p side)
      else res_bind (num_gt base (Fin 0)) (\<lambda>pos.
        if pos then res_bind (sharpe_loss base sr) (\<lambda>l. side_loop base p (fmax w l) rest) else side_loop base p w rest))"

fun neighbor_loop :: "pyval \<Rightarrow> pyfloat \<Rightarrow> pydict \<Rightarrow> walk res" where
  "neighbor_loop base w [] = Inr (Worst w)"
| "neighbor_loop base w ((p, sides) # rest) = (case sides of
      PDict ss \<Rightarrow> res_bind (side_loop base p w ss) (\<lambda>x. case x of Worst w' \<Rightarrow> neighbor_loop base w' rest | _ \<Rightarrow> Inr x)
    | _ \<Rightarrow> Inl AttributeError)"

definition neighbors_of :: "pydict \<Rightarrow> pydict res" where
  "neighbors_of stats = (let v = dget stats ''param_neighbors'' in if \<not> truthy v then Inr []
     else (case v of PDict d \<Rightarrow> Inr d | _ \<Rightarrow> Inl AttributeError))"

definition check_of :: "string \<Rightarrow> pyval \<Rightarrow> bool res \<Rightarrow> check res" where
  "check_of name v ok = res_bind ok (\<lambda>b. Inr \<lparr>ck_name = name, ck_ok = b, ck_value = v\<rparr>)"

fun all_res :: "'a res list \<Rightarrow> 'a list res" where
  "all_res [] = Inr []"
| "all_res (r # rs) = res_bind r (\<lambda>x. res_bind (all_res rs) (\<lambda>xs. Inr (x # xs)))"

definition g2_checks :: "pydict \<Rightarrow> g2_thresholds \<Rightarrow> pyfloat \<Rightarrow> check list res" where
  "g2_checks stats t worst = (let v = dget stats in all_res [
     check_of ''n_trades'' (v ''n_trades'') (num_ge (v ''n_trades'') (Fin (of_int (min_trades t)))),
     check_of ''span_years'' (v ''span_years'') (num_ge (v ''span_years'') (min_span_years t)),
     check_of ''net_sharpe'' (v ''net_sharpe'') (num_ge (v ''net_sharpe'') (min_sharpe_floor_costs t)),
     check_of ''net_sharpe_2x'' (v ''net_sharpe_2x'') (num_ge (v ''net_sharpe_2x'') (min_sharpe_2x_costs t)),
     check_of ''net_sharpe_3x'' (v ''net_sharpe_3x'') (num_gt (v ''net_sharpe_3x'') (min_sharpe_3x_costs t)),
     check_of ''deflated_sharpe'' (v ''deflated_sharpe'') (num_ge (v ''deflated_sharpe'') (min_deflated_sharpe t)),
     check_of ''wfe'' (v ''wfe'') (num_ge (v ''wfe'') (min_wfe t)),
     check_of ''wfe_hard'' (v ''wfe'') (num_ge (v ''wfe'') (hard_reject_wfe t)),
     check_of ''max_drawdown'' (v ''max_drawdown'') (num_le (v ''max_drawdown'') (max_drawdown t)),
     check_of ''cost_share'' (v ''cost_share'') (num_le (v ''cost_share'') (max_cost_share t)),
     check_of ''param_cliff'' (PFloat (round4 worst)) (Inr (fle worst (max_neighbor_sharpe_loss t)))])"

definition evaluate_g2 :: "pydict \<Rightarrow> g2_thresholds \<Rightarrow> verdict2 res" where
  "evaluate_g2 stats t = (case List.find (missing_stat stats) G2_REQUIRED of
      Some k \<Rightarrow> Inr (gate_error2 k)
    | None \<Rightarrow> res_bind (neighbors_of stats) (\<lambda>ns. res_bind (neighbor_loop (dget stats ''net_sharpe'') (Fin 0) ns) (\<lambda>x. case x of
          Bad_neighbor p side \<Rightarrow> Inr (gate_error2 (''neighbor:'' @ p @ '':'' @ side))
        | Worst w \<Rightarrow> res_bind (g2_checks stats t w) (\<lambda>cs. Inr (settle cs)))))"

section \<open>G3\<close>

fun count_nonneg :: "pyval list \<Rightarrow> int res" where
  "count_nonneg [] = Inr 0"
| "count_nonneg (v # vs) = res_bind (num_ge v (Fin 0)) (\<lambda>b. res_bind (count_nonneg vs) (\<lambda>n. Inr (of_bool b + n)))"

definition g3_inputs_bad :: "pyval \<Rightarrow> pyval \<Rightarrow> bool res" where
  "g3_inputs_bad h w = (if bad_num h \<or> bad_num w then Inr True else num_le w (Fin 0))"

definition evaluate_g3 :: "pyval \<Rightarrow> pyval \<Rightarrow> pydict \<Rightarrow> g3_thresholds \<Rightarrow> verdict2 res" where
  "evaluate_g3 h w regimes t = res_bind (g3_inputs_bad h w) (\<lambda>bad.
     if bad then Inr (gate_error2 ''inputs'')
     else if set (map fst regimes) \<noteq> {''bull'', ''bear'', ''chop''} \<or> list_ex (bad_num \<circ> snd) regimes then Inr (gate_error2 ''regimes'')
     else res_bind (py_truediv h w) (\<lambda>ratio. res_bind (count_nonneg (map snd regimes)) (\<lambda>n.
       res_bind (all_res [
          check_of ''holdout_sharpe'' h (num_gt h (min_holdout_sharpe t)),
          check_of ''holdout_vs_wf'' (PFloat (round4 ratio)) (Inr (fle (min_holdout_vs_wf_ratio t) ratio)),
          check_of ''regimes_nonneg'' (PInt n) (Inr (min_nonnegative_regimes t \<le> n))]) (\<lambda>cs. Inr (settle cs)))))"


section \<open>What passing G2 means\<close>

lemma fmax_notNaN: "w \<noteq> NaN \<Longrightarrow> l \<noteq> NaN \<Longrightarrow> fmax w l \<noteq> NaN"
  by (simp add: fmax_def)

lemma fle_fmax: "w \<noteq> NaN \<Longrightarrow> l \<noteq> NaN \<Longrightarrow> fle (fmax w l) c \<longleftrightarrow> fle w c \<and> fle l c"
  by (cases w; cases l; cases c) (auto simp: fmax_def fle_def feq_def)

lemma float_of_num: "num_val v = Some y \<Longrightarrow> float_of v = Inr x \<Longrightarrow> y \<noteq> NaN \<Longrightarrow> x \<noteq> NaN \<and> (isfinite y \<longrightarrow> isfinite x)"
  by (cases v) (auto simp: float_of_int_def dest!: sym [of "Fin _"] split: pyfloat.splits)

lemma fdiv_notNaN: "fdiv x y = Inr l \<Longrightarrow> x \<noteq> NaN \<Longrightarrow> isfinite y \<Longrightarrow> l \<noteq> NaN"
  by (cases y; cases x) (auto simp: finf_def split: if_splits)

lemma py_truediv_notNaN:
  assumes "num_val y = Some (Fin b)" and "num_val x = Some a" and "a \<noteq> NaN" and "py_truediv x y = Inr l"
  shows "l \<noteq> NaN"
  using assms float_of_num [OF assms(1)] float_of_num [OF assms(2)]
  by (auto simp: py_truediv_def res_bind_Inr dest!: fdiv_notNaN split: option.splits if_splits pyfloat.splits)

lemma fsub_Fin_notNaN: "isfinite x \<Longrightarrow> isfinite y \<Longrightarrow> fsub x y \<noteq> NaN"
  by (auto simp: isfinite_iff fsub_def)

lemma py_sub_notNaN:
  assumes "num_val x = Some (Fin a)" and "num_val y = Some (Fin b)" and "py_sub x y = Inr d"
  shows "\<exists>e. num_val d = Some e \<and> e \<noteq> NaN"
  using assms float_of_num [OF assms(1)] float_of_num [OF assms(2)]
  by (auto simp: py_sub_def res_bind_Inr fsub_Fin_notNaN split: option.splits if_splits)

lemma good_num: "\<not> bad_num v \<Longrightarrow> num_val v = Some x \<Longrightarrow> \<exists>q. x = Fin q"
  by (cases v) (auto simp: bad_num_def isfinite_iff)

lemma sharpe_loss_notNaN:
  assumes "num_val base = Some (Fin b)" and "\<not> bad_num sr" and "sharpe_loss base sr = Inr l"
  shows "l \<noteq> NaN"
proof -
  obtain d where d: "py_sub base sr = Inr d" "py_truediv d base = Inr l" using assms(3) by (auto simp: sharpe_loss_def res_bind_Inr)
  have "num_val sr \<noteq> None" using d(1) by (auto simp: py_sub_def split: if_splits)
  then obtain q where "num_val sr = Some (Fin q)" using good_num [OF assms(2)] by blast
  from py_sub_notNaN [OF assms(1) this d(1)] show ?thesis using py_truediv_notNaN [OF assms(1)] d(2) by blast
qed

text \<open>A neighbour that leaves the verdict to the thresholds, and does not exceed the bound \<open>c\<close>.\<close>

definition neighbor_ok :: "pyval \<Rightarrow> pyfloat \<Rightarrow> pyval \<Rightarrow> bool" where
  "neighbor_ok base c sr \<longleftrightarrow> \<not> bad_num sr \<and> (num_gt base (Fin 0) = Inr True \<longrightarrow> (\<exists>l. sharpe_loss base sr = Inr l \<and> fle l c))"

lemma side_loop_spec:
  assumes "num_val base = Some (Fin b)" and "w \<noteq> NaN" and "side_loop base p w ss = Inr x"
  shows "case x of Bad_neighbor _ _ \<Rightarrow> \<exists>sr\<in>snd ` set ss. bad_num sr
    | Worst w' \<Rightarrow> w' \<noteq> NaN \<and> (\<forall>c. fle w' c \<longleftrightarrow> fle w c \<and> (\<forall>sr\<in>snd ` set ss. neighbor_ok base c sr))"
  using assms(2,3)
proof (induction ss arbitrary: w)
  case Nil
  then show ?case by auto
next
  case (Cons e ss)
  obtain side sr where e: "e = (side, sr)" by (cases e)
  have g: "num_gt base (Fin 0) = Inr (0 < b)" using assms(1) by (simp add: num_gt_def num_of_def)
  show ?case
  proof (cases "bad_num sr")
    case True
    then show ?thesis using Cons.prems e by auto
  next
    case good: False
    show ?thesis
    proof (cases "0 < b")
      case True
      then obtain l where l: "sharpe_loss base sr = Inr l" "side_loop base p (fmax w l) ss = Inr x"
        using Cons.prems(2) e good g by (auto simp: res_bind_Inr)
      have n: "l \<noteq> NaN" by (rule sharpe_loss_notNaN [OF assms(1) good l(1)])
      show ?thesis
        using Cons.IH [OF fmax_notNaN [OF Cons.prems(1) n] l(2)] fle_fmax [OF Cons.prems(1) n] l(1) good e True
        by (auto simp: neighbor_ok_def g split: walk.splits)
    next
      case False
      then show ?thesis using Cons.IH [OF Cons.prems(1)] Cons.prems(2) e good g
        by (auto simp: neighbor_ok_def split: walk.splits)
    qed
  qed
qed

definition sides_ok :: "pyval \<Rightarrow> pyfloat \<Rightarrow> pyval \<Rightarrow> bool" where
  "sides_ok base c v \<longleftrightarrow> (\<exists>ss. v = PDict ss \<and> (\<forall>sr\<in>snd ` set ss. neighbor_ok base c sr))"

lemma neighbor_loop_spec:
  assumes "num_val base = Some (Fin b)" and "w \<noteq> NaN" and "neighbor_loop base w ns = Inr x"
  shows "case x of Bad_neighbor _ _ \<Rightarrow> (\<exists>v\<in>snd ` set ns. \<exists>ss. v = PDict ss \<and> (\<exists>sr\<in>snd ` set ss. bad_num sr))
    | Worst w' \<Rightarrow> w' \<noteq> NaN \<and> (\<forall>c. fle w' c \<longleftrightarrow> fle w c \<and> (\<forall>v\<in>snd ` set ns. sides_ok base c v))"
  using assms(2,3)
proof (induction ns arbitrary: w)
  case Nil
  then show ?case by auto
next
  case (Cons e ns)
  obtain p v where e: "e = (p, v)" by (cases e)
  obtain ss y where v: "v = PDict ss" "side_loop base p w ss = Inr y"
    and rest: "(case y of Worst w' \<Rightarrow> neighbor_loop base w' ns | _ \<Rightarrow> Inr y) = Inr x"
    using Cons.prems(2) e by (auto simp: res_bind_Inr split: pyval.splits)
  show ?case
  proof (cases y)
    case (Bad_neighbor q side)
    then have "x = Bad_neighbor q side" using rest by simp
    then show ?thesis using side_loop_spec [OF assms(1) Cons.prems(1) v(2)] Bad_neighbor v(1) e by simp
  next
    case (Worst w1)
    have s: "w1 \<noteq> NaN" "\<And>c. fle w1 c \<longleftrightarrow> fle w c \<and> (\<forall>sr\<in>snd ` set ss. neighbor_ok base c sr)"
      using side_loop_spec [OF assms(1) Cons.prems(1) v(2)] Worst by auto
    have "\<And>c. sides_ok base c v \<longleftrightarrow> (\<forall>sr\<in>snd ` set ss. neighbor_ok base c sr)" using v(1) by (auto simp: sides_ok_def)
    with Cons.IH [OF s(1)] rest Worst s(2) show ?thesis using e by (auto split: walk.splits)
  qed
qed


text \<open>The gate as a list of requirements on the stats.\<close>

definition at_least :: "pydict \<Rightarrow> string \<Rightarrow> pyfloat \<Rightarrow> bool" where
  "at_least stats k c \<longleftrightarrow> (\<exists>q. num_val (dget stats k) = Some (Fin q) \<and> fle c (Fin q))"

definition beyond :: "pydict \<Rightarrow> string \<Rightarrow> pyfloat \<Rightarrow> bool" where
  "beyond stats k c \<longleftrightarrow> (\<exists>q. num_val (dget stats k) = Some (Fin q) \<and> flt c (Fin q))"

definition at_most :: "pydict \<Rightarrow> string \<Rightarrow> pyfloat \<Rightarrow> bool" where
  "at_most stats k c \<longleftrightarrow> (\<exists>q. num_val (dget stats k) = Some (Fin q) \<and> fle (Fin q) c)"

definition no_cliff :: "pydict \<Rightarrow> pyfloat \<Rightarrow> bool" where
  "no_cliff stats c \<longleftrightarrow> map_of stats ''param_neighbors'' \<noteq> None \<and> fle (Fin 0) c \<and>
     (\<exists>ns. neighbors_of stats = Inr ns \<and> (\<forall>v\<in>snd ` set ns. sides_ok (dget stats ''net_sharpe'') c v))"

definition g2_numbers :: "pydict \<Rightarrow> g2_thresholds \<Rightarrow> bool" where
  "g2_numbers stats t \<longleftrightarrow>
     at_least stats ''n_trades'' (Fin (of_int (min_trades t))) \<and> at_least stats ''span_years'' (min_span_years t) \<and>
     at_least stats ''net_sharpe'' (min_sharpe_floor_costs t) \<and> at_least stats ''net_sharpe_2x'' (min_sharpe_2x_costs t) \<and>
     beyond stats ''net_sharpe_3x'' (min_sharpe_3x_costs t) \<and> at_least stats ''deflated_sharpe'' (min_deflated_sharpe t) \<and>
     at_least stats ''wfe'' (min_wfe t) \<and> at_least stats ''wfe'' (hard_reject_wfe t) \<and>
     at_most stats ''max_drawdown'' (max_drawdown t) \<and> at_most stats ''cost_share'' (max_cost_share t)"

definition g2_meets :: "pydict \<Rightarrow> g2_thresholds \<Rightarrow> bool" where
  "g2_meets stats t \<longleftrightarrow> g2_numbers stats t \<and> no_cliff stats (max_neighbor_sharpe_loss t)"

lemma check_of_Inr: "check_of k v ok = Inr c \<longleftrightarrow> (\<exists>b. ok = Inr b \<and> c = \<lparr>ck_name = k, ck_ok = b, ck_value = v\<rparr>)"
  by (cases ok) (auto simp: check_of_def)

lemma num_cmp_Inr:
  "num_ge v c = Inr b \<longleftrightarrow> (\<exists>x. num_val v = Some x \<and> b = fle c x)"
  "num_gt v c = Inr b \<longleftrightarrow> (\<exists>x. num_val v = Some x \<and> b = flt c x)"
  "num_le v c = Inr b \<longleftrightarrow> (\<exists>x. num_val v = Some x \<and> b = fle x c)"
  by (auto simp: num_ge_def num_gt_def num_le_def num_of_def split: option.splits)

lemma all_res_Cons: "all_res (r # rs) = Inr cs \<longleftrightarrow> (\<exists>c cs'. r = Inr c \<and> all_res rs = Inr cs' \<and> cs = c # cs')"
  by (auto simp: res_bind_Inr)

lemma settle_passed: "vd_passed (settle cs) \<longleftrightarrow> (\<forall>c\<in>set cs. ck_ok c)"
  by (auto simp: settle_def Let_def filter_empty_conv)

lemma missing_stat_number:
  assumes "missing_stat stats k" and "k \<noteq> ''param_neighbors''"
  shows "\<not> at_least stats k c" "\<not> beyond stats k c" "\<not> at_most stats k c"
proof -
  have "\<nexists>q. num_val (dget stats k) = Some (Fin q)"
    using assms by (auto simp: missing_stat_def dget_def bad_num_def split: pyval.splits option.splits)
  then show "\<not> at_least stats k c" "\<not> beyond stats k c" "\<not> at_most stats k c" by (auto simp: at_least_def beyond_def at_most_def)
qed

lemma missing_stat_fails:
  assumes "missing_stat stats k" and "k \<in> set G2_REQUIRED"
  shows "\<not> g2_meets stats t"
proof (cases "k = ''param_neighbors''")
  case True
  then show ?thesis using assms(1) by (simp add: g2_meets_def no_cliff_def missing_stat_def)
next
  case False
  have n: "\<forall>c. \<not> at_least stats k c" "\<forall>c. \<not> beyond stats k c" "\<forall>c. \<not> at_most stats k c"
    using missing_stat_number [OF assms(1) False] by blast+
  have "k = ''n_trades'' \<or> k = ''span_years'' \<or> k = ''net_sharpe'' \<or> k = ''net_sharpe_2x'' \<or> k = ''net_sharpe_3x'' \<or>
     k = ''deflated_sharpe'' \<or> k = ''wfe'' \<or> k = ''max_drawdown'' \<or> k = ''cost_share''"
    using assms(2) False by (simp only: G2_REQUIRED_def list.set insert_iff empty_iff simp_thms)
  then have "\<not> g2_numbers stats t"
    unfolding g2_numbers_def by (elim disjE) (use n in \<open>hypsubst, blast\<close>)+
  then show ?thesis by (simp add: g2_meets_def)
qed

lemma bad_neighbor_fails:
  "v \<in> snd ` set ns \<Longrightarrow> v = PDict ss \<Longrightarrow> sr \<in> snd ` set ss \<Longrightarrow> bad_num sr \<Longrightarrow> \<exists>v\<in>snd ` set ns. \<not> sides_ok base c v"
  by (rule bexI [of _ v]) (auto simp: sides_ok_def neighbor_ok_def)

lemma cmp_stat:
  assumes "\<not> missing_stat stats k" and "k \<noteq> ''param_neighbors''"
  shows "num_ge (dget stats k) c = Inr b \<Longrightarrow> b = at_least stats k c" "num_gt (dget stats k) c = Inr b \<Longrightarrow> b = beyond stats k c"
    "num_le (dget stats k) c = Inr b \<Longrightarrow> b = at_most stats k c"
proof -
  have good: "\<not> bad_num (dget stats k)" using assms by (simp add: missing_stat_def)
  show "num_ge (dget stats k) c = Inr b \<Longrightarrow> b = at_least stats k c" "num_gt (dget stats k) c = Inr b \<Longrightarrow> b = beyond stats k c"
    "num_le (dget stats k) c = Inr b \<Longrightarrow> b = at_most stats k c"
    using good_num [OF good] by (auto simp: num_cmp_Inr at_least_def beyond_def at_most_def)
qed

lemma g2_checks_spec:
  assumes "g2_checks stats t w = Inr cs" and "\<And>k. k \<in> set G2_REQUIRED \<Longrightarrow> \<not> missing_stat stats k"
  shows "vd_passed (settle cs) \<longleftrightarrow> g2_numbers stats t \<and> fle w (max_neighbor_sharpe_loss t)"
proof -
  have m: "\<not> missing_stat stats ''n_trades''" "\<not> missing_stat stats ''span_years''" "\<not> missing_stat stats ''net_sharpe''"
    "\<not> missing_stat stats ''net_sharpe_2x''" "\<not> missing_stat stats ''net_sharpe_3x''" "\<not> missing_stat stats ''deflated_sharpe''"
    "\<not> missing_stat stats ''wfe''" "\<not> missing_stat stats ''max_drawdown''" "\<not> missing_stat stats ''cost_share''"
    by (rule assms(2), simp only: G2_REQUIRED_def list.set insert_iff simp_thms)+
  note ge = m(1-4,6,7) [THEN cmp_stat(1), simplified] and gt = m(5) [THEN cmp_stat(2), simplified]
    and le = m(8,9) [THEN cmp_stat(3), simplified]
  show ?thesis
    using assms(1) unfolding g2_checks_def Let_def all_res_Cons check_of_Inr
    by (elim exE conjE) (simp add: settle_passed g2_numbers_def, metis ge gt le)
qed

text \<open>
  C22: the G2 verdict is the requirements. Whenever the gate answers at all, it passes
  exactly when every number is present, finite and on the right side of its threshold, and
  no neighbouring parameter set, where the base Sharpe is positive, loses more of it than
  the limit. So nothing missing, NaN or infinite ever passes.
\<close>

theorem g2_pass_iff:
  assumes "evaluate_g2 stats t = Inr v"
  shows "vd_passed v \<longleftrightarrow> g2_meets stats t"
proof (cases "List.find (missing_stat stats) G2_REQUIRED")
  case (Some k)
  then have "missing_stat stats k" "k \<in> set G2_REQUIRED" by (auto simp: find_Some_iff)
  from missing_stat_fails [OF this] show ?thesis using assms Some by (auto simp: evaluate_g2_def gate_error2_def)
next
  case None
  then have all: "\<And>k. k \<in> set G2_REQUIRED \<Longrightarrow> \<not> missing_stat stats k" by (auto simp: find_None_iff)
  obtain ns x where ns: "neighbors_of stats = Inr ns" "neighbor_loop (dget stats ''net_sharpe'') (Fin 0) ns = Inr x"
    and rest: "(case x of Bad_neighbor p side \<Rightarrow> Inr (gate_error2 (''neighbor:'' @ p @ '':'' @ side))
        | Worst w \<Rightarrow> res_bind (g2_checks stats t w) (\<lambda>cs. Inr (settle cs))) = Inr v"
    using assms unfolding evaluate_g2_def None option.case res_bind_Inr by blast
  show ?thesis
  proof (cases "\<exists>b. num_val (dget stats ''net_sharpe'') = Some (Fin b)")
    case False
    then have "\<not> g2_numbers stats t" by (auto simp: g2_numbers_def at_least_def)
    moreover have "\<not> vd_passed v"
    proof (cases x)
      case (Worst w)
      then obtain cs where cs: "g2_checks stats t w = Inr cs" "v = settle cs" using rest by (auto simp: res_bind_Inr)
      then show ?thesis using g2_checks_spec [OF cs(1) all] calculation by blast
    qed (use rest in \<open>auto simp: gate_error2_def\<close>)
    ultimately show ?thesis by (simp add: g2_meets_def)
  next
    case True
    then obtain b where b: "num_val (dget stats ''net_sharpe'') = Some (Fin b)" by blast
    show ?thesis
    proof (cases x)
      case (Bad_neighbor p side)
      then have "\<exists>v\<in>snd ` set ns. \<exists>ss. v = PDict ss \<and> (\<exists>sr\<in>snd ` set ss. bad_num sr)"
        using neighbor_loop_spec [OF b _ ns(2)] by simp
      then obtain u ss sr where "u \<in> snd ` set ns" "u = PDict ss" "sr \<in> snd ` set ss" "bad_num sr" by blast
      from bad_neighbor_fails [OF this] have "\<not> no_cliff stats (max_neighbor_sharpe_loss t)" unfolding no_cliff_def ns(1) sum.inject by blast
      then show ?thesis using rest Bad_neighbor by (auto simp: gate_error2_def g2_meets_def)
    next
      case (Worst w)
      then obtain cs where cs: "g2_checks stats t w = Inr cs" "v = settle cs" using rest by (auto simp: res_bind_Inr)
      have "map_of stats ''param_neighbors'' \<noteq> None" using all [of "''param_neighbors''"] by (auto simp: missing_stat_def G2_REQUIRED_def)
      then have "no_cliff stats (max_neighbor_sharpe_loss t) \<longleftrightarrow> fle w (max_neighbor_sharpe_loss t)"
        using neighbor_loop_spec [OF b _ ns(2)] ns(1) Worst by (auto simp: no_cliff_def)
      then show ?thesis using g2_checks_spec [OF cs(1) all] cs(2) by (auto simp: g2_meets_def)
    qed
  qed
qed


text \<open>A stat of the wrong type raises, where the header promises a gate error.\<close>

lemma text_stat_raises:
  "evaluate_g2 [(''n_trades'', PStr ''120''), (''span_years'', PInt 9), (''net_sharpe'', PInt 1), (''net_sharpe_2x'', PInt 1),
     (''net_sharpe_3x'', PInt 1), (''deflated_sharpe'', PInt 1), (''wfe'', PInt 1), (''max_drawdown'', PInt 0), (''cost_share'', PInt 0),
     (''param_neighbors'', PDict [])] G2Thresholds = Inl TypeError"
  by code_simp

definition good_stats :: pydict where
  "good_stats = [(''n_trades'', PInt 120), (''span_years'', PFloat (Fin 9)), (''net_sharpe'', PFloat (Fin 1)), (''net_sharpe_2x'', PFloat (Fin (3 / 4))),
     (''net_sharpe_3x'', PFloat (Fin (1 / 2))), (''deflated_sharpe'', PFloat (Fin 1)), (''wfe'', PFloat (Fin (3 / 4))),
     (''max_drawdown'', PFloat (Fin (1 / 8))), (''cost_share'', PFloat (Fin (1 / 4))),
     (''param_neighbors'', PDict [(''dip_days'', PDict [(''up'', PFloat (Fin (3 / 4))), (''down'', PFloat (Fin (7 / 8)))])])]"

theorem g2_pass_iff_witness:
  "\<exists>v. evaluate_g2 good_stats G2Thresholds = Inr v \<and> vd_passed v \<and> g2_meets good_stats G2Thresholds"
proof -
  have "case evaluate_g2 good_stats G2Thresholds of Inr v \<Rightarrow> vd_passed v | Inl _ \<Rightarrow> False" by code_simp
  then obtain v where "evaluate_g2 good_stats G2Thresholds = Inr v" "vd_passed v" by (auto split: sum.splits)
  with g2_pass_iff [OF this(1)] show ?thesis by blast
qed

section \<open>What passing G3 means\<close>

definition regime_ok :: "pyval \<Rightarrow> bool" where
  "regime_ok v \<longleftrightarrow> (\<exists>q. num_val v = Some (Fin q) \<and> 0 \<le> q)"

definition g3_meets :: "pyval \<Rightarrow> pyval \<Rightarrow> pydict \<Rightarrow> g3_thresholds \<Rightarrow> bool" where
  "g3_meets h w regimes t \<longleftrightarrow>
     (\<exists>x y r. num_val h = Some (Fin x) \<and> num_val w = Some (Fin y) \<and> 0 < y \<and> flt (min_holdout_sharpe t) (Fin x) \<and>
        py_truediv h w = Inr r \<and> fle (min_holdout_vs_wf_ratio t) r) \<and>
     set (map fst regimes) = {''bull'', ''bear'', ''chop''} \<and> (\<forall>v\<in>snd ` set regimes. \<not> bad_num v) \<and>
     min_nonnegative_regimes t \<le> int (length (filter (\<lambda>kv. regime_ok (snd kv)) regimes))"

lemma count_nonneg_spec:
  "count_nonneg vs = Inr n \<Longrightarrow> \<forall>v\<in>set vs. \<not> bad_num v \<Longrightarrow> n = int (length (filter regime_ok vs))"
proof (induction vs arbitrary: n)
  case (Cons v vs)
  obtain b m where b: "num_ge v (Fin 0) = Inr b" "count_nonneg vs = Inr m" "n = of_bool b + m"
    using Cons.prems(1) by (auto simp: res_bind_Inr)
  have "b = regime_ok v" using b(1) good_num [of v] Cons.prems(2) by (auto simp: num_cmp_Inr regime_ok_def)
  then show ?case using Cons.IH [OF b(2)] Cons.prems(2) b(3) by simp
qed simp

text \<open>
  The G3 verdict is the requirements. Whenever the gate answers, it passes exactly when
  the walk-forward Sharpe is a positive finite number, the holdout Sharpe is finite, above
  its limit and at least the limiting share of the walk-forward one, and of the three
  regimes, all of them finite, enough have a Sharpe that is not negative.
\<close>

theorem g3_pass_iff:
  assumes "evaluate_g3 h w regimes t = Inr v"
  shows "vd_passed v \<longleftrightarrow> g3_meets h w regimes t"
proof -
  obtain bad where bad: "g3_inputs_bad h w = Inr bad" using assms by (auto simp: evaluate_g3_def res_bind_Inr)
  show ?thesis
  proof (cases "bad \<or> set (map fst regimes) \<noteq> {''bull'', ''bear'', ''chop''} \<or> list_ex (bad_num \<circ> snd) regimes")
    case True
    have "\<not> g3_meets h w regimes t"
    proof (cases bad)
      case True
      then have "\<not> (\<exists>x y. num_val h = Some (Fin x) \<and> num_val w = Some (Fin y) \<and> 0 < y)"
        using bad by (cases h; cases w) (auto simp: g3_inputs_bad_def bad_num_def num_cmp_Inr split: if_splits)
      then show ?thesis by (auto simp: g3_meets_def)
    next
      case False
      then show ?thesis using True by (auto simp: g3_meets_def list_ex_iff simp del: set_map)
    qed
    moreover have "\<not> vd_passed v" using assms bad True by (auto simp: evaluate_g3_def gate_error2_def split: if_splits)
    ultimately show ?thesis by simp
  next
    case False
    then obtain r n b where r: "py_truediv h w = Inr r" "count_nonneg (map snd regimes) = Inr n" "num_gt h (min_holdout_sharpe t) = Inr b"
      and v: "vd_passed v \<longleftrightarrow> b \<and> fle (min_holdout_vs_wf_ratio t) r \<and> min_nonnegative_regimes t \<le> n"
      using assms bad by (auto simp: evaluate_g3_def res_bind_Inr check_of_Inr settle_passed simp del: set_map)
    have good: "\<not> bad_num h" "\<not> bad_num w" "num_le w (Fin 0) = Inr False"
      using bad False by (auto simp: g3_inputs_bad_def split: if_splits)
    obtain y where y: "num_val w = Some (Fin y)" "0 < y" using good good_num [of w] by (auto simp: num_cmp_Inr)
    obtain x where x: "num_val h = Some (Fin x)" "b = flt (min_holdout_sharpe t) (Fin x)"
      using r(3) good(1) good_num [of h] by (auto simp: num_cmp_Inr)
    have "n = int (length (filter (\<lambda>kv. regime_ok (snd kv)) regimes))"
      using count_nonneg_spec [OF r(2)] False by (simp add: list_ex_iff filter_map comp_def)
    then show ?thesis using v x y r(1) False by (auto simp: g3_meets_def list_ex_iff simp del: set_map)
  qed
qed

theorem g3_pass_iff_witness:
  "\<exists>v. evaluate_g3 (PFloat (Fin (3 / 4))) (PFloat (Fin 1)) [(''bull'', PFloat (Fin 1)), (''bear'', PFloat (Fin (- 1))), (''chop'', PFloat (Fin 0))]
      G3Thresholds = Inr v \<and> vd_passed v \<and>
    g3_meets (PFloat (Fin (3 / 4))) (PFloat (Fin 1)) [(''bull'', PFloat (Fin 1)), (''bear'', PFloat (Fin (- 1))), (''chop'', PFloat (Fin 0))] G3Thresholds"
proof -
  let ?p = "evaluate_g3 (PFloat (Fin (3 / 4))) (PFloat (Fin 1)) [(''bull'', PFloat (Fin 1)), (''bear'', PFloat (Fin (- 1))), (''chop'', PFloat (Fin 0))] G3Thresholds"
  have "case ?p of Inr v \<Rightarrow> vd_passed v | Inl _ \<Rightarrow> False" by code_simp
  then obtain v where "?p = Inr v" "vd_passed v" by (auto split: sum.splits)
  with g3_pass_iff [OF this(1)] show ?thesis by blast
qed

end
