(* ===== verification/Guards.thy ===== *)
theory Guards imports ProtectionProps StageProps begin

text \<open>
  What stands before the first stage of a day: orchestrator/preconditions.py, the comparison
  of the account settings with the pinned baseline, and orchestrator/ingest_guard.py, the
  account the day may be sized on. The broker is a function on the outside state; the prose
  of an alert is left out, its payload is not.
\<close>

section \<open>The account settings\<close>

definition DRIFT :: string where
  "DRIFT = ''account_precondition_drift''"

text \<open>\<open>alert(text, drift)\<close>: one alert, counted as one.\<close>

definition drift_alert :: "time \<Rightarrow> pydict \<Rightarrow> ('x world, int) prog" where
  "drift_alert now drift =
     andthen (on_db (modify (append_alert DRIFT [(''drift'', PDict drift)] None False now))) (\<lambda>_. ret 1)"

definition drift_of :: "string \<Rightarrow> pyval \<Rightarrow> pyval \<Rightarrow> pydict" where
  "drift_of k expected actual = [(''field'', PStr k), (''expected'', expected), (''actual'', actual)]"

definition field_drift :: "pydict \<Rightarrow> pydict \<Rightarrow> string \<Rightarrow> pydict option" where
  "field_drift baseline actual k = (case (map_of baseline k, map_of actual k) of
      (_, None) \<Rightarrow> Some (drift_of k (dget baseline k) PNone)
    | (None, Some v) \<Rightarrow> Some (drift_of k PNone v)
    | (Some e, Some v) \<Rightarrow> if py_eq v e then None else Some (drift_of k e v))"

definition fields_of :: "pydict \<Rightarrow> pydict \<Rightarrow> string list" where
  "fields_of baseline actual = sort (remdups (map fst baseline @ map fst actual))"

definition compare_field :: "time \<Rightarrow> pydict \<Rightarrow> pydict \<Rightarrow> string \<Rightarrow> int \<Rightarrow> ('x world, int) prog" where
  "compare_field now baseline actual k n = (case field_drift baseline actual k of
      None \<Rightarrow> ret n | Some d \<Rightarrow> andthen (drift_alert now d) (\<lambda>m. ret (n + m)))"

definition assert_account_config_unchanged :: "(exn \<Rightarrow> string) \<Rightarrow> ('x \<Rightarrow> pyval res \<times> 'x) \<Rightarrow> pydict \<Rightarrow> time \<Rightarrow> ('x world, int) prog" where
  "assert_account_config_unchanged show_exn account_config baseline now =
     (if baseline = [] then drift_alert now [(''reason'', PStr ''empty_baseline'')]
      else andthen (catch (andthen (on_port account_config) (\<lambda>v. ret (Inr v))) (\<lambda>e. ret (Inl e))) (\<lambda>got. case got of
          Inl e \<Rightarrow> drift_alert now [(''reason'', PStr ''unreadable''), (''error'', PStr (show_exn e))]
        | Inr (PDict actual) \<Rightarrow> fold_each (compare_field now baseline actual) (fields_of baseline actual) 0
        | Inr _ \<Rightarrow> drift_alert now [(''reason'', PStr ''malformed'')]))"

section \<open>The account of the day\<close>

text \<open>Only TypeError and ValueError of \<open>float\<close> are caught.\<close>

definition as_dollars :: "pyval \<Rightarrow> pyfloat option res" where
  "as_dollars v = (case float_of v of
      Inr n \<Rightarrow> Inr (if n = NaN then None else Some n)
    | Inl e \<Rightarrow> if e = TypeError \<or> e = ValueError then Inr None else Inl e)"

text \<open>Why the payload cannot be trusted: a value without positions, or holdings and no value.\<close>

datatype fault = Value_without_positions pyfloat | Holdings_without_value "(string \<times> int) list"

definition payload_fault :: "pydict \<Rightarrow> (string \<times> int) list \<Rightarrow> fault option res" where
  "payload_fault account recorded =
     (if truthy (dget account ''positions'') then Inr None
      else res_bind (as_dollars (dget account ''long_market_value'')) (\<lambda>held. case held of
          Some v \<Rightarrow> Inr (if feq v (Fin 0) then None else Some (Value_without_positions v))
        | None \<Rightarrow> (let book = filter (\<lambda>(_, q). 0 < q) recorded
                   in Inr (if book = [] then None else Some (Holdings_without_value (sort_key fst book))))))"

definition account_snapshot :: "('x \<Rightarrow> pydict res \<times> 'x) \<Rightarrow> (pyfloat \<Rightarrow> 'x \<Rightarrow> unit res \<times> 'x) \<Rightarrow> time \<Rightarrow> ('x world, pydict option) prog" where
  "account_snapshot account_state nap now =
     andthen (on_db (gets recorded_holdings)) (\<lambda>recorded.
     andthen (on_port account_state) (\<lambda>account. andthen (lift_res (payload_fault account recorded)) (\<lambda>bad.
     case bad of None \<Rightarrow> ret (Some account) | Some _ \<Rightarrow>
     andthen (on_port (nap RETRY_S)) (\<lambda>_.
     andthen (on_port account_state) (\<lambda>again. andthen (lift_res (payload_fault again recorded)) (\<lambda>bad2.
     case bad2 of None \<Rightarrow> ret (Some again) | Some _ \<Rightarrow>
       andthen (on_db (modify (alert ''positions_payload_lost'' now))) (\<lambda>_. ret None)))))))"


section \<open>Silence means the settings are the pinned ones\<close>

definition agree :: "pydict \<Rightarrow> pydict \<Rightarrow> bool" where
  "agree baseline actual \<longleftrightarrow> (\<forall>k. case (map_of baseline k, map_of actual k) of
      (None, None) \<Rightarrow> True | (Some e, Some v) \<Rightarrow> py_eq v e | _ \<Rightarrow> False)"

lemma field_drift_agree:
  "agree baseline actual \<longleftrightarrow> (\<forall>k\<in>set (fields_of baseline actual). field_drift baseline actual k = None)"
proof -
  have "field_drift baseline actual k = None \<longleftrightarrow> (case (map_of baseline k, map_of actual k) of
      (None, None) \<Rightarrow> True | (Some e, Some v) \<Rightarrow> py_eq v e | _ \<Rightarrow> False)" if "k \<in> set (fields_of baseline actual)" for k
  proof -
    have "map_of baseline k \<noteq> None \<or> map_of actual k \<noteq> None"
      using that unfolding fields_of_def map_of_eq_None_iff set_sort set_remdups set_append set_map by blast
    then show ?thesis by (cases "map_of baseline k"; cases "map_of actual k") (simp_all add: field_drift_def)
  qed
  moreover have "map_of baseline k = None \<and> map_of actual k = None" if "k \<notin> set (fields_of baseline actual)" for k
    using that by (auto simp: fields_of_def map_of_eq_None_iff)
  ultimately show ?thesis unfolding agree_def by (metis (mono_tags, lifting) case_prod_conv option.simps(4))
qed

definition drift_alerted :: "time \<Rightarrow> pydict \<Rightarrow> db \<Rightarrow> db" where
  "drift_alerted now d s = append_alert DRIFT [(''drift'', PDict d)] None False now s"

lemma drift_alert_run [simp]: "drift_alert now d (s, x) = (Inr 1, (drift_alerted now d s, x))"
  by (simp add: drift_alert_def drift_alerted_def andthen_def on_db_def modify_def ret_def)

lemma compare_fields_run:
  "fold_each (compare_field now baseline actual) ks n (s, x) =
     (Inr (n + int (length (List.map_filter (field_drift baseline actual) ks))),
      (fold (drift_alerted now) (List.map_filter (field_drift baseline actual) ks) s, x))"
  by (induction ks arbitrary: n s)
    (simp_all add: compare_field_def andthen_def ret_def List.map_filter_simps split: option.splits)

lemma drift_alerted_codes: "alert_codes (fold (drift_alerted now) ds s) = alert_codes s @ replicate (length ds) (PStr DRIFT)"
  by (induction ds arbitrary: s) (simp_all add: drift_alerted_def)

lemma map_filter_Nil: "List.map_filter f xs = [] \<longleftrightarrow> (\<forall>x\<in>set xs. f x = None)"
  by (induction xs) (auto simp: List.map_filter_simps split: option.splits)

text \<open>
  The drift check never raises and is silent exactly when nothing drifted. It returns
  the number of alerts it appended, and that number is zero exactly when there is a baseline, the
  broker's settings could be read, and they hold the pinned fields and no others, each with the pinned value; an
  empty baseline, an unreachable broker and a malformed answer are alerts.
\<close>

theorem config_check_is_silent_iff_pinned:
  "\<exists>n s' x'. assert_account_config_unchanged show_exn account_config baseline now (s, x) = (Inr (int n), (s', x')) \<and>
     alert_codes s' = alert_codes s @ replicate n (PStr DRIFT) \<and>
     (n = 0 \<longleftrightarrow> baseline \<noteq> [] \<and> (\<exists>actual. fst (account_config x) = Inr (PDict actual) \<and> agree baseline actual))"
proof -
  have one: "alert_codes (drift_alerted now d s) = alert_codes s @ replicate (Suc 0) (PStr DRIFT)" for d
    by (simp add: drift_alerted_def)
  show ?thesis
  proof (cases "baseline = []")
    case True
    then show ?thesis using one by (simp add: assert_account_config_unchanged_def)
  next
    case False
    obtain r x' where r: "account_config x = (r, x')" by (metis surj_pair)
    note run = assert_account_config_unchanged_def andthen_def catch_def on_port_def r False ret_def
    show ?thesis
    proof (cases "\<exists>actual. r = Inr (PDict actual)")
      case True
      then obtain actual where a: "r = Inr (PDict actual)" by blast
      let ?ds = "List.map_filter (field_drift baseline actual) (fields_of baseline actual)"
      have "length ?ds = 0 \<longleftrightarrow> agree baseline actual" by (simp add: map_filter_Nil field_drift_agree)
      then show ?thesis using a False r
        by (intro exI [of _ "length ?ds"]) (simp add: run compare_fields_run drift_alerted_codes)
    next
      case bad: False
      then have "\<exists>d. assert_account_config_unchanged show_exn account_config baseline now (s, x) = (Inr 1, (drift_alerted now d s, x'))"
        by (cases r; rename_tac v; case_tac v) (auto simp: run)
      then show ?thesis using one bad r by (auto intro!: exI [of _ "Suc 0"])
    qed
  qed
qed

section \<open>The day is sized on a book that can be believed\<close>

text \<open>
  What the guard promises of the account it lets through: positions are listed, or the
  broker reports no market value, or it reports none that can be read and the fund's own
  orders account for no holding.
\<close>

definition believable :: "pydict \<Rightarrow> (string \<times> int) list \<Rightarrow> bool" where
  "believable account recorded \<longleftrightarrow> truthy (dget account ''positions'') \<or>
     as_dollars (dget account ''long_market_value'') = Inr (Some (Fin 0)) \<or>
     as_dollars (dget account ''long_market_value'') = Inr None \<and> (\<forall>(_, q)\<in>set recorded. q \<le> 0)"

lemma payload_fault_None: "payload_fault account recorded = Inr None \<longleftrightarrow> believable account recorded"
  by (auto simp: payload_fault_def believable_def res_bind_Inr Let_def feq_def filter_empty_conv split: option.splits if_splits)

text \<open>
  C20: no day is sized on a lost positions payload. The guard reads the account, and once
  more after a pause; it returns one of the two payloads exactly as it was read, the latest, and only
  when it is believable. When neither is, it returns no account and has raised its alert. Nothing else
  in the database changes.
\<close>

theorem account_is_believable:
  assumes "account_snapshot account_state nap now (s, x) = (Inr res, (s', x'))"
  shows "case res of
      Some account \<Rightarrow> s' = s \<and> believable account (recorded_holdings s) \<and>
        (account_state x = (Inr account, x') \<or>
         (\<exists>a1 x1 x2. account_state x = (Inr a1, x1) \<and> \<not> believable a1 (recorded_holdings s) \<and> nap RETRY_S x1 = (Inr (), x2) \<and>
            account_state x2 = (Inr account, x')))
    | None \<Rightarrow> s' = alert ''positions_payload_lost'' now s \<and>
        (\<exists>a1 x1 x2 a2. account_state x = (Inr a1, x1) \<and> \<not> believable a1 (recorded_holdings s) \<and> nap RETRY_S x1 = (Inr (), x2) \<and>
            account_state x2 = (Inr a2, x') \<and> \<not> believable a2 (recorded_holdings s))"
proof -
  note unf = assms [unfolded account_snapshot_def]
  obtain a1 x1 where a1: "account_state x = (Inr a1, x1)"
    using unf by (cases "account_state x"; cases "fst (account_state x)") (auto simp: andthen_def on_db_def on_port_def gets_def)
  obtain f1 where f1: "payload_fault a1 (recorded_holdings s) = Inr f1"
    using unf a1 by (cases "payload_fault a1 (recorded_holdings s)") (auto simp: andthen_def on_db_def on_port_def gets_def lift_res_def)
  show ?thesis
  proof (cases f1)
    case None
    then show ?thesis using unf a1 f1 payload_fault_None [of a1 "recorded_holdings s"]
      by (auto simp: andthen_def on_db_def on_port_def gets_def lift_res_def ret_def)
  next
    case (Some f)
    obtain x2 where n: "nap RETRY_S x1 = (Inr (), x2)"
      using unf a1 f1 Some by (cases "nap RETRY_S x1"; cases "fst (nap RETRY_S x1)") (auto simp: andthen_def on_db_def on_port_def gets_def lift_res_def)
    obtain a2 x3 where a2: "account_state x2 = (Inr a2, x3)"
      using unf a1 f1 Some n by (cases "account_state x2"; cases "fst (account_state x2)") (auto simp: andthen_def on_db_def on_port_def gets_def lift_res_def)
    obtain f2 where f2: "payload_fault a2 (recorded_holdings s) = Inr f2"
      using unf a1 f1 Some n a2
      by (cases "payload_fault a2 (recorded_holdings s)") (auto simp: andthen_def on_db_def on_port_def gets_def lift_res_def)
    have b1: "\<not> believable a1 (recorded_holdings s)" using payload_fault_None [of a1 "recorded_holdings s"] f1 Some by simp
    show ?thesis
    proof (cases f2)
      case None
      then show ?thesis using unf a1 f1 Some n a2 f2 b1 payload_fault_None [of a2 "recorded_holdings s"]
        by (auto simp: andthen_def on_db_def on_port_def gets_def lift_res_def ret_def)
    next
      case (Some g)
      then show ?thesis using unf a1 f1 \<open>f1 = Some f\<close> n a2 f2 b1 payload_fault_None [of a2 "recorded_holdings s"]
        by (auto simp: andthen_def on_db_def on_port_def gets_def lift_res_def ret_def modify_def)
    qed
  qed
qed


section \<open>Witnesses\<close>

theorem account_is_believable_witness:
  "\<exists>account. account_snapshot (\<lambda>n. (Inr [(''positions'', if n = 0 then PNone else PDict [(''NVDA'', PDict [])]),
      (''long_market_value'', PStr ''4000'')], Suc n)) (\<lambda>_ n. (Inr (), n)) 60 (empty_db, 0) = (Inr (Some account), (empty_db, 2)) \<and>
     believable account []"
proof -
  let ?st = "\<lambda>n. (Inr [(''positions'', if n = 0 then PNone else PDict [(''NVDA'', PDict [])]), (''long_market_value'', PStr ''4000'')], Suc n)"
  let ?p = "account_snapshot ?st (\<lambda>_ n. (Inr (), n)) 60 (empty_db, 0)"
  have c: "case ?p of (Inr (Some a), (_, n)) \<Rightarrow> n = 2 | _ \<Rightarrow> False" by code_simp
  obtain r s' n where p: "?p = (r, (s', n))" by (cases "?p" rule: prod_cases3)
  from c [unfolded p] have "\<exists>a. r = Inr (Some a) \<and> n = 2" by (cases r) (auto split: option.splits)
  then obtain a where run: "?p = (Inr (Some a), (s', 2))" using p by blast
  from account_is_believable [OF run] show ?thesis using run unfolding recorded_holdings_def empty_db_def by auto
qed

end
