(* ===== verification/ImproveProps.thy ===== *)
theory ImproveProps imports Improve StageProps begin

text \<open>
  What the nightly grading is worth: its rates are rates, and running a night again writes
  nothing.
\<close>

section \<open>The rates\<close>

lemma int_ratio_unit:
  assumes "0 \<le> a" and "a \<le> b"
  shows "fle (Fin 0) (int_ratio a b) \<and> fle (int_ratio a b) (Fin 1)"
proof (cases "b = 0")
  case True
  then show ?thesis by (simp add: int_ratio_def)
next
  case False
  have "fle (rnd 0) (rnd (of_int a / of_int b))" "fle (rnd (of_int a / of_int b)) (rnd (of_int 1))"
    using assms False by (intro rnd_mono; simp)+
  then show ?thesis using False rnd_of_int [of 1] by (simp add: int_ratio_def)
qed

text \<open>A join on a key: every row on the right is matched at most once.\<close>

lemma length_join:
  assumes "distinct (map k gs)"
  shows "length (concat (map (\<lambda>g. map (Pair g) (filter (\<lambda>f. h f = k g) fs)) gs)) \<le> length (filter (\<lambda>f. h f \<in> k ` set gs) fs)"
  using assms
proof (induction gs)
  case (Cons g gs)
  have "length (filter (\<lambda>f. h f \<in> k ` set (g # gs)) fs) =
      length (filter (\<lambda>f. h f = k g) fs) + length (filter (\<lambda>f. h f \<in> k ` set gs) fs)"
    using Cons.prems by (induction fs) auto
  then show ?case using Cons by simp
qed simp

lemma length_filter_imp: "(\<And>x. P x \<Longrightarrow> Q x) \<Longrightarrow> length (filter P xs) \<le> length (filter Q xs)"
  by (induction xs) (auto simp: le_SucI)

lemma covered_le_offered:
  assumes "unique_on (\<lambda>g. (sg_run_date g, sg_agent g, sg_ticker g)) (signals s)"
  shows "length (covered_rows seat dates s) \<le> length (offered_rows dates s)"
proof -
  let ?k = "\<lambda>g. (sg_run_date g, sg_ticker g)" and ?h = "\<lambda>f. (f_run_date f, f_ticker f)"
  have "distinct (map (\<lambda>g. (sg_run_date g, sg_agent g, sg_ticker g)) (spoke seat dates s))"
    using assms by (simp add: spoke_def unique_on_def distinct_map_filter)
  moreover have "(sg_run_date g, sg_agent g, sg_ticker g) = (\<lambda>(d, t). (d, seat, t)) (?k g)" if "g \<in> set (spoke seat dates s)" for g
    using that by (simp add: spoke_def)
  ultimately have "distinct (map ((\<lambda>(d, t). (d, seat, t)) \<circ> ?k) (spoke seat dates s))"
    by (metis (mono_tags, lifting) comp_def map_eq_conv)
  then have "distinct (map ?k (spoke seat dates s))" by (simp add: distinct_map inj_on_def)
  from length_join [OF this, of ?h "offered s"]
  have "length (covered_rows seat dates s) \<le> length (filter (\<lambda>f. ?h f \<in> ?k ` set (spoke seat dates s)) (offered s))"
    by (simp add: covered_rows_def conj_commute)
  also have "\<dots> \<le> length (offered_rows dates s)"
    unfolding offered_rows_def by (rule length_filter_imp) (auto simp: spoke_def)
  finally show ?thesis .
qed


text \<open>
  A seat's rates are rates. Whatever is in the tables, as long as a seat signals a
  ticker once a day, the abstention rate and the coverage lie between 0 and 1, so neither is ever the
  NaN that the table refuses, and coverage counts an offered ticker once.
\<close>

theorem rates_are_rates:
  assumes "unique_on (\<lambda>g. (sg_run_date g, sg_agent g, sg_ticker g)) (signals s)"
  shows "let b = behaviour sum_usd seat dates s in
    fle (Fin 0) (bh_abstention_rate b) \<and> fle (bh_abstention_rate b) (Fin 1) \<and>
    fle (Fin 0) (bh_coverage b) \<and> fle (bh_coverage b) (Fin 1)"
proof -
  have "int (length (filter (\<lambda>g. sg_direction g = Neutral) (spoke seat dates s))) \<le> int (length (spoke seat dates s))"
    by simp
  from int_ratio_unit [OF _ this] have a: "fle (Fin 0) (int_ratio (int (length (filter (\<lambda>g. sg_direction g = Neutral) (spoke seat dates s))))
      (int (length (spoke seat dates s)))) \<and> fle (int_ratio (int (length (filter (\<lambda>g. sg_direction g = Neutral) (spoke seat dates s))))
      (int (length (spoke seat dates s)))) (Fin 1)" by simp
  have "int (length (covered_rows seat dates s)) \<le> int (length (offered_rows dates s))"
    using covered_le_offered [OF assms] by simp
  from int_ratio_unit [OF _ this] a show ?thesis by (auto simp: behaviour_def Let_def)
qed

theorem rates_are_rates_witness:
  "fle (bh_coverage (behaviour (\<lambda>_. Fin 0) ''news'' [''2026-08-17''] (empty_db\<lparr>signals := [\<lparr>sg_run_date = ''2026-08-17'', sg_agent = ''news'',
     sg_ticker = ''NVDA'', sg_direction = Neutral, sg_confidence = 0, sg_summary = [], sg_charter = ''v1'', sg_model = ''m'', sg_created_at = 0\<rparr>]\<rparr>))) (Fin 1)"
  using rates_are_rates [of "empty_db\<lparr>signals := [\<lparr>sg_run_date = ''2026-08-17'', sg_agent = ''news'',
     sg_ticker = ''NVDA'', sg_direction = Neutral, sg_confidence = 0, sg_summary = [], sg_charter = ''v1'', sg_model = ''m'', sg_created_at = 0\<rparr>]\<rparr>"]
  by (simp add: unique_on_def Let_def)

section \<open>Running a night again\<close>

lemma upsert_weight_run:
  assumes "upsert_weight w s = (r, s')" and "r = Inr ()"
  shows "\<exists>W. s' = s\<lparr>weights := W\<rparr> \<and> (unique_on weight_key (weights s) \<longrightarrow> unique_on weight_key W) \<and>
     set W = insert w {v \<in> set (weights s). weight_key v \<noteq> weight_key w}"
proof (cases "list_ex (\<lambda>v. weight_key v = weight_key w) (weights s)")
  case True
  then have "s' = s\<lparr>weights := update_where (\<lambda>v. weight_key v = weight_key w) (\<lambda>_. w) (weights s)\<rparr>"
    using assms by (auto simp: upsert_weight_def split: if_splits)
  moreover have "set (update_where (\<lambda>v. weight_key v = weight_key w) (\<lambda>_. w) (weights s)) =
      insert w {v \<in> set (weights s). weight_key v \<noteq> weight_key w}"
    using True by (auto simp: mem_update_where list_ex_iff split: if_splits)
  moreover have "map weight_key (update_where (\<lambda>v. weight_key v = weight_key w) (\<lambda>_. w) (weights s)) = map weight_key (weights s)"
    by (auto simp: update_where_def)
  ultimately show ?thesis by (auto simp: unique_on_def)
next
  case False
  then have "s' = s\<lparr>weights := weights s @ [w]\<rparr>" using assms by (auto simp: upsert_weight_def split: if_splits)
  moreover have "\<forall>v\<in>set (weights s). weight_key v \<noteq> weight_key w" using False by (auto simp: list_ex_iff)
  ultimately show ?thesis by (intro exI [of _ "weights s @ [w]"]) (force simp: unique_on_def)
qed

lemma upsert_all_run:
  assumes "for_each upsert_weight ps s = (Inr (), s')" and "distinct (map weight_key ps)"
  shows "\<exists>W. s' = s\<lparr>weights := W\<rparr> \<and> (unique_on weight_key (weights s) \<longrightarrow> unique_on weight_key W) \<and>
     set W = set ps \<union> {v \<in> set (weights s). weight_key v \<notin> weight_key ` set ps}"
  using assms
proof (induction ps arbitrary: s)
  case Nil
  then have "s' = s" by simp
  then show ?case by (intro exI [of _ "weights s"]) simp
next
  case (Cons p ps)
  obtain u where u: "upsert_weight p s = (Inr (), u)" "for_each upsert_weight ps u = (Inr (), s')"
    using Cons.prems(1) by (auto simp: andthen_Inr)
  obtain W where W: "u = s\<lparr>weights := W\<rparr>" "unique_on weight_key (weights s) \<longrightarrow> unique_on weight_key W"
    "set W = insert p {v \<in> set (weights s). weight_key v \<noteq> weight_key p}" using upsert_weight_run [OF u(1)] by blast
  from Cons.IH [OF u(2)] Cons.prems(2) obtain W' where W': "s' = u\<lparr>weights := W'\<rparr>" "unique_on weight_key (weights u) \<longrightarrow> unique_on weight_key W'"
    "set W' = set ps \<union> {v \<in> set (weights u). weight_key v \<notin> weight_key ` set ps}" by auto
  show ?case
    using W W' Cons.prems(2) by (intro exI [of _ W']) auto
qed


text \<open>What the grading decides of one score.\<close>

definition graded_row :: "(graded_row list \<Rightarrow> behav \<Rightarrow> string) \<Rightarrow> (pyfloat list \<Rightarrow> pyfloat) \<Rightarrow> weights_config \<Rightarrow> date \<Rightarrow> time
    \<Rightarrow> (string \<times> pyfloat) list \<Rightarrow> db \<Rightarrow> agent_score \<Rightarrow> weight_row" where
  "graded_row digest sum_usd cfg as_of_date now ws s sc =
     (let dates = window_dates as_of_date (wc_window_days cfg) s; h = seat_digest digest sum_usd dates s (ag_seat sc)
      in \<lparr>wt_as_of_date = as_of_date, wt_agent = ag_seat sc, wt_inputs_hash = h,
          wt_cols = score_row sc (the (map_of ws (ag_seat sc))) (behaviour sum_usd (ag_seat sc) dates s) cfg h as_of_date now\<rparr>)"

definition known :: "(graded_row list \<Rightarrow> behav \<Rightarrow> string) \<Rightarrow> (pyfloat list \<Rightarrow> pyfloat) \<Rightarrow> weights_config \<Rightarrow> date \<Rightarrow> db \<Rightarrow> agent_score \<Rightarrow> bool" where
  "known digest sum_usd cfg as_of_date s sc \<longleftrightarrow>
     latest_hash s (ag_seat sc) = Some (seat_digest digest sum_usd (window_dates as_of_date (wc_window_days cfg) s) s (ag_seat sc))"

lemma grade_one_cases:
  "grade_one digest sum_usd cfg as_of_date now ws s sc (rep, pending) =
     (if known digest sum_usd cfg as_of_date s sc then Inr (rep\<lparr>wr_unchanged := wr_unchanged rep @ [ag_seat sc]\<rparr>, pending)
      else if map_of ws (ag_seat sc) = None then Inl KeyError
      else if load_bearing_ok (wt_cols (graded_row digest sum_usd cfg as_of_date now ws s sc))
      then Inr (rep, pending @ [graded_row digest sum_usd cfg as_of_date now ws s sc])
      else Inr (rep\<lparr>wr_skipped := wr_skipped rep @ [ag_seat sc]\<rparr>, pending))"
  by (simp add: grade_one_def known_def graded_row_def Let_def split: option.splits)

text \<open>The rows of the night: those of the scores that are not known and load-bearing.\<close>

definition wanted :: "(graded_row list \<Rightarrow> behav \<Rightarrow> string) \<Rightarrow> (pyfloat list \<Rightarrow> pyfloat) \<Rightarrow> weights_config \<Rightarrow> date \<Rightarrow> time
    \<Rightarrow> (string \<times> pyfloat) list \<Rightarrow> db \<Rightarrow> agent_score \<Rightarrow> bool" where
  "wanted digest sum_usd cfg as_of_date now ws s sc \<longleftrightarrow> \<not> known digest sum_usd cfg as_of_date s sc \<and>
     load_bearing_ok (wt_cols (graded_row digest sum_usd cfg as_of_date now ws s sc))"

lemma grade_all_pending:
  "grade_all (grade_one digest sum_usd cfg as_of_date now ws s) scs (rep, p) = Inr (rep', p') \<Longrightarrow>
     p' = p @ map (graded_row digest sum_usd cfg as_of_date now ws s) (filter (wanted digest sum_usd cfg as_of_date now ws s) scs) \<and>
     wr_written rep' = wr_written rep \<and>
     (\<forall>sc\<in>set scs. known digest sum_usd cfg as_of_date s sc \<or> map_of ws (ag_seat sc) \<noteq> None)"
proof (induction scs arbitrary: rep p)
  case (Cons sc scs)
  let ?row = "graded_row digest sum_usd cfg as_of_date now ws s sc"
  show ?case
    using Cons.prems Cons.IH [of "rep\<lparr>wr_unchanged := wr_unchanged rep @ [ag_seat sc]\<rparr>" p]
      Cons.IH [of "rep\<lparr>wr_skipped := wr_skipped rep @ [ag_seat sc]\<rparr>" p] Cons.IH [of rep "p @ [?row]"]
    by (auto simp: grade_one_cases wanted_def split: if_splits)
qed simp

lemma grade_all_runs:
  "(\<forall>sc\<in>set scs. known digest sum_usd cfg as_of_date s sc \<or> map_of ws (ag_seat sc) \<noteq> None) \<Longrightarrow>
     \<exists>rep' p'. grade_all (grade_one digest sum_usd cfg as_of_date now ws s) scs (rep, p) = Inr (rep', p')"
  by (induction scs arbitrary: rep p) (auto simp: grade_one_cases split: if_splits)

text \<open>The hash of a seat's newest row.\<close>

lemma latest_hash_iff:
  assumes "unique_on weight_key (weights s)"
  shows "latest_hash s seat = Some h \<longleftrightarrow> (\<exists>w\<in>set (weights s). newest s w \<and> wt_agent w = seat \<and> wt_inputs_hash w = h)"
proof -
  let ?L = "latest_weights None s"
  have set: "set ?L = {w \<in> set (weights s). newest s w}" by (simp add: latest_weights_def)
  have one: "v = w" if "v \<in> set ?L" "w \<in> set ?L" "wt_agent v = wt_agent w" for v w
  proof -
    have "wt_as_of_date v = wt_as_of_date w" using that by (auto simp: set newest_def list_all_iff intro: order_antisym)
    then have "weight_key v = weight_key w" using that(3) by (simp add: weight_key_def)
    then show ?thesis using that(1,2) assms by (auto simp: set unique_on_def distinct_map dest: inj_onD)
  qed
  have "latest_hash s seat = Some h \<longleftrightarrow> (\<exists>w\<in>set ?L. wt_agent w = seat \<and> wt_inputs_hash w = h)" (is "?l = ?r")
  proof
    assume ?l
    then have "(seat, h) \<in> set (map (\<lambda>w. (wt_agent w, wt_inputs_hash w)) ?L)" unfolding latest_hash_def by (rule map_of_SomeD)
    then show ?r by auto
  next
    assume ?r
    then obtain w where w: "w \<in> set ?L" "wt_agent w = seat" "wt_inputs_hash w = h" by blast
    then have "(seat, h) \<in> set (map (\<lambda>w. (wt_agent w, wt_inputs_hash w)) ?L)" by force
    then obtain k where k: "map_of (map (\<lambda>w. (wt_agent w, wt_inputs_hash w)) ?L) seat = Some k" using weak_map_of_SomeI by fastforce
    from map_of_SomeD [OF this] obtain v where "v \<in> set ?L" "wt_agent v = seat" "wt_inputs_hash v = k" by auto
    with one [OF this(1) w(1)] w have "k = h" by simp
    with k show ?l by (simp add: latest_hash_def)
  qed
  then show ?thesis by (simp add: set Bex_def conj_assoc)
qed

lemma newest_agent:
  "(\<And>v. wt_agent v = wt_agent w \<Longrightarrow> v \<in> set (weights s') \<longleftrightarrow> v \<in> set (weights s)) \<Longrightarrow> newest s' w = newest s w"
  unfolding newest_def list_all_iff by blast


lemma write_weights_run:
  assumes "write_weights score_agents digest sum_usd cfg as_of_date now s = (Inr rep, s')"
  obtains scores ws rep0 ps where "score_agents (scoreboard_rows s) = Inr (scores, ws)"
    and "grade_all (grade_one digest sum_usd cfg as_of_date now ws s) scores (\<lparr>wr_written = [], wr_unchanged = [], wr_skipped = []\<rparr>, []) = Inr (rep0, ps)"
    and "for_each upsert_weight ps s = (Inr (), s')" and "rep = rep0\<lparr>wr_written := map wt_agent ps\<rparr>"
proof -
  obtain scores ws where sc: "score_agents (scoreboard_rows s) = Inr (scores, ws)"
    using assms by (cases "score_agents (scoreboard_rows s)") (auto simp: write_weights_def)
  obtain rep0 ps where g: "grade_all (grade_one digest sum_usd cfg as_of_date now ws s) scores
      (\<lparr>wr_written = [], wr_unchanged = [], wr_skipped = []\<rparr>, []) = Inr (rep0, ps)"
    using assms sc
    by (cases "grade_all (grade_one digest sum_usd cfg as_of_date now ws s) scores (\<lparr>wr_written = [], wr_unchanged = [], wr_skipped = []\<rparr>, [])")
      (auto simp: write_weights_def rolled_back_def raise_def)
  obtain q u where q: "for_each upsert_weight ps s = (q, u)" by (metis surj_pair)
  have "q = Inr () \<and> u = s' \<and> rep = rep0\<lparr>wr_written := map wt_agent ps\<rparr>"
    using assms sc g q by (cases q) (auto simp: write_weights_def rolled_back_def andthen_def ret_def)
  then show ?thesis using that sc g q by blast
qed

lemma inputs_of_weights [simp]:
  "scoreboard_rows (s\<lparr>weights := W\<rparr>) = scoreboard_rows s" "window_dates d n (s\<lparr>weights := W\<rparr>) = window_dates d n s"
  "behaviour f seat dates (s\<lparr>weights := W\<rparr>) = behaviour f seat dates s"
  "seat_digest dg f dates (s\<lparr>weights := W\<rparr>) seat = seat_digest dg f dates s seat"
  by (simp_all add: scoreboard_rows_def joined_rows_def window_dates_def behaviour_def spoke_def offered_rows_def covered_rows_def
      seat_digest_def seat_rows_def Let_def)

lemma graded_row_same_checks:
  "load_bearing_ok (wt_cols (graded_row digest sum_usd cfg d now' ws (s\<lparr>weights := W\<rparr>) sc)) =
   load_bearing_ok (wt_cols (graded_row digest sum_usd cfg d now ws s sc))"
  by (simp add: graded_row_def Let_def load_bearing_ok_def score_row_def LOAD_BEARING_def dget_def)

text \<open>
  C39: running the night again writes nothing. Once the weights of a date are written, and no later
  date is on record, a second run for that date, at any time and on the same inputs, writes no row and
  leaves the table as it is, and each run either completes or leaves the database as it was.
\<close>

theorem night_is_idempotent:
  assumes "unique_on weight_key (weights s)" and "\<forall>w\<in>set (weights s). wt_as_of_date w \<le> as_of_date"
    and "\<forall>scores ws. score_agents (scoreboard_rows s) = Inr (scores, ws) \<longrightarrow> distinct (map ag_seat scores)"
    and "write_weights score_agents digest sum_usd cfg as_of_date now s = (r, s')"
  shows "(\<exists>e. r = Inl e \<and> s' = s) \<or> (\<exists>rep rep'. r = Inr rep \<and>
     write_weights score_agents digest sum_usd cfg as_of_date now' s' = (Inr rep', s') \<and> wr_written rep' = [])"
proof (cases r)
  case (Inl e)
  have "s' = s"
    using assms(4) Inl by (auto simp: write_weights_def rolled_back_def andthen_def lift_res_def gets_def ret_def
        split: sum.splits prod.splits)
  then show ?thesis using Inl by blast
next
  case (Inr rep)
  obtain scores ws rep0 ps where run: "score_agents (scoreboard_rows s) = Inr (scores, ws)"
    "grade_all (grade_one digest sum_usd cfg as_of_date now ws s) scores (\<lparr>wr_written = [], wr_unchanged = [], wr_skipped = []\<rparr>, []) = Inr (rep0, ps)"
    "for_each upsert_weight ps s = (Inr (), s')"
    using write_weights_run [of score_agents digest sum_usd cfg as_of_date now s rep s'] assms(4) Inr by metis
  let ?want = "wanted digest sum_usd cfg as_of_date now ws s" and ?row = "graded_row digest sum_usd cfg as_of_date now ws s"
  have ps: "ps = map ?row (filter ?want scores)"
    and ok: "\<forall>sc\<in>set scores. known digest sum_usd cfg as_of_date s sc \<or> map_of ws (ag_seat sc) \<noteq> None"
    using grade_all_pending [OF run(2)] by auto
  have seats: "distinct (map ag_seat scores)" using assms(3) run(1) by blast
  have row: "wt_agent (?row sc) = ag_seat sc" "wt_as_of_date (?row sc) = as_of_date" for sc by (simp_all add: graded_row_def Let_def)
  have "distinct (map weight_key ps)"
    using seats by (simp add: ps comp_def weight_key_def row distinct_map inj_on_def)
  from upsert_all_run [OF run(3) this] assms(1) obtain W where W: "s' = s\<lparr>weights := W\<rparr>" "unique_on weight_key W"
    "set W = set ps \<union> {v \<in> set (weights s). weight_key v \<notin> weight_key ` set ps}" by blast
  have latest: "\<forall>w\<in>set W. wt_as_of_date w \<le> as_of_date" using W(3) assms(2) row(2) ps by auto
  have no_want: "\<not> wanted digest sum_usd cfg as_of_date now' ws s' sc \<and> (known digest sum_usd cfg as_of_date s' sc \<or> map_of ws (ag_seat sc) \<noteq> None)"
    if sc: "sc \<in> set scores" for sc
  proof (cases "?want sc")
    case True
    then have w: "?row sc \<in> set W" using sc W(3) ps by auto
    have "newest s' (?row sc)" using latest row W(1) by (auto simp: newest_def list_all_iff)
    then have "latest_hash s' (ag_seat sc) = Some (wt_inputs_hash (?row sc))"
      using w latest_hash_iff [of s'] W(1,2) row by auto
    then have "known digest sum_usd cfg as_of_date s' sc" using W(1) by (simp add: known_def graded_row_def Let_def)
    then show ?thesis by (simp add: wanted_def)
  next
    case False
    have others: "ag_seat sc \<noteq> wt_agent p" if "p \<in> set ps" for p
      using that False sc seats ps row by (auto simp: distinct_map dest: inj_onD)
    then have same: "v \<in> set (weights s') \<longleftrightarrow> v \<in> set (weights s)" if "wt_agent v = ag_seat sc" for v
    proof -
      have "\<forall>p\<in>set ps. wt_agent p \<noteq> wt_agent v" using others that by metis
      then show ?thesis using W(1,3) by (auto simp: weight_key_def)
    qed
    have "latest_hash s' (ag_seat sc) = Some h \<longleftrightarrow> latest_hash s (ag_seat sc) = Some h" for h
    proof -
      have "newest s' w = newest s w" if "wt_agent w = ag_seat sc" for w
        by (rule newest_agent) (use same that in simp)
      moreover have "unique_on weight_key (weights s')" using W(1,2) by simp
      ultimately show ?thesis unfolding latest_hash_iff [OF assms(1)] latest_hash_iff [OF \<open>unique_on weight_key (weights s')\<close>]
        using same by blast
    qed
    then have k: "known digest sum_usd cfg as_of_date s' sc = known digest sum_usd cfg as_of_date s sc" using W(1) by (simp add: known_def)
    then show ?thesis using False ok sc W(1) graded_row_same_checks [of digest sum_usd cfg as_of_date now' ws W s sc now]
      by (auto simp: wanted_def)
  qed
  obtain rep1 p1 where again: "grade_all (grade_one digest sum_usd cfg as_of_date now' ws s') scores
      (\<lparr>wr_written = [], wr_unchanged = [], wr_skipped = []\<rparr>, []) = Inr (rep1, p1)"
    using grade_all_runs no_want by blast
  have p1: "p1 = []" using grade_all_pending [OF again] no_want by (simp add: filter_empty_conv)
  have "write_weights score_agents digest sum_usd cfg as_of_date now' s' = (Inr (rep1\<lparr>wr_written := []\<rparr>), s')"
    using run(1) again p1 W(1) by (simp add: write_weights_def rolled_back_def andthen_def ret_def)
  then show ?thesis using Inr by auto
qed


definition toy_score :: agent_score where
  "toy_score = \<lparr>ag_seat = ''news'', ag_n_graded = 4, ag_n_abstain = 0, ag_brier = Fin 0, ag_bss = Fin 0, ag_bss_shrunk = Fin 0,
     ag_total_skill = Fin 0, ag_reliability = NaN, ag_resolution = Fin 0, ag_ece = Fin 0, ag_batting = Fin 0, ag_slugging = Fin 0\<rparr>"

theorem night_is_idempotent_witness:
  "\<exists>rep s' rep'. write_weights (\<lambda>_. Inr ([toy_score], [(''news'', Fin 1)])) (\<lambda>_ _. ''h'') (\<lambda>_. Fin 0) \<lparr>wc_window_days = 30, wc_horizon_days = 5\<rparr>
      ''2026-08-17'' 60 empty_db = (Inr rep, s') \<and> wr_written rep = [''news''] \<and>
    write_weights (\<lambda>_. Inr ([toy_score], [(''news'', Fin 1)])) (\<lambda>_ _. ''h'') (\<lambda>_. Fin 0) \<lparr>wc_window_days = 30, wc_horizon_days = 5\<rparr>
      ''2026-08-17'' 90 s' = (Inr rep', s') \<and> wr_written rep' = []"
proof -
  let ?f = "\<lambda>_. Inr ([toy_score], [(''news'', Fin 1)])"
  let ?p = "write_weights ?f (\<lambda>_ _. ''h'') (\<lambda>_. Fin 0) \<lparr>wc_window_days = 30, wc_horizon_days = 5\<rparr> ''2026-08-17'' 60 empty_db"
  obtain r s' where p: "?p = (r, s')" by (rule prod.exhaust)
  have "case fst ?p of Inr rep \<Rightarrow> wr_written rep = [''news''] | Inl _ \<Rightarrow> False" by code_simp
  then obtain rep where r: "r = Inr rep" "wr_written rep = [''news'']" unfolding p by (cases r) auto
  have e: "unique_on weight_key (weights empty_db)" "\<forall>w\<in>set (weights empty_db). wt_as_of_date w \<le> ''2026-08-17''"
    by (simp_all add: empty_db_def unique_on_def)
  have "\<forall>scores ws. ?f (scoreboard_rows empty_db) = Inr (scores, ws) \<longrightarrow> distinct (map ag_seat scores)" by simp
  from night_is_idempotent [OF e this p, of 90] r p show ?thesis by auto
qed

end
