(* ===== verification/Seats.thy ===== *)
theory Seats imports Agents Runtime begin

text \<open>
  agents/seats.py: the tool surface of one turn, the charter version, and the options a
  seat's turn is built with. The yaml of a seat is a record; the shell prologue of the
  broker's server and the SDK client are left out.
\<close>

section \<open>fnmatch\<close>

text \<open>
  The items of a bracket expression: single characters and ranges \<open>a-b\<close>. A hyphen that has
  no character after it stands for itself, and a range whose ends are swapped is empty.
\<close>

fun class_has :: "string \<Rightarrow> char \<Rightarrow> bool" where
  "class_has [] c = False"
| "class_has [a] c = (a = c)"
| "class_has [a, b] c = (a = c \<or> b = c)"
| "class_has (a # b # d # r) c =
     (if b = CHR ''-'' then ord_of a \<le> ord_of c \<and> ord_of c \<le> ord_of d \<or> class_has r c
      else a = c \<or> class_has (b # d # r) c)"

text \<open>
  What follows an opening bracket: the body up to the closing one, which may begin with
  \<open>!\<close> and then with a bracket of its own, and the rest of the pattern.
\<close>

definition split_class :: "string \<Rightarrow> (string \<times> string) option" where
  "split_class p = (let bang = (if take 1 p = ''!'' then 1 else 0);
      skip = bang + (if take 1 (drop bang p) = '']'' then 1 else 0);
      body = takeWhile (\<lambda>c. c \<noteq> CHR '']'') (drop skip p); rest = drop (skip + length body) p
    in if rest = [] then None else Some (take skip p @ body, tl rest))"

definition class_match :: "string \<Rightarrow> char \<Rightarrow> bool" where
  "class_match body c = (if take 1 body = ''!'' then \<not> class_has (tl body) c else class_has body c)"

lemma split_class_shorter: "split_class p = Some (body, rest) \<Longrightarrow> length rest < length p"
  by (auto simp: split_class_def Let_def split: if_splits)

function glob :: "string \<Rightarrow> string \<Rightarrow> bool" where
  "glob [] t = (t = [])"
| "glob (c # p) t =
     (if c = CHR ''*'' then (if t = [] then glob p t else glob p t \<or> glob (c # p) (tl t))
      else if t = [] then False
      else if c = CHR ''?'' then glob p (tl t)
      else if c = CHR ''['' then (case split_class p of
          None \<Rightarrow> hd t = c \<and> glob p (tl t)
        | Some (body, rest) \<Rightarrow> class_match body (hd t) \<and> glob rest (tl t))
      else hd t = c \<and> glob p (tl t))"
  by pat_completeness auto

termination glob
  by (relation "measure (\<lambda>(p, t). length p + length t)")
    (auto simp: neq_Nil_conv dest: split_class_shorter)

declare glob.simps(2) [simp del]

text \<open>\<open>fnmatchcase(name, pat)\<close>\<close>

definition fnmatchcase :: "string \<Rightarrow> string \<Rightarrow> bool" where
  "fnmatchcase name pat = glob pat name"

section \<open>The charter's version\<close>

text \<open>The word characters of \<open>re\<close> among the first 256 code points.\<close>

definition is_word :: "char \<Rightarrow> bool" where
  "is_word c \<longleftrightarrow> (let n = ord_of c in 48 \<le> n \<and> n \<le> 57 \<or> 65 \<le> n \<and> n \<le> 90 \<or> 97 \<le> n \<and> n \<le> 122 \<or>
     n \<in> {95, 170, 178, 179, 181, 185, 186, 188, 189, 190} \<or> 192 \<le> n \<and> n \<noteq> 215 \<and> n \<noteq> 247)"

text \<open>\<open>re.search(r"\bv(\d+)\b", first)\<close>: the digits of the first match.\<close>

fun find_version :: "bool \<Rightarrow> string \<Rightarrow> string option" where
  "find_version after_word [] = None"
| "find_version after_word (c # cs) =
     (let ds = takeWhile is_dec cs; rest = drop (length ds) cs
      in if \<not> after_word \<and> c = CHR ''v'' \<and> ds \<noteq> [] \<and> (rest = [] \<or> \<not> is_word (hd rest)) then Some ds
         else find_version (is_word c) cs)"

definition parse_charter_version :: "string \<Rightarrow> string" where
  "parse_charter_version text = (case find_version False (takeWhile (\<lambda>c. c \<noteq> CHR 0x0A) text) of
      Some ds \<Rightarrow> CHR ''v'' # ds | None \<Rightarrow> ''unknown'')"

section \<open>The surface of a turn\<close>

record seat_config =
  ct_seat :: string
  ct_tools :: "string list"
  ct_alpaca_toolsets :: string
  ct_disallowed_tools :: "string list option"
  ct_model :: string
  ct_max_turns :: int

text \<open>\<open>s.split(",")\<close>\<close>

fun split_comma :: "string \<Rightarrow> string list" where
  "split_comma [] = [[]]"
| "split_comma (c # cs) = (if c = CHR '','' then [] # split_comma cs
     else (case split_comma cs of w # ws \<Rightarrow> (c # w) # ws | [] \<Rightarrow> [[c]]))"

definition trades :: "seat_config \<Rightarrow> bool" where
  "trades cfg \<longleftrightarrow> ''trading'' \<in> set (map strip (split_comma (ct_alpaca_toolsets cfg)))"

definition FUND_PREFIX :: string where "FUND_PREFIX = ''mcp__fund__''"

definition served_fund :: "string \<Rightarrow> string list" where
  "served_fund seat = map ((@) FUND_PREFIX) (case map_of SEAT_CAPS seat of None \<Rightarrow> [] | Some caps \<Rightarrow> caps)"

datatype complaint = Fine | Patterned | Ungranted | Escalating

definition judge_tool :: "seat_config \<Rightarrow> string \<Rightarrow> complaint" where
  "judge_tool cfg name =
     (if list_ex (\<lambda>ch. ch \<in> set name) ''*?['' then Patterned
      else if starts_with FUND_PREFIX name then (if name \<in> set (served_fund (ct_seat cfg)) then Fine else Ungranted)
      else if starts_with BROKER_PREFIX name then
        (if \<not> list_ex (fnmatchcase name) (ct_tools cfg) then Ungranted
         else if fnmatchcase name (PLACE_PREFIX @ ''*'') \<and> \<not> trades cfg then Escalating else Fine)
      else Ungranted)"

definition turn_tools :: "seat_config \<Rightarrow> string list option \<Rightarrow> string list res" where
  "turn_tools cfg override = (case override of None \<Rightarrow> Inr (ct_tools cfg)
    | Some names \<Rightarrow> if names = [] then Inl ValueError
        else if \<exists>n\<in>set names. judge_tool cfg n = Patterned then Inl ValueError
        else if \<exists>n\<in>set names. judge_tool cfg n = Escalating then Inl ValueError
        else if \<exists>n\<in>set names. judge_tool cfg n = Ungranted then Inl ValueError
        else Inr names)"

section \<open>The options\<close>

record 'x seat_options =
  op_tools :: "string list"
  op_disallowed :: "string list option"
  op_paper_trade :: string
  op_toolsets :: string
  op_fund :: "(string \<times> (pydict \<Rightarrow> ('x world, tool_result) prog)) list"
  op_gated :: bool

text \<open>
  \<open>server\<close> is what the fund server is bound to; the hooks, the order gate before and the
  recorder after every call, are attached exactly to a seat that trades.
\<close>

definition build_seat_options :: "seat_config \<Rightarrow> string \<Rightarrow> 'x fund_server \<Rightarrow> string list option \<Rightarrow> 'x seat_options res" where
  "build_seat_options cfg charter server tools =
     res_bind (turn_tools cfg tools) (\<lambda>surface.
     res_bind (build_fund_server (server\<lparr>fs_seat := ct_seat cfg, fs_charter := parse_charter_version charter, fs_model := ct_model cfg\<rparr>)) (\<lambda>fund.
     Inr \<lparr>op_tools = surface, op_disallowed = ct_disallowed_tools cfg, op_paper_trade = ''true'',
          op_toolsets = ct_alpaca_toolsets cfg, op_fund = fund, op_gated = trades cfg\<rparr>))"


section \<open>A turn is never widened\<close>

lemma glob_lit: "c \<notin> {CHR ''*'', CHR ''?'', CHR ''[''} \<Longrightarrow> glob (c # p) t \<longleftrightarrow> t \<noteq> [] \<and> hd t = c \<and> glob p (tl t)"
  by (simp add: glob.simps(2))

lemma glob_star: "glob ''*'' t"
  by (induction t) (simp_all add: glob.simps(2))

lemma glob_prefix: "set p \<inter> {CHR ''*'', CHR ''?'', CHR ''[''} = {} \<Longrightarrow> glob (p @ ''*'') t = starts_with p t"
proof (induction p arbitrary: t)
  case Nil
  then show ?case using glob_star by (simp add: starts_with_def)
next
  case (Cons c p)
  have "glob ((c # p) @ ''*'') t \<longleftrightarrow> t \<noteq> [] \<and> hd t = c \<and> glob (p @ ''*'') (tl t)"
    using glob_lit [of c "p @ ''*''" t] Cons.prems by auto
  also have "\<dots> \<longleftrightarrow> t \<noteq> [] \<and> hd t = c \<and> starts_with p (tl t)" using Cons.IH [of "tl t"] Cons.prems by auto
  also have "\<dots> \<longleftrightarrow> starts_with (c # p) t" by (cases t) (auto simp: starts_with_def)
  finally show ?case .
qed

lemma place_glob: "fnmatchcase name (PLACE_PREFIX @ ''*'') = starts_with PLACE_PREFIX name"
  unfolding fnmatchcase_def by (rule glob_prefix) (simp add: PLACE_PREFIX_def)

lemma place_is_broker: "starts_with PLACE_PREFIX name \<Longrightarrow> starts_with BROKER_PREFIX name \<and> \<not> starts_with FUND_PREFIX name"
proof -
  assume "starts_with PLACE_PREFIX name"
  then have "name = PLACE_PREFIX @ drop (length PLACE_PREFIX) name" by (metis append_take_drop_id starts_with_def)
  then obtain r where "name = PLACE_PREFIX @ r" by blast
  then show ?thesis by (simp add: starts_with_def PLACE_PREFIX_def BROKER_PREFIX_def FUND_PREFIX_def)
qed

text \<open>
  C21: a turn's surface is never widened, and no turn is handed an order tool that is not
  gated. Options that were built with an override hold exactly the override, which names
  concrete tools only: tools of the fund's server that the seat is granted, and broker tools that the seat's
  standing patterns admit. When one of them places orders, the seat trades and the order gate is attached.
  The paper-trading switch is on whatever the seat.
\<close>

theorem override_never_widens:
  assumes "build_seat_options cfg charter server (Some names) = Inr opts"
  shows "op_tools opts = names \<and> names \<noteq> [] \<and> op_paper_trade opts = ''true'' \<and> op_gated opts = trades cfg \<and>
    (\<forall>n\<in>set names. set n \<inter> set ''*?['' = {} \<and>
       (starts_with FUND_PREFIX n \<and> can (ct_seat cfg) (drop (length FUND_PREFIX) n) \<or>
        starts_with BROKER_PREFIX n \<and> (\<exists>g\<in>set (ct_tools cfg). fnmatchcase n g)) \<and>
       (starts_with PLACE_PREFIX n \<longrightarrow> op_gated opts))"
proof -
  have t: "turn_tools cfg (Some names) = Inr names" "names \<noteq> []" "\<forall>n\<in>set names. judge_tool cfg n = Fine"
    and o: "op_tools opts = names" "op_paper_trade opts = ''true''" "op_gated opts = trades cfg"
    using assms by (auto simp: build_seat_options_def turn_tools_def res_bind_Inr split: if_splits) (metis complaint.exhaust)+
  have "set n \<inter> set ''*?['' = {} \<and> (starts_with FUND_PREFIX n \<and> can (ct_seat cfg) (drop (length FUND_PREFIX) n) \<or>
        starts_with BROKER_PREFIX n \<and> (\<exists>g\<in>set (ct_tools cfg). fnmatchcase n g)) \<and> (starts_with PLACE_PREFIX n \<longrightarrow> trades cfg)"
    if n: "n \<in> set names" for n
  proof -
    have f: "judge_tool cfg n = Fine" using t(3) n by blast
    have no_meta: "set n \<inter> set ''*?['' = {}" using f by (auto simp: judge_tool_def list_ex_iff split: if_splits)
    show ?thesis
    proof (cases "starts_with FUND_PREFIX n")
      case True
      then have "n \<in> set (served_fund (ct_seat cfg))" using f by (auto simp: judge_tool_def split: if_splits)
      then have "can (ct_seat cfg) (drop (length FUND_PREFIX) n)" by (cases "map_of SEAT_CAPS (ct_seat cfg)") (auto simp: served_fund_def can_def)
      then show ?thesis using True no_meta place_is_broker by blast
    next
      case False
      then have "starts_with BROKER_PREFIX n" "list_ex (fnmatchcase n) (ct_tools cfg)"
        "\<not> (fnmatchcase n (PLACE_PREFIX @ ''*'') \<and> \<not> trades cfg)" using f by (auto simp: judge_tool_def split: if_splits)
      then show ?thesis using no_meta place_glob by (auto simp: list_ex_iff)
    qed
  qed
  then show ?thesis using t(2) o by simp
qed


section \<open>The charter's version is read back\<close>

lemma dec_is_word: "is_dec c \<Longrightarrow> is_word c"
  by (simp add: is_dec_def is_word_def Let_def)

lemma takeWhile_digits:
  assumes "list_all is_dec ds" and "rest = [] \<or> \<not> is_word (hd rest)"
  shows "takeWhile is_dec (ds @ rest) = ds"
proof -
  have "takeWhile is_dec rest = []" using assms(2) dec_is_word by (cases rest) auto
  then show ?thesis using assms(1) by (simp add: takeWhile_append2 list_all_iff)
qed

lemma find_version_after:
  assumes "\<forall>c\<in>set t. \<not> is_dec c" and "list_all is_dec ds" and "ds \<noteq> []" and "rest = [] \<or> \<not> is_word (hd rest)"
  shows "find_version aw (t @ '' v'' @ ds @ rest) = Some ds"
  using assms(1)
proof (induction t arbitrary: aw)
  case Nil
  then show ?case using takeWhile_digits [OF assms(2,4)] assms(3,4) by (simp add: Let_def is_word_def ord_of_def)
next
  case (Cons c t)
  have "takeWhile is_dec (t @ '' v'' @ ds @ rest) = []"
    using Cons.prems by (cases t) (simp_all add: is_dec_def ord_of_def)
  then show ?case using Cons.IH Cons.prems by (simp add: Let_def)
qed

text \<open>
  A charter's version is read back. A header that has no digit before it and ends in a
  space and \<open>v\<close> and a number, as the template writes it, yields that version, whatever the body of the charter says.
\<close>

theorem charter_version_round_trip:
  assumes "\<forall>c\<in>set title. \<not> is_dec c \<and> c \<noteq> CHR 0x0A"
  shows "parse_charter_version (title @ '' v'' @ str_of_nat n @ CHR 0x0A # body) = ''v'' @ str_of_nat n"
proof -
  have nl: "\<forall>c\<in>set (title @ '' v'' @ str_of_nat n). c \<noteq> CHR 0x0A"
  proof -
    have "c \<noteq> CHR 0x0A" if "is_dec c" for c using that by (auto simp: is_dec_def ord_of_def)
    then have "\<forall>c\<in>set (str_of_nat n). c \<noteq> CHR 0x0A" using str_of_nat_all_dec [of n] unfolding list_all_iff by blast
    then show ?thesis using assms by auto
  qed
  have "takeWhile (\<lambda>c. c \<noteq> CHR 0x0A) ((title @ '' v'' @ str_of_nat n) @ CHR 0x0A # body) = title @ '' v'' @ str_of_nat n"
    using nl by (subst takeWhile_append2) auto
  moreover have "find_version False (title @ '' v'' @ str_of_nat n @ []) = Some (str_of_nat n)"
    by (rule find_version_after) (use assms str_of_nat_all_dec str_of_nat_not_Nil in auto)
  ultimately show ?thesis by (simp add: parse_charter_version_def)
qed

section \<open>Witnesses\<close>

theorem charter_version_round_trip_witness:
  "parse_charter_version (''# Reviewer -'' @ '' v'' @ str_of_nat 6 @ CHR 0x0A # ''Body v9'') = ''v'' @ str_of_nat 6"
proof -
  have "\<forall>c\<in>set ''# Reviewer -''. \<not> is_dec c \<and> c \<noteq> CHR 0x0A" by (simp add: is_dec_def ord_of_def)
  from charter_version_round_trip [OF this, of 6 "''Body v9''"] show ?thesis .
qed

definition exec_config :: seat_config where
  "exec_config = \<lparr>ct_seat = ''exec'', ct_tools = [''mcp__fund__*'', ''mcp__alpaca__*''], ct_alpaca_toolsets = ''account, trading'',
     ct_disallowed_tools = None, ct_model = ''m'', ct_max_turns = 8\<rparr>"

lemma exec_surface: "turn_tools exec_config (Some [''mcp__fund__list_open_tickets'', ''mcp__alpaca__place_stock_order'']) =
    Inr [''mcp__fund__list_open_tickets'', ''mcp__alpaca__place_stock_order'']"
  by code_simp

text \<open>The same override for a seat that does not trade, and a pattern, are refused.\<close>

lemma critic_surface: "turn_tools (exec_config\<lparr>ct_seat := ''critic'', ct_alpaca_toolsets := ''stock-data''\<rparr>) (Some [''mcp__alpaca__place_stock_order'']) =
    Inl ValueError" "turn_tools exec_config (Some [''mcp__alpaca__*'']) = Inl ValueError"
  by code_simp+

theorem override_never_widens_witness:
  "\<exists>opts. build_seat_options exec_config ''# Exec v3'' (golden_server ''exec'')
      (Some [''mcp__fund__list_open_tickets'', ''mcp__alpaca__place_stock_order'']) = Inr opts \<and> op_gated opts"
proof -
  obtain opts where b: "build_seat_options exec_config ''# Exec v3'' (golden_server ''exec'')
      (Some [''mcp__fund__list_open_tickets'', ''mcp__alpaca__place_stock_order'']) = Inr opts"
    unfolding build_seat_options_def exec_surface by (simp add: build_fund_server_def SEAT_CAPS_def exec_config_def)
  have "starts_with PLACE_PREFIX ''mcp__alpaca__place_stock_order''" by (simp add: starts_with_def PLACE_PREFIX_def)
  then show ?thesis using override_never_widens [OF b] b by auto
qed

end
