(* ===== verification/Resolve.thy ===== *)
theory Resolve imports Improve StageProps begin

text \<open>
  orchestrator/pnl.py and orchestrator/resolve.py: the day's P&L against SPY, and the nightly
  resolution of the decisions that have reached their horizon. The broker source and the
  clock are ports; the conversion of a moment to its New York date is a parameter.
\<close>

section \<open>Figures\<close>

text \<open>Only TypeError and ValueError of \<open>float\<close> are caught.\<close>

definition finite_of :: "pyval \<Rightarrow> pyfloat option res" where
  "finite_of v = (case float_of v of
      Inr f \<Rightarrow> Inr (if isfinite f then Some f else None)
    | Inl e \<Rightarrow> if e = TypeError \<or> e = ValueError then Inr None else Inl e)"

text \<open>The closes: the moments of the rows, and a column of values for each ticker.\<close>

record frame =
  fr_index :: "time list"
  fr_columns :: "(string \<times> pyval list) list"

record 'x source =
  so_account_state :: "'x \<Rightarrow> pydict res \<times> 'x"
  so_close_frame :: "string list \<Rightarrow> time \<Rightarrow> 'x \<Rightarrow> frame res \<times> 'x"
  so_now :: "'x \<Rightarrow> time \<times> 'x"
  so_et_date :: "time \<Rightarrow> date"

definition now_of :: "'x source \<Rightarrow> ('x world, time) prog" where
  "now_of S = on_port (\<lambda>x. case so_now S x of (t, x') \<Rightarrow> (Inr t, x'))"

section \<open>The profit and loss of the day\<close>

definition spy_closes :: "'x source \<Rightarrow> time \<Rightarrow> ('x world, pyfloat \<times> pyfloat \<times> date) prog" where
  "spy_closes S end_time = andthen (on_port (so_close_frame S [''SPY''] end_time)) (\<lambda>f.
     case map_of (fr_columns f) ''SPY'' of None \<Rightarrow> raise PnlUnavailable
     | Some col \<Rightarrow>
        if length (fr_index f) < 2 then raise PnlUnavailable
        else let n = length (fr_index f) in
          andthen (lift_res (finite_of (col ! (n - 2)))) (\<lambda>p. andthen (lift_res (finite_of (col ! (n - 1)))) (\<lambda>l.
            case (p, l) of
              (Some prev, Some last_close) \<Rightarrow> if fle prev (Fin 0) then raise PnlUnavailable
                else ret (prev, last_close, so_et_date S (fr_index f ! (n - 1)))
            | _ \<Rightarrow> raise PnlUnavailable)))"

record pnl =
  pn_run_date :: date
  pn_equity :: pyfloat
  pn_usd :: pyfloat
  pn_pct :: pyfloat
  pn_spy_pct :: pyfloat
  pn_alpha :: pyfloat

definition eod_pnl :: "'x source \<Rightarrow> ('x world, pnl) prog" where
  "eod_pnl S = andthen (now_of S) (\<lambda>now. andthen (on_port (so_account_state S)) (\<lambda>account.
     andthen (lift_res (finite_of (dget account ''equity''))) (\<lambda>e. andthen (lift_res (finite_of (dget account ''last_equity''))) (\<lambda>le.
     case (e, le) of
       (Some eq, Some last_eq) \<Rightarrow>
         if fle last_eq (Fin 0) then raise PnlUnavailable else
         andthen (spy_closes S now) (\<lambda>(spy_prev, spy_last, bar_date).
         if bar_date \<noteq> so_et_date S now then raise PnlUnavailable else
         andthen (lift_res (fdiv (fsub eq last_eq) last_eq)) (\<lambda>pct.
         andthen (lift_res (fdiv (fsub spy_last spy_prev) spy_prev)) (\<lambda>spy.
         ret \<lparr>pn_run_date = so_et_date S now, pn_equity = eq, pn_usd = fsub eq last_eq, pn_pct = pct,
              pn_spy_pct = spy, pn_alpha = fsub pct spy\<rparr>)))
     | _ \<Rightarrow> raise PnlUnavailable))))"

section \<open>Resolutions\<close>

definition BENCHMARK :: string where "BENCHMARK = ''SPY''"

text \<open>A left join: the matching rows, or one row of nulls.\<close>

definition left_join :: "('a \<Rightarrow> bool) \<Rightarrow> 'a list \<Rightarrow> 'a option list" where
  "left_join P xs = (case filter P xs of [] \<Rightarrow> [None] | ys \<Rightarrow> map Some ys)"

record due_row =
  du_id :: int
  du_run_date :: date
  du_ticker :: string
  du_fill :: pyval

definition order_of_ticket :: "db \<Rightarrow> ticket option \<Rightarrow> order option list" where
  "order_of_ticket s t = (case t of None \<Rightarrow> [None]
     | Some k \<Rightarrow> left_join (\<lambda>q. o_client_order_id q = t_id k \<and> 0 < o_filled_qty q) (orders s))"

definition fill_of :: "order option \<Rightarrow> pyval" where
  "fill_of q = (case q of None \<Rightarrow> PNone | Some r \<Rightarrow> (case o_filled_avg_price r of None \<Rightarrow> PNone | Some p \<Rightarrow> PFloat p))"

definition due_rows :: "db \<Rightarrow> due_row list" where
  "due_rows s = sort_key du_run_date (sort_key du_id (concat (map (\<lambda>d.
      map (\<lambda>q. \<lparr>du_id = d_id d, du_run_date = d_run_date d, du_ticker = d_ticker d, du_fill = fill_of q\<rparr>)
        (concat (map (order_of_ticket s) (left_join (\<lambda>t. t_decision_id t = d_id d) (tickets s)))))
      (filter (\<lambda>d. d_id d \<notin> r_decision_id ` set (resolutions s)) (decisions s)))))"

fun index_of :: "'a \<Rightarrow> 'a list \<Rightarrow> nat option" where
  "index_of x [] = None"
| "index_of x (y # ys) = (if x = y then Some 0 else map_option Suc (index_of x ys))"

text \<open>A null and a zero are both falsy.\<close>

definition nonzero :: "pyfloat option \<Rightarrow> pyfloat option" where
  "nonzero v = (case v of Some (Fin q) \<Rightarrow> if q = 0 then None else v | _ \<Rightarrow> v)"

definition column_at :: "frame \<Rightarrow> string \<Rightarrow> nat \<Rightarrow> pyfloat option res" where
  "column_at f ticker i = (case map_of (fr_columns f) ticker of None \<Rightarrow> Inl KeyError
     | Some col \<Rightarrow> if i < length col then finite_of (col ! i) else Inl IndexError)"

definition measure_row :: "frame \<Rightarrow> date list \<Rightarrow> due_row \<Rightarrow> nat \<Rightarrow> (pyfloat \<times> pyfloat) option res" where
  "measure_row f sessions row horizon =
     (if map_of (fr_columns f) (du_ticker row) = None then Inr None else
      case index_of (du_run_date row) sessions of None \<Rightarrow> Inr None | Some start \<Rightarrow>
      if length sessions \<le> start + horizon then Inr None else
      res_bind (finite_of (du_fill row)) (\<lambda>fill.
      res_bind (case nonzero fill of Some x \<Rightarrow> Inr (Some x) | None \<Rightarrow> column_at f (du_ticker row) start) (\<lambda>entry.
      res_bind (column_at f (du_ticker row) (start + horizon)) (\<lambda>exit.
      res_bind (column_at f BENCHMARK start) (\<lambda>spy_in. res_bind (column_at f BENCHMARK (start + horizon)) (\<lambda>spy_out.
      case (nonzero entry, exit, nonzero spy_in, spy_out) of
        (Some e, Some x, Some i, Some out) \<Rightarrow>
          if fle e (Fin 0) \<or> fle i (Fin 0) then Inr None
          else res_bind (fdiv (fsub x e) e) (\<lambda>realized. res_bind (fdiv (fsub out i) i) (\<lambda>spy. Inr (Some (realized, fsub realized spy))))
      | _ \<Rightarrow> Inr None))))))"

definition too_young :: "date list \<Rightarrow> date \<Rightarrow> nat \<Rightarrow> bool" where
  "too_young sessions rd horizon = (case index_of rd sessions of None \<Rightarrow> False | Some i \<Rightarrow> length sessions \<le> i + horizon)"

record resolve_counts =
  rc_resolved :: nat
  rc_skipped :: nat
  rc_pending :: nat

text \<open>SQLite stores a NaN as NULL, which the table forbids.\<close>

definition insert_resolution :: "resolution \<Rightarrow> (db, unit) prog" where
  "insert_resolution r s =
     (if r_realized_return r = NaN \<or> r_alpha_vs_spy r = NaN then (Inl IntegrityCheck, s)
      else if list_ex (\<lambda>q. r_decision_id q = r_decision_id r) (resolutions s) then (Inl IntegrityUnique, s)
      else (Inr (), s\<lparr>resolutions := resolutions s @ [r]\<rparr>))"

definition resolve_one :: "frame \<Rightarrow> date list \<Rightarrow> nat \<Rightarrow> time \<Rightarrow> due_row \<Rightarrow> resolve_counts \<Rightarrow> (db, resolve_counts) prog" where
  "resolve_one f sessions horizon now row c =
     andthen (lift_res (measure_row f sessions row horizon)) (\<lambda>outcome. case outcome of
       None \<Rightarrow> ret (if too_young sessions (du_run_date row) horizon then c\<lparr>rc_pending := rc_pending c + 1\<rparr>
                     else c\<lparr>rc_skipped := rc_skipped c + 1\<rparr>)
     | Some (realized, alpha) \<Rightarrow>
         andthen (insert_resolution \<lparr>r_decision_id = du_id row, r_horizon_days = int horizon, r_realized_return = realized,
             r_alpha_vs_spy = alpha, r_invalidated = 0, r_reflection = None, r_resolved_at = now\<rparr>)
           (\<lambda>_. ret (c\<lparr>rc_resolved := rc_resolved c + 1\<rparr>)))"

text \<open>One commit at the end: an exception ends the job and its transaction.\<close>

definition resolve_due :: "'x source \<Rightarrow> nat \<Rightarrow> ('x world, resolve_counts) prog" where
  "resolve_due S horizon = andthen (now_of S) (\<lambda>now. andthen (on_db (gets due_rows)) (\<lambda>due.
     if due = [] then ret \<lparr>rc_resolved = 0, rc_skipped = 0, rc_pending = 0\<rparr> else
     andthen (on_port (so_close_frame S (sort (remdups (BENCHMARK # map du_ticker due))) now)) (\<lambda>f.
     on_db (rolled_back (fold_each (resolve_one f (map (so_et_date S) (fr_index f)) horizon now) due
       \<lparr>rc_resolved = 0, rc_skipped = 0, rc_pending = 0\<rparr>)))))"


section \<open>The facts\<close>

lemma finite_of_Fin: "finite_of v = Inr (Some x) \<Longrightarrow> \<exists>q. x = Fin q"
  by (auto simp: finite_of_def isfinite_iff split: sum.splits if_splits)

lemma on_port_Inr: "on_port m (s, x) = (Inr y, w) \<longleftrightarrow> (\<exists>x'. m x = (Inr y, x') \<and> w = (s, x'))"
  by (auto simp: on_port_def split: prod.splits)

lemma lift_res_Inr: "lift_res r w = (Inr y, w') \<longleftrightarrow> r = Inr y \<and> w' = w"
  by (auto simp: lift_res_def)

lemma spy_closes_Inr:
  assumes "spy_closes S t (s, x) = (Inr (a, b, d), w)"
  shows "\<exists>(f::frame) x' p q. w = (s, x') \<and> a = Fin p \<and> b = Fin q \<and> 0 < p \<and> 2 \<le> length (fr_index f) \<and> d = so_et_date S (last (fr_index f))"
proof -
  obtain f x1 where f: "so_close_frame S [''SPY''] t x = (Inr f, x1)"
    using assms by (auto simp: spy_closes_def andthen_Inr on_port_Inr)
  obtain col where c: "map_of (fr_columns f) ''SPY'' = Some col"
    using assms f by (cases "map_of (fr_columns f) ''SPY''") (auto simp: spy_closes_def andthen_def on_port_def raise_def)
  have n: "2 \<le> length (fr_index f)"
    using assms f c by (cases "length (fr_index f) < 2") (auto simp: spy_closes_def andthen_def on_port_def raise_def)
  let ?n = "length (fr_index f)"
  obtain u v where uv: "finite_of (col ! (?n - 2)) = Inr u" "finite_of (col ! (?n - 1)) = Inr v"
    and r: "(case (u, v) of (Some prev, Some last_close) \<Rightarrow> if fle prev (Fin 0) then raise PnlUnavailable
                else ret (prev, last_close, so_et_date S (fr_index f ! (?n - 1))) | _ \<Rightarrow> raise PnlUnavailable) (s, x1) = (Inr (a, b, d), w)"
    using assms f c n by (auto simp: spy_closes_def andthen_Inr on_port_Inr lift_res_Inr Let_def)
  obtain prev where p: "u = Some prev" using r by (cases u) (auto simp: raise_def)
  obtain l where l: "v = Some l" using r p by (cases v) (auto simp: raise_def)
  have "\<not> fle prev (Fin 0)" "a = prev" "b = l" "d = so_et_date S (fr_index f ! (?n - 1))" "w = (s, x1)"
    using r p l by (auto simp: raise_def ret_def split: if_splits)
  moreover obtain pq lq where "prev = Fin pq" "l = Fin lq" using finite_of_Fin uv p l by metis
  moreover have "fr_index f ! (?n - 1) = last (fr_index f)" using n by (cases "fr_index f = []") (auto simp: last_conv_nth)
  ultimately show ?thesis using n by (intro exI [of _ f]) auto
qed

text \<open>
  No figure is posted that the data does not support. A profit and loss is computed only from
  a finite equity, a finite and positive equity of the day before, and two finite closes of
  SPY, the earlier one positive and the later one of the very day; in every other case the job raises.
  The database is not touched.
\<close>

theorem pnl_is_measured:
  assumes "eod_pnl S (s, x) = (Inr p, (s', x'))"
  shows "s' = s \<and> (\<exists>account (f::frame) e l a b. pn_run_date p = so_et_date S (fst (so_now S x)) \<and>
    finite_of (dget account ''equity'') = Inr (Some (Fin e)) \<and> finite_of (dget account ''last_equity'') = Inr (Some (Fin l)) \<and> 0 < l \<and>
    2 \<le> length (fr_index f) \<and> so_et_date S (last (fr_index f)) = pn_run_date p \<and> 0 < a \<and>
    fdiv (fsub (Fin e) (Fin l)) (Fin l) = Inr (pn_pct p) \<and> fdiv (fsub (Fin b) (Fin a)) (Fin a) = Inr (pn_spy_pct p) \<and>
    pn_alpha p = fsub (pn_pct p) (pn_spy_pct p) \<and> pn_usd p = fsub (Fin e) (Fin l))"
proof -
  obtain now x1 where now: "so_now S x = (now, x1)" by (cases "so_now S x")
  obtain account x2 u v where acc: "so_account_state S x1 = (Inr account, x2)" "finite_of (dget account ''equity'') = Inr u"
    "finite_of (dget account ''last_equity'') = Inr v"
    and r: "(case (u, v) of (Some eq, Some last_eq) \<Rightarrow> if fle last_eq (Fin 0) then raise PnlUnavailable else
         andthen (spy_closes S now) (\<lambda>(spy_prev, spy_last, bar_date).
         if bar_date \<noteq> so_et_date S now then raise PnlUnavailable else
         andthen (lift_res (fdiv (fsub eq last_eq) last_eq)) (\<lambda>pct.
         andthen (lift_res (fdiv (fsub spy_last spy_prev) spy_prev)) (\<lambda>spy.
         ret \<lparr>pn_run_date = so_et_date S now, pn_equity = eq, pn_usd = fsub eq last_eq, pn_pct = pct,
              pn_spy_pct = spy, pn_alpha = fsub pct spy\<rparr>))) | _ \<Rightarrow> raise PnlUnavailable) (s, x2) = (Inr p, (s', x'))"
    using assms now by (auto simp: eod_pnl_def now_of_def andthen_Inr on_port_Inr lift_res_Inr)
  obtain eq where e: "u = Some eq" using r by (cases u) (auto simp: raise_def)
  obtain last_eq where l: "v = Some last_eq" using r e by (cases v) (auto simp: raise_def)
  have pos: "\<not> fle last_eq (Fin 0)" using r e l by (auto simp: raise_def split: if_splits)
  obtain a b d w where sp: "spy_closes S now (s, x2) = (Inr (a, b, d), w)" and d: "d = so_et_date S now"
    and q: "fdiv (fsub eq last_eq) last_eq = Inr (pn_pct p)" "fdiv (fsub b a) a = Inr (pn_spy_pct p)" "w = (s', x')"
      "pn_run_date p = so_et_date S now" "pn_usd p = fsub eq last_eq" "pn_alpha p = fsub (pn_pct p) (pn_spy_pct p)"
    using r e l pos by (auto simp: andthen_Inr lift_res_Inr raise_def ret_def split: if_splits)
  obtain eqq lq where fin: "eq = Fin eqq" "last_eq = Fin lq" using finite_of_Fin acc(2,3) e l by metis
  obtain f :: frame and y pa pb where f: "w = (s, y)" "a = Fin pa" "b = Fin pb" "0 < pa" "2 \<le> length (fr_index f)" "d = so_et_date S (last (fr_index f))"
    using spy_closes_Inr [OF sp] by blast
  show ?thesis
    by (rule conjI, use f q in simp, rule exI [of _ account], rule exI [of _ f], rule exI [of _ eqq], rule exI [of _ lq],
        rule exI [of _ pa], rule exI [of _ pb]) (use f q d acc e l pos now fin in auto)
qed


text \<open>A decision that is due is one with no resolution, and it is listed once.\<close>

lemma length_left_join: "length (filter P xs) \<le> 1 \<Longrightarrow> length (left_join P xs) = 1"
  by (cases "filter P xs") (auto simp: left_join_def)

lemma unique_filter: "unique_on k xs \<Longrightarrow> length (filter (\<lambda>x. k x = c \<and> P x) xs) \<le> 1"
proof (induction xs)
  case (Cons x xs)
  have "filter (\<lambda>y. k y = c \<and> P y) xs = []" if "k x = c"
  proof -
    have "k x \<notin> k ` set xs" using Cons.prems by (simp add: unique_on_def)
    then have "\<forall>y\<in>set xs. k y \<noteq> c" using that by (metis imageI)
    then show ?thesis by (simp add: filter_empty_conv)
  qed
  then show ?case using Cons by (auto simp: unique_on_def)
qed simp

lemma concat_map_single: "(\<And>d. map h (g d) = [k d]) \<Longrightarrow> map h (concat (map g xs)) = map k xs"
  by (induction xs) simp_all

lemma due_ids:
  assumes "db_wf s"
  shows "distinct (map du_id (due_rows s))" "\<forall>r\<in>set (due_rows s). du_id r \<notin> r_decision_id ` set (resolutions s)"
proof -
  let ?due = "filter (\<lambda>d. d_id d \<notin> r_decision_id ` set (resolutions s)) (decisions s)"
  let ?rows = "\<lambda>d. map (\<lambda>q. \<lparr>du_id = d_id d, du_run_date = d_run_date d, du_ticker = d_ticker d, du_fill = fill_of q\<rparr>)
        (concat (map (order_of_ticket s) (left_join (\<lambda>t. t_decision_id t = d_id d) (tickets s))))"
  have one: "length (?rows d) = 1" for d
  proof -
    have "length (left_join (\<lambda>t. t_decision_id t = d_id d) (tickets s)) = 1"
      using unique_filter [of t_decision_id "tickets s" "d_id d" "\<lambda>_. True"] assms by (intro length_left_join) (simp add: db_wf_def)
    then obtain t where t: "left_join (\<lambda>t. t_decision_id t = d_id d) (tickets s) = [t]" by (cases "left_join (\<lambda>t. t_decision_id t = d_id d) (tickets s)") auto
    have "length (order_of_ticket s t) = 1"
    proof (cases t)
      case (Some k)
      have "length (left_join (\<lambda>q. o_client_order_id q = t_id k \<and> 0 < o_filled_qty q) (orders s)) = 1"
        by (rule length_left_join, rule unique_filter) (use assms in \<open>simp add: db_wf_def\<close>)
      then show ?thesis using Some by (simp add: order_of_ticket_def)
    qed (simp add: order_of_ticket_def)
    then show ?thesis using t by simp
  qed
  then have row: "map du_id (?rows d) = [d_id d]" for d
  proof -
    obtain r where "?rows d = [r]" using one [of d] by (cases "?rows d") auto
    moreover have "\<forall>r\<in>set (?rows d). du_id r = d_id d" by auto
    ultimately show ?thesis by simp
  qed
  have ids: "map du_id (concat (map ?rows ?due)) = map d_id ?due"
    by (rule concat_map_single, rule row)
  have dist: "distinct (map d_id ?due)" using assms by (simp add: db_wf_def unique_on_def distinct_map_filter)
  have "mset (map du_id (due_rows s)) = mset (map du_id (concat (map ?rows ?due)))"
    unfolding due_rows_def by (simp add: mset_map del: map_map)
  from mset_eq_imp_distinct_iff [OF this] show "distinct (map du_id (due_rows s))" unfolding ids using dist by blast
  show "\<forall>r\<in>set (due_rows s). du_id r \<notin> r_decision_id ` set (resolutions s)"
    unfolding due_rows_def set_sort set_concat set_map by auto
qed


text \<open>The entry is the price the order was filled at, and the close of the day only where there is none.\<close>

definition entry_price :: "frame \<Rightarrow> due_row \<Rightarrow> nat \<Rightarrow> rat \<Rightarrow> bool" where
  "entry_price f row start e \<longleftrightarrow> (if \<exists>p. finite_of (du_fill row) = Inr (Some (Fin p)) \<and> p \<noteq> 0
     then finite_of (du_fill row) = Inr (Some (Fin e)) else column_at f (du_ticker row) start = Inr (Some (Fin e)))"

text \<open>
  What a resolution on record says: both moves over the same sessions of one frame, from finite prices. The
  sessions are those of the frame's own index.
\<close>

definition measured :: "frame \<Rightarrow> date list \<Rightarrow> nat \<Rightarrow> due_row \<Rightarrow> resolution \<Rightarrow> bool" where
  "measured f sessions horizon row r \<longleftrightarrow> r_decision_id r = du_id row \<and> r_horizon_days r = int horizon \<and>
     (\<exists>start e x i out. index_of (du_run_date row) sessions = Some start \<and> start + horizon < length sessions \<and>
        0 < e \<and> 0 < i \<and> column_at f (du_ticker row) (start + horizon) = Inr (Some (Fin x)) \<and>
        entry_price f row start e \<and>
        column_at f ''SPY'' start = Inr (Some (Fin i)) \<and> column_at f ''SPY'' (start + horizon) = Inr (Some (Fin out)) \<and>
        fdiv (fsub (Fin x) (Fin e)) (Fin e) = Inr (r_realized_return r) \<and>
        (\<exists>spy. fdiv (fsub (Fin out) (Fin i)) (Fin i) = Inr spy \<and> r_alpha_vs_spy r = fsub (r_realized_return r) spy))"

lemma nonzero_Some: "nonzero v = Some y \<Longrightarrow> v = Some y \<and> y \<noteq> Fin 0"
  by (cases v; cases "the v") (auto simp: nonzero_def split: if_splits)

lemma column_Fin: "column_at f k i = Inr (Some y) \<Longrightarrow> \<exists>q. y = Fin q"
  by (auto simp: column_at_def dest: finite_of_Fin split: option.splits if_splits)

lemma measure_row_Some:
  assumes "measure_row f sessions row horizon = Inr (Some (realized, alpha))"
  shows "\<exists>start e x i out spy. index_of (du_run_date row) sessions = Some start \<and> start + horizon < length sessions \<and>
        0 < e \<and> 0 < i \<and> column_at f (du_ticker row) (start + horizon) = Inr (Some (Fin x)) \<and>
        entry_price f row start e \<and>
        column_at f BENCHMARK start = Inr (Some (Fin i)) \<and> column_at f BENCHMARK (start + horizon) = Inr (Some (Fin out)) \<and>
        fdiv (fsub (Fin x) (Fin e)) (Fin e) = Inr realized \<and> fdiv (fsub (Fin out) (Fin i)) (Fin i) = Inr spy \<and> alpha = fsub realized spy"
proof -
  obtain start where st: "index_of (du_run_date row) sessions = Some start" "start + horizon < length sessions"
    using assms by (auto simp: measure_row_def not_le split: if_splits option.splits)
  obtain fill entry ex spy_in spy_out where c: "finite_of (du_fill row) = Inr fill"
    "(case nonzero fill of Some x \<Rightarrow> Inr (Some x) | None \<Rightarrow> column_at f (du_ticker row) start) = Inr entry"
    "column_at f (du_ticker row) (start + horizon) = Inr ex" "column_at f BENCHMARK start = Inr spy_in"
    "column_at f BENCHMARK (start + horizon) = Inr spy_out"
    and r: "(case (nonzero entry, ex, nonzero spy_in, spy_out) of
        (Some e, Some x, Some i, Some out) \<Rightarrow>
          if fle e (Fin 0) \<or> fle i (Fin 0) then Inr None
          else res_bind (fdiv (fsub x e) e) (\<lambda>realized. res_bind (fdiv (fsub out i) i) (\<lambda>spy. Inr (Some (realized, fsub realized spy))))
      | _ \<Rightarrow> Inr None) = Inr (Some (realized, alpha))"
    using assms st by (auto simp: measure_row_def res_bind_Inr simp del: not_None_eq split: if_splits)
  obtain e x i out where v: "nonzero entry = Some e" "ex = Some x" "nonzero spy_in = Some i" "spy_out = Some out"
    using r by (auto split: option.splits)
  have "\<not> (fle e (Fin 0) \<or> fle i (Fin 0))" using r v by (auto split: if_splits)
  moreover obtain spy where q: "fdiv (fsub x e) e = Inr realized" "fdiv (fsub out i) i = Inr spy" "alpha = fsub realized spy"
    using r v by (auto simp: res_bind_Inr split: if_splits)
  moreover have en: "if \<exists>p. fill = Some (Fin p) \<and> p \<noteq> 0 then fill = Some e else column_at f (du_ticker row) start = Inr (Some e)"
  proof (cases "nonzero fill")
    case None
    then have "\<not> (\<exists>p. fill = Some (Fin p) \<and> p \<noteq> 0)" by (auto simp: nonzero_def split: if_splits)
    then show ?thesis using None c(2) nonzero_Some [OF v(1)] by auto
  next
    case (Some y)
    then have "fill = Some y" "y \<noteq> Fin 0" "e = y" using nonzero_Some [OF Some] nonzero_Some [OF v(1)] c(2) by auto
    then show ?thesis using finite_of_Fin c(1) by fastforce
  qed
  moreover have "\<exists>q. e = Fin q" using en c(1) finite_of_Fin column_Fin by (auto split: if_splits)
  moreover have "\<exists>q. x = Fin q" "\<exists>q. out = Fin q" "\<exists>q. i = Fin q"
    using column_Fin [of f "du_ticker row" "start + horizon" x] column_Fin [of f BENCHMARK "start + horizon" out]
      column_Fin [of f BENCHMARK start i] c(3-5) v nonzero_Some [OF v(3)] by simp_all
  then obtain xq oq iq where "x = Fin xq" "out = Fin oq" "i = Fin iq" by blast
  ultimately obtain eq where fin: "e = Fin eq" "x = Fin xq" "i = Fin iq" "out = Fin oq" and neg: "\<not> (fle e (Fin 0) \<or> fle i (Fin 0))"
    and q: "fdiv (fsub x e) e = Inr realized" "fdiv (fsub out i) i = Inr spy" "alpha = fsub realized spy"
    and en: "if \<exists>p. fill = Some (Fin p) \<and> p \<noteq> 0 then fill = Some e else column_at f (du_ticker row) start = Inr (Some e)" by blast
  have "entry_price f row start eq" using en c(1) fin(1) by (auto simp: entry_price_def split: if_splits)
  then show ?thesis using fin neg q st c v nonzero_Some [OF v(3)]
    by (rule_tac exI [of _ start], rule_tac exI [of _ eq], rule_tac exI [of _ xq], rule_tac exI [of _ iq], rule_tac exI [of _ oq], rule_tac exI [of _ spy])
      (simp del: fdiv.simps)
qed


lemma resolve_one_run:
  assumes "resolve_one f sessions horizon now row c s = (Inr c', s')" and "du_id row \<notin> r_decision_id ` set (resolutions s)"
  shows "(s' = s \<and> rc_resolved c' = rc_resolved c \<or> (\<exists>r. s' = s\<lparr>resolutions := resolutions s @ [r]\<rparr> \<and> rc_resolved c' = Suc (rc_resolved c) \<and>
      r_resolved_at r = now \<and> measured f sessions horizon row r)) \<and>
    rc_resolved c' + rc_skipped c' + rc_pending c' = Suc (rc_resolved c + rc_skipped c + rc_pending c)"
proof -
  obtain o1 where m: "measure_row f sessions row horizon = Inr o1"
    using assms(1) by (cases "measure_row f sessions row horizon") (auto simp: resolve_one_def raise_def)
  show ?thesis
  proof (cases o1)
    case None
    then show ?thesis using assms(1) m by (auto simp: resolve_one_def ret_def split: if_splits)
  next
    case (Some p)
    obtain realized alpha where p: "p = (realized, alpha)" by (cases p)
    let ?r = "\<lparr>r_decision_id = du_id row, r_horizon_days = int horizon, r_realized_return = realized,
             r_alpha_vs_spy = alpha, r_invalidated = 0, r_reflection = None, r_resolved_at = now\<rparr>"
    have "measured f sessions horizon row ?r"
      using measure_row_Some [of f sessions row horizon realized alpha] m Some p unfolding measured_def resolution.simps BENCHMARK_def by blast
    moreover have "s' = s\<lparr>resolutions := resolutions s @ [?r]\<rparr> \<and> c' = c\<lparr>rc_resolved := rc_resolved c + 1\<rparr>"
      using assms(1) m Some p by (auto simp: resolve_one_def insert_resolution_def andthen_def ret_def split: if_splits)
    ultimately show ?thesis by auto
  qed
qed

lemma resolve_all_run:
  assumes "fold_each (resolve_one f sessions horizon now) rows c s = (Inr c', s')" and "distinct (map du_id rows)"
    and "\<forall>row\<in>set rows. du_id row \<notin> r_decision_id ` set (resolutions s)"
  shows "\<exists>new. s' = s\<lparr>resolutions := resolutions s @ new\<rparr> \<and> rc_resolved c' = rc_resolved c + length new \<and> distinct (map r_decision_id new) \<and>
      (\<forall>r\<in>set new. r_resolved_at r = now \<and> (\<exists>row\<in>set rows. measured f sessions horizon row r)) \<and>
    rc_resolved c' + rc_skipped c' + rc_pending c' = rc_resolved c + rc_skipped c + rc_pending c + length rows"
  using assms
proof (induction rows arbitrary: c s)
  case Nil
  then have "s' = s" "c' = c" by (simp_all add: ret_def)
  then show ?case by (intro exI [of _ "[]"]) simp
next
  case (Cons row rows)
  obtain c1 s1 where one: "resolve_one f sessions horizon now row c s = (Inr c1, s1)"
    "fold_each (resolve_one f sessions horizon now) rows c1 s1 = (Inr c', s')" using Cons.prems(1) by (auto simp: andthen_Inr)
  have due: "du_id row \<notin> r_decision_id ` set (resolutions s)" using Cons.prems(3) by simp
  have count: "rc_resolved c1 + rc_skipped c1 + rc_pending c1 = Suc (rc_resolved c + rc_skipped c + rc_pending c)"
    using resolve_one_run [OF one(1) due] by blast
  from resolve_one_run [OF one(1) due] consider "s1 = s" "rc_resolved c1 = rc_resolved c"
    | r where "s1 = s\<lparr>resolutions := resolutions s @ [r]\<rparr>" "rc_resolved c1 = Suc (rc_resolved c)" "r_resolved_at r = now" "measured f sessions horizon row r"
    by blast
  then show ?case
  proof cases
    case 1
    then obtain new where "s' = s\<lparr>resolutions := resolutions s @ new\<rparr> \<and> rc_resolved c' = rc_resolved c1 + length new \<and> distinct (map r_decision_id new) \<and>
      (\<forall>r\<in>set new. r_resolved_at r = now \<and> (\<exists>row\<in>set rows. measured f sessions horizon row r)) \<and>
      rc_resolved c' + rc_skipped c' + rc_pending c' = rc_resolved c1 + rc_skipped c1 + rc_pending c1 + length rows"
      using Cons.IH [of c1 s1] one(2) Cons.prems(2,3) by auto
    then show ?thesis using 1 count by (intro exI [of _ new]) auto
  next
    case (2 r)
    have id: "r_decision_id r = du_id row" using 2(4) by (simp add: measured_def)
    have "\<forall>row\<in>set rows. du_id row \<notin> r_decision_id ` set (resolutions s1)"
    proof -
      have "\<forall>q\<in>set rows. du_id q \<noteq> du_id row" using Cons.prems(2) by (auto simp: image_iff)
      then show ?thesis using Cons.prems(3) 2(1) id by auto
    qed
    then obtain new where n: "s' = s1\<lparr>resolutions := resolutions s1 @ new\<rparr>" "rc_resolved c' = rc_resolved c1 + length new" "distinct (map r_decision_id new)"
      "\<forall>r\<in>set new. r_resolved_at r = now \<and> (\<exists>row\<in>set rows. measured f sessions horizon row r)"
      "rc_resolved c' + rc_skipped c' + rc_pending c' = rc_resolved c1 + rc_skipped c1 + rc_pending c1 + length rows"
      using Cons.IH [of c1 s1] one(2) Cons.prems(2) by auto
    have "r_decision_id r \<notin> r_decision_id ` set new" using n(4) Cons.prems(2) id by (auto simp: measured_def)
    then show ?thesis using n 2 count by (intro exI [of _ "r # new"]) auto
  qed
qed

text \<open>
  C26: a decision is resolved once, and only from prices. A run writes one row, at most, for each decision that
  had none and touches no row there is. The row's two moves are read from the one frame of closes that the source returned when
  it was asked for these tickers and the benchmark: over the same sessions of its index, from the decision's day to
  the horizon, with a positive entry, the price of the fill where there is one, and a positive benchmark. Every decision that was due is counted as
  resolved, skipped or pending; and a run that raises leaves the table as it was.
\<close>

theorem decision_is_resolved_once:
  assumes "db_wf s" and "resolve_due S horizon (s, x) = (r, (s', x'))"
  shows "case r of Inl e \<Rightarrow> s' = s
    | Inr c \<Rightarrow> (\<exists>new. s' = s\<lparr>resolutions := resolutions s @ new\<rparr> \<and> length new = rc_resolved c \<and> distinct (map r_decision_id new) \<and>
        r_decision_id ` set new \<inter> r_decision_id ` set (resolutions s) = {} \<and>
        (\<forall>q\<in>set new. r_resolved_at q = fst (so_now S x) \<and> (\<exists>f. \<exists>row\<in>set (due_rows s).
           fst (so_close_frame S (sort (remdups (''SPY'' # map du_ticker (due_rows s)))) (fst (so_now S x)) (snd (so_now S x))) = Inr f \<and>
           measured f (map (so_et_date S) (fr_index f)) horizon row q)) \<and>
        rc_resolved c + rc_skipped c + rc_pending c = length (due_rows s))"
proof -
  obtain now x1 where now: "so_now S x = (now, x1)" by (cases "so_now S x")
  show ?thesis
  proof (cases "due_rows s = []")
    case True
    then show ?thesis using assms(2) now by (auto simp: resolve_due_def now_of_def andthen_def on_port_def on_db_def gets_def ret_def)
  next
    case False
    obtain fr x2 where fr: "so_close_frame S (sort (remdups (BENCHMARK # map du_ticker (due_rows s)))) now x1 = (fr, x2)" by (metis surj_pair)
    show ?thesis
    proof (cases fr)
      case (Inl e)
      then show ?thesis using assms(2) now fr False by (auto simp: resolve_due_def now_of_def andthen_def on_port_def on_db_def gets_def Let_def)
    next
      case (Inr f)
      let ?sess = "map (so_et_date S) (fr_index f)" and ?c0 = "\<lparr>rc_resolved = 0, rc_skipped = 0, rc_pending = 0\<rparr>"
      obtain q u where run: "fold_each (resolve_one f ?sess horizon now) (due_rows s) ?c0 s = (q, u)" by (metis surj_pair)
      have res: "r = q \<and> s' = (case q of Inl _ \<Rightarrow> s | Inr _ \<Rightarrow> u)"
        using assms(2) now fr False Inr run
        by (cases q) (auto simp: resolve_due_def now_of_def andthen_def on_port_def on_db_def gets_def rolled_back_def)
      show ?thesis
      proof (cases q)
        case (Inl e)
        then show ?thesis using res by simp
      next
        case (Inr c)
        from resolve_all_run [OF run [unfolded Inr] due_ids [OF assms(1)]] obtain new where
          n: "u = s\<lparr>resolutions := resolutions s @ new\<rparr>" "rc_resolved c = length new" "distinct (map r_decision_id new)"
          "\<forall>q\<in>set new. r_resolved_at q = now \<and> (\<exists>row\<in>set (due_rows s). measured f ?sess horizon row q)" "rc_resolved c + rc_skipped c + rc_pending c = length (due_rows s)"
          by auto
        have "r_decision_id ` set new \<inter> r_decision_id ` set (resolutions s) = {}"
          using n(4) due_ids(2) [OF assms(1)] by (fastforce simp: measured_def)
        moreover have "so_close_frame S (sort (remdups (''SPY'' # map du_ticker (due_rows s)))) (fst (so_now S x)) (snd (so_now S x)) = (Inr f, x2)"
          using fr now \<open>fr = Inr f\<close> by (simp add: BENCHMARK_def)
        ultimately show ?thesis using res Inr n(1-5) now by (simp, intro exI [of _ new]) simp
      qed
    qed
  qed
qed


section \<open>Witnesses\<close>

definition toy_source :: "unit source" where
  "toy_source = \<lparr>so_account_state = (\<lambda>x. (Inr [(''equity'', PStr ''103''), (''last_equity'', PStr ''100'')], x)),
     so_close_frame = (\<lambda>_ _ x. (Inr \<lparr>fr_index = [0, 1], fr_columns = [(''SPY'', [PFloat (Fin 400), PFloat (Fin 404)]),
        (''NVDA'', [PFloat (Fin 100), PFloat (Fin 110)])]\<rparr>, x)),
     so_now = (\<lambda>x. (1, x)), so_et_date = (\<lambda>t. if t = 0 then ''2026-08-17'' else ''2026-08-18'')\<rparr>"

theorem pnl_is_measured_witness:
  "\<exists>p. eod_pnl toy_source (empty_db, ()) = (Inr p, (empty_db, ())) \<and> pn_run_date p = ''2026-08-18''"
proof -
  have "case fst (eod_pnl toy_source (empty_db, ())) of Inr _ \<Rightarrow> True | Inl _ \<Rightarrow> False" by code_simp
  moreover obtain r s' x' where q: "eod_pnl toy_source (empty_db, ()) = (r, (s', x'))" by (cases "eod_pnl toy_source (empty_db, ())" rule: prod_cases3)
  ultimately obtain p where p: "r = Inr p" by (cases r) auto
  from pnl_is_measured [OF q [unfolded p]] q p show ?thesis by (auto simp: toy_source_def)
qed

theorem decision_is_resolved_once_witness:
  "\<exists>c s' q. resolve_due toy_source 1 (one_decision, ()) = (Inr c, (s', ())) \<and> resolutions s' = [q] \<and> rc_resolved c = 1"
proof -
  let ?p = "resolve_due toy_source 1 (one_decision, ())"
  have k: "case fst ?p of Inr c \<Rightarrow> rc_resolved c = 1 | Inl _ \<Rightarrow> False" by code_simp
  obtain r s' x' where q: "?p = (r, (s', x'))" by (cases ?p rule: prod_cases3)
  from k obtain c where c: "r = Inr c" "rc_resolved c = 1" unfolding q by (cases r) auto
  from decision_is_resolved_once [OF one_decision_wf q] c obtain new where
    "s' = one_decision\<lparr>resolutions := resolutions one_decision @ new\<rparr>" "length new = 1" by auto
  moreover have "resolutions one_decision = []" by (simp add: one_decision_def empty_db_def)
  ultimately show ?thesis using q c by (cases new) auto
qed

end
