(* ===== verification/DayAudit.thy ===== *)
theory DayAudit imports Stages begin

text \<open>
  scripts/audit_day.py: what a clean day is, read back from the tables, and what
  \<open>report_audit\<close> of scripts/run_day.py makes of it. The midnights of a run date
  (\<open>strptime\<close> and the time-zone database) are the parameter \<open>day_window\<close>. A problem is a value
  whose text is \<open>problem_str\<close>.
\<close>

section \<open>The audit\<close>

definition STAGES :: "string list" where
  "STAGES = [''pre_gate'', ''research'', ''decision'', ''gate'', ''execution'', ''reconciliation'', ''close'']"

definition SELF_ALERT_KEY :: string where "SELF_ALERT_KEY = ''audit_report''"

datatype problem = Checkpoint_is string status | Checkpoint_missing string | Decision_stuck string status
  | No_decision string | Order_stuck string | Undrained nat | Dead_lettered nat | Alerts_raised nat | No_costs

fun problem_str :: "problem \<Rightarrow> string" where
  "problem_str (Checkpoint_is stage st) = ''checkpoint '' @ stage @ '' = '' @ status_str st"
| "problem_str (Checkpoint_missing stage) = ''checkpoint '' @ stage @ '' missing''"
| "problem_str (Decision_stuck symb st) = ''decision '' @ symb @ '' stuck at '' @ status_str st"
| "problem_str (No_decision symb) = ''no decision row for '' @ symb"
| "problem_str (Order_stuck coid) = ''order '' @ take 8 coid @ '' stuck submitted''"
| "problem_str (Undrained n) = ''undrained outbox events: '' @ str_of_nat n"
| "problem_str (Dead_lettered n) = ''dead-lettered outbox events: '' @ str_of_nat n"
| "problem_str (Alerts_raised n) = ''alert events raised: '' @ str_of_nat n"
| "problem_str No_costs = ''no cost rows recorded''"

text \<open>The dictionary \<open>seen\<close>: the last row of a stage wins.\<close>

definition day_checkpoints :: "date \<Rightarrow> db \<Rightarrow> checkpoint list" where
  "day_checkpoints rd s = filter (\<lambda>c. c_run_date c = rd) (checkpoints s)"

definition seen_stages :: "date \<Rightarrow> db \<Rightarrow> string \<Rightarrow> status option" where
  "seen_stages rd s = map_of (rev (map (\<lambda>c. (c_stage c, c_status c)) (day_checkpoints rd s)))"

definition checkpoint_problems :: "date \<Rightarrow> db \<Rightarrow> problem list" where
  "checkpoint_problems rd s =
     map (\<lambda>c. Checkpoint_is (c_stage c) (c_status c)) (filter (\<lambda>c. c_status c \<noteq> Done) (day_checkpoints rd s))
     @ map Checkpoint_missing (filter (\<lambda>st. seen_stages rd s st = None) STAGES)"

definition stuck_decisions :: "date \<Rightarrow> db \<Rightarrow> problem list" where
  "stuck_decisions rd s = map (\<lambda>d. Decision_stuck (d_ticker d) (d_status d))
     (sort_key d_ticker (filter (\<lambda>d. d_run_date d = rd \<and> d_status d \<in> {Submitted, Approved_st}) (decisions s)))"

definition undecided :: "date \<Rightarrow> db \<Rightarrow> problem list" where
  "undecided rd s = map No_decision (sort (remdups (map sg_ticker
     (filter (\<lambda>g. sg_run_date g = rd \<and> \<not> decided rd (sg_ticker g) s) (signals s)))))"

definition stuck_orders :: "date \<Rightarrow> db \<Rightarrow> problem list" where
  "stuck_orders rd s = map Order_stuck (sort (map o_client_order_id
     (filter (\<lambda>q. order_of_day s rd q \<and> o_status q = Submitted) (orders s))))"

text \<open>\<open>if n: bad.append(...)\<close>\<close>

definition counted :: "(nat \<Rightarrow> problem) \<Rightarrow> nat \<Rightarrow> problem list" where
  "counted mk n = (if n = 0 then [] else [mk n])"

text \<open>\<open>_count_today\<close>: the events of the window that satisfy the condition.\<close>

definition count_today :: "(event \<Rightarrow> bool) \<Rightarrow> time \<times> time \<Rightarrow> db \<Rightarrow> nat" where
  "count_today P win s =
     rowcount (\<lambda>e. P e \<and> fst win \<le> e_created_at e \<and> e_created_at e < snd win) (events s)"

text \<open>\<open>json_extract(payload, '$.audit_report') IS NOT 1\<close>: JSON's \<open>true\<close> is the integer 1.\<close>

definition foreign_alert :: "event \<Rightarrow> bool" where
  "foreign_alert e \<longleftrightarrow> e_kind e = ''alert'' \<and> num_val (dget (e_payload e) SELF_ALERT_KEY) \<noteq> Some (Fin 1)"

definition owes_cost :: "date \<Rightarrow> db \<Rightarrow> bool" where
  "owes_cost rd s \<longleftrightarrow>
     (rowcount (\<lambda>g. sg_run_date g = rd) (signals s) \<noteq> 0 \<or> seen_stages rd s ''research'' \<noteq> Some Done)
     \<and> rowcount (\<lambda>k. k_run_date k = rd) (costs s) = 0"

definition table_problems :: "date \<Rightarrow> db \<Rightarrow> problem list" where
  "table_problems rd s = checkpoint_problems rd s @ stuck_decisions rd s @ undecided rd s @ stuck_orders rd s"

definition audit :: "(date \<Rightarrow> (time \<times> time) res) \<Rightarrow> date \<Rightarrow> db \<Rightarrow> problem list res" where
  "audit day_window rd s = res_bind (day_window rd) (\<lambda>win. Inr (
     table_problems rd s
     @ counted Undrained (rowcount (\<lambda>e. e_posted_at e = None) (events s))
     @ counted Dead_lettered (count_today (\<lambda>e. e_kind e = ''projection_error'') win s)
     @ counted Alerts_raised (count_today foreign_alert win s)
     @ (if owes_cost rd s then [No_costs] else [])))"

definition audit_exit :: "(date \<Rightarrow> (time \<times> time) res) \<Rightarrow> string list \<Rightarrow> db \<Rightarrow> int res" where
  "audit_exit day_window argv s = (case argv of
     [_, _, rd] \<Rightarrow> res_bind (audit day_window rd s) (\<lambda>bad. Inr (if bad \<noteq> [] then 1 else 0))
   | _ \<Rightarrow> Inr 2)"

section \<open>What a clean audit says\<close>

text \<open>The specification: a day that owes nothing.\<close>

definition day_is_whole :: "date \<Rightarrow> time \<times> time \<Rightarrow> db \<Rightarrow> bool" where
  "day_is_whole rd win s \<longleftrightarrow>
     (\<forall>st\<in>set STAGES. \<exists>c\<in>set (checkpoints s). c_run_date c = rd \<and> c_stage c = st) \<and>
     (\<forall>c\<in>set (checkpoints s). c_run_date c = rd \<longrightarrow> c_status c = Done) \<and>
     (\<forall>d\<in>set (decisions s). d_run_date d = rd \<longrightarrow> d_status d \<noteq> Submitted \<and> d_status d \<noteq> Approved_st) \<and>
     (\<forall>g\<in>set (signals s). sg_run_date g = rd \<longrightarrow> decided rd (sg_ticker g) s) \<and>
     (\<forall>q\<in>set (orders s). order_of_day s rd q \<longrightarrow> o_status q \<noteq> Submitted) \<and>
     (\<forall>e\<in>set (events s). e_posted_at e \<noteq> None) \<and>
     (\<forall>e\<in>set (events s). fst win \<le> e_created_at e \<and> e_created_at e < snd win \<longrightarrow>
        e_kind e \<noteq> ''projection_error'' \<and> \<not> foreign_alert e) \<and>
     ((\<exists>g\<in>set (signals s). sg_run_date g = rd) \<longrightarrow> (\<exists>k\<in>set (costs s). k_run_date k = rd))"

lemma counted_Nil [simp]: "counted mk n = [] \<longleftrightarrow> n = 0"
  by (simp add: counted_def)

lemma rowcount_zero: "rowcount P xs = 0 \<longleftrightarrow> (\<forall>x\<in>set xs. \<not> P x)"
  by (simp add: rowcount_def filter_empty_conv)

lemma seen_None: "seen_stages rd s st = None \<longleftrightarrow> (\<forall>c\<in>set (checkpoints s). c_run_date c = rd \<longrightarrow> c_stage c \<noteq> st)"
  by (auto simp: seen_stages_def day_checkpoints_def map_of_eq_None_iff image_image)

lemma seen_SomeD: "seen_stages rd s st = Some x \<Longrightarrow> \<exists>c\<in>set (checkpoints s). c_run_date c = rd \<and> c_stage c = st \<and> c_status c = x"
  by (auto simp: seen_stages_def day_checkpoints_def dest!: map_of_SomeD)

lemma checkpoint_problems_Nil: "checkpoint_problems rd s = [] \<longleftrightarrow>
    (\<forall>st\<in>set STAGES. \<exists>c\<in>set (checkpoints s). c_run_date c = rd \<and> c_stage c = st) \<and>
    (\<forall>c\<in>set (checkpoints s). c_run_date c = rd \<longrightarrow> c_status c = Done)"
  unfolding checkpoint_problems_def
  by (simp add: filter_empty_conv seen_None day_checkpoints_def) blast

lemma sort_key_Nil [simp]: "sort_key f xs = [] \<longleftrightarrow> xs = []"
  by (metis length_0_conv length_sort)

lemma table_problems_Nil: "table_problems rd s = [] \<longleftrightarrow> checkpoint_problems rd s = [] \<and>
    (\<forall>d\<in>set (decisions s). d_run_date d = rd \<longrightarrow> d_status d \<noteq> Submitted \<and> d_status d \<noteq> Approved_st) \<and>
    (\<forall>g\<in>set (signals s). sg_run_date g = rd \<longrightarrow> decided rd (sg_ticker g) s) \<and>
    (\<forall>q\<in>set (orders s). order_of_day s rd q \<longrightarrow> o_status q \<noteq> Submitted)"
  by (auto simp: table_problems_def stuck_decisions_def undecided_def stuck_orders_def filter_empty_conv)

lemma all_done_research:
  assumes "checkpoint_problems rd s = []"
  shows "seen_stages rd s ''research'' = Some Done"
proof -
  have "seen_stages rd s ''research'' \<noteq> None"
    using assms by (auto simp: checkpoint_problems_Nil seen_None STAGES_def)
  then obtain x where "seen_stages rd s ''research'' = Some x" by blast
  with seen_SomeD [OF this] assms show ?thesis by (auto simp: checkpoint_problems_Nil)
qed

lemma owes_cost_iff:
  "checkpoint_problems rd s = [] \<Longrightarrow> owes_cost rd s \<longleftrightarrow>
     (\<exists>g\<in>set (signals s). sg_run_date g = rd) \<and> \<not> (\<exists>k\<in>set (costs s). k_run_date k = rd)"
  by (simp add: owes_cost_def rowcount_zero all_done_research)

text \<open>
  C8: the audit is clean exactly when the day owes nothing. It raises nothing once the
  window of the date is known, and returns no problem exactly when every stage has a checkpoint and every
  checkpoint of the day is done, no decision is stuck before or behind the gate, every ticker
  signalled was decided, no order of the day is still submitted, every event was posted,
  nothing was dead-lettered or alerted on that day but the audit itself, and a day that
  signalled recorded a cost.
\<close>

theorem audit_clean_iff:
  assumes "day_window rd = Inr win"
  shows "audit day_window rd s = Inr [] \<longleftrightarrow> day_is_whole rd win s"
proof (cases "checkpoint_problems rd s = []")
  case True
  then show ?thesis
    by (auto simp: audit_def assms day_is_whole_def table_problems_Nil checkpoint_problems_Nil owes_cost_iff
        count_today_def rowcount_zero)
next
  case False
  then have "\<not> day_is_whole rd win s" "table_problems rd s \<noteq> []"
    by (auto simp only: day_is_whole_def checkpoint_problems_Nil table_problems_Nil)
  then show ?thesis by (simp add: audit_def assms)
qed

section \<open>The audit does not poison itself\<close>

definition self_alert :: "time \<Rightarrow> db \<Rightarrow> db" where
  "self_alert now = append_alert ''audit_failed'' [(SELF_ALERT_KEY, PBool True)] None False now"

text \<open>Events change what the three counts say, and nothing else of the audit.\<close>

lemma table_problems_events: "same_rows s s' \<Longrightarrow> table_problems rd s' = table_problems rd s"
  by (simp add: same_rows_def table_problems_def checkpoint_problems_def stuck_decisions_def undecided_def
      stuck_orders_def seen_stages_def day_checkpoints_def decided_def order_of_day_def)

lemma owes_cost_events: "same_rows s s' \<Longrightarrow> owes_cost rd s' = owes_cost rd s"
  by (simp add: same_rows_def owes_cost_def seen_stages_def day_checkpoints_def)

lemma self_alert_not_foreign: "\<not> foreign_alert \<lparr>e_id = i, e_kind = k,
    e_payload = alert_body c [(SELF_ALERT_KEY, PBool True)] None False, e_created_at = t, e_posted_at = p\<rparr>"
  by (simp add: foreign_alert_def alert_body_def dget_def SELF_ALERT_KEY_def)

lemma count_self_alert:
  "count_today foreign_alert win (self_alert now s) = count_today foreign_alert win s"
  "count_today (\<lambda>e. e_kind e = ''projection_error'') win (self_alert now s) = count_today (\<lambda>e. e_kind e = ''projection_error'') win s"
  by (simp_all add: self_alert_def append_alert_def count_today_def rowcount_def self_alert_not_foreign)

text \<open>The alert the audit leaves behind adds to no later audit of the day but as one event to post.\<close>

lemma audit_after_self_alert:
  assumes "day_window rd = Inr win"
  shows "audit day_window rd (self_alert now s) = Inr (table_problems rd s
     @ [Undrained (Suc (rowcount (\<lambda>e. e_posted_at e = None) (events s)))]
     @ counted Dead_lettered (count_today (\<lambda>e. e_kind e = ''projection_error'') win s)
     @ counted Alerts_raised (count_today foreign_alert win s)
     @ (if owes_cost rd s then [No_costs] else []))"
proof -
  have same: "same_rows s (self_alert now s)" by (simp add: self_alert_def same_rows_alert)
  have "rowcount (\<lambda>e. e_posted_at e = None) (events (self_alert now s)) = Suc (rowcount (\<lambda>e. e_posted_at e = None) (events s))"
    by (simp add: self_alert_def append_alert_def rowcount_def)
  then show ?thesis
    by (simp add: audit_def assms table_problems_events [OF same] owes_cost_events [OF same] count_self_alert counted_def)
qed

definition whole_db :: db where
  "whole_db = empty_db\<lparr>checkpoints := map (\<lambda>st. \<lparr>c_run_date = ''2026-08-17'', c_stage = st, c_ticker = ''*'', c_status = Done, c_updated_at = 60\<rparr>) STAGES\<rparr>"

theorem audit_clean_iff_witness:
  "audit (\<lambda>_. Inr (0, 86400)) ''2026-08-17'' whole_db = Inr [] \<and> audit (\<lambda>_. Inr (0, 86400)) ''2026-08-17'' empty_db \<noteq> Inr []"
proof -
  have "day_is_whole ''2026-08-17'' (0, 86400) whole_db" "\<not> day_is_whole ''2026-08-17'' (0, 86400) empty_db"
    by (auto simp: day_is_whole_def whole_db_def empty_db_def STAGES_def)
  then show ?thesis using audit_clean_iff [of "\<lambda>_. Inr (0, 86400)" "''2026-08-17''" "(0, 86400)"] by blast
qed

end
