(* ===== verification/Features.thy ===== *)
theory Features imports Stages begin

text \<open>
  market/features.py: the snapshot the gate sizes from. A price frame is a list of columns
  of closes; the arithmetic of pandas and numpy on a column (percentage change, standard
  deviation, correlation, mean) is the parameter \<open>pandas\<close>, and so is the builtin \<open>sum\<close> of
  floats, whose rounding depends on the interpreter. Nothing here rejects: what is missing
  becomes a NaN, and \<open>blind_spots_are_rejected\<close> says that the gate refuses every such ticker.
\<close>

record pandas =
  pd_pct_change :: "pyfloat list \<Rightarrow> pyfloat list"
  pd_std :: "pyfloat list \<Rightarrow> pyfloat"
  pd_corr :: "pyfloat list \<Rightarrow> pyfloat list \<Rightarrow> pyfloat"
  pd_mean :: "pyfloat list \<Rightarrow> pyfloat"
  pd_sqrt252 :: pyfloat
  py_sum :: "pyfloat list \<Rightarrow> pyfloat"

type_synonym price_frame = "(string \<times> pyfloat list) list"

definition MIN_HISTORY_RETURNS :: nat where "MIN_HISTORY_RETURNS = 40"

section \<open>One column\<close>

definition dropna :: "pyfloat list \<Rightarrow> pyfloat list" where
  "dropna xs = filter (\<lambda>x. x \<noteq> NaN) xs"

definition vol_of_returns :: "pandas \<Rightarrow> pyfloat list \<Rightarrow> pyfloat" where
  "vol_of_returns D rets = fmul (pd_std D rets) (pd_sqrt252 D)"

text \<open>\<open>.tail(60)\<close>\<close>

definition tail :: "nat \<Rightarrow> 'a list \<Rightarrow> 'a list" where
  "tail n xs = drop (length xs - n) xs"

definition returns_of :: "pandas \<Rightarrow> pyfloat list \<Rightarrow> pyfloat list" where
  "returns_of D xs = tail 60 (dropna (pd_pct_change D (dropna xs)))"

definition annualized_vol :: "pandas \<Rightarrow> pyfloat list \<Rightarrow> pyfloat" where
  "annualized_vol D xs = (let rets = returns_of D xs in
     if length rets < MIN_HISTORY_RETURNS then NaN else vol_of_returns D rets)"

definition has_return_history :: "price_frame \<Rightarrow> string \<Rightarrow> bool" where
  "has_return_history F k = (case map_of F k of None \<Rightarrow> False
     | Some xs \<Rightarrow> int MIN_HISTORY_RETURNS \<le> int (length (dropna xs)) - 1)"

definition last_close :: "price_frame \<Rightarrow> string \<Rightarrow> pyfloat" where
  "last_close F k = (case map_of F k of None \<Rightarrow> NaN
     | Some xs \<Rightarrow> if dropna xs = [] then NaN else last (dropna xs))"

section \<open>The book\<close>

definition has_column :: "price_frame \<Rightarrow> string \<Rightarrow> bool" where
  "has_column F k \<longleftrightarrow> k \<in> fst ` set F"

definition unpriceable_book_tickers :: "price_frame \<Rightarrow> string list \<Rightarrow> string list" where
  "unpriceable_book_tickers F book = sort (remdups (filter (\<lambda>k. has_column F k \<and> \<not> has_return_history F k) book))"

definition closes :: "price_frame \<Rightarrow> string \<Rightarrow> pyfloat list" where
  "closes F k = (case map_of F k of None \<Rightarrow> [] | Some xs \<Rightarrow> xs)"

definition avg_corr_vs_book :: "pandas \<Rightarrow> price_frame \<Rightarrow> string \<Rightarrow> string list \<Rightarrow> pyfloat" where
  "avg_corr_vs_book D F k book =
     (if book = [] then Fin 0
      else if \<not> has_column F k \<or> list_ex (\<lambda>t. \<not> has_column F t) book then NaN
      else if \<not> has_return_history F k then NaN
      else (let basket = filter (has_return_history F) book in
        if basket = [] then NaN
        else pd_mean D (map (\<lambda>t. pd_corr D (pd_pct_change D (closes F k)) (pd_pct_change D (closes F t))) basket)))"

text \<open>Positions and prices, as the account source builds them: whole quantities, float prices.\<close>

type_synonym positions = "(string \<times> int) list"
type_synonym prices = "(string \<times> pyfloat) list"

definition unmapped_holdings :: "positions \<Rightarrow> pydict \<Rightarrow> string list" where
  "unmapped_holdings ps sectors = sort (filter (\<lambda>k. dget sectors k = PNone) (map fst ps))"

text \<open>\<open>qty * price\<close>\<close>

definition position_value :: "prices \<Rightarrow> string \<times> int \<Rightarrow> pyfloat res" where
  "position_value prices p = res_bind (float_of_int (snd p)) (\<lambda>q.
     case map_of prices (fst p) of None \<Rightarrow> Inl KeyError | Some x \<Rightarrow> Inr (fmul q x))"

fun res_list :: "'a res list \<Rightarrow> 'a list res" where
  "res_list [] = Inr []"
| "res_list (r # rs) = res_bind r (\<lambda>x. res_bind (res_list rs) (\<lambda>xs. Inr (x # xs)))"

definition sector_book_value :: "pandas \<Rightarrow> positions \<Rightarrow> prices \<Rightarrow> pydict \<Rightarrow> pyval \<Rightarrow> pyfloat res" where
  "sector_book_value D ps prices sectors sect =
     (if unmapped_holdings ps sectors \<noteq> [] then Inr NaN
      else (let matching = filter (\<lambda>p. py_eq (dget sectors (fst p)) sect) ps in
        if list_ex (\<lambda>p. map_of prices (fst p) = None) matching then Inr NaN
        else res_bind (res_list (map (position_value prices) matching)) (\<lambda>vs. Inr (py_sum D vs))))"

section \<open>The snapshot\<close>

definition build_gate_inputs :: "string \<Rightarrow> string \<Rightarrow> pyval \<Rightarrow> pyval \<Rightarrow> pyfloat \<Rightarrow> pyfloat \<Rightarrow> pyfloat \<Rightarrow> int \<Rightarrow> int
    \<Rightarrow> pydict \<Rightarrow> pyfloat \<Rightarrow> pyval \<Rightarrow> pydict" where
  "build_gate_inputs k side eq ca pr vol corr held cnt sectors sval pnl =
     [(''ticker'', PStr k), (''side'', PStr side), (''equity'', eq), (''cash'', ca), (''price'', PFloat pr),
      (''vol_60d'', PFloat vol), (''avg_corr'', PFloat corr), (''held_qty'', PInt held), (''position_count'', PInt cnt),
      (''sector'', dget sectors k), (''sector_value'', PFloat sval), (''daily_pnl_pct'', pnl)]"

definition positions_of :: "pydict \<Rightarrow> positions" where
  "positions_of account = (case dget account ''positions'' of
     PDict d \<Rightarrow> List.map_filter (\<lambda>(k, v). case v of PInt n \<Rightarrow> Some (k, n) | _ \<Rightarrow> None) d | _ \<Rightarrow> [])"

definition prices_of :: "pydict \<Rightarrow> prices" where
  "prices_of account = (case dget account ''prices'' of
     PDict d \<Rightarrow> List.map_filter (\<lambda>(k, v). case v of PFloat x \<Rightarrow> Some (k, x) | _ \<Rightarrow> None) d | _ \<Rightarrow> [])"

text \<open>\<open>account.get(k, float("nan"))\<close>\<close>

definition figure :: "pydict \<Rightarrow> string \<Rightarrow> pyval" where
  "figure account k = (case map_of account k of None \<Rightarrow> PFloat NaN | Some v \<Rightarrow> v)"

definition ticker_inputs :: "pandas \<Rightarrow> pydict \<Rightarrow> price_frame \<Rightarrow> pydict \<Rightarrow> string \<Rightarrow> (string \<times> pydict) res" where
  "ticker_inputs D account F sectors k =
     (let ps = positions_of account; prices = prices_of account in
      res_bind (sector_book_value D ps prices sectors (dget sectors k)) (\<lambda>sval. Inr (k,
        build_gate_inputs k ''buy'' (figure account ''equity'') (figure account ''cash'')
          (case map_of prices k of Some x \<Rightarrow> x | None \<Rightarrow> last_close F k)
          (case map_of F k of Some xs \<Rightarrow> annualized_vol D xs | None \<Rightarrow> NaN)
          (avg_corr_vs_book D F k (filter (\<lambda>t. t \<noteq> k) (map fst ps)))
          (case map_of ps k of Some n \<Rightarrow> n | None \<Rightarrow> 0) (int (length ps)) sectors sval
          (figure account ''daily_pnl_pct''))))"

definition universe :: "string list \<Rightarrow> pydict \<Rightarrow> string list" where
  "universe watchlist account = sort (remdups (watchlist @ map fst (positions_of account)))"

definition build_market_inputs :: "pandas \<Rightarrow> string list \<Rightarrow> pydict \<Rightarrow> price_frame \<Rightarrow> pydict \<Rightarrow> (string \<times> pydict) list res" where
  "build_market_inputs D watchlist account F sectors =
     res_list (map (ticker_inputs D account F sectors) (universe watchlist account))"

section \<open>What is missing is never sized\<close>

text \<open>
  What the gate relies on in pydantic: a strict model that accepts a dictionary carries
  the floats it was given.
\<close>

definition carries_floats :: "(pydict \<Rightarrow> gate_inputs res) \<Rightarrow> bool" where
  "carries_floats validate \<longleftrightarrow> (\<forall>d i x. validate d = Inr i \<longrightarrow>
     (dget d ''price'' = PFloat x \<longrightarrow> price i = x) \<and> (dget d ''vol_60d'' = PFloat x \<longrightarrow> vol_60d i = x) \<and>
     (dget d ''avg_corr'' = PFloat x \<longrightarrow> avg_corr i = x) \<and> (dget d ''sector_value'' = PFloat x \<longrightarrow> sector_value i = x))"

text \<open>
  The blind spots of a ticker: a holding whose sector is unknown, too short a history of
  its own, a book that the frame does not carry or that is nowhere priceable, no price at all.
\<close>

definition blind_spot :: "pandas \<Rightarrow> pydict \<Rightarrow> price_frame \<Rightarrow> pydict \<Rightarrow> string \<Rightarrow> bool" where
  "blind_spot D account F sectors k \<longleftrightarrow>
     (let ps = positions_of account; book = filter (\<lambda>t. t \<noteq> k) (map fst ps) in
      unmapped_holdings ps sectors \<noteq> [] \<or>
      (case map_of F k of None \<Rightarrow> True | Some xs \<Rightarrow> length (returns_of D xs) < MIN_HISTORY_RETURNS) \<or>
      (book \<noteq> [] \<and> (list_ex (\<lambda>t. \<not> has_column F t) book \<or> \<not> has_return_history F k \<or> \<not> list_ex (has_return_history F) book)) \<or>
      (map_of (prices_of account) k = None \<and> last_close F k = NaN))"

lemma res_list_mem: "res_list rs = Inr xs \<Longrightarrow> x \<in> set xs \<Longrightarrow> Inr x \<in> set rs"
  by (induction rs arbitrary: xs) (auto simp: res_bind_Inr)

lemma res_list_domain: "res_list (map f ks) = Inr xs \<Longrightarrow> (\<And>k y. f k = Inr y \<Longrightarrow> g y = k) \<Longrightarrow> map g xs = ks"
  by (induction ks arbitrary: xs) (auto simp: res_bind_Inr)

lemma blind_spot_NaN:
  assumes "ticker_inputs D account F sectors k = Inr (k', i)" and "blind_spot D account F sectors k"
  shows "\<exists>f\<in>{''price'', ''vol_60d'', ''avg_corr'', ''sector_value''}. dget i f = PFloat NaN"
proof -
  let ?book = "filter (\<lambda>t. t \<noteq> k) (map fst (positions_of account))"
  from assms(1) obtain sval where sv: "sector_book_value D (positions_of account) (prices_of account) sectors (dget sectors k) = Inr sval"
    and i: "i = build_gate_inputs k ''buy'' (figure account ''equity'') (figure account ''cash'')
          (case map_of (prices_of account) k of Some x \<Rightarrow> x | None \<Rightarrow> last_close F k)
          (case map_of F k of Some xs \<Rightarrow> annualized_vol D xs | None \<Rightarrow> NaN) (avg_corr_vs_book D F k ?book)
          (case map_of (positions_of account) k of Some n \<Rightarrow> n | None \<Rightarrow> 0) (int (length (positions_of account))) sectors sval
          (figure account ''daily_pnl_pct'')"
    by (auto simp: ticker_inputs_def Let_def res_bind_Inr)
  note field = i build_gate_inputs_def dget_def
  from assms(2) consider "unmapped_holdings (positions_of account) sectors \<noteq> []"
    | "case map_of F k of None \<Rightarrow> True | Some xs \<Rightarrow> length (returns_of D xs) < MIN_HISTORY_RETURNS"
    | "?book \<noteq> []" "list_ex (\<lambda>t. \<not> has_column F t) ?book \<or> \<not> has_return_history F k \<or> \<not> list_ex (has_return_history F) ?book"
    | "map_of (prices_of account) k = None" "last_close F k = NaN"
    unfolding blind_spot_def Let_def by satx
  then show ?thesis
  proof cases
    case 1
    then have "sval = NaN" using sv by (simp add: sector_book_value_def)
    then show ?thesis by (simp add: field)
  next
    case 2
    then show ?thesis by (simp add: field annualized_vol_def Let_def split: option.splits)
  next
    case 3
    have "avg_corr_vs_book D F k ?book = NaN"
      using 3 by (auto simp: avg_corr_vs_book_def Let_def list_ex_iff filter_empty_conv)
    then show ?thesis by (simp add: field)
  next
    case 4
    then show ?thesis by (simp add: field)
  qed
qed

lemma dget_side: "f \<noteq> ''side'' \<Longrightarrow> dget ((''side'', v) # filter (\<lambda>(k, _). k \<noteq> ''side'') d) f = dget d f"
proof -
  assume "f \<noteq> ''side''"
  then have "map_of (filter (\<lambda>(k, _). k \<noteq> ''side'') d) f = map_of d f" by (induction d) auto
  with \<open>f \<noteq> ''side''\<close> show ?thesis by (simp add: dget_def)
qed

lemma NaN_input_is_gate_error:
  assumes "carries_floats validate" and "f \<in> {''price'', ''vol_60d'', ''avg_corr'', ''sector_value''}" and "dget d f = PFloat NaN"
  shows "size validate (Raw d) = Rejected ''gate_error''"
proof (cases "validate d")
  case (Inl e)
  then show ?thesis by (simp add: size_def)
next
  case (Inr i)
  with assms have "price i = NaN \<or> vol_60d i = NaN \<or> avg_corr i = NaN \<or> sector_value i = NaN"
    unfolding carries_floats_def by blast
  then have "inputs_bad i" by (auto simp: inputs_bad_def)
  then show ?thesis using Inr by (simp add: size_def size_checked_def)
qed

text \<open>
  C17: what the market snapshot could not see is never traded. The snapshot has one entry per
  ticker of the universe, in order; and whenever a ticker has a blind spot (some holding has no
  sector, its own history is too short, the book it would join is missing from the frame or
  nowhere priceable, or it has no price), the gate rejects its entry with gate_error on
  the buy and on the sell side alike, whatever the statistics return, provided only that the
  strict model carries floats as they are.
\<close>

theorem blind_spots_are_rejected:
  assumes "carries_floats (cx_validate C)"
    and "build_market_inputs D watchlist account F sectors = Inr inputs"
  shows "map fst inputs = universe watchlist account \<and>
    (\<forall>(k, i)\<in>set inputs. blind_spot D account F sectors k \<longrightarrow> sized C i side = Rejected ''gate_error'')"
proof -
  have one: "fst y = k" if "ticker_inputs D account F sectors k = Inr y" for k y
    using that by (auto simp: ticker_inputs_def Let_def res_bind_Inr)
  then have "map fst inputs = universe watchlist account"
    using assms(2) res_list_domain unfolding build_market_inputs_def by blast
  moreover have "sized C i side = Rejected ''gate_error''" if m: "(k, i) \<in> set inputs" and b: "blind_spot D account F sectors k" for k i
  proof -
    from m assms(2) obtain k' where "ticker_inputs D account F sectors k' = Inr (k, i)"
      by (fastforce simp: build_market_inputs_def dest: res_list_mem)
    with one have "ticker_inputs D account F sectors k = Inr (k, i)" by fastforce
    from blind_spot_NaN [OF this b] obtain f where f: "f \<in> {''price'', ''vol_60d'', ''avg_corr'', ''sector_value''}" "dget i f = PFloat NaN"
      by blast
    then have "f \<noteq> ''side''" by auto
    with f NaN_input_is_gate_error [OF assms(1) f(1)] show ?thesis by (simp add: sized_def dget_side)
  qed
  ultimately show ?thesis by blast
qed

text \<open>A position nobody put in the sector file, and a strict model that reads the floats.\<close>

definition strict_model :: "pydict \<Rightarrow> gate_inputs res" where
  "strict_model d = (case (dget d ''price'', dget d ''vol_60d'', dget d ''avg_corr'', dget d ''sector_value'') of
     (PFloat p, PFloat v, PFloat c, PFloat sv) \<Rightarrow> Inr (golden_inputs\<lparr>price := p, vol_60d := v, avg_corr := c, sector_value := sv\<rparr>)
   | _ \<Rightarrow> Inl ValidationError)"

lemma strict_model_carries: "carries_floats strict_model"
  by (auto simp: carries_floats_def strict_model_def split: pyval.splits)

definition strict_ctx :: "unit stage_ctx" where
  "strict_ctx = \<lparr>now_port = (\<lambda>x. (60, x)), render_port = (\<lambda>_ _. Inr PNone), post_port = (\<lambda>_ x. (Inr (), x)),
     cx_run_date = ''2026-08-17'', cx_seats = [''analyst''], cx_inputs = [],
     cx_validate = strict_model, cx_turn = (\<lambda>_. None), cx_new_id = (\<lambda>x. (''tk-1'', x)), cx_hhmm = (\<lambda>_. ''12:00''),
     cx_sum = (\<lambda>_. Fin 0), cx_journals = None\<rparr>"

definition flat_pandas :: pandas where
  "flat_pandas = \<lparr>pd_pct_change = (\<lambda>xs. map (\<lambda>_. Fin 0) (tl xs)), pd_std = (\<lambda>_. Fin 0), pd_corr = (\<lambda>_ _. Fin 0),
     pd_mean = (\<lambda>_. Fin 0), pd_sqrt252 = Fin 16, py_sum = (\<lambda>_. Fin 0)\<rparr>"

theorem blind_spots_are_rejected_witness:
  "\<exists>i. build_market_inputs flat_pandas [] [(''positions'', PDict [(''XYZ'', PInt 3)])] [] [] = Inr [(''XYZ'', i)]
     \<and> sized strict_ctx i ''sell'' = Rejected ''gate_error''"
proof -
  have u: "universe [] [(''positions'', PDict [(''XYZ'', PInt 3)])] = [''XYZ'']"
    by (simp add: universe_def positions_of_def dget_def List.map_filter_simps)
  then obtain i where b: "build_market_inputs flat_pandas [] [(''positions'', PDict [(''XYZ'', PInt 3)])] [] [] = Inr [(''XYZ'', i)]"
    by (simp add: build_market_inputs_def ticker_inputs_def sector_book_value_def unmapped_holdings_def positions_of_def
        dget_def List.map_filter_simps)
  have "blind_spot flat_pandas [(''positions'', PDict [(''XYZ'', PInt 3)])] [] [] ''XYZ''"
    by (simp add: blind_spot_def)
  then show ?thesis
    using b blind_spots_are_rejected [of strict_ctx flat_pandas "[]" _ "[]" "[]", OF _ b, of "''sell''"] strict_model_carries
    by (auto simp: strict_ctx_def)
qed

end
