(* ===== verification/RunDay.thy ===== *)
theory RunDay imports Agents DayAudit Features Guards begin

text \<open>
  scripts/run_day.py, the program that runs a trading day: its guards, the seat turns it
  makes, the day between the account snapshot and the audit, and its exit code. The SDK
  session of a seat, bounded in time, is a program on the world; files (the
  watch list, the sectors, the seat configurations), the broker's endpoints, the lock and the
  environment are parameters. Log lines are left out.
\<close>

section \<open>What the day is handed\<close>

record 'x day_env = "'x stage_ctx" +
  dy_watchlist :: "pyval res"
  dy_str :: "pyval \<Rightarrow> string"
  dy_sectors :: "pydict res"
  dy_account_state :: "'x \<Rightarrow> pydict res \<times> 'x"
  dy_close_frame :: "string list \<Rightarrow> time \<Rightarrow> 'x \<Rightarrow> price_frame res \<times> 'x"
  dy_account_config :: "'x \<Rightarrow> pyval res \<times> 'x"
  dy_baseline :: "pydict res"
  dy_broker :: "'x broker"
  dy_sleep :: "pyfloat \<Rightarrow> 'x \<Rightarrow> unit res \<times> 'x"
  dy_pandas :: pandas
  dy_seat_config :: "string \<Rightarrow> string res"
  dy_session :: "string \<Rightarrow> pydict option \<Rightarrow> ('x world, string list \<times> turn_result option) prog"
  dy_trace :: "string \<Rightarrow> string list \<Rightarrow> turn_result option \<Rightarrow> ('x world, unit) prog option"
  dy_score :: "db \<Rightarrow> date \<Rightarrow> pyval res"
  dy_window :: "date \<Rightarrow> (time \<times> time) res"
  dy_show_exn :: "exn \<Rightarrow> string"
  dy_line :: "string \<Rightarrow> db \<Rightarrow> string"
  dy_sdk :: string

definition attempt :: "('w, 'a) prog \<Rightarrow> ('w, exn + 'a) prog" where
  "attempt m = catch (andthen m (\<lambda>x. ret (Inr x))) (\<lambda>e. ret (Inl e))"

definition SEATS :: "string \<Rightarrow> string list" where
  "SEATS stage = (if stage = ''research'' then [''analyst'', ''news''] else if stage = ''decision'' then [''pm'']
     else if stage = ''execution'' then [''exec''] else [])"

text \<open>\<open>_alert\<close>: one reading of the clock, one row.\<close>

definition day_alert :: "('x, 'z) ports_scheme \<Rightarrow> string \<Rightarrow> pydict \<Rightarrow> ('x world, unit) prog" where
  "day_alert P code payload = andthen (clock_now P) (\<lambda>now. on_db (modify (append_alert code payload None False now)))"

section \<open>A seat's turn\<close>

text \<open>A turn without a result message has neither estimate nor usage.\<close>

definition no_result :: turn_result where
  "no_result = \<lparr>tr_model_usage = [], tr_total_cost_usd = PNone\<rparr>"

definition record_cost_guarded :: "('x, 'z) ports_scheme \<Rightarrow> string \<Rightarrow> date \<Rightarrow> string \<Rightarrow> turn_result option \<Rightarrow> string
    \<Rightarrow> ('x world, unit) prog" where
  "record_cost_guarded P sdk rd seat result model =
     catch (andthen (clock_now P) (\<lambda>now.
              andthen (on_db (record_turn_result sdk rd seat (case result of None \<Rightarrow> no_result | Some r \<Rightarrow> r) now model)) (\<lambda>_. ret ())))
       (\<lambda>_. ret ())"

definition emit_trace_guarded :: "('x world, unit) prog option \<Rightarrow> ('x world, unit) prog" where
  "emit_trace_guarded sink = (case sink of None \<Rightarrow> ret () | Some m \<Rightarrow> catch m (\<lambda>_. ret ()))"

definition check_exec_turn :: "('x, 'z) ports_scheme \<Rightarrow> string list \<Rightarrow> ('x world, unit) prog" where
  "check_exec_turn P names =
     catch (andthen (clock_now P) (\<lambda>now. andthen (on_db (gets (open_tickets now))) (\<lambda>ts.
              lift_res (check_tool_calls names (int (length ts))))))
       (\<lambda>_. day_alert P ''exec_turn_violation'' [])"

definition make_turn :: "('x, 'z) day_env_scheme \<Rightarrow> string \<Rightarrow> string \<Rightarrow> pydict option \<Rightarrow> ('x world, unit) prog" where
  "make_turn E seat model brief =
     andthen (attempt (dy_session E seat brief)) (\<lambda>got. case got of
       Inl e \<Rightarrow> day_alert E (if e = Other ''SeatTurnTimeout'' then ''seat_turn_timeout'' else ''seat_turn_failed'') []
     | Inr (names, result) \<Rightarrow>
         andthen (record_cost_guarded E (dy_sdk E) (cx_run_date E) seat result model) (\<lambda>_.
         andthen (emit_trace_guarded (dy_trace E seat names result)) (\<lambda>_.
         if seat = ''exec'' then check_exec_turn E names else ret ())))"

section \<open>Gaps in the market data\<close>

definition alert_missing_price_history :: "('x, 'z) ports_scheme \<Rightarrow> price_frame \<Rightarrow> positions \<Rightarrow> ('x world, unit) prog" where
  "alert_missing_price_history P F ps = (let gaps = unpriceable_book_tickers F (map fst ps) in
     if gaps = [] then ret () else day_alert P ''missing_price_history'' [(''tickers'', PList (map PStr gaps))])"

definition alert_unmapped_sectors :: "('x, 'z) ports_scheme \<Rightarrow> positions \<Rightarrow> pydict \<Rightarrow> ('x world, unit) prog" where
  "alert_unmapped_sectors P ps sectors = (let gaps = unmapped_holdings ps sectors in
     if gaps = [] then ret () else day_alert P ''unmapped_sector'' [(''tickers'', PList (map PStr gaps))])"

section \<open>The end of the day\<close>

definition append_scorecard_event :: "(db \<Rightarrow> date \<Rightarrow> pyval res) \<Rightarrow> date \<Rightarrow> time \<Rightarrow> (db, unit) prog" where
  "append_scorecard_event score rd now = andthen (gets (\<lambda>s. score s rd)) (\<lambda>r. andthen (lift_res r) (\<lambda>rows.
     modify (append_event ''scorecard'' [(''run_date'', PStr rd), (''rows'', rows)] now)))"

definition post_scorecard :: "('x, 'z) ports_scheme \<Rightarrow> (db \<Rightarrow> date \<Rightarrow> pyval res) \<Rightarrow> date \<Rightarrow> ('x world, unit) prog" where
  "post_scorecard P score rd =
     catch (andthen (clock_now P) (\<lambda>now. andthen (on_db (append_scorecard_event score rd now)) (\<lambda>_.
            andthen (clock_now P) (\<lambda>now2. andthen (drain_outbox P now2) (\<lambda>_. ret ())))))
       (\<lambda>_. ret ())"

definition report_audit :: "('x, 'z) ports_scheme \<Rightarrow> (date \<Rightarrow> (time \<times> time) res) \<Rightarrow> date \<Rightarrow> ('x world, int) prog" where
  "report_audit P window rd =
     andthen (on_db (gets (audit window rd))) (\<lambda>r. andthen (lift_res r) (\<lambda>problems.
     if problems = [] then ret 0
     else andthen (clock_now P) (\<lambda>now. andthen (clock_now P) (\<lambda>now2.
          andthen (on_db (modify (self_alert now2))) (\<lambda>_. andthen (drain_outbox P now) (\<lambda>_. ret 1))))))"

definition guarded :: "('x, 'z) ports_scheme \<Rightarrow> ('x world, int) prog \<Rightarrow> ('x world, int) prog" where
  "guarded P body =
     catch body (\<lambda>_.
       andthen (catch (andthen (day_alert P ''run_day_failed'' []) (\<lambda>_. andthen (clock_now P) (\<lambda>now.
                  andthen (drain_outbox P now) (\<lambda>_. ret ())))) (\<lambda>_. ret ()))
         (\<lambda>_. ret 1))"

section \<open>The trading day\<close>

text \<open>\<open>str.upper\<close>; the two letters of Latin-1 whose capitals lie beyond it (\<open>181\<close>, \<open>255\<close>) are kept.\<close>

definition upper_char :: "char \<Rightarrow> string" where
  "upper_char c = (if 97 \<le> ord_of c \<and> ord_of c \<le> 122 \<or> 224 \<le> ord_of c \<and> ord_of c \<le> 254 \<and> ord_of c \<noteq> 247
                   then [char_of (ord_of c - 32)] else if ord_of c = 223 then ''SS'' else [c])"

definition upper :: "string \<Rightarrow> string" where
  "upper s = concat (map upper_char s)"

text \<open>\<open>for t in (data.get("tickers") or [])\<close>: a string yields its characters, a mapping its keys.\<close>

definition iterated :: "pyval \<Rightarrow> pyval list res" where
  "iterated v = (if \<not> truthy v then Inr [] else case v of PList xs \<Rightarrow> Inr xs | PStr t \<Rightarrow> Inr (map (\<lambda>c. PStr [c]) t)
     | PDict d \<Rightarrow> Inr (map (PStr \<circ> fst) d) | _ \<Rightarrow> Inl TypeError)"

definition load_watchlist :: "(pyval \<Rightarrow> string) \<Rightarrow> pyval \<Rightarrow> string list res" where
  "load_watchlist f data = (let d = (if truthy data then data else PDict []) in case d of
     PDict m \<Rightarrow> res_bind (iterated (dget m ''tickers'')) (\<lambda>ts.
       (let tickers = map (upper \<circ> strip \<circ> str_of f) (filter (\<lambda>t. strip (str_of f t) \<noteq> []) ts) in
        if tickers = [] then Inl (Other ''SystemExit'') else Inr tickers))
   | _ \<Rightarrow> Inl AttributeError)"

definition actions_value :: "(string \<times> int \<times> int) list \<Rightarrow> pyval" where
  "actions_value acts = PDict (map (\<lambda>(t, b, sl). (t, PDict [(''buy'', PInt b), (''sell'', PInt sl)])) acts)"

definition brief_of :: "pydict \<Rightarrow> (string \<times> int \<times> int) list \<Rightarrow> pydict" where
  "brief_of account acts = [(''cash'', dget account ''cash''),
     (''positions'', if truthy (dget account ''positions'') then dget account ''positions'' else PDict []),
     (''allowed_actions'', actions_value acts)]"

text \<open>The context of the day: the snapshot, and a turn per stage when anything is possible.\<close>

definition with_turns :: "('x, 'z) day_env_scheme \<Rightarrow> pydict \<Rightarrow> (string \<times> string) list \<Rightarrow> ('x, 'z) day_env_scheme" where
  "with_turns E account models =
     (let acts = allowed_actions E; brief = brief_of account acts;
          turn = (\<lambda>seat. make_turn E seat (case map_of models seat of None \<Rightarrow> [] | Some m \<Rightarrow> m) (Some brief)) in
      E\<lparr>cx_turn := (\<lambda>stage. if acts = [] then None
           else if stage = ''research'' then Some (for_each turn (SEATS ''research''))
           else if stage = ''decision'' then Some (turn ''pm'') else None)\<rparr>)"

definition seat_models :: "('x, 'z) day_env_scheme \<Rightarrow> string list \<Rightarrow> (string \<times> string) list res" where
  "seat_models E seats = res_list (map (\<lambda>seat. res_bind (dy_seat_config E seat) (\<lambda>m. Inr (seat, m))) seats)"

text \<open>From the snapshot to the audit's verdict.\<close>

definition staged_day :: "('x, 'z) day_env_scheme \<Rightarrow> pydict \<Rightarrow> ('x world, int) prog" where
  "staged_day E account =
     andthen (lift_res (seat_models E (if allowed_actions E = [] then [] else SEATS ''research'' @ SEATS ''decision''))) (\<lambda>models.
     andthen (lift_res (dy_seat_config E ''exec'')) (\<lambda>exec_model.
     andthen (lift_res (dy_baseline E)) (\<lambda>baseline.
     andthen (clock_now E) (\<lambda>now.
     andthen (assert_account_config_unchanged (dy_show_exn E) (dy_account_config E) baseline now) (\<lambda>drifts.
     andthen (if drifts \<noteq> 0 then andthen (clock_now E) (\<lambda>now2. andthen (drain_outbox E now2) (\<lambda>_. ret ())) else ret ()) (\<lambda>_.
     andthen (run_day (with_turns E account models) (dy_line E) (Some (make_turn E ''exec'' exec_model None))
                (Some (dy_broker E)) (dy_sleep E)) (\<lambda>_.
     andthen (post_scorecard E (dy_score E) (cx_run_date E)) (\<lambda>_.
     report_audit E (dy_window E) (cx_run_date E)))))))))"

definition trading_day :: "('x, 'z) day_env_scheme \<Rightarrow> ('x world, int) prog" where
  "trading_day E =
     andthen (lift_res (res_bind (dy_watchlist E) (load_watchlist (dy_str E)))) (\<lambda>watchlist.
     andthen (lift_res (dy_sectors E)) (\<lambda>sectors.
     andthen (clock_now E) (\<lambda>now.
     andthen (account_snapshot (dy_account_state E) (dy_sleep E) now) (\<lambda>snap. case snap of
       None \<Rightarrow> andthen (clock_now E) (\<lambda>now2. andthen (drain_outbox E now2) (\<lambda>_. ret 1))
     | Some account \<Rightarrow>
         andthen (clock_now E) (\<lambda>end_now.
         andthen (on_port (dy_close_frame E (universe watchlist account) end_now)) (\<lambda>F.
         andthen (alert_missing_price_history E F (positions_of account)) (\<lambda>_.
         andthen (alert_unmapped_sectors E (positions_of account) sectors) (\<lambda>_.
         andthen (lift_res (build_market_inputs (dy_pandas E) watchlist account F sectors)) (\<lambda>inputs.
         staged_day (E\<lparr>cx_inputs := inputs, cx_seats := SEATS ''research''\<rparr>) account))))))))) "

section \<open>Starting\<close>

type_synonym environ = "(string \<times> string) list"

definition env_text :: "environ \<Rightarrow> string \<Rightarrow> string" where
  "env_text environ k = (case map_of environ k of None \<Rightarrow> [] | Some v \<Rightarrow> strip v)"

definition paper_guard :: "environ \<Rightarrow> unit res" where
  "paper_guard environ = (if lower (env_text environ ''ALPACA_PAPER_TRADE'') \<noteq> ''true'' then Inl (Other ''SystemExit'') else Inr ())"

definition REQUIRED_ENV :: "string list" where
  "REQUIRED_ENV = [''ANTHROPIC_API_KEY'', ''ALPACA_API_KEY'', ''ALPACA_SECRET_KEY'', ''FUND_DB'', ''SLACK_BOT_TOKEN'']"

definition require_env :: "string list \<Rightarrow> environ \<Rightarrow> environ res" where
  "require_env names environ = (if list_ex (\<lambda>n. env_text environ n = []) names then Inl (Other ''SystemExit'')
     else Inr (map (\<lambda>n. (n, env_text environ n)) names))"

text \<open>\<open>part.partition("=")\<close>\<close>

definition override_entry :: "string \<Rightarrow> (string \<times> string) option" where
  "override_entry part = (case find_sep ''='' part of None \<Rightarrow> None
     | Some (src, dst) \<Rightarrow> if strip src = [] \<or> strip dst = [] then None else Some (strip src, strip dst))"

fun override_entries :: "string list \<Rightarrow> (string \<times> string) list \<Rightarrow> (string \<times> string) list res" where
  "override_entries [] out = Inr out"
| "override_entries (p # ps) out =
     (if strip p = [] then override_entries ps out
      else case override_entry (strip p) of None \<Rightarrow> Inl (Other ''SystemExit'')
           | Some (src, dst) \<Rightarrow> override_entries ps (AList.update src dst out))"

definition parse_channel_overrides :: "string option \<Rightarrow> (string \<times> string) list res" where
  "parse_channel_overrides raw = override_entries (split_on '','' (case raw of None \<Rightarrow> [] | Some t \<Rightarrow> t)) []"

definition market_is_open :: "('x \<Rightarrow> pyval res \<times> 'x) \<Rightarrow> ('x world, bool) prog" where
  "market_is_open market_clock =
     catch (andthen (on_port market_clock) (\<lambda>v. case v of
              PDict d \<Rightarrow> andthen (lift_res (dkey d ''is_open'')) (\<lambda>b. ret (truthy b))
            | _ \<Rightarrow> raise TypeError))
       (\<lambda>_. ret False)"

text \<open>
  \<open>main\<close>: the exit code. \<open>take_lock\<close> says whether the lock was free, \<open>et_run_date\<close> is the
  date of an instant in New York.
\<close>

definition day_main :: "('x, 'z) day_env_scheme \<Rightarrow> environ \<Rightarrow> ('x \<Rightarrow> bool \<times> 'x) \<Rightarrow> ('x \<Rightarrow> pyval res \<times> 'x)
    \<Rightarrow> (time \<Rightarrow> date) \<Rightarrow> ('x world, int) prog" where
  "day_main E environ take_lock market_clock et_run_date =
     andthen (lift_res (paper_guard environ)) (\<lambda>_.
     andthen (lift_res (require_env REQUIRED_ENV environ)) (\<lambda>_.
     andthen (on_port (\<lambda>x. case take_lock x of (b, x') \<Rightarrow> (Inr b, x'))) (\<lambda>free.
     if \<not> free then ret 2
     else andthen (market_is_open market_clock) (\<lambda>is_open.
       if \<not> is_open then ret 0
       else andthen (clock_now E) (\<lambda>now.
         andthen (lift_res (parse_channel_overrides (map_of environ ''SLACK_CHANNEL_OVERRIDES''))) (\<lambda>_.
         guarded E (trading_day (E\<lparr>cx_run_date := et_run_date now\<rparr>))))))))"

end
