(* ===== verification/RunDayProps.thy ===== *)
theory RunDayProps imports RunDay begin

text \<open>
  What the exit code of a trading day says, that no failure of it is silent, and that the
  whole program, with the agents in it, keeps the database within its state machines.
\<close>

section \<open>What returns\<close>

lemma returns_day_alert: "returns (day_alert P c p)"
  by (simp add: day_alert_def returns_intros returns_clock_now)

lemma returns_drain: "returns (drain_outbox P now)"
  by (rule returnsI) (rule drain_outbox_Inr)

lemma returns_attempt: "returns (attempt m)"
  by (simp add: attempt_def returns_catch returns_ret)

text \<open>A turn costs the day nothing but its alert: whatever the session does, the day goes on.\<close>

lemma returns_turn_parts:
  "returns (record_cost_guarded P sdk rd seat result model)" "returns (emit_trace_guarded sink)" "returns (check_exec_turn P names)"
  unfolding record_cost_guarded_def emit_trace_guarded_def check_exec_turn_def
  by (intro returns_catch returns_option returns_ret returns_day_alert)+

lemma seat_turn_returns: "returns (make_turn E seat model brief)"
  unfolding make_turn_def
  by (intro returns_andthen returns_attempt)
    (auto intro!: returns_andthen returns_day_alert returns_turn_parts returns_ret split: sum.split)

lemma returns_market_is_open: "returns (market_is_open market_clock)"
  unfolding market_is_open_def by (intro returns_catch returns_ret)

section \<open>No failure is silent\<close>

lemma day_alert_run:
  "\<exists>now x'. day_alert P c p (s, x) = (Inr (), (append_alert c p None False now s, x'))"
proof -
  obtain t x' where "clock_now P (s, x) = (Inr t, (s, x'))" using clock_now_run [of P s x] by blast
  then show ?thesis by (auto simp: day_alert_def andthen_def on_db_def modify_def)
qed

lemma drained_alert:
  "\<exists>n s' x'. andthen (day_alert P c p) (\<lambda>_. andthen (clock_now P) (\<lambda>now. andthen (drain_outbox P now) (\<lambda>_. ret ()))) (s, x)
     = (Inr n, (s', x')) \<and> alert_codes s' = alert_codes s @ [PStr c] \<and> same_rows s s'"
proof -
  obtain now x1 where a: "day_alert P c p (s, x) = (Inr (), (append_alert c p None False now s, x1))"
    using day_alert_run [of P c p s x] by blast
  let ?s1 = "append_alert c p None False now s"
  obtain t x2 where c: "clock_now P (?s1, x1) = (Inr t, (?s1, x2))" using clock_now_run [of P ?s1 x1] by blast
  obtain n w where d: "drain_outbox P t (?s1, x2) = (Inr n, w)" using drain_outbox_Inr [of P t "(?s1, x2)"] by blast
  obtain s' x' where w: "w = (s', x')" by fastforce
  have "alert_codes s' = alert_codes ?s1" and "same_rows ?s1 s'"
    using drain_outbox_codes [of P t "(?s1, x2)"] drain_outbox_same [of "(?s1, x2)" P t] by (simp_all add: d w)
  then show ?thesis
    using a c d w same_rows_trans [OF same_rows_alert] by (simp add: andthen_def ret_def)
qed

text \<open>
  C16: a failure of the day is never silent. The guard around the day always returns: what the
  day returned, when it returned; and when anything in it raised, in whatever state it left
  the tables, the exit code is 1, exactly one alert, run_day_failed, was added to those of that
  state, and no other row was touched.
\<close>

theorem failure_is_never_silent:
  "\<exists>n s' x'. guarded P body (s, x) = (Inr n, (s', x')) \<and>
     (case body (s, x) of (Inr k, w) \<Rightarrow> n = k \<and> (s', x') = w
      | (Inl e, (s1, x1)) \<Rightarrow> n = 1 \<and> alert_codes s' = alert_codes s1 @ [PStr ''run_day_failed''] \<and> same_rows s1 s')"
proof -
  obtain r s1 x1 where run: "body (s, x) = (r, (s1, x1))" by (metis prod_cases3)
  show ?thesis
  proof (cases r)
    case (Inl e)
    obtain n s' x' where "andthen (day_alert P ''run_day_failed'' []) (\<lambda>_. andthen (clock_now P) (\<lambda>now. andthen (drain_outbox P now) (\<lambda>_. ret ()))) (s1, x1)
        = (Inr n, (s', x'))" "alert_codes s' = alert_codes s1 @ [PStr ''run_day_failed'']" "same_rows s1 s'"
      using drained_alert [of P "''run_day_failed''" "[]" s1 x1] by blast
    then show ?thesis using run Inl by (simp add: guarded_def catch_def andthen_def)
  next
    case (Inr k)
    then show ?thesis using run by (simp add: guarded_def catch_def)
  qed
qed

section \<open>Exit code 0\<close>

lemma report_audit_zero:
  assumes "report_audit P window rd (s, x) = (Inr 0, (s', x'))"
  shows "s' = s \<and> (\<exists>win. window rd = Inr win \<and> day_is_whole rd win s)"
proof -
  from assms obtain ps where a: "audit window rd s = Inr ps"
    by (cases "audit window rd s") (auto simp: report_audit_def andthen_def on_db_def gets_def lift_res_def)
  have "ps = []"
  proof (rule ccontr)
    assume "ps \<noteq> []"
    with assms a show False
      by (auto simp: report_audit_def andthen_def on_db_def gets_def lift_res_def modify_def ret_def split: prod.splits sum.splits)
  qed
  with a assms have "s' = s" by (simp add: report_audit_def andthen_def on_db_def gets_def lift_res_def ret_def)
  moreover obtain win where w: "window rd = Inr win"
    using a by (cases "window rd") (auto simp: audit_def)
  ultimately show ?thesis using audit_clean_iff [of window rd win s] w a \<open>ps = []\<close> by auto
qed

text \<open>A program whose result 0 can only be the audit's.\<close>

definition zero_is_whole :: "(date \<Rightarrow> (time \<times> time) res) \<Rightarrow> date \<Rightarrow> ('x world, int) prog \<Rightarrow> bool" where
  "zero_is_whole window rd m \<longleftrightarrow>
     (\<forall>w w'. m w = (Inr 0, w') \<longrightarrow> (\<exists>win. window rd = Inr win \<and> day_is_whole rd win (fst w')))"

lemma zero_is_whole_andthen: "(\<And>y. zero_is_whole window rd (f y)) \<Longrightarrow> zero_is_whole window rd (andthen m f)"
  unfolding zero_is_whole_def by (auto simp: andthen_def split: prod.splits sum.splits)

lemma zero_is_whole_one: "zero_is_whole window rd (ret 1)"
  by (simp add: zero_is_whole_def ret_def)

lemma zero_is_whole_option:
  "zero_is_whole window rd m \<Longrightarrow> (\<And>y. zero_is_whole window rd (f y)) \<Longrightarrow> zero_is_whole window rd (case v of None \<Rightarrow> m | Some y \<Rightarrow> f y)"
  by (cases v) simp_all

lemma zero_is_whole_audit: "zero_is_whole window rd (report_audit P window rd)"
  unfolding zero_is_whole_def using report_audit_zero by (metis prod.collapse)

lemma zero_is_whole_day: "zero_is_whole (dy_window E) (cx_run_date E) (trading_day E)"
proof -
  have "zero_is_whole (dy_window E) (cx_run_date E) (staged_day (E\<lparr>cx_inputs := i, cx_seats := st\<rparr>) account)" for i st account
    using zero_is_whole_audit [of "dy_window E" "cx_run_date E"] unfolding staged_day_def
    by (intro zero_is_whole_andthen) simp
  then show ?thesis unfolding trading_day_def
    by (intro zero_is_whole_andthen zero_is_whole_option zero_is_whole_one)
qed

lemma zero_is_whole_catch:
  "zero_is_whole window rd m \<Longrightarrow> (\<And>e. zero_is_whole window rd (h e)) \<Longrightarrow> zero_is_whole window rd (catch m h)"
  unfolding zero_is_whole_def by (auto simp: catch_def split: prod.splits sum.splits)

lemma zero_is_whole_guarded: "zero_is_whole window rd m \<Longrightarrow> zero_is_whole window rd (guarded P m)"
  unfolding guarded_def by (intro zero_is_whole_catch zero_is_whole_andthen zero_is_whole_one)

text \<open>
  C7: exit code 0 means a whole day, or none. When the program exits with 0, either the broker's clock did
  not say that the market is open, and the database is as it was; or the day it ran is
  whole in the database it leaves: every stage checked as done, no decision or order left hanging, every signalled ticker decided,
  every event posted, no alert and no dead letter on that day, and costs recorded for its signals.
\<close>

theorem clean_exit_means_whole_day:
  assumes "day_main E environ take_lock market_clock et_run_date (s, x) = (Inr 0, (s', x'))"
  shows "fst (market_is_open market_clock (s, snd (take_lock x))) = Inr False \<and> s' = s \<or>
    (\<exists>now win. dy_window E (et_run_date now) = Inr win \<and> day_is_whole (et_run_date now) win s')"
proof -
  let ?go = "\<lambda>now. guarded E (trading_day (E\<lparr>cx_run_date := et_run_date now\<rparr>))"
  have go: "\<exists>win. dy_window E (et_run_date now) = Inr win \<and> day_is_whole (et_run_date now) win (fst w')"
    if "?go now w = (Inr 0, w')" for now w w'
  proof -
    have "zero_is_whole (dy_window E) (et_run_date now) (?go now)"
      using zero_is_whole_guarded [OF zero_is_whole_day [of "E\<lparr>cx_run_date := et_run_date now\<rparr>"], of E] by simp
    then show ?thesis using that unfolding zero_is_whole_def by blast
  qed
  from assms obtain y where l: "paper_guard environ = Inr y"
    by (cases "paper_guard environ") (auto simp: day_main_def)
  with assms obtain z where l2: "require_env REQUIRED_ENV environ = Inr z"
    by (cases "require_env REQUIRED_ENV environ") (auto simp: day_main_def)
  obtain free x1 where k: "take_lock x = (free, x1)" by fastforce
  have free: free using assms by (cases free) (auto simp: day_main_def l l2 k andthen_def on_port_def lift_res_def ret_def)
  obtain b w1 where m: "market_is_open market_clock (s, x1) = (Inr b, w1)"
    using returnsD [OF returns_market_is_open, of market_clock "(s, x1)"] by blast
  have "fst w1 = s"
    using m unfolding market_is_open_def
    by (auto simp: catch_def andthen_def on_port_def lift_res_def ret_def raise_def split: prod.splits sum.splits pyval.splits)
  then obtain x2 where w1: "w1 = (s, x2)" by (metis prod.collapse)
  show ?thesis
  proof (cases b)
    case False
    with assms have "s' = s" by (simp add: day_main_def l l2 k free m w1 andthen_def on_port_def lift_res_def ret_def)
    then show ?thesis using m k False by simp
  next
    case True
    obtain now x3 where c: "clock_now E (s, x2) = (Inr now, (s, x3))" using clock_now_run [of E s x2] by blast
    from assms True obtain ov where "parse_channel_overrides (map_of environ ''SLACK_CHANNEL_OVERRIDES'') = Inr ov"
      by (cases "parse_channel_overrides (map_of environ ''SLACK_CHANNEL_OVERRIDES'')")
        (auto simp: day_main_def l l2 k free m w1 c andthen_def on_port_def lift_res_def)
    with assms True have "?go now (s, x3) = (Inr 0, (s', x'))"
      by (simp add: day_main_def l l2 k free m w1 c andthen_def on_port_def lift_res_def)
    from go [OF this] show ?thesis by auto
  qed
qed

section \<open>No account, no day\<close>

text \<open>
  C18: no stage runs on an account that cannot be believed. When two readings of the account
  could not be squared with the recorded holdings, the day ends with exit code 1 and one more
  alert, positions_payload_lost: no checkpoint, decision, ticket, order, signal or
  any other row but the alert was written, and no turn was made.
\<close>

theorem no_stage_without_an_account:
  assumes "res_bind (dy_watchlist E) (load_watchlist (dy_str E)) = Inr tickers" and "dy_sectors E = Inr sectors"
    and "clock_now E (s, x) = (Inr now, (s, x1))"
    and "account_snapshot (dy_account_state E) (dy_sleep E) now (s, x1) = (Inr None, (s2, x2))"
  shows "\<exists>s' x'. trading_day E (s, x) = (Inr 1, (s', x')) \<and> same_rows s s' \<and>
    alert_codes s' = alert_codes s @ [PStr ''positions_payload_lost'']"
proof -
  have s2: "s2 = alert ''positions_payload_lost'' now s"
    using account_is_believable [OF assms(4)] by simp
  obtain t x3 where c: "clock_now E (s2, x2) = (Inr t, (s2, x3))" using clock_now_run [of E s2 x2] by blast
  obtain n s' x' where d: "drain_outbox E t (s2, x3) = (Inr n, (s', x'))"
    using drain_outbox_Inr [of E t "(s2, x3)"] by (metis prod.collapse)
  have "alert_codes s' = alert_codes s2" and "same_rows s2 s'"
    using drain_outbox_codes [of E t "(s2, x3)"] drain_outbox_same [of "(s2, x3)" E t] by (simp_all add: d)
  moreover have "same_rows s s2" unfolding s2 by (rule same_rows_alert)
  ultimately show ?thesis
    using assms c d same_rows_trans [of s s2 s']
    by (simp add: trading_day_def andthen_def lift_res_def ret_def s2)
qed

section \<open>The program evolves the database\<close>

lemma evw_day_alert: "evw.obeys (day_alert P c p)"
proof -
  have "ev.obeys (modify (append_alert c p None False now))" for now
    by (rule ev_modify_same) (simp add: same_rows_alert)
  then show ?thesis unfolding day_alert_def by (intro evw.obeys_andthen evw_clock_now evw_on_db)
qed

lemma ev_record_turn_result: "ev.obeys (record_turn_result sdk rd seat r now m)"
proof -
  have "ev.obeys (record_cost rd seat u)" for u
  proof (rule ev.obeysI)
    fix s
    have "db_wf (s\<lparr>costs := c\<rparr>) = db_wf s" for c by (simp add: db_wf_def)
    moreover have "status_of t k (s\<lparr>costs := c\<rparr>) = status_of t k s" for t k c by (cases t; cases k) simp_all
    ultimately show "evolves s (snd (record_cost rd seat u s))"
      by (simp add: record_cost_def evolves_refl evolves_same_status del: status_of.simps)
  qed
  moreover have "ev.obeys (modify (append_event k p now))" "ev.obeys (modify (alert c now))" for k p c
    by (rule ev_alert)+
  ultimately show ?thesis unfolding record_turn_result_def Let_def
    by (intro ev.obeys_andthen ev.obeys_whenever ev.obeys_if ev.obeys_ret ev.obeys_lift)
qed

text \<open>
  A session: calls of the agents, then what the SDK reports of it. A trace is written outside
  the database.
\<close>

definition agent_session :: "('x conn_state world, 'a) prog \<Rightarrow> bool" where
  "agent_session m \<longleftrightarrow> (\<exists>t report. agent_turn t \<and> m = andthen t (\<lambda>_. on_port report))"

definition agents_only :: "('x conn_state, 'z) day_env_scheme \<Rightarrow> bool" where
  "agents_only E \<longleftrightarrow> (\<forall>seat brief. agent_session (dy_session E seat brief)) \<and>
     (\<forall>seat names result m. dy_trace E seat names result = Some m \<longrightarrow> (\<exists>f. m = on_port f))"

lemma evw_make_turn:
  assumes "agents_only E"
  shows "evw.obeys (make_turn E seat model brief)"
proof -
  have session: "evw.obeys (dy_session E seat brief)"
    using assms agent_turn_obeys evw.obeys_andthen evw_on_port unfolding agents_only_def agent_session_def by metis
  have trace: "evw.obeys (emit_trace_guarded (dy_trace E seat names result))" for names result
  proof (cases "dy_trace E seat names result")
    case (Some m)
    with assms obtain f where "m = on_port f" unfolding agents_only_def by blast
    with Some show ?thesis by (simp add: emit_trace_guarded_def evw.obeys_catch evw.obeys_ret evw_on_port)
  qed (simp add: emit_trace_guarded_def evw.obeys_ret)
  have cost: "evw.obeys (record_cost_guarded E sdk rd seat result model)" for sdk rd result
    unfolding record_cost_guarded_def
    by (intro evw.obeys_catch evw.obeys_andthen evw.obeys_ret evw_clock_now evw_on_db ev.obeys_andthen ev.obeys_ret ev_record_turn_result)
  have check: "evw.obeys (check_exec_turn E names)" for names
    unfolding check_exec_turn_def
    by (intro evw.obeys_catch evw.obeys_andthen evw_clock_now evw_on_db ev.obeys_gets evw.obeys_lift evw_day_alert)
  have att: "evw.obeys (attempt (dy_session E seat brief))"
    unfolding attempt_def by (intro evw.obeys_catch evw.obeys_andthen evw.obeys_ret session)
  show ?thesis unfolding make_turn_def
    by (intro evw.obeys_andthen att evw.obeys_sum evw_day_alert evw.obeys_prod trace cost evw.obeys_if check evw.obeys_ret)
qed

lemma evw_config_check: "evw.obeys (assert_account_config_unchanged show_exn config baseline now)"
proof -
  have d: "evw.obeys (drift_alert now d)" for d
    unfolding drift_alert_def by (intro evw.obeys_andthen evw_on_db evw.obeys_ret ev_modify_same) (simp add: same_rows_alert)
  have c: "evw.obeys (compare_field now b a k n)" for b a k n
    unfolding compare_field_def by (intro evw.obeys_option evw.obeys_ret evw.obeys_andthen d)
  have "evw.obeys (case got of Inl e \<Rightarrow> drift_alert now (f e) | Inr (PDict a) \<Rightarrow> fold_each (compare_field now baseline a) (g a) 0
      | Inr _ \<Rightarrow> drift_alert now h)" for got :: "exn + pyval" and f g h
    by (cases got) (auto intro!: d evw.obeys_fold_each c split: pyval.split)
  then show ?thesis unfolding assert_account_config_unchanged_def
    by (intro evw.obeys_if d evw.obeys_andthen evw.obeys_catch evw.obeys_ret evw_on_port)
qed

lemma evw_report_audit: "evw.obeys (report_audit P window rd)"
  unfolding report_audit_def
  by (intro evw.obeys_andthen evw_on_db ev.obeys_gets evw.obeys_lift evw.obeys_if evw.obeys_ret evw_clock_now evw_drain_outbox
      ev_modify_same) (simp add: self_alert_def same_rows_alert)

lemma evw_post_scorecard: "evw.obeys (post_scorecard P score rd)"
proof -
  have "ev.obeys (append_scorecard_event score rd now)" for now
    unfolding append_scorecard_event_def by (intro ev.obeys_andthen ev.obeys_gets ev.obeys_lift ev_alert)
  then show ?thesis unfolding post_scorecard_def
    by (intro evw.obeys_catch evw.obeys_andthen evw_clock_now evw_on_db evw_drain_outbox evw.obeys_ret)
qed

lemma agents_only_update [simp]:
  "agents_only (E\<lparr>cx_inputs := i, cx_seats := st\<rparr>) = agents_only E" "agents_only (E\<lparr>cx_run_date := rd\<rparr>) = agents_only E"
  by (simp_all add: agents_only_def)

lemma turns_of_the_day: "agents_only E \<Longrightarrow> turns_evolve (with_turns E account models)"
  unfolding turns_evolve_def with_turns_def Let_def
  by (auto intro!: evw.obeys_for_each evw_make_turn split: if_splits)

lemma evw_staged_day:
  assumes "agents_only E"
  shows "evw.obeys (staged_day E account)"
proof -
  have "evw.obeys (run_day (with_turns E account models) (dy_line E) (Some (make_turn E ''exec'' em None)) (Some (dy_broker E)) (dy_sleep E))"
    for models em
    using evw_run_day [OF turns_of_the_day [OF assms]] evw_make_turn [OF assms] by blast
  then show ?thesis unfolding staged_day_def
    by (intro evw.obeys_andthen evw.obeys_lift evw_clock_now evw_config_check evw.obeys_if evw_drain_outbox evw.obeys_ret
        evw_post_scorecard evw_report_audit)
qed

lemma evw_account_snapshot: "evw.obeys (account_snapshot st nap now)"
  unfolding account_snapshot_def
  by (intro evw.obeys_andthen evw_on_db ev.obeys_gets evw_on_port evw.obeys_lift evw.obeys_option evw.obeys_ret ev_alert)

lemma evw_trading_day:
  assumes "agents_only E"
  shows "evw.obeys (trading_day E)"
  unfolding trading_day_def alert_missing_price_history_def alert_unmapped_sectors_def Let_def
  by (intro evw.obeys_andthen evw.obeys_lift evw_clock_now evw_account_snapshot evw.obeys_option evw_drain_outbox evw.obeys_ret
      evw_on_port evw.obeys_if evw_day_alert evw_staged_day) (simp add: assms)

lemma evw_day_main:
  assumes "agents_only E"
  shows "evw.obeys (day_main E environ take_lock market_clock et_run_date)"
proof -
  have rd: "agents_only (E\<lparr>cx_run_date := d\<rparr>)" for d
    using assms by (simp add: agents_only_def)
  have "evw.obeys (market_is_open market_clock)"
    unfolding market_is_open_def
    by (intro evw.obeys_catch evw.obeys_ret evw.obeys_andthen evw_on_port) (auto intro!: evw.obeys_intros split: pyval.split)
  then show ?thesis unfolding day_main_def guarded_def
    by (intro evw.obeys_andthen evw.obeys_lift evw_on_port evw.obeys_if evw.obeys_ret evw_clock_now evw.obeys_catch evw_day_alert
        evw_drain_outbox evw_trading_day rd)
qed

text \<open>
  C6: no run of the program bends the database. Whatever the seats' sessions call, whatever
  the broker, the price feed, the clock, the configuration files and Slack answer and
  whichever of them raises, and however the program exits, it leaves the keys unique and every row in place, each
  moved along the edges of its machine only and never out of a terminal status.
\<close>

theorem no_run_bends_the_database:
  assumes "agents_only E" and "db_wf s"
    and run: "day_main E environ take_lock market_clock et_run_date (s, x) = (r, (s', x'))"
    and "status_of t k s = Some a"
  shows "db_wf s' \<and> (\<exists>b. status_of t k s' = Some b \<and> moved t a b \<and> (terminal t a \<longrightarrow> b = a))"
proof -
  from evw.obeysD [OF evw_day_main [OF assms(1)], where w = "(s, x)"]
  have "evolves s s'" using run by (metis evolves_fst_def fst_conv snd_conv)
  then obtain b where "db_wf s'" "status_of t k s' = Some b" "moved t a b"
    using assms(2,4) unfolding evolves_def by blast
  then show ?thesis using moved_terminal by blast
qed

section \<open>Witnesses\<close>

text \<open>A day on which the circuit breaker leaves nothing to do, and one with a payload that was lost.\<close>

definition quiet_env :: "(unit conn_state) day_env" where
  "quiet_env = \<lparr>now_port = (\<lambda>x. (60, x)), render_port = (\<lambda>_ _. Inr PNone), post_port = (\<lambda>_ x. (Inr (), x)),
     cx_run_date = [], cx_seats = [], cx_inputs = [],
     cx_validate = (\<lambda>_. Inr (golden_inputs\<lparr>daily_pnl_pct := Fin (- 1)\<rparr>)), cx_turn = (\<lambda>_. None), cx_new_id = (\<lambda>x. (''tk-1'', x)),
     cx_hhmm = (\<lambda>_. ''12:00''), cx_sum = (\<lambda>_. Fin 0), cx_journals = None,
     dy_watchlist = Inr (PDict [(''tickers'', PList [PStr ''nvda''])]), dy_str = (\<lambda>_. []), dy_sectors = Inr [(''NVDA'', PStr ''tech'')],
     dy_account_state = (\<lambda>x. (Inr [(''long_market_value'', PFloat (Fin 0)), (''positions'', PDict [])], x)),
     dy_close_frame = (\<lambda>_ _ x. (Inr [], x)), dy_account_config = (\<lambda>x. (Inr (PDict [(''no_shorting'', PBool True)]), x)),
     dy_baseline = Inr [(''no_shorting'', PBool True)],
     dy_broker = \<lparr>bk_lookup = None, bk_cancel = (\<lambda>_ x. (Inr (), x)), bk_positions = Some (\<lambda>x. (Inr [], x)),
       bk_orders = Some (\<lambda>x. (Inr [], x)), bk_real_text = (\<lambda>_. []), bk_str = (\<lambda>_. [])\<rparr>,
     dy_sleep = (\<lambda>_ x. (Inr (), x)), dy_pandas = flat_pandas, dy_seat_config = (\<lambda>_. Inr ''m''),
     dy_session = (\<lambda>_ _. andthen (ret ()) (\<lambda>_. on_port (\<lambda>x. (Inr ([], None), x)))), dy_trace = (\<lambda>_ _ _. None),
     dy_score = (\<lambda>_ _. Inr (PList [])), dy_window = (\<lambda>_. Inr (0, 86400)), dy_show_exn = (\<lambda>_. []), dy_line = (\<lambda>_ _. []),
     dy_sdk = ''sdk''\<rparr>"

definition paper_environ :: environ where
  "paper_environ = (''ALPACA_PAPER_TRADE'', ''true'') # map (\<lambda>n. (n, ''x'')) REQUIRED_ENV"

definition quiet_run :: "int res \<times> (unit conn_state) world" where
  "quiet_run = day_main quiet_env paper_environ (\<lambda>x. (True, x)) (\<lambda>x. (Inr (PDict [(''is_open'', PBool True)]), x))
     (\<lambda>_. ''2026-08-17'') (empty_db, ((), False))"

theorem clean_exit_means_whole_day_witness:
  "fst quiet_run = Inr 0 \<and> day_is_whole ''2026-08-17'' (0, 86400) (fst (snd quiet_run))"
proof -
  have z: "fst quiet_run = Inr 0" by code_simp
  obtain s' x' where run: "quiet_run = (Inr 0, (s', x'))" using z by (metis prod.collapse)
  have "fst (market_is_open (\<lambda>x. (Inr (PDict [(''is_open'', PBool True)]), x)) (empty_db, ((), False))) \<noteq> Inr False"
    by (simp add: market_is_open_def catch_def andthen_def on_port_def lift_res_def ret_def dkey_def)
  moreover have "dy_window quiet_env d = Inr (0, 86400)" for d by (simp add: quiet_env_def)
  ultimately have "day_is_whole ''2026-08-17'' (0, 86400) s'"
    using clean_exit_means_whole_day [OF run [unfolded quiet_run_def]] by auto
  moreover have "s' = fst (snd quiet_run)" unfolding run by simp
  ultimately show ?thesis using z by simp
qed

theorem no_stage_without_an_account_witness:
  "\<exists>s' x'. trading_day (quiet_env\<lparr>dy_account_state := (\<lambda>x. (Inr [(''long_market_value'', PFloat (Fin 1))], x))\<rparr>)
     (one_decision, ((), False)) = (Inr 1, (s', x')) \<and> decisions s' = decisions one_decision"
proof -
  let ?E = "quiet_env\<lparr>dy_account_state := (\<lambda>x. (Inr [(''long_market_value'', PFloat (Fin 1))], x))\<rparr>"
  have w: "res_bind (dy_watchlist ?E) (load_watchlist (dy_str ?E)) = Inr [''NVDA'']" by code_simp
  have "recorded_holdings one_decision = []" by (simp add: recorded_holdings_def one_decision_def empty_db_def)
  then have a: "account_snapshot (dy_account_state ?E) (dy_sleep ?E) 60 (one_decision, ((), False))
      = (Inr None, (alert ''positions_payload_lost'' 60 one_decision, ((), False)))"
    by (simp add: quiet_env_def account_snapshot_def andthen_def on_db_def on_port_def gets_def lift_res_def modify_def ret_def
        payload_fault_def as_dollars_def dget_def)
  have c: "clock_now ?E (one_decision, ((), False)) = (Inr 60, (one_decision, ((), False)))"
    by (simp add: quiet_env_def clock_now_def on_port_def)
  have "dy_sectors ?E = Inr [(''NVDA'', PStr ''tech'')]" by (simp add: quiet_env_def)
  from no_stage_without_an_account [OF w this c a] show ?thesis by (auto simp: same_rows_def)
qed

theorem no_run_bends_the_database_witness:
  "db_wf (fst (snd (day_main quiet_env paper_environ (\<lambda>x. (True, x)) (\<lambda>x. (Inr (PDict [(''is_open'', PBool True)]), x))
     (\<lambda>_. ''2026-08-17'') (one_decision, ((), False)))))"
proof -
  have "agent_session (dy_session quiet_env seat brief)" for seat brief
    unfolding agent_session_def
    by (rule exI [of _ "ret ()"], rule exI [of _ "\<lambda>x. (Inr ([], None), x)"]) (simp add: quiet_env_def agent_turn.nothing)
  then have e: "agents_only quiet_env" by (simp add: agents_only_def) (simp add: quiet_env_def)
  obtain r s' x' where run: "day_main quiet_env paper_environ (\<lambda>x. (True, x)) (\<lambda>x. (Inr (PDict [(''is_open'', PBool True)]), x))
     (\<lambda>_. ''2026-08-17'') (one_decision, ((), False)) = (r, (s', x'))" by (metis prod_cases3)
  from no_run_bends_the_database [OF e one_decision_wf run one_decision_submitted] run show ?thesis by simp
qed

end
