(* ===== verification/ScoreDay.thy ===== *)
theory ScoreDay imports DayAudit Reconcile begin

text \<open>
  scripts/score_day.py: the day's turns, ranked by severity. A row is a value of \<open>found\<close> with the
  figures its text is made of. SQLite's \<open>SUM\<close> and \<open>AVG\<close> and Python's \<open>sum\<close> of floats round in
  ways that depend on their versions and are the parameter \<open>sum_fns\<close>.
\<close>

record sum_fns =
  sql_sum :: "pyfloat list \<Rightarrow> pyfloat"
  sql_avg :: "int list \<Rightarrow> pyfloat"
  float_sum :: "pyfloat list \<Rightarrow> pyfloat"

definition BASELINE_WINDOW :: nat where "BASELINE_WINDOW = 20"
definition MIN_BASELINE :: nat where "MIN_BASELINE = 5"
definition COST_OUTLIER_MULTIPLE :: pyfloat where "COST_OUTLIER_MULTIPLE = Fin 3"
definition CONFIDENCE_SWING_POINTS :: pyfloat where "CONFIDENCE_SWING_POINTS = Fin 20"

datatype found =
    Defaulted_signal string nat nat "string list"
  | Defaulted_decision nat nat "string list"
  | Critic_timeout nat "string list"
  | Gate_rejected string action pyval
  | Execution_failed string status
  | Decision_stranded string action
  | Model_fallback pyval "string list" pyval
  | Cost_outlier string pyfloat pyfloat nat
  | Confidence_outlier string pyfloat pyfloat
  | Coverage_gap string

text \<open>The first argument of \<open>_row\<close>.\<close>

fun severity :: "found \<Rightarrow> nat" where
  "severity (Defaulted_signal _ _ _ _) = 0" | "severity (Defaulted_decision _ _ _) = 0" | "severity (Critic_timeout _ _) = 0"
| "severity (Gate_rejected _ _ _) = 1"
| "severity (Execution_failed _ _) = 2" | "severity (Decision_stranded _ _) = 2"
| "severity (Model_fallback _ _ _) = 3" | "severity (Cost_outlier _ _ _ _) = 3" | "severity (Confidence_outlier _ _ _) = 3"
| "severity (Coverage_gap _) = 4"

section \<open>The fund did not think\<close>

definition day_signals :: "date \<Rightarrow> db \<Rightarrow> signal list" where
  "day_signals rd s = filter (\<lambda>g. sg_run_date g = rd) (signals s)"

definition day_decisions :: "date \<Rightarrow> db \<Rightarrow> decision list" where
  "day_decisions rd s = sort_key d_ticker (filter (\<lambda>d. d_run_date d = rd) (decisions s))"

text \<open>\<open>GROUP BY agent ... ORDER BY agent\<close>\<close>

definition agents_of :: "signal list \<Rightarrow> string list" where
  "agents_of gs = sort (remdups (map sg_agent gs))"

definition silent_seats :: "date \<Rightarrow> db \<Rightarrow> found list" where
  "silent_seats rd s = List.map_filter (\<lambda>a.
     (let all = filter (\<lambda>g. sg_agent g = a) (day_signals rd s); silent = filter (\<lambda>g. sg_charter g = ''none'') all in
      if silent = [] then None
      else Some (Defaulted_signal a (length silent) (length all) (sort (concat (map (split_on '','' \<circ> sg_ticker) silent))))))
     (agents_of (day_signals rd s))"

definition silent_pm :: "date \<Rightarrow> db \<Rightarrow> found list" where
  "silent_pm rd s = (let rows = map d_ticker (filter (\<lambda>d. d_charter d = ''none'') (day_decisions rd s)) in
     if rows = [] then [] else [Defaulted_decision (length rows) (length (day_decisions rd s)) (sort rows)])"

definition timed_out_critic :: "date \<Rightarrow> db \<Rightarrow> found list" where
  "timed_out_critic rd s = (let rows = map cq_ticker (filter (\<lambda>c. cq_run_date c = rd \<and> cq_note c = ''critic_timeout'') (critiques s)) in
     if rows = [] then [] else [Critic_timeout (length rows) (sort rows)])"

section \<open>The gate, and what did not land\<close>

text \<open>The scalar subquery: the newest rejection event that names the decision; \<open>PNone\<close> when there is none.\<close>

definition recorded_reason :: "db \<Rightarrow> decision \<Rightarrow> pyval" where
  "recorded_reason s d = (case sort_key (\<lambda>e. - e_id e) (filter (\<lambda>e. e_kind e = ''gate_rejected'' \<and>
       num_val (dget (e_payload e) ''decision_id'') = Some (Fin (of_int (d_id d)))) (events s)) of
     [] \<Rightarrow> PNone | e # _ \<Rightarrow> dget (e_payload e) ''reason'')"

definition NO_REASON :: pyval where "NO_REASON = PStr ''no reason recorded''"

definition gate_rejections :: "date \<Rightarrow> db \<Rightarrow> found list" where
  "gate_rejections rd s = map (\<lambda>d. Gate_rejected (d_ticker d) (d_action d)
       (if truthy (recorded_reason s d) then recorded_reason s d else NO_REASON))
     (filter (\<lambda>d. d_status d = Rejected_st) (day_decisions rd s))"

definition failed_executions :: "date \<Rightarrow> db \<Rightarrow> found list" where
  "failed_executions rd s = map (\<lambda>d. Execution_failed (d_ticker d) (d_status d))
     (filter (\<lambda>d. d_status d \<in> {Failed, Expired}) (day_decisions rd s))"

definition stranded_decisions :: "date \<Rightarrow> db \<Rightarrow> found list" where
  "stranded_decisions rd s = map (\<lambda>d. Decision_stranded (d_ticker d) (d_action d))
     (filter (\<lambda>d. d_status d = Approved_st) (day_decisions rd s))"

section \<open>Outliers and divergence\<close>

text \<open>\<open>", ".join(v)\<close>: the pieces.\<close>

fun pieces :: "pyval list \<Rightarrow> string list res" where
  "pieces [] = Inr []"
| "pieces (PStr t # vs) = res_bind (pieces vs) (\<lambda>ts. Inr (t # ts))"
| "pieces (_ # vs) = Inl TypeError"

definition joined :: "pyval \<Rightarrow> string list res" where
  "joined v = (case v of PList vs \<Rightarrow> pieces vs | PStr t \<Rightarrow> Inr (map (\<lambda>c. [c]) t) | PDict d \<Rightarrow> Inr (map fst d) | _ \<Rightarrow> Inl TypeError)"

definition divergence :: "event \<Rightarrow> found res" where
  "divergence e = (let p = e_payload e in
     res_bind (dkey p ''seat'') (\<lambda>seat. res_bind (dkey p ''served'') (\<lambda>v. res_bind (joined v) (\<lambda>served.
     res_bind (dkey p ''configured'') (\<lambda>conf. Inr (Model_fallback seat served conf))))))"

fun rows_res :: "('a \<Rightarrow> 'b res) \<Rightarrow> 'a list \<Rightarrow> 'b list res" where
  "rows_res f [] = Inr []"
| "rows_res f (x # xs) = res_bind (f x) (\<lambda>y. res_bind (rows_res f xs) (\<lambda>ys. Inr (y # ys)))"

definition model_divergences :: "(date \<Rightarrow> (time \<times> time) res) \<Rightarrow> date \<Rightarrow> db \<Rightarrow> found list res" where
  "model_divergences day_window rd s = res_bind (day_window rd) (\<lambda>win.
     rows_res divergence (sort_key e_id (filter (\<lambda>e. e_kind e = ''model_fallback_used'' \<and>
        fst win \<le> e_created_at e \<and> e_created_at e < snd win) (events s))))"

text \<open>The mean of the window; \<open>None\<close> when the history is too short to be one.\<close>

definition baseline :: "('a list \<Rightarrow> pyfloat) \<Rightarrow> 'a list \<Rightarrow> pyfloat option" where
  "baseline summed history = (let window = take BASELINE_WINDOW history in
     if length window < MIN_BASELINE then None
     else case fdiv (summed window) (Fin (of_nat (length window))) of Inr m \<Rightarrow> Some m | Inl _ \<Rightarrow> None)"

definition spent :: "sum_fns \<Rightarrow> db \<Rightarrow> string \<Rightarrow> date \<Rightarrow> pyfloat" where
  "spent M s a day = sql_sum M (map k_usd (filter (\<lambda>k. k_agent k = a \<and> k_run_date k = day) (costs s)))"

definition cost_history :: "sum_fns \<Rightarrow> date \<Rightarrow> db \<Rightarrow> string \<Rightarrow> pyfloat list" where
  "cost_history M rd s a = map (spent M s a)
     (rev (sort (remdups (map k_run_date (filter (\<lambda>k. k_agent k = a \<and> k_run_date k < rd) (costs s))))))"

definition cost_outliers :: "sum_fns \<Rightarrow> date \<Rightarrow> db \<Rightarrow> found list" where
  "cost_outliers M rd s = List.map_filter (\<lambda>a. case baseline (float_sum M) (cost_history M rd s a) of None \<Rightarrow> None
     | Some mean \<Rightarrow> if fle (spent M s a rd) (fmul mean COST_OUTLIER_MULTIPLE) then None
         else Some (Cost_outlier a (spent M s a rd) mean (length (take BASELINE_WINDOW (cost_history M rd s a)))))
     (sort (remdups (map k_agent (filter (\<lambda>k. k_run_date k = rd) (costs s)))))"

definition spoken :: "signal list \<Rightarrow> signal list" where
  "spoken gs = filter (\<lambda>g. sg_charter g \<noteq> ''none'') gs"

definition confidence_history :: "date \<Rightarrow> db \<Rightarrow> string \<Rightarrow> int list" where
  "confidence_history rd s a = rev (map sg_confidence (filter (\<lambda>g. sg_agent g = a \<and> sg_run_date g < rd) (spoken (signals s))))"

fun fabs :: "pyfloat \<Rightarrow> pyfloat" where
  "fabs (Fin a) = Fin \<bar>a\<bar>" | "fabs NaN = NaN" | "fabs _ = PInf"

definition confidence_outliers :: "sum_fns \<Rightarrow> date \<Rightarrow> db \<Rightarrow> found list" where
  "confidence_outliers M rd s = List.map_filter (\<lambda>a.
     (let today = sql_avg M (map sg_confidence (filter (\<lambda>g. sg_agent g = a) (spoken (day_signals rd s)))) in
      case baseline (\<lambda>xs. Fin (of_int (sum_list xs))) (confidence_history rd s a) of None \<Rightarrow> None
      | Some mean \<Rightarrow> if fle (fabs (fsub today mean)) CONFIDENCE_SWING_POINTS then None else Some (Confidence_outlier a today mean)))
     (agents_of (spoken (day_signals rd s)))"

definition coverage_gaps :: "date \<Rightarrow> db \<Rightarrow> found list" where
  "coverage_gaps rd s = map Coverage_gap (sort (remdups (map sg_ticker
     (filter (\<lambda>g. \<not> decided rd (sg_ticker g) s) (day_signals rd s)))))"

section \<open>The scorecard\<close>

definition score :: "sum_fns \<Rightarrow> (date \<Rightarrow> (time \<times> time) res) \<Rightarrow> date \<Rightarrow> db \<Rightarrow> found list res" where
  "score M day_window rd s = res_bind (model_divergences day_window rd s) (\<lambda>diverged. Inr (sort_key severity
     (silent_seats rd s @ silent_pm rd s @ timed_out_critic rd s @ gate_rejections rd s @ failed_executions rd s
      @ stranded_decisions rd s @ diverged @ cost_outliers M rd s @ confidence_outliers M rd s @ coverage_gaps rd s)))"

lemma map_filter_mem: "x \<in> set xs \<Longrightarrow> f x = Some y \<Longrightarrow> y \<in> set (List.map_filter f xs)"
  by (induction xs) (auto simp: List.map_filter_simps split: option.splits)

lemma each_res_mem: "rows_res f xs = Inr ys \<Longrightarrow> y \<in> set ys \<Longrightarrow> \<exists>x\<in>set xs. f x = Inr y"
  by (induction xs arbitrary: ys) (auto simp: res_bind_Inr)

lemma score_rows:
  assumes "score M day_window rd s = Inr rows"
  shows "\<exists>diverged. model_divergences day_window rd s = Inr diverged \<and>
    set rows = set (silent_seats rd s) \<union> set (silent_pm rd s) \<union> set (timed_out_critic rd s) \<union> set (gate_rejections rd s)
      \<union> set (failed_executions rd s) \<union> set (stranded_decisions rd s) \<union> set diverged \<union> set (cost_outliers M rd s)
      \<union> set (confidence_outliers M rd s) \<union> set (coverage_gaps rd s)"
  using assms by (auto simp: score_def res_bind_Inr simp flip: Un_assoc)

lemma mem_day_decisions: "d \<in> set (day_decisions rd s) \<longleftrightarrow> d \<in> set (decisions s) \<and> d_run_date d = rd"
  by (auto simp: day_decisions_def)

text \<open>How a decision that did not become a trade is ranked.\<close>

fun rank_of :: "db \<Rightarrow> decision \<Rightarrow> found option" where
  "rank_of s d = (case d_status d of
     Rejected_st \<Rightarrow> Some (Gate_rejected (d_ticker d) (d_action d) (if truthy (recorded_reason s d) then recorded_reason s d else NO_REASON))
   | Failed \<Rightarrow> Some (Execution_failed (d_ticker d) Failed) | Expired \<Rightarrow> Some (Execution_failed (d_ticker d) Expired)
   | Approved_st \<Rightarrow> Some (Decision_stranded (d_ticker d) (d_action d)) | _ \<Rightarrow> None)"

lemma rank_of_mem:
  assumes "d \<in> set (decisions s)" and "d_run_date d = rd" and "rank_of s d = Some f"
  shows "f \<in> set (gate_rejections rd s) \<union> set (failed_executions rd s) \<union> set (stranded_decisions rd s)"
  using assms
  by (cases "d_status d")
    (auto simp: gate_rejections_def failed_executions_def stranded_decisions_def mem_day_decisions image_iff intro!: bexI [of _ d])

lemma silent_seat_mem:
  assumes "g \<in> set (signals s)" and "sg_run_date g = rd" and "sg_charter g = ''none''"
  shows "\<exists>n m ts. Defaulted_signal (sg_agent g) n m ts \<in> set (silent_seats rd s) \<and> 0 < n \<and> n \<le> m
    \<and> set (split_on '','' (sg_ticker g)) \<subseteq> set ts"
proof -
  let ?all = "filter (\<lambda>h. sg_agent h = sg_agent g) (day_signals rd s)"
  let ?silent = "filter (\<lambda>h. sg_charter h = ''none'') ?all"
  let ?ts = "sort (concat (map (split_on '','' \<circ> sg_ticker) ?silent))"
  have g: "g \<in> set ?silent" using assms by (simp add: day_signals_def)
  then have "?silent \<noteq> []" by (metis empty_iff empty_set)
  moreover have "sg_agent g \<in> set (agents_of (day_signals rd s))" using assms by (simp add: agents_of_def day_signals_def)
  ultimately have "Defaulted_signal (sg_agent g) (length ?silent) (length ?all) ?ts \<in> set (silent_seats rd s)"
    unfolding silent_seats_def by (intro map_filter_mem [of "sg_agent g"]) (simp_all only: Let_def if_False)
  moreover have "0 < length ?silent" using \<open>?silent \<noteq> []\<close> by simp
  moreover have "length ?silent \<le> length ?all" by (rule length_filter_le)
  moreover have "set (split_on '','' (sg_ticker g)) \<subseteq> set ?ts" using g by auto
  ultimately show ?thesis by blast
qed

lemma silent_pm_mem:
  assumes "d \<in> set (decisions s)" and "d_run_date d = rd" and "d_charter d = ''none''"
  shows "\<exists>m ts. Defaulted_decision (length ts) m ts \<in> set (silent_pm rd s) \<and> length ts \<le> m \<and> d_ticker d \<in> set ts"
proof -
  let ?rows = "map d_ticker (filter (\<lambda>d. d_charter d = ''none'') (day_decisions rd s))"
  have d: "d_ticker d \<in> set ?rows" using assms by (auto simp: mem_day_decisions)
  then have "?rows \<noteq> []" by force
  then have "Defaulted_decision (length (sort ?rows)) (length (day_decisions rd s)) (sort ?rows) \<in> set (silent_pm rd s)"
    by (simp add: silent_pm_def Let_def del: map_is_Nil_conv)
  moreover have "length (sort ?rows) \<le> length (day_decisions rd s)" by simp
  moreover have "d_ticker d \<in> set (sort ?rows)" using d by simp
  ultimately show ?thesis by blast
qed

lemma timed_out_mem:
  assumes "c \<in> set (critiques s)" and "cq_run_date c = rd" and "cq_note c = ''critic_timeout''"
  shows "\<exists>ts. Critic_timeout (length ts) ts \<in> set (timed_out_critic rd s) \<and> cq_ticker c \<in> set ts"
proof -
  let ?rows = "map cq_ticker (filter (\<lambda>c. cq_run_date c = rd \<and> cq_note c = ''critic_timeout'') (critiques s))"
  have c: "cq_ticker c \<in> set ?rows" using assms by auto
  then have "?rows \<noteq> []" by force
  then have "Critic_timeout (length (sort ?rows)) (sort ?rows) \<in> set (timed_out_critic rd s)"
    by (simp add: timed_out_critic_def Let_def del: map_is_Nil_conv)
  moreover have "cq_ticker c \<in> set (sort ?rows)" using c by simp
  ultimately show ?thesis by blast
qed

lemma rows_res_all: "rows_res f xs = Inr ys \<Longrightarrow> x \<in> set xs \<Longrightarrow> \<exists>y\<in>set ys. f x = Inr y"
  by (induction xs arbitrary: ys) (auto simp: res_bind_Inr)

lemma diverged_mem:
  assumes "model_divergences day_window rd s = Inr diverged" and "day_window rd = Inr win"
    and "e \<in> set (events s)" "e_kind e = ''model_fallback_used''" "fst win \<le> e_created_at e" "e_created_at e < snd win"
  shows "\<exists>seat served conf. Model_fallback seat served conf \<in> set diverged \<and> map_of (e_payload e) ''seat'' = Some seat"
proof -
  let ?es = "sort_key e_id (filter (\<lambda>e. e_kind e = ''model_fallback_used'' \<and> fst win \<le> e_created_at e \<and> e_created_at e < snd win) (events s))"
  have r: "rows_res divergence ?es = Inr diverged" using assms(1,2) by (simp add: model_divergences_def)
  have m: "e \<in> set ?es" using assms(3-6) by simp
  from rows_res_all [OF r m] obtain f where "f \<in> set diverged" "divergence e = Inr f" by (elim bexE)
  then show ?thesis by (auto simp: divergence_def Let_def res_bind_Inr dkey_def split: option.splits)
qed

text \<open>
  C27: the scorecard hides no failure. Whenever it can be computed, its rows come in the order of
  their severity, and each of these has a row. Every decision of the day that the gate rejected, that failed, that expired or that
  is left approved, with the ticker and what became of it; every seat that was silent
  on some tickers, with these tickers; the PM, with every ticker it was silent on; the critic, with every ticker it
  timed out on; every seat that a fallback model served; and every signalled ticker without a decision.
\<close>

theorem scorecard_hides_no_failure:
  assumes "score M day_window rd s = Inr rows"
  shows "sorted (map severity rows) \<and>
    (\<forall>d\<in>set (decisions s). d_run_date d = rd \<longrightarrow> (\<forall>f. rank_of s d = Some f \<longrightarrow> f \<in> set rows) \<and>
       (d_charter d = ''none'' \<longrightarrow> (\<exists>m ts. Defaulted_decision (length ts) m ts \<in> set rows \<and> length ts \<le> m \<and> d_ticker d \<in> set ts))) \<and>
    (\<forall>g\<in>set (signals s). sg_run_date g = rd \<longrightarrow>
       (sg_charter g = ''none'' \<longrightarrow> (\<exists>n m ts. Defaulted_signal (sg_agent g) n m ts \<in> set rows \<and> 0 < n \<and> n \<le> m
          \<and> set (split_on '','' (sg_ticker g)) \<subseteq> set ts)) \<and>
       (\<not> decided rd (sg_ticker g) s \<longrightarrow> Coverage_gap (sg_ticker g) \<in> set rows)) \<and>
    (\<forall>c\<in>set (critiques s). cq_run_date c = rd \<and> cq_note c = ''critic_timeout'' \<longrightarrow>
       (\<exists>ts. Critic_timeout (length ts) ts \<in> set rows \<and> cq_ticker c \<in> set ts)) \<and>
    (\<forall>win. \<forall>e\<in>set (events s). day_window rd = Inr win \<and> e_kind e = ''model_fallback_used'' \<and> fst win \<le> e_created_at e \<and> e_created_at e < snd win \<longrightarrow>
       (\<exists>seat served conf. Model_fallback seat served conf \<in> set rows \<and> map_of (e_payload e) ''seat'' = Some seat))"
proof -
  obtain diverged where dv: "model_divergences day_window rd s = Inr diverged" and
    rows: "set rows = set (silent_seats rd s) \<union> set (silent_pm rd s) \<union> set (timed_out_critic rd s) \<union> set (gate_rejections rd s)
      \<union> set (failed_executions rd s) \<union> set (stranded_decisions rd s) \<union> set diverged \<union> set (cost_outliers M rd s)
      \<union> set (confidence_outliers M rd s) \<union> set (coverage_gaps rd s)"
    using score_rows [OF assms] by metis
  have "sorted (map severity rows)"
    using assms by (auto simp: score_def res_bind_Inr)
  moreover have "f \<in> set rows" if "d \<in> set (decisions s)" "d_run_date d = rd" "rank_of s d = Some f" for d f
    using rank_of_mem [OF that] unfolding rows by blast
  moreover have "\<exists>m ts. Defaulted_decision (length ts) m ts \<in> set rows \<and> length ts \<le> m \<and> d_ticker d \<in> set ts"
    if "d \<in> set (decisions s)" "d_run_date d = rd" "d_charter d = ''none''" for d
    using silent_pm_mem [OF that] unfolding rows by blast
  moreover have "\<exists>n m ts. Defaulted_signal (sg_agent g) n m ts \<in> set rows \<and> 0 < n \<and> n \<le> m \<and> set (split_on '','' (sg_ticker g)) \<subseteq> set ts"
    if "g \<in> set (signals s)" "sg_run_date g = rd" "sg_charter g = ''none''" for g
    using silent_seat_mem [OF that] unfolding rows by blast
  moreover have "Coverage_gap (sg_ticker g) \<in> set rows"
    if "g \<in> set (signals s)" "sg_run_date g = rd" "\<not> decided rd (sg_ticker g) s" for g
    using that unfolding rows by (auto simp: coverage_gaps_def day_signals_def)
  moreover have "\<exists>ts. Critic_timeout (length ts) ts \<in> set rows \<and> cq_ticker c \<in> set ts"
    if "c \<in> set (critiques s)" "cq_run_date c = rd" "cq_note c = ''critic_timeout''" for c
    using timed_out_mem [OF that] unfolding rows by blast
  moreover have "\<exists>seat served conf. Model_fallback seat served conf \<in> set rows \<and> map_of (e_payload e) ''seat'' = Some seat"
    if "day_window rd = Inr win" "e \<in> set (events s)" "e_kind e = ''model_fallback_used''" "fst win \<le> e_created_at e" "e_created_at e < snd win" for e win
    using diverged_mem [OF dv that] unfolding rows by blast
  ultimately show ?thesis by (intro conjI ballI impI allI) blast+
qed

section \<open>The reason of a rejection\<close>

text \<open>No rejection event names its decision.\<close>

definition unnamed_rejections :: "db \<Rightarrow> bool" where
  "unnamed_rejections s \<longleftrightarrow> (\<forall>e\<in>set (events s). e_kind e = ''gate_rejected'' \<longrightarrow> map_of (e_payload e) ''decision_id'' = None)"

lemma unnamed_reason: "unnamed_rejections s \<Longrightarrow> recorded_reason s d = PNone"
proof -
  assume "unnamed_rejections s"
  then have "filter (\<lambda>e. e_kind e = ''gate_rejected'' \<and> num_val (dget (e_payload e) ''decision_id'') = Some (Fin (of_int (d_id d)))) (events s) = []"
    by (auto simp: unnamed_rejections_def filter_empty_conv dget_def)
  then show ?thesis by (simp add: recorded_reason_def)
qed

lemma cas_update_events: "events (snd (cas_update t k a b now x v s)) = events s"
  by (cases t; cases k) (simp_all add: Let_def)

lemma try_transition_events: "events (snd (try_transition t k a b now x v s)) = events s"
  using try_transition_illegal [of t k a b x v now s]
  by (cases "legal_call t k a b x v") (auto simp: try_transition_legal cas_update_events)

lemma gate_reject_unnamed:
  assumes "unnamed_rejections s"
  shows "unnamed_rejections (snd (gate_reject d why now s))"
proof -
  have tr: "\<exists>q s1. try_transition t k a b now x v s0 = (q, s1) \<and> events s1 = events s0" for t k a b x v s0
    using try_transition_events [of t k a b now x v s0] by (metis prod.collapse)
  have ex: "\<exists>q s1. (case c of None \<Rightarrow> ret False | Some t \<Rightarrow> try_transition T_tickets (K_id_str (t_id t)) Open Expired now [] None) s = (q, s1)
      \<and> events s1 = events s" for c
    using tr by (cases c) (auto simp: ret_def)
  obtain q s1 where 1: "(case fetchone (\<lambda>t. t_decision_id t = d_id d \<and> t_status t = Open) (tickets s) of None \<Rightarrow> ret False
      | Some t \<Rightarrow> try_transition T_tickets (K_id_str (t_id t)) Open Expired now [] None) s = (q, s1)" "events s1 = events s"
    using ex by blast
  obtain q2 s2 where 2: "try_transition T_decisions (K_id_int (d_id d)) Submitted Rejected_st now [] None s1 = (q2, s2)" "events s2 = events s1"
    using tr by blast
  have "unnamed_rejections s1" "unnamed_rejections s2" using assms 1 2 by (simp_all add: unnamed_rejections_def)
  then show ?thesis using 1 2
    by (cases q; cases q2) (auto simp: gate_reject_def andthen_def whenever_def unnamed_rejections_def)
qed

text \<open>
  The scorecard never says why the gate said no. It looks the reason up under the decision's id
  in the events of the gate, and the gate's rejection event carries a ticker, a side and a reason but no
  decision id. So on any database whose rejection events come from the gate, after the gate rejects one more
  decision, with whatever reason, every rejection row of the scorecard reads \<open>no reason recorded\<close>.
\<close>

theorem rejection_reason_is_never_found:
  assumes "unnamed_rejections s" and "gate_reject d why now s = (r, s')"
    and "score M day_window rd s' = Inr rows" and "Gate_rejected k a v \<in> set rows"
  shows "unnamed_rejections s' \<and> v = NO_REASON"
proof -
  have u: "unnamed_rejections s'" using gate_reject_unnamed [OF assms(1), of d why now] assms(2) by simp
  obtain diverged where m: "model_divergences day_window rd s' = Inr diverged" and rows: "set rows = set (silent_seats rd s') \<union> set (silent_pm rd s') \<union> set (timed_out_critic rd s') \<union> set (gate_rejections rd s')
      \<union> set (failed_executions rd s') \<union> set (stranded_decisions rd s') \<union> set diverged \<union> set (cost_outliers M rd s')
      \<union> set (confidence_outliers M rd s') \<union> set (coverage_gaps rd s')"
    using score_rows [OF assms(3)] by metis
  have one: "divergence e = Inr f \<Longrightarrow> f \<noteq> Gate_rejected k a v" for e f
    by (auto simp: divergence_def Let_def res_bind_Inr)
  have "Gate_rejected k a v \<notin> set ds" if "rows_res divergence es = Inr ds" for es ds
    using each_res_mem [OF that] one by blast
  then have "Gate_rejected k a v \<notin> set diverged" using m by (auto simp: model_divergences_def res_bind_Inr)
  then have "Gate_rejected k a v \<in> set (gate_rejections rd s')"
    using assms(4) unfolding rows
    by (auto simp: silent_seats_def silent_pm_def timed_out_critic_def failed_executions_def stranded_decisions_def cost_outliers_def
        confidence_outliers_def coverage_gaps_def List.map_filter_def Let_def split: option.splits if_splits)
  then show ?thesis using u by (auto simp: gate_rejections_def unnamed_reason)
qed

section \<open>Witnesses\<close>

definition plain_sums :: sum_fns where
  "plain_sums = \<lparr>sql_sum = (\<lambda>_. Fin 0), sql_avg = (\<lambda>_. Fin 0), float_sum = (\<lambda>_. Fin 0)\<rparr>"

definition rejected_once :: db where
  "rejected_once = snd (gate_reject (hd (decisions one_decision)) ''no_headroom'' 60 one_decision)"

lemma rejected_once_score:
  "score plain_sums (\<lambda>_. Inr (0, 86400)) ''2026-08-17'' rejected_once = Inr [Gate_rejected ''NVDA'' Buy NO_REASON]"
  by code_simp

theorem scorecard_hides_no_failure_witness:
  "rank_of rejected_once (hd (decisions rejected_once)) = Some (Gate_rejected ''NVDA'' Buy NO_REASON)"
proof -
  have d: "map d_status (decisions rejected_once) = [Rejected_st]" "map d_run_date (decisions rejected_once) = [''2026-08-17'']" by code_simp+
  then obtain d where ds: "decisions rejected_once = [d]" "d_run_date d = ''2026-08-17''" "d_status d = Rejected_st" by (auto simp: map_eq_Cons_conv)
  then obtain f where f: "rank_of rejected_once d = Some f" by simp
  with scorecard_hides_no_failure [OF rejected_once_score] ds have "f \<in> set [Gate_rejected ''NVDA'' Buy NO_REASON]" by auto
  then show ?thesis using f ds by simp
qed

theorem rejection_reason_is_never_found_witness:
  "unnamed_rejections rejected_once \<and> event_code (hd (events rejected_once)) = PNone \<and>
   dget (e_payload (hd (events rejected_once))) ''reason'' = PStr ''no_headroom''"
proof -
  have e: "unnamed_rejections one_decision" by (simp add: unnamed_rejections_def one_decision_def empty_db_def)
  obtain r where run: "gate_reject (hd (decisions one_decision)) ''no_headroom'' 60 one_decision = (r, rejected_once)"
    unfolding rejected_once_def by (metis prod.collapse)
  have "unnamed_rejections rejected_once"
    using rejection_reason_is_never_found [OF e run rejected_once_score] by simp
  moreover have "event_code (hd (events rejected_once)) = PNone"
    "dget (e_payload (hd (events rejected_once))) ''reason'' = PStr ''no_headroom''" by code_simp+
  ultimately show ?thesis by blast
qed

end
