(* ===== verification/Devcheck.thy ===== *)
theory Devcheck imports PyVal begin

text \<open>
  devcheck: the health checks on one read of production (devcheck/model.py, checks.py,
  evaluate.py). A snapshot is data, a check a function of it; a finding keeps the check's name,
  its severity and the names its text lists. What was not read is \<open>None\<close>.
\<close>

section \<open>The snapshot\<close>

datatype sev = Fine_sev | Warn_sev | Alert_sev

record dev_finding =
  fi_check :: string
  fi_severity :: sev
  fi_names :: "string list"

record dev_position =
  dp_symbol :: string
  dp_qty :: pyfloat
  dp_covering_qty :: pyfloat

record unit_copy =
  uc_unit :: string
  uc_repo :: string
  uc_installed :: "string option"

record service_result =
  sv_unit :: string
  sv_result :: string

record pending_spec =
  ps_spec_id :: string
  ps_registered_on :: string

record snapshot =
  sn_env :: "(string \<times> string) list"
  sn_toolsets :: "(string \<times> bool) list"
  sn_orders :: "string list"
  sn_tickets :: "string list"
  sn_unposted :: int
  sn_fill_count :: "int option"
  sn_checkpoints :: "(string \<times> string \<times> string) list"
  sn_journals :: "string list"
  sn_participating :: "string list"
  sn_alert_codes :: "string list option"
  sn_positions :: "dev_position list option"
  sn_due :: "int list"
  sn_behind :: int
  sn_services :: "service_result list"
  sn_db_read :: bool
  sn_suppressed :: "string list"
  sn_tracked :: "string list"
  sn_units :: "unit_copy list option"
  sn_g1 :: "pending_spec list option"
  sn_run_dates :: "string list"

definition finding_of :: "string \<Rightarrow> sev \<Rightarrow> string list \<Rightarrow> dev_finding" where
  "finding_of c v names = \<lparr>fi_check = c, fi_severity = v, fi_names = names\<rparr>"

definition dev_verdict :: "string \<Rightarrow> sev \<Rightarrow> string list \<Rightarrow> dev_finding" where
  "dev_verdict c bad names = finding_of c (if names = [] then Fine_sev else bad) names"

section \<open>The checks\<close>

definition check_paper_trading :: "snapshot \<Rightarrow> dev_finding" where
  "check_paper_trading s = finding_of ''paper_trading''
     (if map_of (sn_env s) ''ALPACA_PAPER_TRADE'' = Some ''true'' then Fine_sev else Alert_sev) []"

definition check_trading_toolset :: "snapshot \<Rightarrow> dev_finding" where
  "check_trading_toolset s = (let holders = sort (map fst (filter snd (sn_toolsets s))) in
     if holders = [''exec''] then finding_of ''trading_toolset'' Fine_sev []
     else finding_of ''trading_toolset'' Alert_sev (filter (\<lambda>h. h \<noteq> ''exec'') holders))"

definition check_order_idempotency :: "snapshot \<Rightarrow> dev_finding" where
  "check_order_idempotency s = dev_verdict ''order_idempotency'' Alert_sev
     (sort (filter (\<lambda>c. c \<notin> set (sn_tickets s)) (sn_orders s)))"

definition check_outbox :: "snapshot \<Rightarrow> dev_finding" where
  "check_outbox s = finding_of ''outbox'' (if sn_unposted s = 0 then Fine_sev else Alert_sev) []"

definition check_db_broker_agreement :: "snapshot \<Rightarrow> dev_finding" where
  "check_db_broker_agreement s = finding_of ''db_broker_agreement''
     (case sn_fill_count s of None \<Rightarrow> Warn_sev
      | Some n \<Rightarrow> if int (length (sn_orders s)) = n then Fine_sev else Alert_sev) []"

definition DEGRADATION_CODES :: "string list" where
  "DEGRADATION_CODES = [''gate_error'', ''pm_timeout'', ''critic_timeout'', ''missing_signal'']"

definition check_degradations :: "snapshot \<Rightarrow> dev_finding" where
  "check_degradations s = (case sn_alert_codes s of None \<Rightarrow> finding_of ''degradations'' Warn_sev []
     | Some codes \<Rightarrow> dev_verdict ''degradations'' Warn_sev (sort (remdups (filter (\<lambda>c. c \<in> set DEGRADATION_CODES) codes))))"

definition check_checkpoints :: "snapshot \<Rightarrow> dev_finding" where
  "check_checkpoints s = dev_verdict ''checkpoints'' Alert_sev
     (sort (remdups (map (\<lambda>(_, stage, _). stage) (filter (\<lambda>(_, _, st). st \<noteq> ''done'') (sn_checkpoints s)))))"

definition check_journals :: "snapshot \<Rightarrow> dev_finding" where
  "check_journals s = dev_verdict ''journals'' Warn_sev
     (sort (remdups (filter (\<lambda>p. p \<notin> set (sn_journals s)) (sn_participating s))))"

definition check_reflection :: "snapshot \<Rightarrow> dev_finding" where
  "check_reflection s = dev_verdict ''reflection'' Alert_sev (map str_of_int (sn_due s))"

definition check_position_coverage :: "snapshot \<Rightarrow> dev_finding" where
  "check_position_coverage s = (case sn_positions s of None \<Rightarrow> finding_of ''position_coverage'' Alert_sev []
     | Some ps \<Rightarrow> (let naked = filter (\<lambda>p. flt (dp_covering_qty p) (dp_qty p)) ps in
         finding_of ''position_coverage'' (if naked = [] then Fine_sev else Alert_sev) (map dp_symbol naked)))"

definition check_deploy_state :: "snapshot \<Rightarrow> dev_finding" where
  "check_deploy_state s = finding_of ''deploy_state'' (if sn_behind s = 0 then Fine_sev else Warn_sev) []"

definition check_units_installed :: "snapshot \<Rightarrow> dev_finding" where
  "check_units_installed s = (case sn_units s of None \<Rightarrow> finding_of ''units_installed'' Warn_sev []
     | Some us \<Rightarrow> if us = [] then finding_of ''units_installed'' Alert_sev []
       else (let missing = filter (\<lambda>u. uc_installed u = None) us;
                 differing = filter (\<lambda>u. uc_installed u \<noteq> None \<and> uc_installed u \<noteq> Some (uc_repo u)) us in
         finding_of ''units_installed'' (if missing = [] \<and> differing = [] then Fine_sev else Alert_sev)
           (sort (map uc_unit differing) @ sort (map uc_unit missing))))"

definition G1_BACKLOG_RUN_DAYS :: nat where "G1_BACKLOG_RUN_DAYS = 3"

definition run_days_since :: "snapshot \<Rightarrow> string \<Rightarrow> nat" where
  "run_days_since s day = length (filter (\<lambda>d. day < d) (sn_run_dates s))"

definition check_g1_backlog :: "snapshot \<Rightarrow> dev_finding" where
  "check_g1_backlog s = (case sn_g1 s of None \<Rightarrow> finding_of ''g1_backlog'' Warn_sev []
     | Some ps \<Rightarrow>
         (let aged = filter (\<lambda>p. ps_registered_on p \<noteq> [] \<and> G1_BACKLOG_RUN_DAYS < run_days_since s (ps_registered_on p)) ps;
              unreadable = filter (\<lambda>p. ps_registered_on p = []) ps in
          finding_of ''g1_backlog'' (if aged = [] \<and> unreadable = [] then Fine_sev else Alert_sev)
            (map ps_spec_id aged @ map ps_spec_id unreadable)))"

definition check_services :: "snapshot \<Rightarrow> dev_finding" where
  "check_services s = (let bad = filter (\<lambda>r. sv_result r \<noteq> ''success'') (sn_services s) in
     finding_of ''services'' (if bad = [] then Fine_sev else Alert_sev) (sort (map sv_unit bad)))"

definition check_database :: "snapshot \<Rightarrow> dev_finding" where
  "check_database s = finding_of ''database'' (if sn_db_read s then Fine_sev else Alert_sev) []"

definition check_issue_coverage :: "snapshot \<Rightarrow> dev_finding list \<Rightarrow> dev_finding" where
  "check_issue_coverage s fs = dev_verdict ''issue_coverage'' Alert_sev
     (sort (map fi_check (filter (\<lambda>f. fi_severity f = Alert_sev \<and> fi_check f \<noteq> ''issue_coverage''
        \<and> fi_check f \<notin> set (sn_tracked s) \<and> fi_check f \<notin> set (sn_suppressed s)) fs)))"

section \<open>Evaluation\<close>

definition CHECKS :: "(snapshot \<Rightarrow> dev_finding) list" where
  "CHECKS = [check_paper_trading, check_trading_toolset, check_order_idempotency, check_outbox, check_db_broker_agreement,
     check_degradations, check_checkpoints, check_journals, check_reflection, check_g1_backlog, check_position_coverage,
     check_deploy_state, check_units_installed, check_services, check_database]"

definition DB_DERIVED :: "string list" where
  "DB_DERIVED = [''order_idempotency'', ''outbox'', ''checkpoints'', ''journals'', ''reflection'', ''g1_backlog'']"

definition starve_db_derived :: "bool \<Rightarrow> dev_finding list \<Rightarrow> dev_finding list" where
  "starve_db_derived db_read fs = (if db_read then fs
     else map (\<lambda>f. if fi_check f \<in> set DB_DERIVED then f\<lparr>fi_severity := Warn_sev, fi_names := []\<rparr> else f) fs)"

definition evaluate_snapshot :: "snapshot \<Rightarrow> dev_finding list" where
  "evaluate_snapshot s = (let out = starve_db_derived (sn_db_read s) (map (\<lambda>c. c s) CHECKS) in out @ [check_issue_coverage s out])"

definition apply_suppression :: "string list \<Rightarrow> dev_finding list \<Rightarrow> dev_finding list" where
  "apply_suppression suppressed fs =
     map (\<lambda>f. if fi_check f \<in> set suppressed \<and> fi_severity f \<noteq> Fine_sev then f\<lparr>fi_severity := Fine_sev\<rparr> else f) fs"

section \<open>What a report says\<close>

lemma finding_of_simps [simp]:
  "fi_check (finding_of c v ns) = c" "fi_severity (finding_of c v ns) = v" "fi_names (finding_of c v ns) = ns"
  by (simp_all add: finding_of_def)

lemma verdict_on_simps [simp]:
  "fi_check (dev_verdict c v ns) = c" "fi_names (dev_verdict c v ns) = ns"
  "v \<noteq> Fine_sev \<Longrightarrow> fi_severity (dev_verdict c v ns) = Fine_sev \<longleftrightarrow> ns = []"
  by (simp_all add: dev_verdict_def)

lemma sorted_Nil [simp]: "sort (xs :: string list) = [] \<longleftrightarrow> xs = []"
  by (metis length_0_conv length_sort)

lemmas check_defs = check_paper_trading_def check_trading_toolset_def check_order_idempotency_def check_outbox_def
  check_db_broker_agreement_def check_degradations_def check_checkpoints_def check_journals_def check_reflection_def
  check_g1_backlog_def check_position_coverage_def check_deploy_state_def check_units_installed_def check_services_def
  check_database_def

lemma check_names: "map (\<lambda>c. fi_check (c s)) CHECKS =
   [''paper_trading'', ''trading_toolset'', ''order_idempotency'', ''outbox'', ''db_broker_agreement'', ''degradations'', ''checkpoints'',
    ''journals'', ''reflection'', ''g1_backlog'', ''position_coverage'', ''deploy_state'', ''units_installed'', ''services'', ''database'']"
  by (simp add: CHECKS_def check_defs Let_def split: option.split)

lemma starve_names: "map fi_check (starve_db_derived b fs) = map fi_check fs"
  by (simp add: starve_db_derived_def)

lemma starve_keeps: "f \<in> set fs \<Longrightarrow> fi_check f \<notin> set DB_DERIVED \<Longrightarrow> f \<in> set (starve_db_derived b fs)"
  by (force simp: starve_db_derived_def)

text \<open>One row per check, in the fixed order, and the last on the issues.\<close>

lemma evaluate_names: "map fi_check (evaluate_snapshot s) = map (\<lambda>c. fi_check (c s)) CHECKS @ [''issue_coverage'']"
  using starve_names [of "sn_db_read s" "map (\<lambda>c. c s) CHECKS"]
  by (simp add: evaluate_snapshot_def Let_def check_issue_coverage_def comp_def)

lemma sorted_single: "sort xs = [x] \<longleftrightarrow> xs = [x]" for xs :: "string list"
proof
  assume s: "sort xs = [x]"
  then have "length xs = 1" by (metis length_sort length_Cons list.size(3) One_nat_def)
  with s show "xs = [x]" by (cases xs) auto
qed simp

lemma one_holder: "sort (map fst (filter snd seats)) = [x] \<longleftrightarrow> filter snd seats = [(x, True)]" for seats :: "(string \<times> bool) list"
proof -
  have "map fst (filter snd seats) = [x] \<longleftrightarrow> filter snd seats = [(x, True)]"
    using filter_set [of snd seats] by (auto simp: Cons_eq_filter_iff map_eq_Cons_conv dest: filter_eq_ConsD)
  then show ?thesis by (simp add: sorted_single)
qed

lemma green_lists:
  "fi_severity (check_trading_toolset s) = Fine_sev \<longleftrightarrow> filter snd (sn_toolsets s) = [(''exec'', True)]"
  "fi_severity (check_order_idempotency s) = Fine_sev \<longleftrightarrow> set (sn_orders s) \<subseteq> set (sn_tickets s)"
  "fi_severity (check_journals s) = Fine_sev \<longleftrightarrow> set (sn_participating s) \<subseteq> set (sn_journals s)"
  "fi_severity (check_reflection s) = Fine_sev \<longleftrightarrow> sn_due s = []"
  "fi_severity (check_services s) = Fine_sev \<longleftrightarrow> (\<forall>r\<in>set (sn_services s). sv_result r = ''success'')"
  by (auto simp: check_trading_toolset_def one_holder check_order_idempotency_def check_journals_def check_reflection_def
      check_services_def Let_def filter_empty_conv)

lemma green_checkpoints:
  "fi_severity (check_checkpoints s) = Fine_sev \<longleftrightarrow> (\<forall>(_, _, st)\<in>set (sn_checkpoints s). st = ''done'')"
  by (simp add: check_checkpoints_def filter_empty_conv case_prod_beta)

text \<open>What was not read is not green.\<close>

lemma green_read:
  "fi_severity (check_db_broker_agreement s) = Fine_sev \<longleftrightarrow> sn_fill_count s = Some (int (length (sn_orders s)))"
  "fi_severity (check_degradations s) = Fine_sev \<longleftrightarrow> (\<exists>codes. sn_alert_codes s = Some codes \<and> 
     set codes \<inter> {''gate_error'', ''pm_timeout'', ''critic_timeout'', ''missing_signal''} = {})"
  "fi_severity (check_g1_backlog s) = Fine_sev \<longleftrightarrow>
     (\<exists>ps. sn_g1 s = Some ps \<and> (\<forall>p\<in>set ps. ps_registered_on p \<noteq> [] \<and> 
       length (filter (\<lambda>d. ps_registered_on p < d) (sn_run_dates s)) \<le> 3))"
  "fi_severity (check_position_coverage s) = Fine_sev \<longleftrightarrow>
     (\<exists>ps. sn_positions s = Some ps \<and> (\<forall>p\<in>set ps. \<not> flt (dp_covering_qty p) (dp_qty p)))"
  by (auto simp: check_db_broker_agreement_def check_degradations_def check_g1_backlog_def check_position_coverage_def
      DEGRADATION_CODES_def G1_BACKLOG_RUN_DAYS_def run_days_since_def filter_empty_conv Let_def not_less split: option.split)

lemma green_units:
  "fi_severity (check_units_installed s) = Fine_sev \<longleftrightarrow>
     (\<exists>us. sn_units s = Some us \<and> us \<noteq> [] \<and> (\<forall>u\<in>set us. uc_installed u = Some (uc_repo u)))"
proof (cases "sn_units s")
  case (Some us)
  have "(\<forall>u\<in>set us. uc_installed u \<noteq> None) \<and> (\<forall>u\<in>set us. uc_installed u \<noteq> None \<longrightarrow> uc_installed u = Some (uc_repo u))
      \<longleftrightarrow> (\<forall>u\<in>set us. uc_installed u = Some (uc_repo u))" by (metis option.distinct(1))
  then show ?thesis using Some by (auto simp: check_units_installed_def Let_def filter_empty_conv)
qed (simp add: check_units_installed_def)

lemmas green_checks = green_lists green_checkpoints green_read green_units

lemma starve_green:
  "(\<forall>f\<in>set (starve_db_derived b (map (\<lambda>c. c s) CHECKS)). fi_severity f = Fine_sev) \<longleftrightarrow>
     b \<and> (\<forall>c\<in>set CHECKS. fi_severity (c s) = Fine_sev)"
proof (cases b)
  case False
  have "check_outbox s\<lparr>fi_severity := Warn_sev, fi_names := []\<rparr> \<in> set (starve_db_derived False (map (\<lambda>c. c s) CHECKS))"
    by (simp add: starve_db_derived_def CHECKS_def DB_DERIVED_def check_outbox_def)
  then show ?thesis using False by force
qed (simp add: starve_db_derived_def)

lemma starved_row:
  "c \<in> set CHECKS \<Longrightarrow> fi_check (c s) \<in> set DB_DERIVED \<Longrightarrow>
   finding_of (fi_check (c s)) Warn_sev [] \<in> set (starve_db_derived False (map (\<lambda>c. c s) CHECKS))"
  by (force simp: starve_db_derived_def finding_of_def)

lemma starved_rows:
  assumes "\<not> sn_db_read s"
  shows "\<forall>n\<in>{''order_idempotency'', ''outbox'', ''checkpoints'', ''journals'', ''reflection'', ''g1_backlog''}.
    finding_of n Warn_sev [] \<in> set (evaluate_snapshot s)"
proof
  fix n assume n: "n \<in> {''order_idempotency'', ''outbox'', ''checkpoints'', ''journals'', ''reflection'', ''g1_backlog''}"
  then have d: "n \<in> set DB_DERIVED" by (auto simp: DB_DERIVED_def)
  have "n \<in> set (map (\<lambda>c. fi_check (c s)) CHECKS)" using n unfolding check_names by auto
  then obtain c where "c \<in> set CHECKS" "n = fi_check (c s)" by auto
  with d show "finding_of n Warn_sev [] \<in> set (evaluate_snapshot s)"
    using starved_row [of c s] assms by (simp add: evaluate_snapshot_def Let_def)
qed

lemma one_row: "f \<in> set (evaluate_snapshot s) \<Longrightarrow> g \<in> set (evaluate_snapshot s) \<Longrightarrow> fi_check f = fi_check g \<Longrightarrow> f = g"
proof -
  have "distinct (map fi_check (evaluate_snapshot s))" unfolding evaluate_names check_names by simp
  then show "f \<in> set (evaluate_snapshot s) \<Longrightarrow> g \<in> set (evaluate_snapshot s) \<Longrightarrow> fi_check f = fi_check g \<Longrightarrow> f = g"
    by (simp add: distinct_map inj_on_def)
qed

text \<open>
  C37: what an all-green report stands for, and what an unread database leaves of it. Before suppression every row is green
  exactly when the fund is on paper; the trader alone can trade; the database was read, every order of it has its ticket, nothing waits in the
  outbox, every checkpoint is done, every seat that took part journalled, and no decision is due; the broker's count of fills was read and
  is the number of orders; the alert codes were read and none is one of the four that tell of a stage that fell back to its
  default; the positions were read and every share is covered; the queue of the specs was read and no spec in it has seen more than three of the recorded run
  days go by since it was registered; the code is the deployed one; units were found, and each is installed as the repository
  has it; and every service that was read ran: an empty list of services passes (see \<open>no_services_are_green\<close>). When the database was not read,
  each of the six rows that are taken from it is a warning, whatever the empty tables would have said of it, and none is green.
\<close>

theorem all_green_iff_healthy:
  "((\<forall>f\<in>set (evaluate_snapshot s). fi_severity f = Fine_sev) \<longleftrightarrow>
      map_of (sn_env s) ''ALPACA_PAPER_TRADE'' = Some ''true'' \<and> filter snd (sn_toolsets s) = [(''exec'', True)]
      \<and> sn_db_read s \<and> set (sn_orders s) \<subseteq> set (sn_tickets s) \<and> sn_unposted s = 0
      \<and> (\<forall>(_, _, st)\<in>set (sn_checkpoints s). st = ''done'') \<and> set (sn_participating s) \<subseteq> set (sn_journals s) \<and> sn_due s = []
      \<and> sn_fill_count s = Some (int (length (sn_orders s)))
      \<and> (\<exists>codes. sn_alert_codes s = Some codes \<and> set codes \<inter> {''gate_error'', ''pm_timeout'', ''critic_timeout'', ''missing_signal''} = {})
      \<and> (\<exists>ps. sn_positions s = Some ps \<and> (\<forall>p\<in>set ps. \<not> flt (dp_covering_qty p) (dp_qty p)))
      \<and> (\<exists>ps. sn_g1 s = Some ps \<and>
           (\<forall>p\<in>set ps. ps_registered_on p \<noteq> [] \<and> length (filter (\<lambda>d. ps_registered_on p < d) (sn_run_dates s)) \<le> 3))
      \<and> sn_behind s = 0 \<and> (\<exists>us. sn_units s = Some us \<and> us \<noteq> [] \<and> (\<forall>u\<in>set us. uc_installed u = Some (uc_repo u)))
      \<and> (\<forall>r\<in>set (sn_services s). sv_result r = ''success''))
   \<and> (\<not> sn_db_read s \<longrightarrow>
      (\<forall>n\<in>{''order_idempotency'', ''outbox'', ''checkpoints'', ''journals'', ''reflection'', ''g1_backlog''}.
         \<exists>f\<in>set (evaluate_snapshot s). fi_check f = n \<and> fi_severity f = Warn_sev \<and>
           (\<forall>g\<in>set (evaluate_snapshot s). fi_check g = n \<longrightarrow> g = f)))"
proof -
  let ?out = "starve_db_derived (sn_db_read s) (map (\<lambda>c. c s) CHECKS)"
  have "fi_severity (check_issue_coverage s ?out) = Fine_sev" if "\<forall>f\<in>set ?out. fi_severity f = Fine_sev"
    using that by (auto simp: check_issue_coverage_def filter_empty_conv)
  then have "(\<forall>f\<in>set (evaluate_snapshot s). fi_severity f = Fine_sev) \<longleftrightarrow> (\<forall>f\<in>set ?out. fi_severity f = Fine_sev)"
    by (auto simp: evaluate_snapshot_def Let_def)
  also have "\<dots> \<longleftrightarrow> sn_db_read s \<and> (\<forall>c\<in>set CHECKS. fi_severity (c s) = Fine_sev)"
    by (rule starve_green)
  finally have green: "(\<forall>f\<in>set (evaluate_snapshot s). fi_severity f = Fine_sev) \<longleftrightarrow>
      sn_db_read s \<and> (\<forall>c\<in>set CHECKS. fi_severity (c s) = Fine_sev)" .
  have row: "\<exists>f\<in>set (evaluate_snapshot s). fi_check f = n \<and> fi_severity f = Warn_sev \<and> (\<forall>g\<in>set (evaluate_snapshot s). fi_check g = n \<longrightarrow> g = f)"
    if "finding_of n Warn_sev [] \<in> set (evaluate_snapshot s)" for n
    using one_row [OF _ that] by (intro bexI [OF _ that]) simp
  show ?thesis
    unfolding green using starved_rows [of s] row
    by (auto simp: CHECKS_def green_checks check_paper_trading_def check_outbox_def check_deploy_state_def check_database_def)
qed

text \<open>A day on which all is well, and the same day with its alerts unread.\<close>

definition green_day :: snapshot where
  "green_day = \<lparr>sn_env = [(''ALPACA_PAPER_TRADE'', ''true'')], sn_toolsets = [(''pm'', False), (''exec'', True)],
     sn_orders = [''t1''], sn_tickets = [''t1'', ''t2''], sn_unposted = 0, sn_fill_count = Some 1,
     sn_checkpoints = [(''2026-09-02'', ''close'', ''done'')], sn_journals = [''pm''], sn_participating = [''pm''],
     sn_alert_codes = Some [''audit_failed''], sn_positions = Some [\<lparr>dp_symbol = ''NVDA'', dp_qty = Fin 10, dp_covering_qty = Fin 10\<rparr>],
     sn_due = [], sn_behind = 0, sn_services = [\<lparr>sv_unit = ''fund-daily.service'', sv_result = ''success''\<rparr>], sn_db_read = True,
     sn_suppressed = [], sn_tracked = [], sn_units = Some [\<lparr>uc_unit = ''fund-daily.timer'', uc_repo = ''x'', uc_installed = Some ''x''\<rparr>],
     sn_g1 = Some [\<lparr>ps_spec_id = ''s1'', ps_registered_on = ''2026-09-01''\<rparr>], sn_run_dates = [''2026-09-02'']\<rparr>"

theorem all_green_iff_healthy_witness:
  "list_all (\<lambda>f. fi_severity f = Fine_sev) (evaluate_snapshot green_day)
   \<and> \<not> list_all (\<lambda>f. fi_severity f = Fine_sev) (evaluate_snapshot (green_day\<lparr>sn_alert_codes := None\<rparr>))
   \<and> list_ex (\<lambda>f. fi_check f = ''outbox'' \<and> fi_severity f = Warn_sev) (evaluate_snapshot (green_day\<lparr>sn_db_read := False\<rparr>))"
  unfolding list_all_iff list_ex_iff
  using all_green_iff_healthy [THEN conjunct1, of green_day] all_green_iff_healthy [THEN conjunct1, of "green_day\<lparr>sn_alert_codes := None\<rparr>"]
    all_green_iff_healthy [THEN conjunct2, of "green_day\<lparr>sn_db_read := False\<rparr>"]
  by (simp add: green_day_def) blast

text \<open>The one input that can be missing from a green report: with no unit read there is no service that failed.\<close>

theorem no_services_are_green:
  "\<forall>f\<in>set (evaluate_snapshot (green_day\<lparr>sn_services := [], sn_alert_codes := Some [''seat_turn_failed''], sn_run_dates := []\<rparr>)).
     fi_severity f = Fine_sev"
  unfolding list_all_iff [symmetric] by code_simp

text \<open>
  No alert is dropped on the way to a human. The report has one row per check, in the fixed order, whatever
  was read; suppression keeps every row, can only turn one of the suppressed checks green, and worsens
  none; and the last row is green exactly when every alert of the report has an open issue or is suppressed.
\<close>

theorem no_alert_is_dropped:
  "map fi_check (apply_suppression (sn_suppressed s) (evaluate_snapshot s)) =
     [''paper_trading'', ''trading_toolset'', ''order_idempotency'', ''outbox'', ''db_broker_agreement'', ''degradations'', ''checkpoints'',
      ''journals'', ''reflection'', ''g1_backlog'', ''position_coverage'', ''deploy_state'', ''units_installed'', ''services'', ''database'',
      ''issue_coverage'']
   \<and> list_all2 (\<lambda>f g. fi_severity g = (if fi_check f \<in> set (sn_suppressed s) then Fine_sev else fi_severity f))
       (evaluate_snapshot s) (apply_suppression (sn_suppressed s) (evaluate_snapshot s))
   \<and> (fi_severity (last (evaluate_snapshot s)) = Fine_sev \<longleftrightarrow>
       (\<forall>f\<in>set (butlast (evaluate_snapshot s)). fi_severity f \<noteq> Alert_sev \<or> fi_check f \<in> set (sn_tracked s) \<or> fi_check f \<in> set (sn_suppressed s)))"
proof -
  let ?out = "starve_db_derived (sn_db_read s) (map (\<lambda>c. c s) CHECKS)"
  have names: "map fi_check (apply_suppression ns fs) = map fi_check fs" for ns fs
    by (induction fs) (auto simp: apply_suppression_def)
  have supp: "list_all2 (\<lambda>f g. fi_severity g = (if fi_check f \<in> set ns then Fine_sev else fi_severity f)) fs (apply_suppression ns fs)" for ns fs
    by (induction fs) (auto simp: apply_suppression_def)
  have no_self: "fi_check f \<noteq> ''issue_coverage''" if "f \<in> set ?out" for f
  proof -
    have "fi_check f \<in> set (map fi_check ?out)" using that by simp
    also have "\<dots> = set (map (\<lambda>c. fi_check (c s)) CHECKS)" by (simp only: starve_names list.map_comp comp_def)
    finally show ?thesis unfolding check_names by auto
  qed
  have "fi_severity (check_issue_coverage s ?out) = Fine_sev \<longleftrightarrow>
      (\<forall>f\<in>set ?out. fi_severity f \<noteq> Alert_sev \<or> fi_check f \<in> set (sn_tracked s) \<or> fi_check f \<in> set (sn_suppressed s))"
    using no_self by (auto simp: check_issue_coverage_def filter_empty_conv)
  moreover have "evaluate_snapshot s = ?out @ [check_issue_coverage s ?out]" by (simp only: evaluate_snapshot_def Let_def)
  then have "last (evaluate_snapshot s) = check_issue_coverage s ?out" "butlast (evaluate_snapshot s) = ?out" by simp_all
  moreover have "map fi_check (evaluate_snapshot s) = [''paper_trading'', ''trading_toolset'', ''order_idempotency'', ''outbox'', ''db_broker_agreement'', ''degradations'', ''checkpoints'',
      ''journals'', ''reflection'', ''g1_backlog'', ''position_coverage'', ''deploy_state'', ''units_installed'', ''services'', ''database'',
      ''issue_coverage'']" unfolding evaluate_names check_names by simp
  ultimately show ?thesis using supp [of "sn_suppressed s" "evaluate_snapshot s"] unfolding names by (simp only: simp_thms)
qed

text \<open>
  The one green row that an unread database can leave on a check that reads it: the orders
  that were not read agree with a broker that filled nothing.
\<close>

theorem unread_orders_agree_with_no_fills:
  assumes "\<not> sn_db_read s" and "sn_orders s = []" and "sn_fill_count s = Some 0"
  shows "finding_of ''db_broker_agreement'' Fine_sev [] \<in> set (evaluate_snapshot s)"
proof -
  have "check_db_broker_agreement s \<in> set (map (\<lambda>c. c s) CHECKS)" by (simp add: CHECKS_def)
  moreover have "check_db_broker_agreement s = finding_of ''db_broker_agreement'' Fine_sev []"
    using assms(2,3) by (simp add: check_db_broker_agreement_def)
  moreover have "''db_broker_agreement'' \<notin> set DB_DERIVED" by (simp add: DB_DERIVED_def)
  ultimately have "finding_of ''db_broker_agreement'' Fine_sev [] \<in> set (starve_db_derived (sn_db_read s) (map (\<lambda>c. c s) CHECKS))"
    by (intro starve_keeps) simp_all
  then show ?thesis by (simp add: evaluate_snapshot_def Let_def)
qed

end
