(* ===== verification/Tamper.thy ===== *)
theory Tamper imports Journal "HOL-Library.Sublist" begin

text \<open>
  devloop/tamper_guard.py: what an iteration of the development loop may not touch. What
  git prints is the argument: the names at the baseline, the changes since HEAD and the untracked
  files, each NUL-terminated, and the diff of the acceptance file.
\<close>

section \<open>The policy\<close>







section \<open>Ticking checkboxes\<close>

definition line_end :: "char \<Rightarrow> bool" where
  "line_end c \<longleftrightarrow> 10 \<le> ord_of c \<and> ord_of c \<le> 13 \<or> 28 \<le> ord_of c \<and> ord_of c \<le> 30 \<or> ord_of c = 133"

text \<open>\<open>str.splitlines\<close>: the current line is \<open>acc\<close>; a carriage return takes a following newline with it.\<close>

fun splitlines_from :: "string \<Rightarrow> string \<Rightarrow> string list" where
  "splitlines_from acc [] = (if acc = [] then [] else [acc])"
| "splitlines_from acc [c] = (if line_end c then [acc] else [acc @ [c]])"
| "splitlines_from acc (c # d # cs) =
     (if ord_of c = 13 \<and> ord_of d = 10 then acc # splitlines_from [] cs
      else if line_end c then acc # splitlines_from [] (d # cs)
      else splitlines_from (acc @ [c]) (d # cs))"

definition splitlines :: "string \<Rightarrow> string list" where
  "splitlines t = splitlines_from [] t"

definition diff_lines :: "char \<Rightarrow> string list \<Rightarrow> string list" where
  "diff_lines c ls = map (drop 1) (filter (\<lambda>l. starts_with [c] l \<and> \<not> starts_with [c, c, c] l) ls)"

definition ticked :: "string \<Rightarrow> string \<Rightarrow> bool" where
  "ticked old new \<longleftrightarrow> (let o' = strip old; n = strip new in
     starts_with ''- [ ]'' o' \<and> starts_with ''- [x]'' n \<and> drop 5 o' = drop 5 n)"

definition checkbox_only_diff :: "string \<Rightarrow> bool" where
  "checkbox_only_diff diff = (let ls = splitlines diff; minus = diff_lines (CHR ''-'') ls; plus = diff_lines (CHR ''+'') ls in
     length minus = length plus \<and> minus \<noteq> [] \<and> list_all2 ticked minus plus)"

section \<open>The guard\<close>

definition NUL :: string where "NUL = [char_of (0 :: nat)]"








section \<open>Git's framing\<close>





lemma find_sep_no_NUL: "char_of (0 :: nat) \<notin> set a \<Longrightarrow> find_sep NUL a = None"
  by (induction a) (auto simp: NUL_def)






section \<open>The diff of the acceptance file\<close>

text \<open>
  A unified diff by its lines, after the notes git opens it with (the files, a change of mode, the blobs) and the names of the two sides;
  \<open>Other\<close> stands for a hunk header or a note inside the diff.
\<close>

datatype diff_line = Kept string | Removed string | Added string | Other string

fun line_text :: "diff_line \<Rightarrow> string" where
  "line_text (Kept t) = CHR '' '' # t" | "line_text (Removed t) = CHR ''-'' # t" | "line_text (Added t) = CHR ''+'' # t" | "line_text (Other t) = t"

definition LF :: char where "LF = char_of (10 :: nat)"

definition diff_text :: "string list \<Rightarrow> diff_line list \<Rightarrow> string" where
  "diff_text preamble body = concat (map (\<lambda>l. l @ [LF])
     (preamble @ [''--- a/specs/acceptance.md'', ''+++ b/specs/acceptance.md''] @ map line_text body))"

definition one_line :: "string \<Rightarrow> bool" where
  "one_line t \<longleftrightarrow> (\<forall>c\<in>set t. \<not> line_end c)"





lemma line_end_LF [simp]: "line_end LF" "ord_of LF = 10"
  by (simp_all add: line_end_def LF_def ord_of_def)

lemma printable_one_line [simp]: "one_line []" "one_line (c # t) \<longleftrightarrow> \<not> line_end c \<and> one_line t"
  by (simp_all add: one_line_def)

lemma line_end_marks [simp]: "\<not> line_end (CHR '' '')" "\<not> line_end (CHR ''-'')" "\<not> line_end (CHR ''+'')"
  by (simp_all add: line_end_def ord_of_def)









section \<open>What passes\<close>







text \<open>
  The checkbox exemption is wider than ticking: a deleted line that begins with two hyphens looks
  like a file header of the diff and is not compared, so one real tick hides it.
\<close>

theorem a_tick_hides_a_deleted_rule:
  "checkbox_only_diff (''--- a/specs/acceptance.md'' @ nl @ ''+++ b/specs/acceptance.md'' @ nl @
     ''-- [ ] ships'' @ nl @ ''+- [x] ships'' @ nl @ ''----- never weaken a test'' @ nl)"
  by code_simp

text \<open>Nor does it compare where a ticked line stands: a rule can move to another section as its box is ticked.\<close>

theorem a_ticked_line_may_move:
  "checkbox_only_diff (diff_text [] [Removed ''- [ ] ships'', Kept ''## Later'', Added ''- [x] ships''])"
  by code_simp

end
