(* ===== verification/Scoring.thy ===== *)
theory Scoring imports PyVal "HOL-Library.AList" begin

text \<open>
  calibration/scoring.py and the grading of calibration/scoreboard.py: probabilities of signals, Brier scores,
  and the weights the PM reads. Arithmetic is binary64; numpy's \<open>mean\<close> and \<open>sum\<close> and Python's
  \<open>sum\<close>, whose order of additions is theirs, are the parameter \<open>folds\<close>.
\<close>

record folds =
  np_mean :: "pyfloat list \<Rightarrow> pyfloat"
  np_sum :: "pyfloat list \<Rightarrow> pyfloat"
  built_in_sum :: "pyfloat list \<Rightarrow> pyfloat"

definition SHRINK_PSEUDO_COUNTS :: int where "SHRINK_PSEUDO_COUNTS = 30"
definition MIN_GRADED_FOR_WEIGHT :: int where "MIN_GRADED_FOR_WEIGHT = 50"
definition WEIGHT_FLOOR_FRACTION :: pyfloat where "WEIGHT_FLOOR_FRACTION = Fin (1 / 2)"

section \<open>Probabilities and scores\<close>

definition signal_probability :: "string \<Rightarrow> pyfloat \<Rightarrow> pyfloat res" where
  "signal_probability direction confidence =
     (if \<not> (fle (Fin 0) confidence \<and> fle confidence (Fin 100)) then Inl ValueError
      else res_bind (fdiv confidence (Fin 100)) (\<lambda>c.
        if direction = ''long'' then Inr c
        else if direction = ''short'' then Inr (fsub (Fin 1) c)
        else if direction = ''neutral'' then Inr (Fin (1 / 2))
        else Inl ValueError))"

text \<open>\<open>(p - o) ** 2\<close>; the two arrays come from the same rows and have one length.\<close>

definition sq_errors :: "pyfloat list \<Rightarrow> pyfloat list \<Rightarrow> pyfloat list" where
  "sq_errors ps os = map2 (\<lambda>p q. fmul (fsub p q) (fsub p q)) ps os"

definition brier :: "folds \<Rightarrow> pyfloat list \<Rightarrow> pyfloat list \<Rightarrow> pyfloat" where
  "brier M ps os = (if ps = [] then NaN else np_mean M (sq_errors ps os))"

definition brier_skill_score :: "folds \<Rightarrow> pyfloat list \<Rightarrow> pyfloat list \<Rightarrow> pyfloat option \<Rightarrow> pyfloat res" where
  "brier_skill_score M ps os base_rate =
     (if os = [] then Inr NaN
      else (let br = (case base_rate of None \<Rightarrow> np_mean M os | Some b \<Rightarrow> b);
                bs_ref = brier M (map (\<lambda>_. br) os) os in
        if fle bs_ref (Fin 0) then Inr NaN
        else res_bind (fdiv (brier M ps os) bs_ref) (\<lambda>r. Inr (fsub (Fin 1) r))))"

definition weighted_brier :: "folds \<Rightarrow> pyfloat list \<Rightarrow> pyfloat list \<Rightarrow> pyfloat list \<Rightarrow> pyfloat res" where
  "weighted_brier M ps os ws =
     (if ps = [] \<or> fle (np_sum M ws) (Fin 0) then Inr NaN
      else fdiv (np_sum M (map2 fmul ws (sq_errors ps os))) (np_sum M ws))"

text \<open>\<open>w = n / (n + k)\<close>, an \<open>int\<close> division.\<close>

definition shrunk_skill :: "pyfloat \<Rightarrow> int \<Rightarrow> pyfloat \<Rightarrow> int \<Rightarrow> pyfloat" where
  "shrunk_skill observed n pool k =
     (if \<not> isfinite observed \<or> n \<le> 0 then pool
      else (let w = rnd (of_int n / of_int (n + k)) in fadd (fmul w observed) (fmul (fsub (Fin 1) w) pool)))"

section \<open>Grading\<close>

record graded =
  gr_seat :: pyval
  gr_p :: pyfloat
  gr_o :: pyfloat
  gr_sign :: pyfloat

definition sign_of :: "string \<Rightarrow> pyfloat" where
  "sign_of direction = (if direction = ''long'' then Fin 1 else if direction = ''short'' then Fin (- 1) else Fin 0)"

text \<open>A row of the resolutions: a direction, a confidence and the realized alpha, as floats.\<close>

record rated =
  ra_seat :: pyval
  ra_direction :: string
  ra_confidence :: pyfloat
  ra_alpha :: "pyfloat option"

definition grade_row :: "rated \<Rightarrow> graded option" where
  "grade_row r = (case signal_probability (ra_direction r) (ra_confidence r) of Inl _ \<Rightarrow> None
     | Inr p \<Rightarrow> (case ra_alpha r of None \<Rightarrow> None
         | Some a \<Rightarrow> if \<not> isfinite a then None
             else Some \<lparr>gr_seat = ra_seat r, gr_p = p, gr_o = (if flt (Fin 0) a then Fin 1 else Fin 0), gr_sign = sign_of (ra_direction r)\<rparr>))"

definition grade_rows :: "rated list \<Rightarrow> graded list" where
  "grade_rows rs = List.map_filter grade_row rs"

section \<open>The PM's weights\<close>

record seat_score =
  as_seat :: string
  as_n_graded :: int
  as_bss_shrunk :: pyfloat

text \<open>The dictionary \<open>raw\<close>: \<open>None\<close> for a record too short to be one.\<close>

definition raw_weight :: "seat_score \<Rightarrow> int \<Rightarrow> pyfloat option" where
  "raw_weight a min_graded = (if as_n_graded a < min_graded \<or> \<not> isfinite (as_bss_shrunk a) then None
     else Some (fmax (as_bss_shrunk a) (Fin 0)))"

definition raw_weights :: "seat_score list \<Rightarrow> int \<Rightarrow> (string \<times> pyfloat option) list" where
  "raw_weights scores min_graded = fold (\<lambda>a d. AList.update (as_seat a) (raw_weight a min_graded) d) scores []"

definition filled_weights :: "folds \<Rightarrow> (string \<times> pyfloat option) list \<Rightarrow> (string \<times> pyfloat) list" where
  "filled_weights M raw = (let known = List.map_filter snd raw; mean_known = (if known \<noteq> [] then np_mean M known else Fin 1) in
     map (\<lambda>(k, v). (k, case v of None \<Rightarrow> mean_known | Some x \<Rightarrow> x)) raw)"

definition floored_weights :: "folds \<Rightarrow> pyfloat \<Rightarrow> (string \<times> pyfloat) list \<Rightarrow> (string \<times> pyfloat) list" where
  "floored_weights M fraction filled = (let low = (if filled \<noteq> [] then fmul fraction (np_mean M (map snd filled)) else Fin 0) in
     map (\<lambda>(k, v). (k, fmax v low)) filled)"

definition pm_weights :: "folds \<Rightarrow> seat_score list \<Rightarrow> pyfloat \<Rightarrow> int \<Rightarrow> (string \<times> pyfloat) list res" where
  "pm_weights M scores fraction min_graded =
     (if scores = [] then Inr []
      else (let floored = floored_weights M fraction (filled_weights M (raw_weights scores min_graded));
                total = built_in_sum M (map snd floored) in
        if fle total (Fin 0) then Inr (map (\<lambda>(k, _). (k, rnd (1 / of_nat (length floored)))) floored)
        else fold (\<lambda>(k, v) acc. res_bind acc (\<lambda>d. res_bind (fdiv v total) (\<lambda>w. Inr (d @ [(k, w)])))) floored (Inr [])))"

section \<open>A probability is one\<close>

text \<open>\<open>Fin q\<close> with \<open>0 \<le> q \<le> 1\<close>.\<close>

definition unit_float :: "pyfloat \<Rightarrow> bool" where
  "unit_float x = (case x of Fin q \<Rightarrow> 0 \<le> q \<and> q \<le> 1 | _ \<Rightarrow> False)"

lemma unit_float_iff: "unit_float x \<longleftrightarrow> (\<exists>q. x = Fin q \<and> 0 \<le> q \<and> q \<le> 1)"
  by (cases x) (auto simp: unit_float_def)

lemma rnd_1 [simp]: "rnd 1 = Fin 1"
  using rnd_of_int [of 1] by simp

lemma unit_float_rnd: "0 \<le> q \<Longrightarrow> q \<le> 1 \<Longrightarrow> unit_float (rnd q)"
  using rnd_mono [of 0 q] rnd_mono [of q 1]
  by (cases "rnd q") (auto simp: unit_float_def fle_def feq_def)

text \<open>
  A signal is a probability or an error. A signal is graded exactly when its direction is one of the three and its
  confidence lies between 0 and 100; then the probability is a finite number between 0 and 1, one half for an
  abstention, and a short's is the rounded complement of the long's of the same confidence. A NaN and an infinite confidence are errors.
\<close>

theorem signal_is_a_probability:
  "case signal_probability direction confidence of
     Inl e \<Rightarrow> e = ValueError \<and> (direction \<notin> {''long'', ''short'', ''neutral''} \<or> \<not> (fle (Fin 0) confidence \<and> fle confidence (Fin 100)))
   | Inr p \<Rightarrow> unit_float p \<and> direction \<in> {''long'', ''short'', ''neutral''} \<and> fle (Fin 0) confidence \<and> fle confidence (Fin 100) \<and>
       (direction = ''neutral'' \<longrightarrow> p = Fin (1 / 2)) \<and>
       (direction = ''short'' \<longrightarrow> (\<exists>c. signal_probability ''long'' confidence = Inr c \<and> p = fsub (Fin 1) c))"
proof (cases "fle (Fin 0) confidence \<and> fle confidence (Fin 100)")
  case True
  then obtain q where q: "confidence = Fin q" "0 \<le> q" "q \<le> 100" by (cases confidence) (auto simp: fle_def feq_def)
  have u: "unit_float (rnd (q / 100))" using q by (intro unit_float_rnd) simp_all
  then obtain c where c: "rnd (q / 100) = Fin c" "0 \<le> c" "c \<le> 1" by (auto simp: unit_float_iff)
  then have "unit_float (fsub (Fin 1) (Fin c))" by (simp add: fsub_def unit_float_rnd)
  then show ?thesis using q c by (auto simp: signal_probability_def unit_float_def)
next
  case False
  then show ?thesis by (auto simp: signal_probability_def)
qed

theorem signal_is_a_probability_witness:
  "(\<exists>c. signal_probability ''long'' (Fin 80) = Inr c \<and> signal_probability ''short'' (Fin 80) = Inr (fsub (Fin 1) c))
   \<and> signal_probability ''long'' NaN = Inl ValueError"
proof -
  have "\<exists>p. signal_probability ''short'' (Fin 80) = Inr p" by (simp add: signal_probability_def fle_def)
  moreover have "\<exists>e. signal_probability ''long'' NaN = Inl e" by (simp add: signal_probability_def fle_def feq_def)
  ultimately show ?thesis
    using signal_is_a_probability [of "''short''" "Fin 80"] signal_is_a_probability [of "''long''" NaN] by auto
qed

section \<open>Weights are weights\<close>

text \<open>
  What the code relies on in numpy and in \<open>sum\<close>: the mean of numbers between 0 and 1 is one,
  and a sum of such numbers is no smaller than any of them.
\<close>

definition sound_folds :: "folds \<Rightarrow> bool" where
  "sound_folds M \<longleftrightarrow> (\<forall>xs. xs \<noteq> [] \<longrightarrow> list_all unit_float xs \<longrightarrow> unit_float (np_mean M xs) \<and>
     (\<forall>x\<in>set xs. fle x (built_in_sum M xs)))"

lemma update_keys_set: "fst ` set (fold (\<lambda>a d. AList.update (f a) (g a) d) xs d) = f ` set xs \<union> fst ` set d"
  by (induction xs arbitrary: d) (auto simp: dom_update)

lemma update_values:
  "(k, v) \<in> set (fold (\<lambda>a d. AList.update (f a) (g a) d) xs d) \<Longrightarrow> (k, v) \<in> set d \<or> v \<in> g ` set xs"
proof (induction xs arbitrary: d)
  case (Cons x xs)
  have step: "(k, v) \<in> set (AList.update (f x) (g x) d) \<Longrightarrow> (k, v) \<in> set d \<or> v = g x"
    by (induction d) (auto split: if_splits)
  from Cons.prems Cons.IH [of "AList.update (f x) (g x) d"] step show ?case by auto
qed simp

lemma update_distinct: "distinct (map fst d) \<Longrightarrow> distinct (map fst (fold (\<lambda>a d. AList.update (f a) (g a) d) xs d))"
  by (induction xs arbitrary: d) (auto intro: distinct_update)

lemma unit_float_fmax: "unit_float x \<Longrightarrow> unit_float y \<Longrightarrow> unit_float (fmax x y)"
  by (simp add: fmax_def)

lemma quotients:
  "(\<And>k v. (k, v) \<in> set xs \<Longrightarrow> \<exists>w. fdiv v t = Inr w \<and> Q w) \<Longrightarrow>
   \<exists>ys. fold (\<lambda>(k, v) acc. res_bind acc (\<lambda>d. res_bind (fdiv v t) (\<lambda>w. Inr (d @ [(k, w)])))) xs (Inr d0) = Inr (d0 @ ys)
     \<and> map fst ys = map fst xs \<and> list_all Q (map snd ys)"
proof (induction xs arbitrary: d0)
  case (Cons x xs)
  obtain k v where x: "x = (k, v)" by fastforce
  with Cons.prems obtain w where w: "fdiv v t = Inr w" "Q w" by fastforce
  from Cons.IH [of "d0 @ [(k, w)]"] Cons.prems obtain ys where
    "fold (\<lambda>(k, v) acc. res_bind acc (\<lambda>d. res_bind (fdiv v t) (\<lambda>w. Inr (d @ [(k, w)])))) xs (Inr (d0 @ [(k, w)])) = Inr ((d0 @ [(k, w)]) @ ys)"
    "map fst ys = map fst xs" "list_all Q (map snd ys)" by fastforce
  then show ?case using x w by (intro exI [of _ "(k, w) # ys"]) simp
qed simp

lemma raw_weights_facts:
  assumes "scores \<noteq> []" "\<forall>a\<in>set scores. fle (as_bss_shrunk a) (Fin 1) \<or> \<not> isfinite (as_bss_shrunk a)"
  shows "raw_weights scores n \<noteq> []" "distinct (map fst (raw_weights scores n))"
    "fst ` set (raw_weights scores n) = as_seat ` set scores"
    "(k, Some x) \<in> set (raw_weights scores n) \<Longrightarrow> unit_float x"
proof -
  show keys: "fst ` set (raw_weights scores n) = as_seat ` set scores" by (simp add: raw_weights_def update_keys_set)
  then show "raw_weights scores n \<noteq> []" using assms(1) by auto
  show "distinct (map fst (raw_weights scores n))" unfolding raw_weights_def by (rule update_distinct) simp
  assume "(k, Some x) \<in> set (raw_weights scores n)"
  then obtain a where a: "a \<in> set scores" "raw_weight a n = Some x"
    unfolding raw_weights_def by (auto dest: update_values)
  then have "isfinite (as_bss_shrunk a)" "x = fmax (as_bss_shrunk a) (Fin 0)" by (auto simp: raw_weight_def split: if_splits)
  moreover from this have "fle (as_bss_shrunk a) (Fin 1)" using assms(2) a(1) by blast
  ultimately show "unit_float x" by (cases "as_bss_shrunk a") (auto simp: unit_float_def fmax_def fle_def feq_def)
qed

lemma filled_units:
  assumes M: "sound_folds M" and x: "\<And>k x. (k, Some x) \<in> set raw \<Longrightarrow> unit_float x"
  shows "list_all unit_float (map snd (filled_weights M raw))"
proof -
  have "list_all unit_float (List.map_filter snd raw)"
    using x by (auto simp: list_all_iff map_filter_def)
  then have "unit_float (if List.map_filter snd raw \<noteq> [] then np_mean M (List.map_filter snd raw) else Fin 1)"
    using M by (auto simp: sound_folds_def unit_float_def)
  then show ?thesis using x
    by (fastforce simp: filled_weights_def Let_def list_all_iff split: option.splits)
qed

lemma floored_units:
  assumes M: "sound_folds M" and u: "list_all unit_float (map snd filled)"
  shows "list_all unit_float (map snd (floored_weights M WEIGHT_FLOOR_FRACTION filled))"
proof -
  have "unit_float (if filled \<noteq> [] then fmul WEIGHT_FLOOR_FRACTION (np_mean M (map snd filled)) else Fin 0)"
  proof (cases "filled = []")
    case False
    then have "unit_float (np_mean M (map snd filled))" using M u by (simp add: sound_folds_def)
    then show ?thesis using False by (auto simp: unit_float_iff [of "np_mean M _"] WEIGHT_FLOOR_FRACTION_def intro!: unit_float_rnd)
  qed (simp add: unit_float_def)
  then show ?thesis using u by (auto simp: floored_weights_def Let_def list_all_iff intro!: unit_float_fmax)
qed

lemma quotient_unit:
  assumes "unit_float v" "fle v t" "\<not> fle t (Fin 0)"
  shows "\<exists>w. fdiv v t = Inr w \<and> unit_float w"
  using assms by (cases t) (auto simp: unit_float_iff [of v] fle_def feq_def intro!: unit_float_rnd, simp_all add: unit_float_def)

lemma filled_keys [simp]: "map fst (filled_weights M raw) = map fst raw"
  by (simp add: filled_weights_def Let_def case_prod_unfold)

lemma floored_keys [simp]: "map fst (floored_weights M f xs) = map fst xs"
  by (simp add: floored_weights_def Let_def case_prod_unfold)

lemma constant_weights: "unit_float w \<Longrightarrow> list_all unit_float (map snd (map (\<lambda>(k, _). (k, w)) xs))"
  by (auto simp: list_all_iff)

text \<open>
  C36: the weights are weights. Whatever the record of the seats, short, infinite, negative or a perfect one, as long as
  no shrunk skill exceeds 1, the computation returns one weight for every seat scored and no other, and each of them is a
  finite number between 0 and 1: a losing seat is never weighted below zero and no division by a vanished total occurs.
\<close>

theorem weights_are_weights:
  assumes "sound_folds M" "\<forall>a\<in>set scores. fle (as_bss_shrunk a) (Fin 1) \<or> \<not> isfinite (as_bss_shrunk a)"
  shows "\<exists>ws. pm_weights M scores WEIGHT_FLOOR_FRACTION n = Inr ws \<and> distinct (map fst ws)
    \<and> fst ` set ws = as_seat ` set scores \<and> list_all unit_float (map snd ws)"
proof (cases "scores = []")
  case False
  define fl where "fl = floored_weights M WEIGHT_FLOOR_FRACTION (filled_weights M (raw_weights scores n))"
  define t where "t = built_in_sum M (map snd fl)"
  note raw = raw_weights_facts [OF False assms(2)]
  have keys: "map fst fl = map fst (raw_weights scores n)" by (simp add: fl_def)
  then have ne: "fl \<noteq> []" and dist: "distinct (map fst fl)" and seats: "fst ` set fl = as_seat ` set scores"
    using raw(1-3) by (auto simp flip: set_map)
  have u: "list_all unit_float (map snd fl)"
    unfolding fl_def using assms(1) raw(4) by (intro floored_units filled_units)
  show ?thesis
  proof (cases "fle t (Fin 0)")
    case True
    define ws where "ws = map (\<lambda>(k, _ :: pyfloat). (k, rnd (1 / of_nat (length fl)))) fl"
    have "pm_weights M scores WEIGHT_FLOOR_FRACTION n = Inr ws"
      using False True by (simp add: pm_weights_def Let_def ws_def flip: fl_def t_def)
    moreover have "unit_float (rnd (1 / of_nat (length fl)))" using ne by (intro unit_float_rnd) (cases fl; simp)+
    then have "list_all unit_float (map snd ws)" unfolding ws_def by (rule constant_weights)
    moreover have ks: "map fst ws = map fst fl" by (simp add: ws_def case_prod_unfold)
    ultimately show ?thesis using dist seats by (intro exI [of _ ws]) (simp add: ks flip: set_map)
  next
    case pos: False
    have q: "\<exists>w. fdiv v t = Inr w \<and> unit_float w" if "(k, v) \<in> set fl" for k v
    proof (rule quotient_unit)
      show "unit_float v" using u that by (auto simp: list_all_iff)
      show "fle v t" using assms(1) u ne that unfolding t_def sound_folds_def by (metis in_set_conv_decomp list.map_disc_iff image_eqI set_map snd_conv)
    qed (rule pos)
    have "\<exists>ys. fold (\<lambda>(k, v) acc. res_bind acc (\<lambda>d. res_bind (fdiv v t) (\<lambda>w. Inr (d @ [(k, w)])))) fl (Inr []) = Inr ([] @ ys)
      \<and> map fst ys = map fst fl \<and> list_all unit_float (map snd ys)"
      by (rule quotients) (rule q)
    then obtain ys where
      "pm_weights M scores WEIGHT_FLOOR_FRACTION n = Inr ys" "map fst ys = map fst fl" "list_all unit_float (map snd ys)"
      using False pos by (auto simp: pm_weights_def Let_def simp flip: fl_def t_def)
    then show ?thesis using dist seats by (metis set_map)
  qed
qed (simp add: pm_weights_def)

text \<open>Folds over the exact sum.\<close>

definition exact_sum :: "pyfloat list \<Rightarrow> rat" where
  "exact_sum xs = sum_list (map (\<lambda>x. case x of Fin q \<Rightarrow> q | _ \<Rightarrow> 0) xs)"

definition exact_folds :: folds where
  "exact_folds = \<lparr>np_mean = (\<lambda>xs. rnd (exact_sum xs / of_nat (length xs))), np_sum = (\<lambda>xs. rnd (exact_sum xs)), built_in_sum = (\<lambda>xs. Fin (exact_sum xs))\<rparr>"

lemma exact_sum_bounds:
  "list_all unit_float xs \<Longrightarrow> 0 \<le> exact_sum xs \<and> exact_sum xs \<le> of_nat (length xs) \<and> (\<forall>x\<in>set xs. fle x (Fin (exact_sum xs)))"
proof (induction xs)
  case (Cons x xs)
  then obtain q where x: "x = Fin q" "0 \<le> q" "q \<le> 1" by (auto simp: unit_float_iff)
  have e: "exact_sum (x # xs) = q + exact_sum xs" by (simp add: exact_sum_def x)
  have "fle y (Fin (q + exact_sum xs))" if "fle y (Fin (exact_sum xs))" for y
    using that x by (cases y) (auto simp: fle_def feq_def)
  moreover have "fle x (Fin (q + exact_sum xs))" using Cons x by (auto simp: fle_def feq_def)
  ultimately show ?case using Cons x e by auto
qed (simp add: exact_sum_def)

lemma exact_folds_sound: "sound_folds exact_folds"
  unfolding sound_folds_def exact_folds_def
  using exact_sum_bounds by (auto intro!: unit_float_rnd simp: field_simps)

definition some_scores :: "seat_score list" where
  "some_scores = [\<lparr>as_seat = ''technical'', as_n_graded = 80, as_bss_shrunk = Fin (1 / 4)\<rparr>,
    \<lparr>as_seat = ''news'', as_n_graded = 80, as_bss_shrunk = Fin (- 1 / 8)\<rparr>,
    \<lparr>as_seat = ''fundamental'', as_n_graded = 3, as_bss_shrunk = NaN\<rparr>]"

theorem weights_are_weights_witness:
  "\<exists>ws. pm_weights exact_folds some_scores WEIGHT_FLOOR_FRACTION MIN_GRADED_FOR_WEIGHT = Inr ws \<and> distinct (map fst ws)
    \<and> fst ` set ws = as_seat ` set some_scores \<and> list_all unit_float (map snd ws)"
  by (rule weights_are_weights [OF exact_folds_sound]) (simp add: some_scores_def fle_def)

end
