(* ===== verification/Nightly.thy ===== *)
theory Nightly imports RunDay Resolve Dispatch begin

text \<open>
  The jobs beside the trading day: scripts/critic_g1.py, reflect_day.py, register_spec.py,
  run_dispatcher.py, weights_day.py and close_pnl.py. A job runs behind the guards of
  scripts/run_day.py, makes seat turns with its \<open>make_turn\<close> and ends in an exit code. What Python
  does in \<open>finally\<close> needs the local variables of the body, so a body returns them with its
  exception, if it has one.
\<close>

section \<open>What the jobs share\<close>

text \<open>\<open>_guarded\<close>: each job has its own, with its own code.\<close>

definition job_guarded :: "string \<Rightarrow> ('x, 'z) ports_scheme \<Rightarrow> ('x world, int) prog \<Rightarrow> ('x world, int) prog" where
  "job_guarded code P body =
     catch body (\<lambda>_.
       andthen (catch (andthen (day_alert P code []) (\<lambda>_. andthen (clock_now P) (\<lambda>now.
                  andthen (drain_outbox P now) (\<lambda>_. ret ())))) (\<lambda>_. ret ()))
         (\<lambda>_. ret 1))"

definition drain_now :: "('x, 'z) ports_scheme \<Rightarrow> ('x world, unit) prog" where
  "drain_now P = andthen (clock_now P) (\<lambda>now. andthen (drain_outbox P now) (\<lambda>_. ret ()))"

definition alert_if :: "('x, 'z) ports_scheme \<Rightarrow> bool \<Rightarrow> string \<Rightarrow> ('x world, unit) prog" where
  "alert_if P b code = (if b then day_alert P code [] else ret ())"

text \<open>A turn of \<open>make_turn\<close> whose session is \<open>m\<close>.\<close>

definition job_turn :: "('x, 'z) day_env_scheme \<Rightarrow> string \<Rightarrow> string \<Rightarrow> ('x world, string list \<times> turn_result option) prog
    \<Rightarrow> ('x world, unit) prog" where
  "job_turn E seat model m = make_turn (E\<lparr>dy_session := (\<lambda>_ _. m)\<rparr>) seat model None"

text \<open>
  The guards every job passes first: paper only, the variables, and a lock, whose holder is another
  run. What stands for the rest of the start is \<open>go\<close>.
\<close>

definition job_start :: "string list \<Rightarrow> environ \<Rightarrow> ('x \<Rightarrow> bool \<times> 'x) \<Rightarrow> int \<Rightarrow> ('x world, int) prog \<Rightarrow> ('x world, int) prog" where
  "job_start names environ take_lock busy go =
     andthen (lift_res (paper_guard environ)) (\<lambda>_.
     andthen (lift_res (require_env names environ)) (\<lambda>_.
     andthen (on_port (\<lambda>x. case take_lock x of (b, x') \<Rightarrow> (Inr b, x'))) (\<lambda>free.
     if \<not> free then ret busy else go)))"

definition build_slack :: "environ \<Rightarrow> ('x world, unit) prog" where
  "build_slack environ = andthen (lift_res (parse_channel_overrides (map_of environ ''SLACK_CHANNEL_OVERRIDES''))) (\<lambda>_. ret ())"

section \<open>The critic's night\<close>

definition G1_REQUIRED_ENV :: "string list" where
  "G1_REQUIRED_ENV = [''ALPACA_API_KEY'', ''ALPACA_SECRET_KEY'', ''FUND_DB'', ''SLACK_BOT_TOKEN'', ''ANTHROPIC_API_KEY'']"

definition MAX_G1_TURNS_PER_NIGHT :: nat where "MAX_G1_TURNS_PER_NIGHT = 3"
definition PENDING_REPORT_LIMIT :: nat where "PENDING_REPORT_LIMIT = 50"

definition pending_count :: "(db, nat) prog" where
  "pending_count = andthen (specs_awaiting_critique PENDING_REPORT_LIMIT) (\<lambda>ps. ret (length ps))"

definition next_pending_spec :: "(db, string option) prog" where
  "next_pending_spec = andthen (specs_awaiting_critique 1) (\<lambda>ps. ret (case ps of [] \<Rightarrow> None | p # _ \<Rightarrow> Some (sp_spec_id p)))"

definition has_verdict :: "string \<Rightarrow> (db, bool) prog" where
  "has_verdict sid = gets (critiqued sid)"

datatype stalled = Turn_raised string | Wrote_nothing string nat

record g1_night =
  g1_critiqued :: nat
  g1_failed :: nat
  g1_stalled :: "stalled option"
  g1_capped :: bool
  g1_remaining :: nat

definition g1_start :: g1_night where
  "g1_start = \<lparr>g1_critiqued = 0, g1_failed = 0, g1_stalled = None, g1_capped = False, g1_remaining = 0\<rparr>"

text \<open>The loop, with as many turns as are left; no turns left is the \<open>else\<close> of the \<open>for\<close>.\<close>

fun g1_turns :: "(string \<Rightarrow> ('x world, unit) prog) \<Rightarrow> nat \<Rightarrow> g1_night \<Rightarrow> ('x world, (exn + unit) \<times> g1_night) prog" where
  "g1_turns run_turn 0 n = andthen (attempt (on_db next_pending_spec)) (\<lambda>h. case h of
       Inl e \<Rightarrow> ret (Inl e, n) | Inr None \<Rightarrow> ret (Inr (), n)
     | Inr (Some _) \<Rightarrow> andthen (attempt (on_db pending_count)) (\<lambda>c. case c of
           Inl e \<Rightarrow> ret (Inl e, n\<lparr>g1_capped := True\<rparr>)
         | Inr k \<Rightarrow> ret (Inr (), n\<lparr>g1_capped := True, g1_remaining := k\<rparr>)))"
| "g1_turns run_turn (Suc left) n = andthen (attempt (on_db next_pending_spec)) (\<lambda>h. case h of
       Inl e \<Rightarrow> ret (Inl e, n) | Inr None \<Rightarrow> ret (Inr (), n)
     | Inr (Some sid) \<Rightarrow> andthen (attempt (run_turn sid)) (\<lambda>t. case t of
           Inl _ \<Rightarrow> ret (Inr (), n\<lparr>g1_stalled := Some (Turn_raised sid), g1_failed := g1_failed n + 1\<rparr>)
         | Inr _ \<Rightarrow> andthen (on_db (has_verdict sid)) (\<lambda>b.
             if b then g1_turns run_turn left (n\<lparr>g1_critiqued := g1_critiqued n + 1\<rparr>)
             else andthen (attempt (on_db pending_count)) (\<lambda>c. case c of
                 Inl e \<Rightarrow> ret (Inl e, n)
               | Inr k \<Rightarrow> ret (Inr (), n\<lparr>g1_stalled := Some (Wrote_nothing sid k), g1_failed := g1_failed n + 1\<rparr>)))))"

text \<open>The \<open>finally\<close> block.\<close>

definition g1_report :: "('x, 'z) ports_scheme \<Rightarrow> g1_night \<Rightarrow> ('x world, unit) prog" where
  "g1_report P n = andthen (case g1_stalled n of None \<Rightarrow> ret ()
       | Some (Turn_raised _) \<Rightarrow> day_alert P ''critic_g1_turn_failed'' []
       | Some (Wrote_nothing _ _) \<Rightarrow> day_alert P ''critic_g1_turn_wrote_nothing'' []) (\<lambda>_.
     andthen (alert_if P (g1_capped n) ''critic_g1_backlog_capped'') (\<lambda>_. drain_now P))"

definition critique_and_log :: "('x, 'z) ports_scheme \<Rightarrow> (string \<Rightarrow> ('x world, unit) prog) \<Rightarrow> ('x world, g1_night) prog" where
  "critique_and_log P run_turn = andthen (g1_turns run_turn MAX_G1_TURNS_PER_NIGHT g1_start) (\<lambda>(res, n).
     andthen (g1_report P n) (\<lambda>_. case res of Inl e \<Rightarrow> raise e | Inr _ \<Rightarrow> ret n))"

text \<open>The session of a turn is bound to the spec its turn is shown.\<close>

definition g1_run_turn :: "('x, 'z) day_env_scheme \<Rightarrow> string \<Rightarrow> (string \<Rightarrow> ('x world, string list \<times> turn_result option) prog)
    \<Rightarrow> string \<Rightarrow> ('x world, unit) prog" where
  "g1_run_turn E model session = (\<lambda>sid. job_turn E ''critic'' model (session sid))"

definition g1_guarded :: "('x, 'z) ports_scheme \<Rightarrow> ('x world, int) prog \<Rightarrow> ('x world, int) prog" where
  "g1_guarded = job_guarded ''critic_g1_failed''"

definition g1_main :: "('x, 'z) day_env_scheme \<Rightarrow> environ \<Rightarrow> ('x \<Rightarrow> bool \<times> 'x) \<Rightarrow> (time \<Rightarrow> date)
    \<Rightarrow> (string \<Rightarrow> ('x world, string list \<times> turn_result option) prog) \<Rightarrow> ('x world, int) prog" where
  "g1_main E environ take_lock et_run_date session =
     job_start G1_REQUIRED_ENV environ take_lock 0 (andthen (build_slack environ) (\<lambda>_.
       g1_guarded E (andthen (lift_res (dy_seat_config E ''critic'')) (\<lambda>model. andthen (clock_now E) (\<lambda>now.
         andthen (critique_and_log E (g1_run_turn (E\<lparr>cx_run_date := et_run_date now\<rparr>) model session)) (\<lambda>_. ret 0))))))"

section \<open>The night's reflections\<close>

definition REFLECT_LOOKBACK_DAYS :: nat where "REFLECT_LOOKBACK_DAYS = 7"
definition MAX_TURNS_PER_NIGHT :: nat where "MAX_TURNS_PER_NIGHT = 25"

text \<open>The calendar: the midnights of a date, and the date so many days before it.\<close>

record calendar =
  ca_window :: "date \<Rightarrow> (time \<times> time) res"
  ca_before :: "date \<Rightarrow> nat \<Rightarrow> date res"
  ca_run_date :: "time \<Rightarrow> date"

definition reflect_window :: "calendar \<Rightarrow> date \<Rightarrow> (time \<times> time) res" where
  "reflect_window K rd = res_bind (ca_before K rd REFLECT_LOOKBACK_DAYS) (\<lambda>back.
     res_bind (ca_window K back) (\<lambda>(first, _). res_bind (ca_window K rd) (\<lambda>(_, last). Inr (first, last))))"

text \<open>The join of the decisions with their resolutions that still lack a reflection and that a seat decided.\<close>

definition owed :: "(time \<Rightarrow> bool) \<Rightarrow> db \<Rightarrow> decision list" where
  "owed P s = sort_key d_id [d. d \<leftarrow> decisions s, r \<leftarrow> resolutions s,
     r_decision_id r = d_id d \<and> r_reflection r = None \<and> P (r_resolved_at r) \<and> d_charter d \<noteq> ''none'']"

definition due_all :: "time \<times> time \<Rightarrow> db \<Rightarrow> decision list" where
  "due_all win = owed (\<lambda>t. fst win \<le> t \<and> t < snd win)"

definition due_reflections :: "time \<times> time \<Rightarrow> db \<Rightarrow> decision list" where
  "due_reflections win s = take MAX_TURNS_PER_NIGHT (due_all win s)"

definition due_count :: "time \<times> time \<Rightarrow> db \<Rightarrow> nat" where
  "due_count win s = length (due_all win s)"

definition aged_out_reflections :: "time \<times> time \<Rightarrow> db \<Rightarrow> decision list" where
  "aged_out_reflections win = owed (\<lambda>t. t < fst win)"

record reflect_night =
  rf_reflected :: nat
  rf_failed :: nat
  rf_wrote_nothing :: "int list"

definition reflect_one :: "('x, 'z) ports_scheme \<Rightarrow> (pyfloat \<Rightarrow> string) \<Rightarrow> (decision \<Rightarrow> string \<Rightarrow> ('x world, unit) prog)
    \<Rightarrow> decision \<Rightarrow> reflect_night \<Rightarrow> ('x world, reflect_night) prog" where
  "reflect_one P f run_turn d n = (let failed = n\<lparr>rf_failed := rf_failed n + 1\<rparr> in
     andthen (on_db (gets (reflection_frame f (d_id d)))) (\<lambda>fr. case fr of
       None \<Rightarrow> ret failed
     | Some text \<Rightarrow> andthen (attempt (run_turn d text)) (\<lambda>t. case t of
         Inl _ \<Rightarrow> andthen (day_alert P ''reflect_turn_failed'' []) (\<lambda>_. ret failed)
       | Inr _ \<Rightarrow> andthen (on_db (gets (\<lambda>s. fetchone (\<lambda>r. r_decision_id r = d_id d) (resolutions s)))) (\<lambda>row. case row of
           None \<Rightarrow> ret failed
         | Some r \<Rightarrow> if r_reflection r \<noteq> None then ret (n\<lparr>rf_reflected := rf_reflected n + 1\<rparr>)
             else ret (failed\<lparr>rf_wrote_nothing := rf_wrote_nothing n @ [d_id d]\<rparr>)))))"

definition reflect_and_log :: "('x, 'z) ports_scheme \<Rightarrow> calendar \<Rightarrow> (pyfloat \<Rightarrow> string)
    \<Rightarrow> (decision \<Rightarrow> string \<Rightarrow> ('x world, unit) prog) \<Rightarrow> ('x world, reflect_night) prog" where
  "reflect_and_log P K f run_turn = andthen (clock_now P) (\<lambda>t0.
     case reflect_window K (ca_run_date K t0) of
       Inl e \<Rightarrow> andthen (drain_now P) (\<lambda>_. raise e)
     | Inr win \<Rightarrow>
         andthen (on_db (gets (aged_out_reflections win))) (\<lambda>lost.
         andthen (alert_if P (lost \<noteq> []) ''reflect_aged_out'') (\<lambda>_.
         andthen (on_db (gets (due_count win))) (\<lambda>total.
         andthen (on_db (gets (due_reflections win))) (\<lambda>due.
         andthen (alert_if P (length due < total) ''reflect_backlog_capped'') (\<lambda>_.
         andthen (fold_each (reflect_one P f run_turn) due \<lparr>rf_reflected = 0, rf_failed = 0, rf_wrote_nothing = []\<rparr>) (\<lambda>n.
         andthen (alert_if P (rf_wrote_nothing n \<noteq> []) ''reflect_turn_wrote_nothing'') (\<lambda>_.
         andthen (drain_now P) (\<lambda>_. ret n)))))))))"

definition reflect_run_turn :: "('x, 'z) day_env_scheme \<Rightarrow> string \<Rightarrow> (int \<Rightarrow> string \<Rightarrow> ('x world, string list \<times> turn_result option) prog)
    \<Rightarrow> decision \<Rightarrow> string \<Rightarrow> ('x world, unit) prog" where
  "reflect_run_turn E model session = (\<lambda>d text. job_turn (E\<lparr>dy_trace := (\<lambda>_ _ _. None)\<rparr>) ''reflect'' model (session (d_id d) text))"

definition reflect_main :: "('x, 'z) day_env_scheme \<Rightarrow> calendar \<Rightarrow> (pyfloat \<Rightarrow> string) \<Rightarrow> environ \<Rightarrow> ('x \<Rightarrow> bool \<times> 'x)
    \<Rightarrow> (int \<Rightarrow> string \<Rightarrow> ('x world, string list \<times> turn_result option) prog) \<Rightarrow> ('x world, int) prog" where
  "reflect_main E K f environ take_lock session =
     job_start G1_REQUIRED_ENV environ take_lock 0 (andthen (lift_res (dy_seat_config E ''reflect'')) (\<lambda>model.
       andthen (build_slack environ) (\<lambda>_. andthen (clock_now E) (\<lambda>now.
       andthen (reflect_and_log E K f (reflect_run_turn (E\<lparr>cx_run_date := ca_run_date K now\<rparr>) model session)) (\<lambda>_. ret 0)))))"

section \<open>Registering a spec\<close>

definition QUEUE_REPORT_LIMIT :: nat where "QUEUE_REPORT_LIMIT = 50"

text \<open>The file at the path of the command line: \<open>None\<close> for no path, or one that cannot be read.\<close>

definition read_brief :: "string option \<Rightarrow> string option" where
  "read_brief content = (case content of None \<Rightarrow> None | Some t \<Rightarrow> if strip t = [] then None else Some t)"

definition spec_count :: "(db, nat) prog" where
  "spec_count = gets (\<lambda>s. length (strategy_specs s))"

definition queue_depth :: "(db, nat) prog" where
  "queue_depth = andthen (specs_awaiting_critique QUEUE_REPORT_LIMIT) (\<lambda>ps. ret (length ps))"

record registration =
  rg_registered :: nat
  rg_failed :: nat
  rg_raised :: bool

definition register_body :: "('x world, unit) prog \<Rightarrow> ('x world, (exn + unit) \<times> registration) prog" where
  "register_body run_turn = (let n = \<lparr>rg_registered = 0, rg_failed = 0, rg_raised = False\<rparr> in
     andthen (on_db spec_count) (\<lambda>before.
     andthen (attempt run_turn) (\<lambda>t.
     andthen (case t of Inl _ \<Rightarrow> ret (n\<lparr>rg_failed := 1, rg_raised := True\<rparr>)
       | Inr _ \<Rightarrow> andthen (on_db spec_count) (\<lambda>k. ret (if before < k then n\<lparr>rg_registered := 1\<rparr> else n\<lparr>rg_failed := 1\<rparr>))) (\<lambda>n'.
     andthen (attempt (on_db queue_depth)) (\<lambda>q. case q of Inl e \<Rightarrow> ret (Inl e, n') | Inr _ \<Rightarrow> ret (Inr (), n'))))))"

text \<open>The \<open>finally\<close> block reads the depth once more, and that may raise.\<close>

definition register_and_log :: "('x, 'z) ports_scheme \<Rightarrow> ('x world, unit) prog \<Rightarrow> ('x world, registration) prog" where
  "register_and_log P run_turn = andthen (on_db queue_depth) (\<lambda>_.
     andthen (register_body run_turn) (\<lambda>(res, n).
     andthen (on_db queue_depth) (\<lambda>_.
     andthen (alert_if P (rg_failed n \<noteq> 0) (if rg_raised n then ''register_spec_turn_failed'' else ''register_spec_wrote_nothing'')) (\<lambda>_.
     andthen (drain_now P) (\<lambda>_. case res of Inl e \<Rightarrow> raise e | Inr _ \<Rightarrow> ret n)))))"

definition register_guarded :: "('x, 'z) ports_scheme \<Rightarrow> ('x world, int) prog \<Rightarrow> ('x world, int) prog" where
  "register_guarded = job_guarded ''register_spec_failed''"

definition register_run_turn :: "('x, 'z) day_env_scheme \<Rightarrow> string \<Rightarrow> (string \<Rightarrow> ('x world, string list \<times> turn_result option) prog)
    \<Rightarrow> string \<Rightarrow> ('x world, unit) prog" where
  "register_run_turn E model session note = job_turn (E\<lparr>dy_trace := (\<lambda>_ _ _. None)\<rparr>) ''quant'' model (session note)"

text \<open>The lock of the trading day is asked for first and given back.\<close>

definition register_main :: "('x, 'z) day_env_scheme \<Rightarrow> environ \<Rightarrow> string option \<Rightarrow> ('x \<Rightarrow> bool \<times> 'x) \<Rightarrow> ('x \<Rightarrow> bool \<times> 'x)
    \<Rightarrow> (time \<Rightarrow> date) \<Rightarrow> (string \<Rightarrow> ('x world, string list \<times> turn_result option) prog) \<Rightarrow> ('x world, int) prog" where
  "register_main E environ content day_lock take_lock et_run_date session =
     andthen (lift_res (paper_guard environ)) (\<lambda>_.
     andthen (lift_res (require_env G1_REQUIRED_ENV environ)) (\<lambda>_.
     case read_brief content of None \<Rightarrow> ret 1
     | Some note \<Rightarrow>
         andthen (on_port (\<lambda>x. case day_lock x of (b, x') \<Rightarrow> (Inr b, x'))) (\<lambda>day_over.
         if \<not> day_over then ret 2
         else andthen (on_port (\<lambda>x. case take_lock x of (b, x') \<Rightarrow> (Inr b, x'))) (\<lambda>free.
         if \<not> free then ret 2
         else andthen (build_slack environ) (\<lambda>_.
           register_guarded E (andthen (lift_res (dy_seat_config E ''quant'')) (\<lambda>model. andthen (clock_now E) (\<lambda>now.
             andthen (register_and_log E (register_run_turn (E\<lparr>cx_run_date := et_run_date now\<rparr>) model session note)) (\<lambda>n.
             ret (if rg_registered n \<noteq> 0 then 0 else 1)))))))))) "

section \<open>The dispatcher, the weights and the line of the day\<close>

definition no_consumer :: "work \<Rightarrow> ('x world, unit) prog" where
  "no_consumer _ = raise (Other ''NoConsumer'')"

definition dispatcher_guarded :: "('x, 'z) ports_scheme \<Rightarrow> ('x world, int) prog \<Rightarrow> ('x world, int) prog" where
  "dispatcher_guarded = job_guarded ''dispatcher_failed''"

text \<open>With \<open>--cycles\<close>; without it the loop has no end, and no exit code.\<close>

definition dispatcher_main :: "('x, 'z) ports_scheme \<Rightarrow> environ \<Rightarrow> ('x \<Rightarrow> bool \<times> 'x) \<Rightarrow> ('x \<Rightarrow> unit res \<times> 'x) \<Rightarrow> nat
    \<Rightarrow> ('x world, int) prog" where
  "dispatcher_main P environ take_lock sleep cycles =
     job_start [''FUND_DB'', ''SLACK_BOT_TOKEN''] environ take_lock 0 (andthen (build_slack environ) (\<lambda>_.
       dispatcher_guarded P (andthen (run_dispatcher P no_consumer DEFAULT_LEASE_S sleep cycles) (\<lambda>_. ret 0))))"

text \<open>The builtin \<open>int(v)\<close>: a float is cut towards zero, a string read, a list refused.\<close>

fun truncated :: "pyval \<Rightarrow> int res" where
  "truncated (PInt n) = Inr n"
| "truncated (PBool b) = Inr (of_bool b)"
| "truncated (PFloat x) = (case x of Fin q \<Rightarrow> Inr (if 0 \<le> q then \<lfloor>q\<rfloor> else \<lceil>q\<rceil>) | NaN \<Rightarrow> Inl ValueError | _ \<Rightarrow> Inl OverflowError)"
| "truncated (PStr t) = int_of_str t"
| "truncated _ = Inl TypeError"

definition load_weights_config :: "pydict \<Rightarrow> weights_config res" where
  "load_weights_config data =
     res_bind (res_bind (dkey data ''window_days'') truncated) (\<lambda>w. res_bind (res_bind (dkey data ''horizon_days'') truncated) (\<lambda>h.
       let cfg = \<lparr>wc_window_days = w, wc_horizon_days = h\<rparr> in if weights_config_ok cfg then Inr cfg else Inl ValueError))"

text \<open>\<open>None\<close> is the report of a night that failed.\<close>

definition write_and_log :: "('x, 'z) ports_scheme \<Rightarrow> (db, weights_report) prog \<Rightarrow> ('x world, weights_report option) prog" where
  "write_and_log P scored = andthen (attempt (on_db scored)) (\<lambda>r. case r of
       Inl _ \<Rightarrow> andthen (catch (day_alert P ''weights_job_failed'' []) (\<lambda>_. ret ())) (\<lambda>_. ret None)
     | Inr rep \<Rightarrow> andthen (if wr_skipped rep \<noteq> [] then catch (day_alert P ''weights_seat_skipped'' []) (\<lambda>_. ret ()) else ret ())
         (\<lambda>_. ret (Some rep)))"

definition pnl_queued :: "date \<Rightarrow> db \<Rightarrow> bool" where
  "pnl_queued rd s \<longleftrightarrow> rowcount (\<lambda>e. e_kind e = ''pnl'' \<and> dget (e_payload e) ''run_date'' = PStr rd) (events s) \<noteq> 0"

text \<open>The payload: the line, and the figures of the day as fields.\<close>

definition pnl_payload :: "(pnl \<Rightarrow> string) \<Rightarrow> pnl \<Rightarrow> pydict" where
  "pnl_payload line p = [(''text'', PStr (line p)), (''run_date'', PStr (pn_run_date p)), (''equity'', PFloat (pn_equity p)),
     (''pnl_usd'', PFloat (pn_usd p)), (''pnl_pct'', PFloat (pn_pct p)), (''spy_pct'', PFloat (pn_spy_pct p)), (''alpha'', PFloat (pn_alpha p))]"

definition post_eod_pnl :: "('x, 'z) ports_scheme \<Rightarrow> 'x source \<Rightarrow> (pnl \<Rightarrow> string) \<Rightarrow> ('x world, nat) prog" where
  "post_eod_pnl P S line = andthen (clock_now P) (\<lambda>now.
     andthen (attempt (eod_pnl S)) (\<lambda>r. case r of
       Inl e \<Rightarrow> if e = PnlUnavailable then ret 0 else raise e
     | Inr p \<Rightarrow> andthen (on_db (gets (pnl_queued (pn_run_date p)))) (\<lambda>already.
         andthen (if already then ret () else on_db (modify (append_event ''pnl'' (pnl_payload line p) now))) (\<lambda>_.
         drain_outbox P now))))"

end
