(* ===== verification/NightlyProps.thy ===== *)
theory NightlyProps imports Nightly RunDayProps "HOL-Library.Sublist" begin

text \<open>
  What the jobs of the night promise, whatever the agents in them call.
\<close>

section \<open>Relations on which the outbox and the costs have no bearing\<close>

locale night_relation = evolution R for R :: "db \<Rightarrow> db \<Rightarrow> bool" +
  assumes append_event: "R s (append_event k p now s)" and mark: "R s (mark_posted i now s)"
    and spending: "R s (s\<lparr>costs := ks\<rparr>)"

sublocale night_relation \<subseteq> w: evolution "\<lambda>w w'. R (fst w) (fst w')"
  by unfold_locales (auto intro: R_refl R_trans)

context night_relation
begin

lemma on_db: "obeys m \<Longrightarrow> w.obeys (on_db m)"
  by (auto simp: obeys_def w.obeys_def on_db_def split: prod.splits) (metis snd_conv)

lemma on_port: "w.obeys (on_port m)"
  by (auto simp: w.obeys_def on_port_def R_refl split: prod.splits)

lemma drained: "w.obeys (drain_outbox P now)"
proof -
  have "R s (dead_letter row now s)" for row s
    using R_trans [OF mark append_event] mark by (simp add: dead_letter_def Let_def)
  then have "R (fst w) (fst (snd (drain_outbox P now w)))" for w
    by (intro drain_outbox_rel [of R, OF R_refl R_trans] mark)
  then show ?thesis by (rule w.obeysI)
qed

lemma clock: "w.obeys (clock_now P)"
  unfolding clock_now_def by (rule on_port)

lemma alerted: "w.obeys (day_alert P c p)"
  unfolding day_alert_def append_alert_def
  by (intro w.obeys_andthen clock on_db obeys_modify append_event)

lemma drain_now: "w.obeys (drain_now P)"
  unfolding drain_now_def by (intro w.obeys_andthen clock drained w.obeys_ret)

lemma attempted: "w.obeys m \<Longrightarrow> w.obeys (attempt m)"
  unfolding attempt_def by (intro w.obeys_catch w.obeys_andthen w.obeys_ret)

lemma spent: "obeys (record_turn_result sdk rd seat r now m)"
proof -
  have "obeys (record_cost rd seat u)" for u
    by (rule obeysI) (simp add: record_cost_def spending R_refl)
  moreover have "obeys (modify (append_event k p now))" "obeys (modify (alert c now))" for k p c
    unfolding append_alert_def by (intro obeys_modify append_event)+
  ultimately show ?thesis unfolding record_turn_result_def Let_def
    by (intro obeys_andthen obeys_whenever obeys_if obeys_ret obeys_lift)
qed

lemma turn:
  assumes session: "w.obeys m" and trace: "\<And>seat names result t. dy_trace E seat names result = Some t \<Longrightarrow> \<exists>f. t = on_port f"
  shows "w.obeys (job_turn E seat model m)"
proof -
  have t: "w.obeys (emit_trace_guarded (dy_trace E seat names result))" for names result
  proof (cases "dy_trace E seat names result")
    case (Some t)
    with trace [OF this] show ?thesis by (auto simp: emit_trace_guarded_def intro!: w.obeys_catch w.obeys_ret on_port)
  qed (simp add: emit_trace_guarded_def w.obeys_ret)
  have cost: "w.obeys (record_cost_guarded P sdk rd seat result model)" for P sdk rd result
    unfolding record_cost_guarded_def
    by (intro w.obeys_catch w.obeys_andthen w.obeys_ret clock on_db obeys_andthen obeys_ret spent)
  have check: "w.obeys (check_exec_turn P names)" for P names
    unfolding check_exec_turn_def
    by (intro w.obeys_catch w.obeys_andthen clock on_db obeys_gets w.obeys_lift alerted)
  show ?thesis unfolding job_turn_def make_turn_def
    by (intro w.obeys_andthen w.obeys_sum alerted w.obeys_prod cost w.obeys_if check w.obeys_ret)
      (simp_all add: attempted session t)
qed

text \<open>A session on a server, when each tool of its seat obeys.\<close>

lemma server: "w.obeys (server_conn S)" "w.obeys (server_now S)" "w.obeys (run_date_from_clock S)"
  unfolding server_conn_def server_now_def run_date_from_clock_def by (intro on_port w.obeys_andthen w.obeys_ret)+

lemma answered: "w.obeys m \<Longrightarrow> w.obeys (answered m f)"
  unfolding answered_def by (intro w.obeys_andthen w.obeys_ret)

lemma agent:
  assumes "\<And>c f a. (c, f) \<in> set (cap_tools S) \<Longrightarrow> can (fs_seat S) c \<Longrightarrow> w.obeys (f a)"
  shows "w.obeys (seat_turn n S client past)"
proof -
  have "w.obeys (call_tool S name a)" for name a
  proof (cases "build_fund_server S")
    case (Inr ts)
    have "w.obeys (f a)" if "map_of ts name = Some f" for f
      using assms map_of_SomeD [OF that] Inr by (auto simp: build_fund_server_def split: if_splits)
    then show ?thesis using Inr
      by (cases "map_of ts name") (auto simp: call_tool_def intro!: w.obeys_ret w.obeys_catch w.obeys_andthen)
  qed (simp add: call_tool_def w.obeys_raise)
  then show ?thesis
    by (induction n arbitrary: past) (auto intro!: w.obeys_ret w.obeys_andthen split: option.split prod.split)
qed

lemma spec_brief: "w.obeys (get_spec_brief_tool S)"
proof -
  have "obeys (specs_awaiting_critique k)" for k
    unfolding specs_awaiting_critique_def refuse_orphaned_specs_def by (intro obeys_intros)
  moreover have "w.obeys (brief_section name (journal_of jr seat) d missing)" for name jr seat d missing
    unfolding brief_section_def journal_of_def by (intro w.obeys_intros on_port)
  ultimately have "w.obeys (handle_get_spec_brief seat jr)" for seat jr
    unfolding handle_get_spec_brief_def no_def yes_def
    by (intro w.obeys_if w.obeys_andthen w.obeys_sum w.obeys_prod w.obeys_catch w.obeys_ret on_db)
  then show ?thesis unfolding get_spec_brief_tool_def by (intro w.obeys_andthen server answered)
qed

end

text \<open>Alerts are appended. What a job said is what follows the alerts it found.\<close>

definition said :: "db \<Rightarrow> db \<Rightarrow> string set" where
  "said s s' = {c. PStr c \<in> set (drop (length (alert_codes s)) (alert_codes s'))}"

lemma saidI:
  assumes "prefix (alert_codes s) (alert_codes s1)" "alert_codes s2 = alert_codes s1 @ cs" "PStr c \<in> set cs" "prefix (alert_codes s2) (alert_codes s')"
  shows "c \<in> said s s'"
  using assms by (auto simp: said_def prefix_def)

text \<open>The end of a night: alerts and a drain, and nothing else.\<close>

definition same_books :: "db \<Rightarrow> db \<Rightarrow> bool" where
  "same_books s s' \<longleftrightarrow> strategy_specs s' = strategy_specs s \<and> strategies s' = strategies s
     \<and> strategy_critiques s' = strategy_critiques s \<and> decisions s' = decisions s \<and> resolutions s' = resolutions s
     \<and> prefix (alert_codes s) (alert_codes s')"

lemma alert_codes_costs [simp]: "alert_codes (s\<lparr>costs := ks\<rparr>) = alert_codes s"
  by (simp add: alert_codes_def)

lemma books_event [simp]:
  "strategy_specs (append_event k p now s) = strategy_specs s" "strategies (append_event k p now s) = strategies s"
  "strategy_critiques (append_event k p now s) = strategy_critiques s" "decisions (append_event k p now s) = decisions s"
  "resolutions (append_event k p now s) = resolutions s"
  "strategy_specs (mark_posted i now s) = strategy_specs s" "strategies (mark_posted i now s) = strategies s"
  "strategy_critiques (mark_posted i now s) = strategy_critiques s" "decisions (mark_posted i now s) = decisions s"
  "resolutions (mark_posted i now s) = resolutions s"
  by (simp_all add: append_event_def mark_posted_def)

interpretation sb: night_relation same_books
  by unfold_locales (auto simp: same_books_def mark_posted_codes intro: prefix_order.trans)

lemma drain_now_run: "\<exists>s' x'. drain_now P (s, x) = (Inr (), (s', x')) \<and> same_books s s' \<and> alert_codes s' = alert_codes s"
proof -
  obtain t x1 where c: "clock_now P (s, x) = (Inr t, (s, x1))" using clock_now_run [of P s x] by blast
  obtain n s' x' where d: "drain_outbox P t (s, x1) = (Inr n, (s', x'))" using drain_outbox_Inr [of P t "(s, x1)"] by (metis prod.collapse)
  have "drain_now P (s, x) = (Inr (), (s', x'))" using c d by (simp add: drain_now_def andthen_def)
  moreover from this have "same_books s s'" using sb.w.obeysD [OF sb.drain_now [of P], of "(s, x)"] by simp
  moreover have "alert_codes s' = alert_codes s" using drain_outbox_codes [of P t "(s, x1)"] d by simp
  ultimately show ?thesis by blast
qed

lemma day_alert_books:
  "\<exists>s' x'. day_alert P c p (s, x) = (Inr (), (s', x')) \<and> same_books s s' \<and> alert_codes s' = alert_codes s @ [PStr c]"
proof -
  obtain now x' where a: "day_alert P c p (s, x) = (Inr (), (append_alert c p None False now s, x'))"
    using day_alert_run [of P c p s x] by blast
  then have "same_books s (append_alert c p None False now s)" using sb.w.obeysD [OF sb.alerted [of P c p], of "(s, x)"] by simp
  with a show ?thesis by (auto simp del: alert_codes_append_alert) simp
qed

lemma alert_if_run:
  "\<exists>s' x'. alert_if P b c (s, x) = (Inr (), (s', x')) \<and> same_books s s' \<and> alert_codes s' = alert_codes s @ (if b then [PStr c] else [])"
  using day_alert_books [of P c "[]" s x] by (auto simp: alert_if_def ret_def same_books_def)

section \<open>The critic's night\<close>

text \<open>What a turn shown one spec can do to the books: write one verdict for it, if it had none.\<close>

definition reviews :: "string \<Rightarrow> db \<Rightarrow> db \<Rightarrow> bool" where
  "reviews sid s s' \<longleftrightarrow> strategy_specs s' = strategy_specs s \<and> strategies s' = strategies s \<and> prefix (alert_codes s) (alert_codes s') \<and>
     (strategy_critiques s' = strategy_critiques s \<or>
      \<not> critiqued sid s \<and> (\<exists>c. sc_spec_id c = sid \<and> strategy_critiques s' = strategy_critiques s @ [c]))"

interpretation rv: night_relation "reviews sid" for sid
  by unfold_locales (auto simp: reviews_def critiqued_def mark_posted_codes intro: prefix_order.trans)

text \<open>A session of the critic: whatever calls of its tools, on a server bound to the spec, and what the SDK then reports.\<close>

definition critic_session :: "string \<Rightarrow> ('x world, 'a) prog \<Rightarrow> bool" where
  "critic_session sid m \<longleftrightarrow> (\<exists>n S client report. m = andthen (seat_turn n S client []) (\<lambda>_. on_port report)
     \<and> fs_seat S = ''critic'' \<and> fs_spec_id S = Some sid \<and> (\<forall>t. as_str (fs_pydantic S) (PStr t) = Some t))"

lemma critique_reviews:
  assumes law: "\<And>t. as_str V (PStr t) = Some t"
  shows "rv.obeys sid (handle_submit_spec_critique V seat a now ch mo (Some sid))"
proof (rule rv.obeysI)
  fix s
  obtain r s' where run: "handle_submit_spec_critique V seat a now ch mo (Some sid) s = (r, s')" by fastforce
  from run have "reviews sid s s'"
  proof (cases rule: handle_critique_cases)
    case (written m shown)
    then have "cm_spec_id m = sid" using critique_args_spec(1) [OF written(5)] law by simp
    moreover from this written(7) have "\<not> critiqued sid s"
      by (auto simp: critiqued_def verdict_on_def fetchone_None)
    ultimately show ?thesis using written(9) by (auto simp: reviews_def append_event_def critique_row_def alert_codes_def)
  qed (simp add: rv.R_refl)
  then show "reviews sid s (snd (handle_submit_spec_critique V seat a now ch mo (Some sid) s))" by (simp add: run)
qed

lemma critic_tools: "can ''critic'' c \<longleftrightarrow> c \<in> {''get_spec_brief'', ''submit_spec_critique''}"
  by (auto simp: can_def SEAT_CAPS_def)

lemma critic_session_reviews:
  assumes "critic_session sid m"
  shows "rv.w.obeys sid m"
proof -
  from assms obtain n and S :: "'a fund_server" and client report where m: "m = andthen (seat_turn n S client []) (\<lambda>_. on_port report)"
    and S: "fs_seat S = ''critic''" "fs_spec_id S = Some sid" and law: "\<And>t. as_str (fs_pydantic S) (PStr t) = Some t"
    unfolding critic_session_def by blast
  have "rv.w.obeys sid (submit_spec_critique_tool S a)" for a
    unfolding submit_spec_critique_tool_def S(2)
    by (intro rv.w.obeys_andthen rv.server rv.answered rv.on_db critique_reviews law)
  then have "rv.w.obeys sid (f a)" if "(c, f) \<in> set (cap_tools S)" "can (fs_seat S) c" for c f a
    using that rv.spec_brief by (auto simp: S cap_tools_def critic_tools)
  then show ?thesis unfolding m by (intro rv.w.obeys_andthen rv.agent rv.on_port) blast
qed

text \<open>The queue is a function of the books, and a verdict for its head takes its head away.\<close>

lemma queue_books: "same_books s s' \<Longrightarrow> pending_specs s' = pending_specs s \<and> orphans s' = orphans s"
  by (simp add: same_books_def pending_specs_def critiqued_def orphans_def)

lemma queue_advances:
  assumes u: "unique_on sp_spec_id (strategy_specs s)" and q: "pending_specs s = p # ps"
    and s': "strategy_specs s' = strategy_specs s" "strategies s' = strategies s"
      "strategy_critiques s' = strategy_critiques s @ [c]" "sc_spec_id c = sp_spec_id p"
  shows "pending_specs s' = ps"
proof -
  have "distinct (map sp_spec_id (pending_specs s))"
  proof -
    have "distinct (map sp_spec_id (filter P (strategy_specs s)))" for P
      using u by (simp add: unique_on_def distinct_map_filter)
    then show ?thesis
      by (simp add: pending_specs_def distinct_map inj_on_def)
  qed
  then have other: "sp_spec_id x \<noteq> sp_spec_id p" if "x \<in> set ps" for x using that q by (auto simp: image_iff)
  have "pending_specs s' = filter (\<lambda>x. sp_spec_id x \<noteq> sp_spec_id p) (pending_specs s)"
    unfolding pending_specs_def filter_sort by (auto simp: s' critiqued_def intro!: arg_cong [of _ _ "sort_key _"] filter_cong)
  also have "\<dots> = ps" using other unfolding q by (auto simp: filter_id_conv)
  finally show ?thesis .
qed

lemma queue_reading:
  "specs_awaiting_critique n s = (if orphans s = [] then Inr (take n (pending_specs s)) else Inl OrphanedSpecs, s)"
  by (simp add: specs_awaiting_critique_def refuse_orphaned_specs_def andthen_def raise_def ret_def gets_def)

lemma attempt_run: "attempt m w = (case m w of (r, w') \<Rightarrow> (Inr r, w'))"
  by (auto simp: attempt_def catch_def andthen_def ret_def split: prod.splits sum.splits)

lemma next_pending_run:
  "attempt (on_db next_pending_spec) (s, x) =
     (Inr (if orphans s \<noteq> [] then Inl OrphanedSpecs else Inr (case pending_specs s of [] \<Rightarrow> None | p # _ \<Rightarrow> Some (sp_spec_id p))), (s, x))"
  by (simp add: attempt_run on_db_def next_pending_spec_def andthen_def queue_reading ret_def split: list.split)

lemma pending_count_run:
  "attempt (on_db pending_count) (s, x) =
     (Inr (if orphans s \<noteq> [] then Inl OrphanedSpecs else Inr (min PENDING_REPORT_LIMIT (length (pending_specs s)))), (s, x))"
  by (simp add: attempt_run on_db_def pending_count_def andthen_def queue_reading ret_def min.commute)

lemma job_turn_returns: "returns (job_turn E seat model m)"
  unfolding job_turn_def by (rule seat_turn_returns)

text \<open>What a loop of so many turns leaves: the first verdicts of the queue, and why it ended.\<close>

definition reviewed :: "nat \<Rightarrow> db \<Rightarrow> db \<Rightarrow> bool" where
  "reviewed k s s' \<longleftrightarrow> strategy_specs s' = strategy_specs s \<and> strategies s' = strategies s \<and> orphans s' = orphans s \<and>
     map sc_spec_id (strategy_critiques s') = map sc_spec_id (strategy_critiques s) @ map sp_spec_id (take k (pending_specs s)) \<and>
     prefix (alert_codes s) (alert_codes s') \<and> pending_specs s' = drop k (pending_specs s) \<and> k \<le> length (pending_specs s)"

definition g1_ended :: "nat \<Rightarrow> nat \<Rightarrow> nat \<Rightarrow> g1_night \<Rightarrow> g1_night \<Rightarrow> bool" where
  "g1_ended left k len n n' \<longleftrightarrow> g1_critiqued n' = g1_critiqued n + k \<and>
     (g1_failed n' = g1_failed n \<and> g1_stalled n' = g1_stalled n \<and> k = min left len \<and> (g1_capped n' \<longleftrightarrow> g1_capped n \<or> left < len) \<or>
      g1_failed n' = Suc (g1_failed n) \<and> (\<exists>sid m. g1_stalled n' = Some (Wrote_nothing sid m)) \<and> k < min left len \<and> g1_capped n' = g1_capped n)"

lemma g1_turns_run:
  assumes turns: "\<And>sid. returns (run_turn sid)" "\<And>sid. rv.w.obeys sid (run_turn sid)"
  shows "unique_on sp_spec_id (strategy_specs s) \<Longrightarrow> orphans s = [] \<Longrightarrow>
    \<exists>k n' s' x'. g1_turns run_turn left n (s, x) = (Inr (Inr (), n'), (s', x')) \<and> reviewed k s s' \<and> k \<le> left
      \<and> g1_ended left k (length (pending_specs s)) n n'"
proof (induction left arbitrary: n s x)
  case 0
  then show ?case
    by (cases "pending_specs s")
      (auto simp: andthen_def next_pending_run pending_count_run ret_def reviewed_def g1_ended_def intro!: exI [of _ 0])
next
  case (Suc left)
  show ?case
  proof (cases "pending_specs s")
    case Nil
    then show ?thesis using Suc.prems
      by (auto simp: andthen_def next_pending_run ret_def reviewed_def g1_ended_def intro!: exI [of _ 0])
  next
    case (Cons p ps)
    let ?i = "sp_spec_id p"
    obtain s1 x1 where t: "run_turn ?i (s, x) = (Inr (), (s1, x1))" using returnsD [OF turns(1)] by (metis (full_types) old.unit.exhaust prod.collapse)
    from rv.w.obeysD [OF turns(2), of ?i "(s, x)"] have r: "reviews ?i s s1" by (simp add: t)
    have new: "\<not> critiqued ?i s" using pending_iff [of p s] Cons by simp
    have o: "orphans s1 = []" using Suc.prems(2) r by (simp add: orphans_def reviews_def)
    show ?thesis
    proof (cases "strategy_critiques s1 = strategy_critiques s")
      case True
      then have "pending_specs s1 = pending_specs s" "\<not> critiqued ?i s1" using r new by (simp_all add: reviews_def pending_specs_def critiqued_def)
      then show ?thesis using Suc.prems Cons t o r True
        by (auto simp: andthen_def next_pending_run pending_count_run attempt_run [of "run_turn _"] has_verdict_def on_db_def gets_def ret_def
            reviewed_def reviews_def g1_ended_def intro!: exI [of _ 0])
    next
      case False
      then obtain c where c: "sc_spec_id c = ?i" "strategy_critiques s1 = strategy_critiques s @ [c]" using r by (auto simp: reviews_def)
      then have v: "critiqued ?i s1" by (simp add: critiqued_def)
      have q: "pending_specs s1 = ps" using queue_advances [OF Suc.prems(1) Cons] r c by (simp add: reviews_def)
      have u: "unique_on sp_spec_id (strategy_specs s1)" using Suc.prems(1) r by (simp add: reviews_def)
      from Suc.IH [OF u o, of "n\<lparr>g1_critiqued := g1_critiqued n + 1\<rparr>" x1] obtain k n' s' x' where
        run: "g1_turns run_turn left (n\<lparr>g1_critiqued := g1_critiqued n + 1\<rparr>) (s1, x1) = (Inr (Inr (), n'), (s', x'))" and
        s': "reviewed k s1 s'" "k \<le> left" "g1_ended left k (length ps) (n\<lparr>g1_critiqued := g1_critiqued n + 1\<rparr>) n'" unfolding q by blast
      have "g1_turns run_turn (Suc left) n (s, x) = (Inr (Inr (), n'), (s', x'))"
        using Suc.prems Cons t v run by (simp add: andthen_def next_pending_run attempt_run [of "run_turn _"] has_verdict_def on_db_def gets_def ret_def)
      moreover have "reviewed (Suc k) s s'" using s'(1) r c o Suc.prems(2) q Cons by (auto simp: reviewed_def reviews_def intro: prefix_order.trans)
      moreover have "g1_ended (Suc left) (Suc k) (length (pending_specs s)) n n'" using s'(3) Cons by (auto simp: g1_ended_def)
      ultimately show ?thesis using s'(2) by (intro exI [of _ "Suc k"]) auto
    qed
  qed
qed

definition stall_code :: "stalled option \<Rightarrow> pyval list" where
  "stall_code st = (case st of None \<Rightarrow> [] | Some (Turn_raised _) \<Rightarrow> [PStr ''critic_g1_turn_failed'']
     | Some (Wrote_nothing _ _) \<Rightarrow> [PStr ''critic_g1_turn_wrote_nothing''])"

lemma g1_report_run:
  "\<exists>s' x'. g1_report P n (s, x) = (Inr (), (s', x')) \<and> same_books s s' \<and>
     alert_codes s' = alert_codes s @ stall_code (g1_stalled n) @ (if g1_capped n then [PStr ''critic_g1_backlog_capped''] else [])"
proof -
  let ?m = "case g1_stalled n of None \<Rightarrow> ret () | Some (Turn_raised _) \<Rightarrow> day_alert P ''critic_g1_turn_failed'' []
       | Some (Wrote_nothing _ _) \<Rightarrow> day_alert P ''critic_g1_turn_wrote_nothing'' []"
  have "\<exists>s1 x1. ?m (s, x) = (Inr (), (s1, x1)) \<and> same_books s s1 \<and> alert_codes s1 = alert_codes s @ stall_code (g1_stalled n)"
  proof (cases "g1_stalled n")
    case None
    then show ?thesis by (simp add: ret_def sb.R_refl stall_code_def)
  next
    case (Some st)
    then show ?thesis
      using day_alert_books [of P "''critic_g1_turn_failed''" "[]" s x] day_alert_books [of P "''critic_g1_turn_wrote_nothing''" "[]" s x]
      by (cases st) (simp_all add: stall_code_def)
  qed
  then obtain s1 x1 where a: "?m (s, x) = (Inr (), (s1, x1))" "same_books s s1" "alert_codes s1 = alert_codes s @ stall_code (g1_stalled n)"
    by blast
  obtain s2 x2 where b: "alert_if P (g1_capped n) ''critic_g1_backlog_capped'' (s1, x1) = (Inr (), (s2, x2))" "same_books s1 s2"
    "alert_codes s2 = alert_codes s1 @ (if g1_capped n then [PStr ''critic_g1_backlog_capped''] else [])"
    using alert_if_run [of P "g1_capped n" "''critic_g1_backlog_capped''" s1 x1] by blast
  obtain s' x' where d: "drain_now P (s2, x2) = (Inr (), (s', x'))" "same_books s2 s'" "alert_codes s' = alert_codes s2"
    using drain_now_run [of P s2 x2] by blast
  have "g1_report P n (s, x) = (Inr (), (s', x'))" unfolding g1_report_def using a(1) b(1) d(1) by (simp add: andthen_def)
  moreover have "same_books s s'" using sb.R_trans a(2) b(2) d(2) by blast
  ultimately show ?thesis using a(3) b(3) d(3) by simp
qed

text \<open>
  C13: the critic's night follows the queue. Whatever the critic calls in its turns, and whatever Slack, the clock and the SDK answer, one
  night adds verdicts for the oldest specs of the queue only, one each, in the order of the
  queue and at most three, and takes exactly these off it. It counts what it added. Either the night
  ends with the queue or with its turns, and then a queue that is left over raises an alert; or it ends at the
  first spec whose turn wrote no verdict, and that raises an alert. A book with an orphaned spec is refused, and no verdict written.
\<close>

theorem critic_night_follows_the_queue:
  assumes "db_wf s" and sessions: "\<And>sid. critic_session sid (session sid)"
    and traces: "\<And>seat names result t. dy_trace E seat names result = Some t \<Longrightarrow> \<exists>f. t = on_port f"
    and run: "critique_and_log E (g1_run_turn E model session) (s, x) = (r, (s', x'))"
  shows "if orphans s \<noteq> [] then r = Inl OrphanedSpecs \<and> strategy_critiques s' = strategy_critiques s
    else \<exists>n. r = Inr n \<and> reviewed (g1_critiqued n) s s' \<and>
      (g1_failed n = 0 \<and> g1_critiqued n = min MAX_G1_TURNS_PER_NIGHT (length (pending_specs s)) \<and>
         (pending_specs s' \<noteq> [] \<longrightarrow> ''critic_g1_backlog_capped'' \<in> said s s') \<or>
       g1_failed n = 1 \<and> g1_critiqued n < MAX_G1_TURNS_PER_NIGHT \<and> ''critic_g1_turn_wrote_nothing'' \<in> said s s')"
proof (cases "orphans s = []")
  case True
  have turns: "returns (g1_run_turn E model session sid)" "rv.w.obeys sid (g1_run_turn E model session sid)" for sid
    unfolding g1_run_turn_def using critic_session_reviews [OF sessions] traces
    by (auto simp: job_turn_returns intro!: rv.turn)
  from assms(1) have u: "unique_on sp_spec_id (strategy_specs s)" by (simp add: db_wf_def)
  obtain k n s1 x1 where g: "g1_turns (g1_run_turn E model session) MAX_G1_TURNS_PER_NIGHT g1_start (s, x) = (Inr (Inr (), n), (s1, x1))"
    and r1: "reviewed k s s1" and e: "g1_ended MAX_G1_TURNS_PER_NIGHT k (length (pending_specs s)) g1_start n"
    using g1_turns_run [OF turns u True] by blast
  obtain s2 x2 where rep: "g1_report E n (s1, x1) = (Inr (), (s2, x2))" "same_books s1 s2" and codes:
    "alert_codes s2 = alert_codes s1 @ stall_code (g1_stalled n) @ (if g1_capped n then [PStr ''critic_g1_backlog_capped''] else [])"
    using g1_report_run [of E n s1 x1] by blast
  have fin: "r = Inr n" "s' = s2" using run g rep(1) by (auto simp: critique_and_log_def andthen_def ret_def)
  have "reviewed k s s2" using r1 rep(2) queue_books [OF rep(2)] by (auto simp: reviewed_def same_books_def intro: prefix_order.trans)
  moreover have "k = g1_critiqued n" using e by (simp add: g1_ended_def g1_start_def)
  moreover have "''critic_g1_turn_wrote_nothing'' \<in> said s s2" if "g1_stalled n = Some (Wrote_nothing sid m)" for sid m
    using saidI [OF _ codes _ prefix_order.refl] r1 that by (simp add: reviewed_def stall_code_def)
  moreover have "''critic_g1_backlog_capped'' \<in> said s s2" if "g1_capped n"
    using saidI [OF _ codes _ prefix_order.refl] r1 that by (simp add: reviewed_def)
  ultimately show ?thesis using True e unfolding fin by (auto simp: g1_ended_def g1_start_def reviewed_def)
next
  case False
  obtain s2 x2 where "g1_report E g1_start (s, x) = (Inr (), (s2, x2))" "same_books s s2"
    using g1_report_run [of E g1_start s x] by blast
  moreover have "g1_turns (g1_run_turn E model session) MAX_G1_TURNS_PER_NIGHT g1_start (s, x) = (Inr (Inl OrphanedSpecs, g1_start), (s, x))"
    using False by (simp add: MAX_G1_TURNS_PER_NIGHT_def numeral_3_eq_3 andthen_def next_pending_run ret_def)
  ultimately show ?thesis using run False by (auto simp: critique_and_log_def andthen_def raise_def same_books_def)
qed

text \<open>A night with one spec to judge.\<close>

definition one_pending :: db where
  "one_pending = registered_db\<lparr>strategies := [lifecycle_row ''spec_1'' 0]\<rparr>"

definition clearing_session :: "string \<Rightarrow> ((unit conn_state) world, string list \<times> turn_result option) prog" where
  "clearing_session sid = andthen (seat_turn 1 ((golden_server ''critic'')\<lparr>fs_spec_id := Some sid\<rparr>)
     (\<lambda>_. Some (''submit_spec_critique'', [(''spec_id'', PStr sid), (''verdict'', PStr ''clear'')])) []) (\<lambda>_. on_port (\<lambda>x. (Inr ([], None), x)))"

lemma clearing_session_critic: "critic_session sid (clearing_session sid)"
proof -
  have "as_str (fs_pydantic ((golden_server ''critic'')\<lparr>fs_spec_id := Some sid\<rparr>)) (PStr t) = Some t" for t
    by (simp add: golden_server_def golden_pydantic_def)
  then show ?thesis unfolding critic_session_def clearing_session_def
    by (intro exI conjI) (rule refl, simp_all add: golden_server_def)
qed

theorem critic_night_follows_the_queue_witness:
  "\<exists>n s' x'. critique_and_log quiet_env (g1_run_turn quiet_env ''m'' clearing_session) (one_pending, ((), False)) = (Inr n, (s', x'))
     \<and> g1_critiqued n = 1 \<and> pending_specs s' = []"
proof -
  let ?run = "critique_and_log quiet_env (g1_run_turn quiet_env ''m'' clearing_session) (one_pending, ((), False))"
  have ok: "map_sum (\<lambda>_. ()) g1_failed (fst ?run) = Inr 0" by code_simp
  obtain r s' x' where run: "?run = (r, (s', x'))" by (metis prod_cases3)
  have wf: "db_wf one_pending" and o: "orphans one_pending = []" and q: "map sp_spec_id (pending_specs one_pending) = [''spec_1'']"
    by (simp_all add: one_pending_def registered_db_def empty_db_def db_wf_def unique_on_def orphans_def lifecycle_row_def pending_specs_def critiqued_def)
  have l: "length (pending_specs one_pending) = 1" using arg_cong [OF q, of length] by simp
  from critic_night_follows_the_queue [OF wf clearing_session_critic _ run] o obtain n where
    n: "r = Inr n" "reviewed (g1_critiqued n) one_pending s'"
      "g1_failed n = 0 \<and> g1_critiqued n = min MAX_G1_TURNS_PER_NIGHT (length (pending_specs one_pending)) \<or> g1_failed n = 1" by (auto simp: quiet_env_def)
  have "g1_critiqued n = 1" using ok run n(1,3) l by (simp add: MAX_G1_TURNS_PER_NIGHT_def)
  moreover have "pending_specs s' = []" using calculation n(2) l by (simp add: reviewed_def)
  ultimately show ?thesis using run n(1) by blast
qed

end
