(* ===== verification/ReflectNight.thy ===== *)
theory ReflectNight imports NightlyProps begin

text \<open>
  The night's reflections: what is due is turned over once, and what stays unwritten is said.
\<close>

section \<open>Rows that are filled in\<close>

text \<open>
  No alert is lost. No row of the resolutions comes, goes or moves; a row of one of the given decisions that has no
  reflection may get one, and nothing else of it changes.
\<close>

definition fills :: "int set \<Rightarrow> db \<Rightarrow> db \<Rightarrow> bool" where
  "fills I s s' \<longleftrightarrow> decisions s' = decisions s \<and> prefix (alert_codes s) (alert_codes s') \<and>
     list_all2 (\<lambda>r r'. r' = r \<or> r_decision_id r \<in> I \<and> r_reflection r = None \<and> (\<exists>t. r' = r\<lparr>r_reflection := Some t\<rparr>))
       (resolutions s) (resolutions s')"

lemma fills_trans:
  assumes "fills I s s'" "fills I s' s''"
  shows "fills I s s''"
proof -
  let ?P = "\<lambda>r r'. r' = r \<or> r_decision_id r \<in> I \<and> r_reflection r = None \<and> (\<exists>t. r' = r\<lparr>r_reflection := Some t\<rparr>)"
  have "list_all2 ?P (resolutions s) (resolutions s'')"
    by (rule list_all2_trans [of ?P ?P ?P]) (use assms in \<open>auto simp: fills_def\<close>)
  then show ?thesis using assms by (auto simp: fills_def intro: prefix_order.trans)
qed

interpretation fl: night_relation "fills I" for I
proof
  show "fills I s s''" if "fills I s s'" "fills I s' s''" for s s' s'' using fills_trans that .
qed (auto simp: fills_def list_all2_refl mark_posted_codes)

lemma fills_mono: "fills I s s' \<Longrightarrow> I \<subseteq> J \<Longrightarrow> fills J s s'"
  unfolding fills_def by (auto elim!: list_all2_mono)

lemma fills_keys: "fills I s s' \<Longrightarrow> map r_decision_id (resolutions s') = map r_decision_id (resolutions s)"
proof -
  assume "fills I s s'"
  then have "list_all2 (\<lambda>r r'. r_decision_id r' = r_decision_id r) (resolutions s) (resolutions s')"
    unfolding fills_def by (auto elim!: list_all2_mono)
  then show ?thesis by (induction rule: list_all2_induct) simp_all
qed

lemma fills_resolved: "fills I s s' \<Longrightarrow> resolved_call i s' = None \<longleftrightarrow> resolved_call i s = None"
proof -
  assume f: "fills I s s'"
  have "fetchone (\<lambda>r. r_decision_id r = i) (resolutions t) = None \<longleftrightarrow> i \<notin> set (map r_decision_id (resolutions t))" for t
    by (auto simp: fetchone_None)
  then have "fetchone (\<lambda>r. r_decision_id r = i) (resolutions s') = None \<longleftrightarrow> fetchone (\<lambda>r. r_decision_id r = i) (resolutions s) = None"
    using fills_keys [OF f] by metis
  then show ?thesis using f by (auto simp: resolved_call_def fills_def split: option.split)
qed

definition unwritten :: "db \<Rightarrow> int \<Rightarrow> bool" where
  "unwritten s i \<longleftrightarrow> (\<exists>r\<in>set (resolutions s). r_decision_id r = i \<and> r_reflection r = None)"

lemma fills_unwritten:
  assumes "fills I s s'" "i \<notin> I"
  shows "unwritten s' i = unwritten s i"
proof -
  have "list_all2 (\<lambda>r r'. (r_decision_id r' = i \<and> r_reflection r' = None) = (r_decision_id r = i \<and> r_reflection r = None)) (resolutions s) (resolutions s')"
    using assms unfolding fills_def by (auto elim!: list_all2_mono)
  then have "(\<exists>r\<in>set (resolutions s'). r_decision_id r = i \<and> r_reflection r = None) = (\<exists>r\<in>set (resolutions s). r_decision_id r = i \<and> r_reflection r = None)"
    by (induction rule: list_all2_induct) simp_all
  then show ?thesis by (simp add: unwritten_def)
qed

section \<open>A turn writes at most its own row\<close>

lemma update_fills: "fills {i} s (s\<lparr>resolutions := update_where (unreflected i) (\<lambda>r. r\<lparr>r_reflection := Some t\<rparr>) (resolutions s)\<rparr>)"
proof -
  have "list_all2 (\<lambda>r r'. r' = r \<or> r_decision_id r \<in> {i} \<and> r_reflection r = None \<and> (\<exists>t. r' = r\<lparr>r_reflection := Some t\<rparr>))
      rs (update_where (unreflected i) (\<lambda>r. r\<lparr>r_reflection := Some t\<rparr>) rs)" for rs
    by (induction rs) (auto simp: unreflected_def update_where_def)
  then show ?thesis by (simp add: fills_def alert_codes_def)
qed

lemma reflection_fills: "fl.obeys {i} (handle_submit_reflection f seat a (Some i))"
proof -
  have "fl.obeys {i} (store_reflection i fr pr)" for fr pr
    by (rule fl.obeysI) (simp add: store_reflection_def update_fills)
  then show ?thesis unfolding handle_submit_reflection_def no_def yes_def
    by (auto intro!: fl.obeys_if fl.obeys_ret fl.obeys_andthen fl.obeys_gets split: pyval.split option.split)
qed

definition reflect_session :: "int \<Rightarrow> ('x world, 'a) prog \<Rightarrow> bool" where
  "reflect_session i m \<longleftrightarrow> (\<exists>n S client report. m = andthen (seat_turn n S client []) (\<lambda>_. on_port report)
     \<and> fs_seat S = ''reflect'' \<and> fs_decision_id S = Some i)"

lemma reflect_tools: "can ''reflect'' c \<longleftrightarrow> c = ''submit_reflection''"
  by (auto simp: can_def SEAT_CAPS_def)

lemma reflect_session_fills:
  assumes "reflect_session i m"
  shows "fl.w.obeys {i} m"
proof -
  from assms obtain n and S :: "'a fund_server" and client report where m: "m = andthen (seat_turn n S client []) (\<lambda>_. on_port report)"
    and S: "fs_seat S = ''reflect''" "fs_decision_id S = Some i" unfolding reflect_session_def by blast
  have "fl.w.obeys {i} (submit_reflection_tool S a)" for a
    unfolding submit_reflection_tool_def S(2)
    by (intro fl.w.obeys_andthen fl.server fl.answered fl.on_db reflection_fills)
  then have "fl.w.obeys {i} (f a)" if "(c, f) \<in> set (cap_tools S)" "can (fs_seat S) c" for c f a
    using that by (auto simp: S cap_tools_def reflect_tools)
  then show ?thesis unfolding m by (intro fl.w.obeys_andthen fl.agent fl.on_port) blast
qed

section \<open>What is due\<close>

lemma joined_once:
  "distinct (map g rs) \<Longrightarrow> concat (map (\<lambda>r. if g r = k \<and> Q r then [d] else []) rs) = (if \<exists>r\<in>set rs. g r = k \<and> Q r then [d] else [])"
proof (induction rs)
  case (Cons r rs)
  then show ?case by (cases "g r = k") (auto simp: image_iff)
qed simp

lemma concat_if: "concat (map (\<lambda>d. if P d then [d] else []) xs) = filter P xs"
  by (induction xs) simp_all

lemma owed_filter:
  assumes "unique_on r_decision_id (resolutions s)"
  shows "owed P s = sort_key d_id (filter (\<lambda>d. \<exists>r\<in>set (resolutions s). r_decision_id r = d_id d \<and> r_reflection r = None
     \<and> P (r_resolved_at r) \<and> d_charter d \<noteq> ''none'') (decisions s))"
proof -
  have "distinct (map r_decision_id (resolutions s))" using assms by (simp add: unique_on_def)
  from joined_once [OF this] have inner: "concat (map (\<lambda>r. if r_decision_id r = d_id d \<and> r_reflection r = None \<and> P (r_resolved_at r)
        \<and> d_charter d \<noteq> ''none'' then [d] else []) (resolutions s)) =
      (if \<exists>r\<in>set (resolutions s). r_decision_id r = d_id d \<and> r_reflection r = None \<and> P (r_resolved_at r) \<and> d_charter d \<noteq> ''none''
       then [d] else [])" for d .
  show ?thesis by (simp only: owed_def inner concat_if)
qed

lemma owed_facts:
  assumes "unique_on r_decision_id (resolutions s)" "unique_on d_id (decisions s)"
  shows "distinct (map d_id (owed P s))" "d \<in> set (owed P s) \<Longrightarrow> resolved_call (d_id d) s \<noteq> None \<and> unwritten s (d_id d)"
proof -
  show "distinct (map d_id (owed P s))"
    unfolding owed_filter [OF assms(1)] using assms(2) by (simp add: unique_on_def distinct_map inj_on_def)
  assume "d \<in> set (owed P s)"
  then obtain r where r: "d \<in> set (decisions s)" "r \<in> set (resolutions s)" "r_decision_id r = d_id d" "r_reflection r = None"
    unfolding owed_filter [OF assms(1)] by auto
  then have "fetchone (\<lambda>q. r_decision_id q = d_id d) (resolutions s) \<noteq> None" "fetchone (\<lambda>q. d_id q = d_id d) (decisions s) \<noteq> None"
    by (auto simp: fetchone_None)
  with r show "resolved_call (d_id d) s \<noteq> None \<and> unwritten s (d_id d)"
    by (auto simp: resolved_call_def unwritten_def split: option.split)
qed

section \<open>The loop\<close>

lemma row_of_turn:
  assumes "unique_on r_decision_id (resolutions s)" "resolved_call i s \<noteq> None"
  obtains r where "fetchone (\<lambda>r. r_decision_id r = i) (resolutions s) = Some r" "r_reflection r = None \<longleftrightarrow> unwritten s i"
proof -
  obtain r where r: "fetchone (\<lambda>r. r_decision_id r = i) (resolutions s) = Some r"
    using assms(2) by (auto simp: resolved_call_def split: option.splits)
  have mem: "r \<in> set (resolutions s)" "r_decision_id r = i" using fetchone_SomeD [OF r] by auto
  have "q = r" if "q \<in> set (resolutions s)" "r_decision_id q = i" for q
    using unique_onD [OF assms(1) that(1) mem(1)] that(2) mem(2) by simp
  then have "r_reflection r = None \<longleftrightarrow> unwritten s i" using mem unfolding unwritten_def by blast
  with r show thesis by (rule that)
qed

lemma reflect_jobs_run:
  assumes turns: "\<And>d tx. returns (run_turn d tx)" "\<And>d tx. fl.w.obeys {d_id d} (run_turn d tx)"
  shows "unique_on r_decision_id (resolutions s) \<Longrightarrow> \<forall>d\<in>set ds. resolved_call (d_id d) s \<noteq> None \<Longrightarrow> distinct (map d_id ds) \<Longrightarrow>
    \<exists>s' x'. fold_each (reflect_one P f run_turn) ds n (s, x) =
      (Inr (n\<lparr>rf_reflected := rf_reflected n + length (filter (\<lambda>i. \<not> unwritten s' i) (map d_id ds)),
              rf_failed := rf_failed n + length (filter (unwritten s') (map d_id ds)),
              rf_wrote_nothing := rf_wrote_nothing n @ filter (unwritten s') (map d_id ds)\<rparr>), (s', x')) \<and> fills (d_id ` set ds) s s'"
proof (induction ds arbitrary: n s x)
  case Nil
  then show ?case by (simp add: fl.R_refl)
next
  case (Cons d ds)
  let ?i = "d_id d"
  obtain dr where "resolved_call ?i s = Some dr" using Cons.prems(2) by auto
  then obtain tx where fr: "reflection_frame f ?i s = Some tx" by (auto simp: reflection_frame_def)
  obtain s1 x1 where t: "run_turn d tx (s, x) = (Inr (), (s1, x1))" using returnsD [OF turns(1)] by (metis (full_types) old.unit.exhaust prod.collapse)
  from fl.w.obeysD [OF turns(2) [of d tx], of "(s, x)"] have f1: "fills {?i} s s1" by (simp add: t)
  have u1: "unique_on r_decision_id (resolutions s1)" using Cons.prems(1) fills_keys [OF f1] by (simp add: unique_on_def)
  have res1: "\<forall>e\<in>set (d # ds). resolved_call (d_id e) s1 \<noteq> None" using Cons.prems(2) fills_resolved [OF f1] by simp
  obtain r where r: "fetchone (\<lambda>r. r_decision_id r = ?i) (resolutions s1) = Some r" "r_reflection r = None \<longleftrightarrow> unwritten s1 ?i"
    using row_of_turn [OF u1, of ?i] res1 by auto
  define n1 where "n1 = (if unwritten s1 ?i then n\<lparr>rf_failed := rf_failed n + 1, rf_wrote_nothing := rf_wrote_nothing n @ [?i]\<rparr>
     else n\<lparr>rf_reflected := rf_reflected n + 1\<rparr>)"
  have one: "reflect_one P f run_turn d n (s, x) = (Inr n1, (s1, x1))"
    using fr t r by (auto simp: reflect_one_def Let_def andthen_def on_db_def gets_def ret_def attempt_run n1_def)
  obtain s' x' where ih: "fold_each (reflect_one P f run_turn) ds n1 (s1, x1) =
      (Inr (n1\<lparr>rf_reflected := rf_reflected n1 + length (filter (\<lambda>i. \<not> unwritten s' i) (map d_id ds)),
              rf_failed := rf_failed n1 + length (filter (unwritten s') (map d_id ds)),
              rf_wrote_nothing := rf_wrote_nothing n1 @ filter (unwritten s') (map d_id ds)\<rparr>), (s', x'))" and f2: "fills (d_id ` set ds) s1 s'"
    using Cons.IH [OF u1, of n1 x1] res1 Cons.prems(3) by auto
  have "unwritten s' ?i = unwritten s1 ?i" using fills_unwritten [OF f2] Cons.prems(3) by auto
  moreover have "fills (d_id ` set (d # ds)) s s'"
    using fills_trans [OF fills_mono [OF f1] fills_mono [OF f2]] by auto
  ultimately show ?case using one ih by (intro exI [of _ s'] exI [of _ x']) (simp add: andthen_def n1_def)
qed

lemma due_books: "same_books s s' \<Longrightarrow> due_all win s' = due_all win s \<and> aged_out_reflections win s' = aged_out_reflections win s"
  by (simp add: same_books_def due_all_def aged_out_reflections_def owed_def)

lemma books_fill: "same_books s s' \<Longrightarrow> fills I s s'"
  by (simp add: same_books_def fills_def list_all2_refl)

lemma books_unwritten: "same_books s s' \<Longrightarrow> unwritten s' = unwritten s"
  by (simp add: same_books_def unwritten_def fun_eq_iff)

text \<open>
  C14: a decision is reflected on once, or said to be missing. Whatever the seat calls in its turns, a night
  whose calendar answers returns its counts. It gives a turn to the oldest due decisions only, to at most twenty-five and once each; it writes no reflection but theirs, rewrites none,
  and changes no other field of a resolution. Its counts add up to the turns it took: the decisions that
  have their reflection when the night ends, and the others, which it names in one alert. A
  backlog beyond the cap raises an alert, and so does a decision that fell out of the window and will never be reflected on.
\<close>

theorem decisions_are_reflected_once:
  assumes u: "unique_on r_decision_id (resolutions s)" "unique_on d_id (decisions s)"
    and sessions: "\<And>i tx. reflect_session i (session i tx)"
    and run: "reflect_and_log E K f (reflect_run_turn E model session) (s, x) = (r, (s', x'))"
  shows "case reflect_window K (ca_run_date K (fst (now_port E x))) of Inl e \<Rightarrow> r = Inl e
    | Inr win \<Rightarrow> let taken = map d_id (due_reflections win s) in
      \<exists>n. r = Inr n \<and> distinct taken \<and> length taken \<le> MAX_TURNS_PER_NIGHT \<and> fills (set taken) s s' \<and>
      rf_wrote_nothing n = filter (unwritten s') taken \<and> rf_reflected n = length (filter (\<lambda>i. \<not> unwritten s' i) taken) \<and>
      rf_failed n = length (rf_wrote_nothing n) \<and>
      (rf_wrote_nothing n \<noteq> [] \<longrightarrow> ''reflect_turn_wrote_nothing'' \<in> said s s') \<and>
      (length taken < due_count win s \<longrightarrow> ''reflect_backlog_capped'' \<in> said s s') \<and>
      (aged_out_reflections win s \<noteq> [] \<longrightarrow> ''reflect_aged_out'' \<in> said s s')"
proof (cases "reflect_window K (ca_run_date K (fst (now_port E x)))")
  case (Inl e)
  obtain x0 where c: "clock_now E (s, x) = (Inr (fst (now_port E x)), (s, x0))" by (simp add: clock_now_def on_port_def split_beta)
  obtain s1 x1 where "drain_now E (s, x0) = (Inr (), (s1, x1))" using drain_now_run [of E s x0] by blast
  then show ?thesis using run c Inl by (simp add: reflect_and_log_def andthen_def raise_def)
next
  case win: (Inr win)
  define t where "t = fst (now_port E x)"
  obtain x0 where c: "clock_now E (s, x) = (Inr t, (s, x0))" by (simp add: t_def clock_now_def on_port_def split_beta)
  note win = win [folded t_def]
  let ?lost = "aged_out_reflections win s" and ?due = "due_reflections win s" and ?n0 = "\<lparr>rf_reflected = 0, rf_failed = 0, rf_wrote_nothing = []\<rparr>"
  obtain s1 x1 where a1: "alert_if E (?lost \<noteq> []) ''reflect_aged_out'' (s, x0) = (Inr (), (s1, x1))" "same_books s s1"
    "alert_codes s1 = alert_codes s @ (if ?lost \<noteq> [] then [PStr ''reflect_aged_out''] else [])"
    using alert_if_run [of E "?lost \<noteq> []" "''reflect_aged_out''" s x0] by blast
  have due1: "due_reflections win s1 = ?due" "due_count win s1 = due_count win s"
    using due_books [OF a1(2)] by (simp_all add: due_reflections_def due_count_def)
  obtain s2 x2 where a2: "alert_if E (length ?due < due_count win s) ''reflect_backlog_capped'' (s1, x1) = (Inr (), (s2, x2))" "same_books s1 s2"
    "alert_codes s2 = alert_codes s1 @ (if length ?due < due_count win s then [PStr ''reflect_backlog_capped''] else [])"
    using alert_if_run [of E "length ?due < due_count win s" "''reflect_backlog_capped''" s1 x1] by blast
  have b2: "same_books s s2" using sb.R_trans a1(2) a2(2) by blast
  have facts: "distinct (map d_id ?due)" "\<forall>d\<in>set ?due. resolved_call (d_id d) s2 \<noteq> None"
  proof -
    show "distinct (map d_id ?due)" using owed_facts(1) [OF u] by (simp add: due_reflections_def due_all_def take_map [symmetric])
    show "\<forall>d\<in>set ?due. resolved_call (d_id d) s2 \<noteq> None"
      using owed_facts(2) [OF u] fills_resolved [OF books_fill [OF b2]] unfolding due_reflections_def due_all_def
      by (metis in_set_takeD)
  qed
  have turns: "returns (reflect_run_turn E model session d tx)" "fl.w.obeys {d_id d} (reflect_run_turn E model session d tx)" for d tx
    unfolding reflect_run_turn_def using reflect_session_fills [OF sessions] by (auto simp: job_turn_returns intro!: fl.turn)
  have u2: "unique_on r_decision_id (resolutions s2)" using u(1) b2 by (simp add: same_books_def)
  obtain s3 x3 where jobs: "fold_each (reflect_one E f (reflect_run_turn E model session)) ?due ?n0 (s2, x2) =
      (Inr (?n0\<lparr>rf_reflected := rf_reflected ?n0 + length (filter (\<lambda>i. \<not> unwritten s3 i) (map d_id ?due)),
              rf_failed := rf_failed ?n0 + length (filter (unwritten s3) (map d_id ?due)),
              rf_wrote_nothing := rf_wrote_nothing ?n0 @ filter (unwritten s3) (map d_id ?due)\<rparr>), (s3, x3))" and f3: "fills (d_id ` set ?due) s2 s3"
    using reflect_jobs_run [where run_turn = "reflect_run_turn E model session" and P = E and f = f and n = ?n0 and x = x2, OF turns u2 facts(2,1)]
    by blast
  let ?n = "?n0\<lparr>rf_reflected := rf_reflected ?n0 + length (filter (\<lambda>i. \<not> unwritten s3 i) (map d_id ?due)),
              rf_failed := rf_failed ?n0 + length (filter (unwritten s3) (map d_id ?due)),
              rf_wrote_nothing := rf_wrote_nothing ?n0 @ filter (unwritten s3) (map d_id ?due)\<rparr>"
  obtain s4 x4 where a4: "alert_if E (rf_wrote_nothing ?n \<noteq> []) ''reflect_turn_wrote_nothing'' (s3, x3) = (Inr (), (s4, x4))" "same_books s3 s4"
    "alert_codes s4 = alert_codes s3 @ (if rf_wrote_nothing ?n \<noteq> [] then [PStr ''reflect_turn_wrote_nothing''] else [])"
    using alert_if_run [of E "rf_wrote_nothing ?n \<noteq> []" "''reflect_turn_wrote_nothing''" s3 x3] by blast
  obtain s5 x5 where d5: "drain_now E (s4, x4) = (Inr (), (s5, x5))" "same_books s4 s5" "alert_codes s5 = alert_codes s4"
    using drain_now_run [of E s4 x4] by blast
  have fin: "r = Inr ?n" "s' = s5"
    using run c win a1(1) a2(1) due1 jobs a4(1) d5(1) by (simp_all add: reflect_and_log_def andthen_def on_db_def gets_def ret_def)
  have b5: "same_books s3 s5" using sb.R_trans a4(2) d5(2) by blast
  have "fills (set (map d_id ?due)) s s5"
    using fills_trans [OF books_fill [OF b2] fills_trans [OF f3 books_fill [OF b5]]] by simp
  moreover have "unwritten s5 = unwritten s3" using books_unwritten [OF b5] .
  moreover have "prefix (alert_codes s2) (alert_codes s5)" "prefix (alert_codes s1) (alert_codes s2)"
      "prefix (alert_codes s) (alert_codes s1)" "prefix (alert_codes s) (alert_codes s3)"
    using a1(2) a2(2) b2 f3 b5 by (auto simp: same_books_def fills_def intro: prefix_order.trans)
  note p = this prefix_order.trans [OF this(2,1)]
  moreover have "''reflect_aged_out'' \<in> said s s'" if "?lost \<noteq> []"
    unfolding fin by (rule saidI [OF _ a1(3) _ p(5)]) (use that in simp_all)
  moreover have "''reflect_backlog_capped'' \<in> said s s'" if "length ?due < due_count win s"
    unfolding fin by (rule saidI [OF p(3) a2(3) _ p(1)]) (use that in simp_all)
  moreover have "''reflect_turn_wrote_nothing'' \<in> said s s'" if "rf_wrote_nothing ?n \<noteq> []"
    unfolding fin by (rule saidI [OF p(4) a4(3)]) (use that d5(3) in simp_all)
  moreover have "length ?due \<le> MAX_TURNS_PER_NIGHT" by (simp add: due_reflections_def)
  ultimately show ?thesis
    using win [unfolded t_def] facts(1) unfolding fin by (auto simp: Let_def)
qed

text \<open>A night with one decision to reflect on.\<close>

lemma concrete_run:
  assumes "map_sum (\<lambda>_. ()) f (fst r) = Inr k"
  shows "\<exists>y s x. r = (Inr y, (s, x)) \<and> f y = k"
  using assms by (cases r rule: prod_cases3; cases "fst r") auto

definition fixed_calendar :: calendar where
  "fixed_calendar = \<lparr>ca_window = (\<lambda>_. Inr (0, 100)), ca_before = (\<lambda>d _. Inr d), ca_run_date = (\<lambda>_. ''2026-08-24'')\<rparr>"

definition prose_session :: "int \<Rightarrow> string \<Rightarrow> ((unit conn_state) world, string list \<times> turn_result option) prog" where
  "prose_session i text = andthen (seat_turn 1 ((golden_server ''reflect'')\<lparr>fs_decision_id := Some i\<rparr>)
     (\<lambda>_. Some (''submit_reflection'', [(''prose'', PStr ''wait'')])) []) (\<lambda>_. on_port (\<lambda>x. (Inr ([], None), x)))"

lemma prose_session_reflect: "reflect_session i (prose_session i tx)"
  unfolding reflect_session_def prose_session_def by (intro exI conjI) (rule refl, simp_all add: golden_server_def)

theorem decisions_are_reflected_once_witness:
  "\<exists>n s' x'. reflect_and_log quiet_env fixed_calendar (\<lambda>_. []) (reflect_run_turn quiet_env ''m'' prose_session)
       (critiqued_db, ((), False)) = (Inr n, (s', x')) \<and> \<not> unwritten s' 1 \<and> fills {1} critiqued_db s'"
proof -
  let ?run = "reflect_and_log quiet_env fixed_calendar (\<lambda>_. []) (reflect_run_turn quiet_env ''m'' prose_session) (critiqued_db, ((), False))"
  have ok: "map_sum (\<lambda>_. ()) rf_failed (fst ?run) = Inr 0" by code_simp
  from concrete_run [OF ok] obtain n s' x' where run: "?run = (Inr n, (s', x'))" by blast
  have u: "unique_on r_decision_id (resolutions critiqued_db)" "unique_on d_id (decisions critiqued_db)"
    by (simp_all add: critiqued_db_def empty_db_def unique_on_def)
  have due: "map d_id (due_reflections (0, 100) critiqued_db) = [1]"
    by (simp add: due_reflections_def due_all_def owed_def critiqued_db_def empty_db_def MAX_TURNS_PER_NIGHT_def)
  have "reflect_window fixed_calendar d = Inr (0, 100)" for d by (simp add: reflect_window_def fixed_calendar_def)
  with decisions_are_reflected_once [OF u prose_session_reflect run] due ok run
  have f: "fills {1} critiqued_db s'" and "filter (unwritten s') [1] = []" by (auto simp: Let_def)
  then have "\<not> unwritten s' 1" by (simp split: if_splits)
  with run f show ?thesis by blast
qed

end
