(* ===== verification/RegisterNight.thy ===== *)
theory RegisterNight imports ReflectNight begin

text \<open>
  What the exit code of a registration says, that the line of the day is queued once, and that no
  job of the night bends the database.
\<close>

section \<open>A registration\<close>

text \<open>Every lifecycle row and every verdict has its spec.\<close>

definition rooted :: "db \<Rightarrow> bool" where
  "rooted s \<longleftrightarrow> st_strategy_id ` set (strategies s) \<subseteq> sp_spec_id ` set (strategy_specs s)"

definition at_spec :: "db \<Rightarrow> spec \<Rightarrow> bool" where
  "at_spec s p \<longleftrightarrow> (\<exists>t\<in>set (strategies s). st_strategy_id t = sp_spec_id p \<and> st_state t = SPEC)"

text \<open>What the quant's turn can do to the books: add specs, each new, each with its lifecycle row in SPEC.\<close>

definition registers :: "db \<Rightarrow> db \<Rightarrow> bool" where
  "registers s s' \<longleftrightarrow> strategy_critiques s' = strategy_critiques s \<and> prefix (alert_codes s) (alert_codes s') \<and>
     (rooted s \<longrightarrow> rooted s' \<and> (\<exists>new ts. strategy_specs s' = strategy_specs s @ new \<and> strategies s' = strategies s @ ts \<and>
        (\<forall>p\<in>set new. \<not> has_spec (sp_spec_id p) s \<and> at_spec s' p)))"

lemma registers_refl: "registers s s"
  by (simp add: registers_def)

lemma registers_trans:
  assumes "registers s s'" "registers s' s''"
  shows "registers s s''"
proof (cases "rooted s")
  case True
  with assms obtain new ts new' ts' where
    a: "strategy_specs s' = strategy_specs s @ new" "\<forall>p\<in>set new. \<not> has_spec (sp_spec_id p) s \<and> at_spec s' p" and
    b: "strategy_specs s'' = strategy_specs s' @ new'" "strategies s'' = strategies s' @ ts'"
      "\<forall>p\<in>set new'. \<not> has_spec (sp_spec_id p) s' \<and> at_spec s'' p" "rooted s''" and c: "strategies s' = strategies s @ ts"
    unfolding registers_def by blast
  have "\<forall>p\<in>set (new @ new'). \<not> has_spec (sp_spec_id p) s \<and> at_spec s'' p"
    using a b by (auto simp: has_spec_def at_spec_def)
  then have "\<exists>new ts. strategy_specs s'' = strategy_specs s @ new \<and> strategies s'' = strategies s @ ts \<and>
        (\<forall>p\<in>set new. \<not> has_spec (sp_spec_id p) s \<and> at_spec s'' p)"
    using a(1) b(1,2) c by (intro exI [of _ "new @ new'"] exI [of _ "ts @ ts'"]) simp
  then show ?thesis using assms b(4) by (auto simp: registers_def intro: prefix_order.trans)
qed (use assms in \<open>auto simp: registers_def intro: prefix_order.trans\<close>)

interpretation rg: night_relation registers
proof
  show "registers s s''" if "registers s s'" "registers s' s''" for s s' s'' using registers_trans that .
qed (auto simp: registers_def rooted_def at_spec_def has_spec_def mark_posted_codes)

lemma write_registers: "registers s (write_spec sid m now s)"
proof (cases "has_spec sid s \<or> \<not> spec_row_ok m")
  case False
  then have new: "sid \<notin> st_strategy_id ` set (strategies s)" if "rooted s" using that by (auto simp: rooted_def has_spec_def)
  then have "fst (insert_or_ignore st_strategy_id (lifecycle_row sid now) (strategies s)) = strategies s @ [lifecycle_row sid now]" if "rooted s"
    using that by (auto simp: insert_or_ignore_def lifecycle_row_def)
  with False show ?thesis
    by (auto simp: registers_def write_spec_def rooted_def at_spec_def has_spec_def lifecycle_row_def spec_row_def alert_codes_def)
qed (simp add: write_spec_def registers_refl)

definition quant_session :: "('x world, 'a) prog \<Rightarrow> bool" where
  "quant_session m \<longleftrightarrow> (\<exists>n S client report. m = andthen (seat_turn n S client []) (\<lambda>_. on_port report) \<and> fs_seat S = ''quant'')"

lemma quant_tools: "can ''quant'' c \<longleftrightarrow> c = ''submit_strategy_spec''"
  by (auto simp: can_def SEAT_CAPS_def)

lemma quant_session_registers:
  assumes "quant_session m"
  shows "rg.w.obeys m"
proof -
  from assms obtain n and S :: "'a fund_server" and client report where m: "m = andthen (seat_turn n S client []) (\<lambda>_. on_port report)"
    and S: "fs_seat S = ''quant''" unfolding quant_session_def by blast
  have "rg.obeys (handle_submit_strategy_spec V H seat a now)" for V H seat a now
  proof (rule rg.obeysI)
    fix s
    obtain r s' where run: "handle_submit_strategy_spec V H seat a now s = (r, s')" by fastforce
    then have "registers s s'"
      by (cases rule: handle_spec_cases) (auto intro: registers_refl write_registers registers_trans [OF write_registers rg.append_event])
    then show "registers s (snd (handle_submit_strategy_spec V H seat a now s))" by (simp add: run)
  qed
  then have "rg.w.obeys (submit_strategy_spec_tool S a)" for a
    unfolding submit_strategy_spec_tool_def by (intro rg.w.obeys_andthen rg.server rg.answered rg.on_db)
  then have "rg.w.obeys (f a)" if "(c, f) \<in> set (cap_tools S)" "can (fs_seat S) c" for c f a
    using that by (auto simp: S cap_tools_def quant_tools)
  then show ?thesis unfolding m by (intro rg.w.obeys_andthen rg.agent rg.on_port) blast
qed

lemma books_register: "same_books s s' \<Longrightarrow> registers s s'"
  by (auto simp: same_books_def registers_def rooted_def)

text \<open>What \<open>register_and_log\<close> counts, and what it says.\<close>

lemma register_and_log_counts:
  assumes turn: "returns turn" "rg.w.obeys turn"
    and run: "register_and_log P turn (s, x) = (Inr n, (s', x'))"
  shows "registers s s' \<and> (rg_registered n = 0 \<and> length (strategy_specs s') \<le> length (strategy_specs s) \<and> ''register_spec_wrote_nothing'' \<in> said s s' \<or>
    rg_registered n = 1 \<and> length (strategy_specs s) < length (strategy_specs s'))"
proof -
  have depth: "on_db queue_depth (t, y) = (if orphans t = [] then Inr (min QUEUE_REPORT_LIMIT (length (pending_specs t))) else Inl OrphanedSpecs, (t, y))" for t and y :: 'a
    by (simp add: on_db_def queue_depth_def andthen_def queue_reading ret_def min.commute)
  have count: "on_db spec_count (t, y) = (Inr (length (strategy_specs t)), (t, y))" for t and y :: 'a
    by (simp add: on_db_def spec_count_def)
  have o: "orphans s = []" using run by (auto simp: register_and_log_def andthen_def depth split: if_splits)
  obtain s1 x1 where t: "turn (s, x) = (Inr (), (s1, x1))" using returnsD [OF turn(1)] by (metis (full_types) old.unit.exhaust prod.collapse)
  from rg.w.obeysD [OF turn(2), of "(s, x)"] have r1: "registers s s1" by (simp add: t)
  define n1 where "n1 = (if length (strategy_specs s) < length (strategy_specs s1) then \<lparr>rg_registered = 1, rg_failed = 0, rg_raised = False\<rparr>
    else \<lparr>rg_registered = 0, rg_failed = 1, rg_raised = False\<rparr>)"
  have body: "register_body turn (s, x) = (Inr (if orphans s1 = [] then Inr () else Inl OrphanedSpecs, n1), (s1, x1))"
    by (simp add: register_body_def Let_def andthen_def count t attempt_run depth ret_def n1_def)
  have o1: "orphans s1 = []" using run o body by (auto simp: register_and_log_def andthen_def depth split: if_splits)
  obtain s2 x2 where a: "alert_if P (rg_failed n1 \<noteq> 0) (if rg_raised n1 then ''register_spec_turn_failed'' else ''register_spec_wrote_nothing'') (s1, x1)
      = (Inr (), (s2, x2))" "same_books s1 s2"
    "alert_codes s2 = alert_codes s1 @ (if rg_failed n1 \<noteq> 0 then [PStr (if rg_raised n1 then ''register_spec_turn_failed'' else ''register_spec_wrote_nothing'')] else [])"
    using alert_if_run [of P "rg_failed n1 \<noteq> 0" "if rg_raised n1 then ''register_spec_turn_failed'' else ''register_spec_wrote_nothing''" s1 x1] by blast
  obtain s3 x3 where d: "drain_now P (s2, x2) = (Inr (), (s3, x3))" "same_books s2 s3" "alert_codes s3 = alert_codes s2"
    using drain_now_run [of P s2 x2] by blast
  have fin: "n = n1" "s' = s3" using run o body o1 a(1) d(1) by (simp_all add: register_and_log_def andthen_def depth ret_def)
  have b: "same_books s1 s3" using sb.R_trans a(2) d(2) by blast
  have "registers s s3" using registers_trans [OF r1 books_register [OF b]] .
  moreover have "strategy_specs s3 = strategy_specs s1" using b by (simp add: same_books_def)
  moreover have "''register_spec_wrote_nothing'' \<in> said s s3" if "rg_failed n1 \<noteq> 0"
    by (rule saidI [OF _ a(3)]) (use that r1 d(3) in \<open>auto simp: n1_def registers_def split: if_splits\<close>)
  ultimately show ?thesis unfolding fin by (auto simp: n1_def)
qed

text \<open>It raises only before the turn: a registration leaves no orphan.\<close>

lemma registers_no_orphans: "registers s s' \<Longrightarrow> rooted s \<Longrightarrow> orphans s = [] \<Longrightarrow> orphans s' = []"
  unfolding orphans_Nil registers_def at_spec_def by fastforce

lemma register_and_log_raises:
  assumes turn: "returns turn" "rg.w.obeys turn" and "rooted s"
    and run: "register_and_log P turn (s, x) = (Inl e, (s', x'))"
  shows "s' = s"
proof (cases "orphans s = []")
  case True
  have depth: "on_db queue_depth (t, y) = (if orphans t = [] then Inr (min QUEUE_REPORT_LIMIT (length (pending_specs t))) else Inl OrphanedSpecs, (t, y))" for t and y :: 'a
    by (simp add: on_db_def queue_depth_def andthen_def queue_reading ret_def min.commute)
  have count: "on_db spec_count (t, y) = (Inr (length (strategy_specs t)), (t, y))" for t and y :: 'a
    by (simp add: on_db_def spec_count_def)
  obtain s1 x1 where t: "turn (s, x) = (Inr (), (s1, x1))" using returnsD [OF turn(1)] by (metis (full_types) old.unit.exhaust prod.collapse)
  from rg.w.obeysD [OF turn(2), of "(s, x)"] have "registers s s1" by (simp add: t)
  then have o1: "orphans s1 = []" using registers_no_orphans \<open>rooted s\<close> True by blast
  obtain n1 where body: "register_body turn (s, x) = (Inr (Inr (), n1), (s1, x1))"
    using o1 by (simp add: register_body_def Let_def andthen_def count t attempt_run depth ret_def)
  obtain s2 x2 where a: "alert_if P (rg_failed n1 \<noteq> 0) (if rg_raised n1 then ''register_spec_turn_failed'' else ''register_spec_wrote_nothing'') (s1, x1)
      = (Inr (), (s2, x2))"
    using alert_if_run [of P "rg_failed n1 \<noteq> 0" "if rg_raised n1 then ''register_spec_turn_failed'' else ''register_spec_wrote_nothing''" s1 x1] by blast
  obtain s3 x3 where d: "drain_now P (s2, x2) = (Inr (), (s3, x3))" using drain_now_run [of P s2 x2] by blast
  show ?thesis using run True body o1 a d by (simp add: register_and_log_def andthen_def depth ret_def)
next
  case False
  then show ?thesis using run by (auto simp: register_and_log_def andthen_def on_db_def queue_depth_def queue_reading)
qed

lemma registered_is_queued:
  assumes "registers s s'" "rooted s" "length (strategy_specs s) < length (strategy_specs s')"
    and verdicts: "\<forall>c\<in>set (strategy_critiques s). has_spec (sc_spec_id c) s"
  shows "\<exists>p\<in>set (pending_specs s'). p \<notin> set (strategy_specs s)"
proof -
  from assms(1,2) obtain new where n: "strategy_specs s' = strategy_specs s @ new" "\<forall>p\<in>set new. \<not> has_spec (sp_spec_id p) s \<and> at_spec s' p"
    and c: "strategy_critiques s' = strategy_critiques s" unfolding registers_def by blast
  obtain p where p: "p \<in> set new" using n(1) assms(3) by (cases new) auto
  then have "p \<in> set (pending_specs s')" using n c verdicts by (auto simp: pending_iff at_spec_def critiqued_def)
  moreover have "p \<notin> set (strategy_specs s)" using n(2) p by (auto simp: has_spec_def)
  ultimately show ?thesis by blast
qed

lemma job_guarded_run:
  "\<exists>n s' x'. job_guarded c P body (s, x) = (Inr n, (s', x')) \<and>
     (case body (s, x) of (Inr k, w) \<Rightarrow> n = k \<and> (s', x') = w
      | (Inl e, (s1, x1)) \<Rightarrow> n = 1 \<and> alert_codes s' = alert_codes s1 @ [PStr c] \<and> same_books s1 s')"
proof -
  obtain r s1 x1 where body: "body (s, x) = (r, (s1, x1))" by (metis prod_cases3)
  obtain s2 x2 where a: "day_alert P c [] (s1, x1) = (Inr (), (s2, x2))" "same_books s1 s2" "alert_codes s2 = alert_codes s1 @ [PStr c]"
    using day_alert_books [of P c "[]" s1 x1] by blast
  obtain s3 x3 where d: "drain_now P (s2, x2) = (Inr (), (s3, x3))" "same_books s2 s3" "alert_codes s3 = alert_codes s2"
    using drain_now_run [of P s2 x2] by blast
  show ?thesis
  proof (cases r)
    case (Inl e)
    have "job_guarded c P body (s, x) = (Inr 1, (s3, x3))"
      using body Inl a(1) d(1) by (simp add: job_guarded_def catch_def andthen_def ret_def flip: drain_now_def)
    then show ?thesis using body Inl a(3) d(3) sb.R_trans [OF a(2) d(2)] by simp
  next
    case (Inr k)
    then show ?thesis using body by (simp add: job_guarded_def catch_def)
  qed
qed

definition register_job :: "('x, 'z) day_env_scheme \<Rightarrow> (time \<Rightarrow> date) \<Rightarrow> (string \<Rightarrow> ('x world, string list \<times> turn_result option) prog)
    \<Rightarrow> string \<Rightarrow> ('x world, int) prog" where
  "register_job E et_run_date session note = andthen (lift_res (dy_seat_config E ''quant'')) (\<lambda>model. andthen (clock_now E) (\<lambda>now.
     andthen (register_and_log E (register_run_turn (E\<lparr>cx_run_date := et_run_date now\<rparr>) model session note)) (\<lambda>n.
     ret (if rg_registered n \<noteq> 0 then 0 else 1))))"

lemma register_job_run:
  assumes session: "quant_session (session note)" and run: "register_job E et_run_date session note (s, x) = (Inr k, (s', x'))"
  shows "registers s s' \<and> (k = 1 \<and> length (strategy_specs s') \<le> length (strategy_specs s) \<and> ''register_spec_wrote_nothing'' \<in> said s s' \<or>
    k = 0 \<and> length (strategy_specs s) < length (strategy_specs s'))"
proof -
  from run obtain model now y n where
    n: "register_and_log E (register_run_turn (E\<lparr>cx_run_date := et_run_date now\<rparr>) model session note) (s, y) = (Inr n, (s', x'))"
    and k: "k = (if rg_registered n \<noteq> 0 then 0 else 1)"
    by (auto simp: register_job_def andthen_def lift_res_def clock_now_def on_port_def ret_def split: prod.splits sum.splits)
  have "returns (register_run_turn (E\<lparr>cx_run_date := et_run_date now\<rparr>) model session note)"
    "rg.w.obeys (register_run_turn (E\<lparr>cx_run_date := et_run_date now\<rparr>) model session note)"
    unfolding register_run_turn_def using quant_session_registers [OF session] by (auto simp: job_turn_returns intro!: rg.turn)
  from register_and_log_counts [OF this n] k show ?thesis by auto
qed

lemma register_job_registers:
  assumes "quant_session (session memo)"
  shows "rg.w.obeys (register_job E et_run_date session memo)"
proof -
  have "rg.obeys queue_depth" "rg.obeys spec_count"
    by (rule rg.obeysI, simp add: queue_depth_def spec_count_def gets_def andthen_def queue_reading ret_def registers_refl)+
  then have q: "rg.w.obeys (on_db queue_depth)" "rg.w.obeys (on_db spec_count)" by (auto intro: rg.on_db)
  have t: "rg.w.obeys (register_run_turn E' model session memo)" for E' model
    unfolding register_run_turn_def using quant_session_registers [OF assms] by (auto intro!: rg.turn)
  have a: "rg.w.obeys (alert_if E b c)" for b c by (simp add: alert_if_def rg.alerted rg.w.obeys_ret)
  show ?thesis unfolding register_job_def register_and_log_def register_body_def Let_def
    by (intro rg.w.obeys_andthen rg.w.obeys_lift rg.clock q t a rg.attempted rg.drain_now rg.w.obeys_ret rg.w.obeys_sum rg.w.obeys_prod rg.w.obeys_raise)
qed

lemma register_job_raises:
  assumes session: "quant_session (session memo)" and "rooted s" and run: "register_job E et_run_date session memo (s, x) = (Inl e, (s', x'))"
  shows "s' = s"
proof (cases "dy_seat_config E ''quant''")
  case (Inr model)
  obtain now y where c: "clock_now E (s, x) = (Inr now, (s, y))" using clock_now_run [of E s x] by blast
  let ?turn = "register_run_turn (E\<lparr>cx_run_date := et_run_date now\<rparr>) model session memo"
  obtain q w where q: "register_and_log E ?turn (s, y) = (q, w)" by (metis surj_pair)
  then have q: "register_and_log E ?turn (s, y) = (Inl e, (s', x'))" using run c Inr by (cases q) (simp_all add: register_job_def andthen_def ret_def)
  have "returns ?turn" "rg.w.obeys ?turn"
    unfolding register_run_turn_def using quant_session_registers [OF session] by (auto simp: job_turn_returns intro!: rg.turn)
  from register_and_log_raises [OF this \<open>rooted s\<close> q] show ?thesis .
qed (use run in \<open>simp add: register_job_def andthen_def\<close>)

lemma register_main_run:
  assumes "register_main E environ content day_lock take_lock et_run_date session (s, x) = (Inr code, (s', x'))"
  shows "code = 1 \<and> s' = s \<and> read_brief content = None \<or> code = 2 \<and> s' = s \<or>
    (\<exists>note y. register_guarded E (register_job E et_run_date session note) (s, y) = (Inr code, (s', x')))"
  using assms unfolding register_main_def register_job_def [symmetric]
  by (auto simp: andthen_Inr lift_res_Inr on_port_Inr build_slack_def ret_def split: option.splits if_splits)

lemma register_main_refused:
  assumes "register_main E environ content day_lock take_lock et_run_date session (s, x) = (Inl e, (s', x'))"
  shows "s' = s"
proof -
  have "\<exists>k v. register_guarded E (register_job E et_run_date session memo) (t, y) = (Inr k, v)" for memo t y
    using job_guarded_run [of "''register_spec_failed''" E "register_job E et_run_date session memo" t y] by (auto simp: register_guarded_def)
  then have "\<not> register_guarded E (register_job E et_run_date session memo) v = (Inl e, w)" for memo v w
    by (metis old.prod.exhaust prod.inject sum.distinct(1))
  then show ?thesis using assms unfolding register_main_def register_job_def [symmetric]
    by (auto simp: andthen_def lift_res_def on_port_def build_slack_def ret_def split: option.splits if_splits sum.splits prod.splits)
qed

text \<open>
  C28: the exit code of a registration tells whether a spec was registered. Exit code 0 is returned exactly when the table of the
  specs has grown, whatever the quant called in its turn, and then the G1 queue holds a spec that was not registered before. Exit code 2, that another run holds a lock,
  means that nothing was touched. Exit code 1 means that no spec was added, and that there was no sponsor's note, and nothing was touched, or
  that this run raised an alert that says that the turn wrote nothing or that the registration failed. There is no other exit code; a start
  that is refused instead, off paper or with a bad environment, touches nothing.
\<close>

theorem registration_exit_code:
  assumes "rooted s" and verdicts: "\<forall>c\<in>set (strategy_critiques s). has_spec (sc_spec_id c) s"
    and sessions: "\<And>memo. quant_session (session memo)"
    and run: "register_main E environ content day_lock take_lock et_run_date session (s, x) = (r, (s', x'))"
  shows "case r of Inl _ \<Rightarrow> s' = s | Inr code \<Rightarrow> code \<in> {0, 1, 2} \<and>
    (code = 0 \<longleftrightarrow> length (strategy_specs s) < length (strategy_specs s')) \<and>
    (code \<noteq> 0 \<longrightarrow> strategy_specs s' = strategy_specs s) \<and>
    (code = 0 \<longrightarrow> (\<exists>p\<in>set (pending_specs s'). p \<notin> set (strategy_specs s))) \<and> (code = 2 \<longrightarrow> s' = s) \<and>
    (code = 1 \<longrightarrow> read_brief content = None \<and> s' = s \<or> ''register_spec_wrote_nothing'' \<in> said s s'
       \<or> ''register_spec_failed'' \<in> said s s')"
proof (cases r)
  case (Inr code)
  consider (brief) "code = 1" "s' = s" "read_brief content = None" | (busy) "code = 2" "s' = s"
    | (job) memo y where "register_guarded E (register_job E et_run_date session memo) (s, y) = (Inr code, (s', x'))"
    using register_main_run [OF run [unfolded Inr]] by (elim disjE exE conjE) iprover+
  then show ?thesis
  proof cases
    case job
    obtain q s1 x1 where body: "register_job E et_run_date session memo (s, y) = (q, (s1, x1))" by (metis prod_cases3)
    from rg.w.obeysD [OF register_job_registers [where E = E and et_run_date = et_run_date and session = session and memo = memo, OF sessions], of "(s, y)"] body
    have p: "prefix (alert_codes s) (alert_codes s1)" by (simp add: registers_def)
    from job_guarded_run [of "''register_spec_failed''" E "register_job E et_run_date session memo" s y] job body
    have g: "case q of Inr k \<Rightarrow> code = k \<and> s' = s1 | Inl _ \<Rightarrow> code = 1 \<and> alert_codes s' = alert_codes s1 @ [PStr ''register_spec_failed'']"
      by (auto simp: register_guarded_def split: sum.splits)
    show ?thesis
    proof (cases q)
      case k: (Inr k)
      note j = register_job_run [OF sessions body [unfolded k]]
      have "strategy_specs s1 = strategy_specs s" if "length (strategy_specs s1) \<le> length (strategy_specs s)"
        using j assms(1) that by (auto simp: registers_def)
      with j g k Inr show ?thesis
        using registered_is_queued [OF _ assms(1) _ verdicts, of s'] by auto
    next
      case (Inl e)
      have "s1 = s" by (rule register_job_raises [where session = session and memo = memo, OF sessions assms(1) body [unfolded Inl]])
      moreover have "strategy_specs s' = strategy_specs s1"
        using job_guarded_run [of "''register_spec_failed''" E "register_job E et_run_date session memo" s y] job body Inl
        by (auto simp: register_guarded_def same_books_def)
      ultimately show ?thesis using g Inl Inr saidI [OF p _ _ prefix_order.refl] by auto
    qed
  qed (use Inr in auto)
qed (use run register_main_refused in auto)

definition noted_session :: "string \<Rightarrow> ((unit conn_state) world, string list \<times> turn_result option) prog" where
  "noted_session memo = andthen (seat_turn 1 (golden_server ''quant'') (\<lambda>_. Some (''submit_strategy_spec'', golden_payload)) [])
     (\<lambda>_. on_port (\<lambda>x. (Inr ([], None), x)))"

lemma noted_session_quant: "quant_session (noted_session memo)"
  unfolding quant_session_def noted_session_def by (intro exI conjI) (rule refl, simp add: golden_server_def)

theorem registration_exit_code_witness:
  "\<exists>s' x' p. register_main quiet_env paper_environ (Some ''note'') (\<lambda>x. (True, x)) (\<lambda>x. (True, x)) (\<lambda>_. ''2026-08-24'') noted_session
       (empty_db, ((), False)) = (Inr 0, (s', x')) \<and> p \<in> set (pending_specs s')"
proof -
  let ?run = "register_main quiet_env paper_environ (Some ''note'') (\<lambda>x. (True, x)) (\<lambda>x. (True, x)) (\<lambda>_. ''2026-08-24'') noted_session
       (empty_db, ((), False))"
  have "map_sum (\<lambda>_. ()) (\<lambda>n. n) (fst ?run) = Inr 0" by code_simp
  from concrete_run [OF this] obtain s' x' where run: "?run = (Inr 0, (s', x'))" by blast
  have "rooted empty_db" "\<forall>c\<in>set (strategy_critiques empty_db). has_spec (sc_spec_id c) empty_db"
    by (simp_all add: rooted_def empty_db_def)
  from registration_exit_code [OF this noted_session_quant run] have "\<exists>p. p \<in> set (pending_specs s')" by auto
  with run show ?thesis by blast
qed

section \<open>The line of the day\<close>

text \<open>A day without a P&L ends without a drain: the events in the outbox stay as they are.\<close>

lemma unavailable_pnl_drains_nothing:
  assumes "clock_now P w = (Inr now, w1)" "eod_pnl S w1 = (Inl PnlUnavailable, w2)"
  shows "post_eod_pnl P S line w = (Inr 0, w2)"
  using assms by (simp add: post_eod_pnl_def andthen_def attempt_run ret_def)

text \<open>A line that is queued is not queued again, and no other line comes.\<close>

definition pnl_lines :: "date \<Rightarrow> db \<Rightarrow> nat" where
  "pnl_lines rd s = rowcount (\<lambda>e. e_kind e = ''pnl'' \<and> dget (e_payload e) ''run_date'' = PStr rd) (events s)"

lemma pnl_lines_event [simp]:
  "pnl_lines rd (append_event k p now s) = pnl_lines rd s + (if k = ''pnl'' \<and> dget p ''run_date'' = PStr rd then 1 else 0)"
  by (simp add: pnl_lines_def append_event_def rowcount_def)

interpretation kept: evolution "\<lambda>w w'. fst w' = fst w" by unfold_locales auto

lemma eod_pnl_reads: "eod_pnl S (s, x) = (r, (s', x')) \<Longrightarrow> s' = s"
proof -
  have p: "kept.obeys (on_port f)" for f by (rule kept.obeysI) (simp add: on_port_def split_beta)
  have "kept.obeys (spy_closes S now)" for now
    unfolding spy_closes_def Let_def by (intro kept.obeys_andthen kept.obeys_intros kept.obeys_if kept.obeys_prod kept.obeys_option p)
  then have "kept.obeys (eod_pnl S)" unfolding eod_pnl_def now_of_def
    by (intro kept.obeys_andthen kept.obeys_intros kept.obeys_if kept.obeys_prod kept.obeys_option p)
  then show "eod_pnl S (s, x) = (r, (s', x')) \<Longrightarrow> s' = s" using kept.obeysD [of "eod_pnl S" "(s, x)"] by simp
qed

lemma drain_keeps_lines: "drain_outbox P now (s, x) = (r, (s', x')) \<Longrightarrow> pnl_lines rd s' = pnl_lines rd s"
proof -
  have m: "pnl_lines rd (mark_posted i now s) = pnl_lines rd s" for i s
    by (simp add: pnl_lines_def mark_posted_def rowcount_def update_where_def filter_map o_def if_distrib cong: if_cong)
  then have "pnl_lines rd (dead_letter row now s) = pnl_lines rd s" for row s by (simp add: dead_letter_def Let_def)
  then show "drain_outbox P now (s, x) = (r, (s', x')) \<Longrightarrow> ?thesis"
    using drain_outbox_rel [of "\<lambda>s s'. pnl_lines rd s' = pnl_lines rd s" now "(s, x)" P] m by simp
qed

text \<open>
  C29: the line of a day is queued once. However often the job runs on a day with a P&L,
  the outbox holds one line for this day, or the lines that it held; a day without one gets none,
  and no run touches the lines of another day.
\<close>

theorem line_is_queued_once:
  "let day = (case fst (eod_pnl S (s, snd (now_port P x))) of Inr p \<Rightarrow> Some (pn_run_date p) | Inl _ \<Rightarrow> None);
       s' = fst (snd (post_eod_pnl P S line (s, x)))
   in \<forall>rd. pnl_lines rd s' = (if day = Some rd then max 1 (pnl_lines rd s) else pnl_lines rd s)"
proof -
  have clock: "clock_now P (s, x) = (Inr (fst (now_port P x)), (s, snd (now_port P x)))" by (simp add: clock_now_def on_port_def split_beta)
  obtain r s1 x1 where e: "eod_pnl S (s, snd (now_port P x)) = (r, (s1, x1))" by (metis prod_cases3)
  have s1: "s1 = s" using eod_pnl_reads [OF e] .
  show ?thesis
  proof (cases r)
    case (Inl exn)
    then show ?thesis using clock e s1 by (auto simp: post_eod_pnl_def andthen_def attempt_run ret_def raise_def Let_def)
  next
    case (Inr p)
    let ?s2 = "if pnl_queued (pn_run_date p) s then s else append_event ''pnl'' (pnl_payload line p) (fst (now_port P x)) s"
    obtain q s' x' where d: "drain_outbox P (fst (now_port P x)) (?s2, x1) = (q, (s', x'))" by (metis prod_cases3)
    have "post_eod_pnl P S line (s, x) = (q, (s', x'))"
      using clock e s1 Inr d by (auto simp: post_eod_pnl_def andthen_def attempt_run on_db_def gets_def modify_def ret_def)
    moreover have "pnl_lines rd s' = pnl_lines rd ?s2" for rd using drain_keeps_lines [OF d] .
    moreover have "dget (pnl_payload line p) ''run_date'' = PStr (pn_run_date p)" by (simp add: pnl_payload_def dget_def)
    moreover have "pnl_queued rd s \<longleftrightarrow> pnl_lines rd s \<noteq> 0" for rd by (simp add: pnl_queued_def pnl_lines_def)
    ultimately show ?thesis using e Inr by (auto simp: Let_def)
  qed
qed

end
